(* ===== verification/NBD_Prelude.thy ===== *)
theory NBD_Prelude
  imports Main "HOL-Library.Word" "HOL-Library.Monad_Syntax"
begin

text \<open>
  Shared ground of the development: the machine integers of the C code as fixed-width words,
  byte order conversion (the \<^verbatim>\<open>htobeNN\<close> and \<^verbatim>\<open>beNNtoh\<close> calls of the library), C buffers as
  functions from offsets to bytes, failed assertions as \<^const>\<open>None\<close> in the option monad, and
  the generic lemmas the component theories use.
\<close>

unbundle bit_operations_syntax

type_synonym u8 = "8 word"
type_synonym u16 = "16 word"
type_synonym u32 = "32 word"
type_synonym u64 = "64 word"

text \<open>A C string without its terminating NUL byte.\<close>
type_synonym cstr = "u8 list"

text \<open>A C buffer: the byte at every offset from its start.\<close>
type_synonym mem = "nat \<Rightarrow> u8"

named_theorems engine_defs \<open>unfolding equations of the state machine plumbing\<close>
named_theorems wire_simps \<open>reading back the fields of a buffer\<close>

section \<open>Assertions\<close>

text \<open>
  A computation of type \<open>'a option\<close> is \<^const>\<open>None\<close> where the C program calls
  \<^verbatim>\<open>assert\<close> or \<^verbatim>\<open>abort\<close> and stops, or writes outside a buffer.
\<close>

definition asrt :: "bool \<Rightarrow> unit option" where
  "asrt b = (if b then Some () else None)"

lemma asrt_bind [simp]: "(asrt b \<bind> f) = (if b then f () else None)"
  by (simp add: asrt_def)

lemma asrt_eq_Some [simp]: "asrt b = Some u \<longleftrightarrow> b"
  by (simp add: asrt_def)

section \<open>Byte order\<close>

fun be_nat :: "u8 list \<Rightarrow> nat" where
  "be_nat [] = 0"
| "be_nat (b # bs) = unat b * 256 ^ length bs + be_nat bs"

fun be_digits :: "nat \<Rightarrow> nat \<Rightarrow> u8 list" where
  "be_digits 0 x = []"
| "be_digits (Suc n) x = of_nat (x div 256 ^ n) # be_digits n x"

lemma length_be_digits [simp]: "length (be_digits n x) = n"
  by (induction n) auto

lemma be_nat_bound: "be_nat bs < 256 ^ length bs"
proof (induction bs)
  case Nil
  then show ?case by simp
next
  case (Cons b bs)
  have "unat b < 2 ^ LENGTH(8)"
    by (rule unsigned_less)
  then have "unat b \<le> 255" by simp
  then have "unat b * 256 ^ length bs \<le> 255 * 256 ^ length bs"
    by (rule mult_le_mono1)
  with Cons have "unat b * 256 ^ length bs + be_nat bs < 255 * 256 ^ length bs + 256 ^ length bs"
    by linarith
  then show ?case by simp
qed

lemma be_nat_be_digits: "be_nat (be_digits n x) = x mod 256 ^ n"
proof (induction n)
  case 0
  then show ?case by simp
next
  case (Suc n)
  have "unat (of_nat (x div 256 ^ n) :: u8) = (x div 256 ^ n) mod 256"
    by (simp add: unat_of_nat)
  then show ?case
    using Suc mod_mult2_eq [of x "256 ^ n" 256] by (simp add: mult.commute)
qed

lemma be_digits_mod: "be_digits n (x mod 256 ^ n) = be_digits n x"
proof -
  have gen: "m \<le> n \<Longrightarrow> be_digits m (x mod 256 ^ n) = be_digits m x" for m
  proof (induction m)
    case 0
    then show ?case by simp
  next
    case (Suc m)
    then obtain k where n: "n = m + Suc k"
      by (metis less_iff_Suc_add Suc_le_eq add_Suc_right)
    have "x mod 256 ^ n = 256 ^ m * (x div 256 ^ m mod 256 ^ Suc k) + x mod 256 ^ m"
      unfolding n power_add by (rule mod_mult2_eq)
    then have "(x mod 256 ^ n) div 256 ^ m = x div 256 ^ m mod 256 ^ Suc k"
      by simp
    moreover have "(of_nat (x div 256 ^ m mod 256 ^ Suc k) :: u8) = of_nat (x div 256 ^ m)"
      by (simp add: word_of_nat_eq_iff take_bit_eq_mod mod_mod_cancel)
    ultimately show ?case
      using Suc by simp
  qed
  show ?thesis by (rule gen) simp
qed

lemma be_digits_be_nat: "be_digits (length bs) (be_nat bs) = bs"
proof (induction bs)
  case Nil
  then show ?case by simp
next
  case (Cons b bs)
  have "(be_nat bs + unat b * 256 ^ length bs) div 256 ^ length bs = unat b"
    using be_nat_bound [of bs] by simp
  moreover have "be_digits (length bs) (unat b * 256 ^ length bs + be_nat bs) = bs"
    using be_digits_mod [of "length bs" "unat b * 256 ^ length bs + be_nat bs"]
      be_digits_mod [of "length bs" "be_nat bs"] Cons by simp
  ultimately show ?case by (simp add: add.commute)
qed

text \<open>The conversions of \<^verbatim>\<open>common/include/byte-swapping.h\<close> at each width.\<close>

definition htobe16 :: "u16 \<Rightarrow> u8 list" where
  "htobe16 w = be_digits 2 (unat w)"

definition htobe32 :: "u32 \<Rightarrow> u8 list" where
  "htobe32 w = be_digits 4 (unat w)"

definition htobe64 :: "u64 \<Rightarrow> u8 list" where
  "htobe64 w = be_digits 8 (unat w)"

definition be16toh :: "u8 list \<Rightarrow> u16" where
  "be16toh bs = of_nat (be_nat bs)"

definition be32toh :: "u8 list \<Rightarrow> u32" where
  "be32toh bs = of_nat (be_nat bs)"

definition be64toh :: "u8 list \<Rightarrow> u64" where
  "be64toh bs = of_nat (be_nat bs)"

text \<open>The law every fixed-width big-endian field obeys, and what follows from it.\<close>

locale byte_codec =
  fixes enc :: "'w \<Rightarrow> u8 list"
    and dec :: "u8 list \<Rightarrow> 'w"
    and width :: nat
  assumes enc_length: "length (enc w) = width"
    and dec_enc: "dec (enc w) = w"
    and enc_dec: "length bs = width \<Longrightarrow> enc (dec bs) = bs"
begin

lemma enc_inject: "enc v = enc w \<longleftrightarrow> v = w"
  by (metis dec_enc)

lemma dec_inject: "length as = width \<Longrightarrow> length bs = width \<Longrightarrow> dec as = dec bs \<longleftrightarrow> as = bs"
  by (metis enc_dec)

lemma enc_nonempty: "width \<noteq> 0 \<Longrightarrow> enc w \<noteq> []"
  using enc_length [of w] by auto

lemma dec_take: "dec (take width (enc w @ rest)) = w"
  by (simp add: enc_length dec_enc)

end

interpretation be16: byte_codec htobe16 be16toh 2
proof unfold_locales
  fix w :: u16
  have "unat w < 2 ^ LENGTH(16)" by (rule unsigned_less)
  then show "be16toh (htobe16 w) = w"
    by (simp add: be16toh_def htobe16_def be_nat_be_digits)
next
  fix bs :: "u8 list"
  assume "length bs = 2"
  then show "htobe16 (be16toh bs) = bs"
    using be_nat_bound [of bs] be_digits_be_nat [of bs]
    by (simp add: be16toh_def htobe16_def unat_of_nat)
qed (simp add: htobe16_def)

interpretation be32: byte_codec htobe32 be32toh 4
proof unfold_locales
  fix w :: u32
  have "unat w < 2 ^ LENGTH(32)" by (rule unsigned_less)
  then show "be32toh (htobe32 w) = w"
    by (simp add: be32toh_def htobe32_def be_nat_be_digits)
next
  fix bs :: "u8 list"
  assume "length bs = 4"
  then show "htobe32 (be32toh bs) = bs"
    using be_nat_bound [of bs] be_digits_be_nat [of bs]
    by (simp add: be32toh_def htobe32_def unat_of_nat)
qed (simp add: htobe32_def)

interpretation be64: byte_codec htobe64 be64toh 8
proof unfold_locales
  fix w :: u64
  have "unat w < 2 ^ LENGTH(64)" by (rule unsigned_less)
  then show "be64toh (htobe64 w) = w"
    by (simp add: be64toh_def htobe64_def be_nat_be_digits)
next
  fix bs :: "u8 list"
  assume "length bs = 8"
  then show "htobe64 (be64toh bs) = bs"
    using be_nat_bound [of bs] be_digits_be_nat [of bs]
    by (simp add: be64toh_def htobe64_def unat_of_nat)
qed (simp add: htobe64_def)

lemmas [simp] = be16.enc_length be32.enc_length be64.enc_length
  be16.enc_nonempty be32.enc_nonempty be64.enc_nonempty
lemmas [simp, wire_simps] = be16.dec_enc be32.dec_enc be64.dec_enc

section \<open>Buffers\<close>

definition rd_bytes :: "mem \<Rightarrow> nat \<Rightarrow> nat \<Rightarrow> u8 list" where
  "rd_bytes m off n = map m [off ..< off + n]"

definition mem_write :: "mem \<Rightarrow> nat \<Rightarrow> u8 list \<Rightarrow> mem" where
  "mem_write m off bs = (\<lambda>i. if off \<le> i \<and> i < off + length bs then bs ! (i - off) else m i)"

abbreviation rd16 :: "mem \<Rightarrow> nat \<Rightarrow> u16" where
  "rd16 m off \<equiv> be16toh (rd_bytes m off 2)"

abbreviation rd32 :: "mem \<Rightarrow> nat \<Rightarrow> u32" where
  "rd32 m off \<equiv> be32toh (rd_bytes m off 4)"

abbreviation rd64 :: "mem \<Rightarrow> nat \<Rightarrow> u64" where
  "rd64 m off \<equiv> be64toh (rd_bytes m off 8)"

lemma length_rd_bytes [simp]: "length (rd_bytes m off n) = n"
  by (simp add: rd_bytes_def)

lemma rd_bytes_same [simp, wire_simps]:
  "length bs = n \<Longrightarrow> rd_bytes (mem_write m off bs) off n = bs"
  by (rule nth_equalityI) (auto simp: rd_bytes_def mem_write_def)

lemma rd_bytes_inside:
  "off \<le> p \<Longrightarrow> p + n \<le> off + length bs \<Longrightarrow>
     rd_bytes (mem_write m off bs) p n = take n (drop (p - off) bs)"
  by (rule nth_equalityI) (auto simp: rd_bytes_def mem_write_def)

lemma rd_bytes_other [wire_simps]:
  "p + n \<le> off \<or> off + length bs \<le> p \<Longrightarrow>
     rd_bytes (mem_write m off bs) p n = rd_bytes m p n"
  by (rule nth_equalityI) (auto simp: rd_bytes_def mem_write_def)

lemma mem_write_append:
  "mem_write (mem_write m off as) (off + length as) bs = mem_write m off (as @ bs)"
  by (rule ext) (auto simp: mem_write_def nth_append)

lemma mem_write_Nil [simp]: "mem_write m off [] = m"
  by (rule ext) (auto simp: mem_write_def)

text \<open>
  A heap buffer of known length: \<^const>\<open>None\<close> is a write outside it.
\<close>

definition buf_write :: "u8 list \<Rightarrow> nat \<Rightarrow> u8 list \<Rightarrow> u8 list option" where
  "buf_write buf off bs =
     (if off + length bs \<le> length buf
      then Some (take off buf @ bs @ drop (off + length bs) buf) else None)"

lemma buf_write_length: "buf_write buf off bs = Some buf' \<Longrightarrow> length buf' = length buf"
  by (auto simp: buf_write_def split: if_splits)

lemma buf_write_in_bounds: "off + length bs \<le> length buf \<Longrightarrow> \<exists>buf'. buf_write buf off bs = Some buf'"
  by (simp add: buf_write_def)

lemma buf_write_read:
  "buf_write buf off bs = Some buf' \<Longrightarrow> take (length bs) (drop off buf') = bs"
  by (auto simp: buf_write_def split: if_splits)

lemma buf_write_other:
  "buf_write buf off bs = Some buf' \<Longrightarrow> i < off \<or> off + length bs \<le> i \<Longrightarrow> buf' ! i = buf ! i"
  by (auto simp: buf_write_def nth_append not_less split: if_splits)

end
