(* ===== verification/NBD_Common.thy ===== *)
theory NBD_Common
  imports NBD_Prelude
begin

text \<open>
  The helpers under \<^verbatim>\<open>common/\<close> that the library and the tools share: powers of two, rounding and
  alignment, the test for a zero buffer, sizes with a suffix, arithmetic that reports overflow, and
  the growing vectors. A failed assertion is \<^const>\<open>None\<close>, as everywhere in the development; so is an
  access outside an array.
\<close>

section \<open>Powers of two, rounding and alignment\<close>

definition is_power_of_2 :: "u64 \<Rightarrow> bool" where
  "is_power_of_2 v \<longleftrightarrow> v \<noteq> 0 \<and> v AND (v - 1) = 0"

definition ROUND_UP :: "u64 \<Rightarrow> u64 \<Rightarrow> u64 option" where
  "ROUND_UP i n = do { asrt (is_power_of_2 n); Some ((i + n - 1) AND - n) }"

definition ROUND_DOWN :: "u64 \<Rightarrow> u64 \<Rightarrow> u64 option" where
  "ROUND_DOWN i n = do { asrt (is_power_of_2 n); Some (i AND - n) }"

definition IS_ALIGNED :: "u64 \<Rightarrow> u64 \<Rightarrow> bool option" where
  "IS_ALIGNED n align = do { asrt (is_power_of_2 align); Some (n AND (align - 1) = 0) }"

section \<open>Zero buffers\<close>

text \<open>
  \<^verbatim>\<open>is_zero\<close> looks at the first 16 bytes and then compares the buffer with itself shifted by 16.
\<close>

definition is_zero :: "u8 list \<Rightarrow> bool" where
  "is_zero buffer =
     (let limit = (if length buffer < 16 then length buffer else 16)
      in if list_ex (\<lambda>b. b \<noteq> 0) (take limit buffer) then False
         else if length buffer \<noteq> limit then take (length buffer - 16) buffer = drop 16 buffer
         else True)"

section \<open>Sizes with a suffix\<close>

definition digit_char :: "nat \<Rightarrow> char" where
  "digit_char d = char_of (48 + d)"

definition is_digit :: "char \<Rightarrow> bool" where
  "is_digit c \<longleftrightarrow> 48 \<le> (of_char c :: nat) \<and> (of_char c :: nat) \<le> 57"

definition is_space :: "char \<Rightarrow> bool" where
  "is_space c \<longleftrightarrow> (of_char c :: nat) = 32 \<or> 9 \<le> (of_char c :: nat) \<and> (of_char c :: nat) \<le> 13"

definition digits_value :: "string \<Rightarrow> nat" where
  "digits_value ds = foldl (\<lambda>n c. 10 * n + (of_char c - 48)) 0 ds"

text \<open>The result of \<^verbatim>\<open>strtoimax\<close> in base 10: the value, the rest of the string, and whether \<^verbatim>\<open>errno\<close> is set.\<close>

definition strtoimax :: "string \<Rightarrow> int \<times> string \<times> bool" where
  "strtoimax str =
     (let s = dropWhile is_space str;
          neg = (s \<noteq> [] \<and> hd s = CHR ''-'');
          t = (if s \<noteq> [] \<and> (hd s = CHR ''-'' \<or> hd s = CHR ''+'') then tl s else s);
          ds = takeWhile is_digit t;
          v = (if neg then - int (digits_value ds) else int (digits_value ds))
      in if ds = [] then (0, str, False)
         else if v \<ge> 2 ^ 63 then (2 ^ 63 - 1, drop (length ds) t, True)
         else if v < - (2 ^ 63) then (- (2 ^ 63), drop (length ds) t, True)
         else (v, drop (length ds) t, False))"

fun scale_of_suffix :: "char \<Rightarrow> nat option" where
  "scale_of_suffix c =
     (if c \<in> set ''eE'' then Some (1024 ^ 6)
      else if c \<in> set ''pP'' then Some (1024 ^ 5)
      else if c \<in> set ''tT'' then Some (1024 ^ 4)
      else if c \<in> set ''gG'' then Some (1024 ^ 3)
      else if c \<in> set ''mM'' then Some (1024 ^ 2)
      else if c \<in> set ''kK'' then Some 1024
      else if c \<in> set ''bB'' then Some 1
      else if c \<in> set ''sS'' then Some 512
      else None)"

datatype size_error = UNPARSABLE | NEGATIVE | TOO_LARGE | UNKNOWN_SUFFIX | SCALE_OVERFLOWS

definition human_size_parse :: "string \<Rightarrow> (size_error \<times> string) + nat" where
  "human_size_parse str =
     (case strtoimax str of (value, fin, err) \<Rightarrow>
        if str = fin then Inl (UNPARSABLE, str)
        else if value < 0 then Inl (NEGATIVE, str)
        else if err then Inl (TOO_LARGE, str)
        else (case (case fin of [] \<Rightarrow> Some (1, []) | c # after \<Rightarrow> map_option (\<lambda>k. (k, after)) (scale_of_suffix c)) of
          None \<Rightarrow> Inl (UNKNOWN_SUFFIX, fin)
        | Some (scale, after) \<Rightarrow>
            if after \<noteq> [] then Inl (UNKNOWN_SUFFIX, fin)
            else if (2 ^ 63 - 1) div scale < nat value then Inl (SCALE_OVERFLOWS, str)
            else Inr (nat value * scale)))"

fun dec_string :: "nat \<Rightarrow> string" where
  "dec_string n = (if n < 10 then [digit_char n] else dec_string (n div 10) @ [digit_char (n mod 10)])"

declare dec_string.simps [simp del]

text \<open>
  The loop of \<^verbatim>\<open>human_size\<close>. The index of the suffix would wrap below 0, and the suffix be read outside
  its array, if the loop went on longer.
\<close>

function human_size_loop :: "u64 \<Rightarrow> nat \<Rightarrow> (u64 \<times> nat) option" where
  "human_size_loop bytes i =
     (if bytes \<noteq> 0 \<and> bytes AND 1023 = 0
      then (if i = 0 then None else human_size_loop (drop_bit 10 bytes) (i - 1))
      else Some (bytes, i))"
  by pat_completeness auto
termination
  by (relation "measure snd") auto

declare human_size_loop.simps [simp del]

text \<open>The text and the value of the flag \<^verbatim>\<open>*human\<close>.\<close>

definition human_size :: "u64 \<Rightarrow> (string \<times> bool) option" where
  "human_size bytes = do {
     (b, i) \<leftarrow> human_size_loop bytes 6;
     Some (dec_string (unat b) @ take 1 (drop i ''EPTGMK''), i < 6) }"

section \<open>Overflow\<close>

definition check_add_overflow :: "nat \<Rightarrow> nat \<Rightarrow> nat \<Rightarrow> bool \<times> nat" where
  "check_add_overflow a b most =
     (let r = (a + b) mod 2 ^ 64;
          in_range = (a \<le> 2 ^ 64 - 1 - b \<and> r \<le> most)
      in (\<not> in_range, r))"

definition check_mul_overflow :: "nat \<Rightarrow> nat \<Rightarrow> nat \<Rightarrow> bool \<times> nat" where
  "check_mul_overflow a b most =
     (let r = (a * b) mod 2 ^ 64;
          in_range = (b = 0 \<or> a \<le> (2 ^ 64 - 1) div b \<and> r \<le> most)
      in (\<not> in_range, r))"

abbreviation SIZE_MAX :: nat where "SIZE_MAX \<equiv> 2 ^ 64 - 1"

section \<open>Vectors\<close>

text \<open>
  The array of a vector is the list of its cells; a cell that was reserved and never written is
  \<^const>\<open>None\<close>. Element and array sizes are those of 64-bit machines.
\<close>

record 'a vector =
  vec_ptr :: "'a option list"
  vec_len :: nat
  vec_cap :: nat

definition empty_vector :: "'a vector" where
  "empty_vector = \<lparr>vec_ptr = [], vec_len = 0, vec_cap = 0\<rparr>"

definition calculate_capacity :: "nat \<Rightarrow> nat \<Rightarrow> nat \<Rightarrow> bool \<Rightarrow> (nat \<times> nat) option" where
  "calculate_capacity cap n itemsize exactly =
     (case check_add_overflow cap n SIZE_MAX of (o1, reqcap) \<Rightarrow>
      case check_mul_overflow reqcap itemsize SIZE_MAX of (o2, reqbytes) \<Rightarrow>
      if o1 \<or> o2 then None
      else (case check_add_overflow cap 1 SIZE_MAX of (o3, t) \<Rightarrow>
            case check_add_overflow cap (t div 2) SIZE_MAX of (o4, newcap) \<Rightarrow>
            case check_mul_overflow newcap itemsize SIZE_MAX of (o5, newbytes) \<Rightarrow>
            if exactly \<or> o3 \<or> o4 \<or> o5 \<or> newbytes < reqbytes then Some (reqcap, reqbytes)
            else Some (newcap, newbytes)))"

text \<open>
  \<open>realloc\<close> tells whether an allocation of so many bytes succeeds. The cells in the new block are those the
  old one had.
\<close>

definition generic_vector_reserve :: "(nat \<Rightarrow> bool) \<Rightarrow> nat \<Rightarrow> 'a vector \<Rightarrow> nat \<Rightarrow> bool \<Rightarrow> int \<times> 'a vector" where
  "generic_vector_reserve realloc itemsize v n exactly =
     (case calculate_capacity (vec_cap v) n itemsize exactly of
        None \<Rightarrow> (-1, v)
      | Some (newcap, newbytes) \<Rightarrow>
          if \<not> realloc newbytes then (-1, v)
          else (0, v\<lparr>vec_ptr := take (newbytes div itemsize) (vec_ptr v) @
                       replicate (newbytes div itemsize - length (vec_ptr v)) None,
                     vec_cap := newcap\<rparr>))"

definition generic_vector_reserve_page_aligned ::
    "(nat \<Rightarrow> bool) \<Rightarrow> nat \<Rightarrow> nat \<Rightarrow> 'a vector \<Rightarrow> nat \<Rightarrow> (int \<times> 'a vector) option" where
  "generic_vector_reserve_page_aligned memalign pagesize itemsize v n = do {
     asrt (pagesize > 1);
     asrt (pagesize mod itemsize = 0);
     (case calculate_capacity (vec_cap v) n itemsize True of
        None \<Rightarrow> Some (-1, v)
      | Some (newcap, newbytes) \<Rightarrow>
          let extra = unat (of_nat newbytes AND (of_nat pagesize - 1 :: u64));
              extra_items = (if extra > 0 then (pagesize - extra) div itemsize else 0)
          in (case check_add_overflow newcap extra_items SIZE_MAX of (o1, newcap) \<Rightarrow>
              case check_add_overflow newbytes (extra_items * itemsize) SIZE_MAX of (o2, newbytes) \<Rightarrow>
              if extra > 0 \<and> (o1 \<or> o2) then Some (-1, v)
              else if \<not> memalign newbytes then Some (-1, v)
              else do {
                asrt (length (vec_ptr v) = vec_cap v \<and> vec_cap v \<le> newbytes div itemsize);
                Some (0, v\<lparr>vec_ptr := vec_ptr v @ replicate (newbytes div itemsize - length (vec_ptr v)) None,
                           vec_cap := newcap\<rparr>) })) }"

text \<open>\<^verbatim>\<open>memmove\<close> of \<open>n\<close> cells inside one array.\<close>

definition memmove_cells :: "'c list \<Rightarrow> nat \<Rightarrow> nat \<Rightarrow> nat \<Rightarrow> 'c list option" where
  "memmove_cells xs to from n = do {
     asrt (n = 0 \<or> from + n \<le> length xs \<and> to + n \<le> length xs);
     Some (if n = 0 then xs else take to xs @ take n (drop from xs) @ drop (to + n) xs) }"

definition vector_insert :: "(nat \<Rightarrow> bool) \<Rightarrow> nat \<Rightarrow> 'a vector \<Rightarrow> 'a \<Rightarrow> nat \<Rightarrow> (int \<times> 'a vector) option" where
  "vector_insert realloc itemsize v elem i = do {
     asrt (i \<le> vec_len v);
     let (r, v) = (if vec_len v \<ge> vec_cap v then generic_vector_reserve realloc itemsize v 1 False else (0, v));
     (if r = -1 then Some (-1, v)
      else do {
        ptr \<leftarrow> memmove_cells (vec_ptr v) (i + 1) i (vec_len v - i);
        asrt (i < length ptr);
        Some (0, v\<lparr>vec_ptr := ptr[i := Some elem], vec_len := vec_len v + 1\<rparr>) }) }"

definition vector_append :: "(nat \<Rightarrow> bool) \<Rightarrow> nat \<Rightarrow> 'a vector \<Rightarrow> 'a \<Rightarrow> (int \<times> 'a vector) option" where
  "vector_append realloc itemsize v elem = vector_insert realloc itemsize v elem (vec_len v)"

definition vector_remove :: "'a vector \<Rightarrow> nat \<Rightarrow> 'a vector option" where
  "vector_remove v i = do {
     asrt (i < vec_len v);
     ptr \<leftarrow> memmove_cells (vec_ptr v) i (i + 1) (vec_len v - i - 1);
     Some (v\<lparr>vec_ptr := ptr, vec_len := vec_len v - 1\<rparr>) }"

definition vector_reset :: "'a vector \<Rightarrow> 'a vector" where
  "vector_reset v = v\<lparr>vec_ptr := [], vec_len := 0, vec_cap := 0\<rparr>"

definition vector_duplicate :: "(nat \<Rightarrow> bool) \<Rightarrow> nat \<Rightarrow> 'a vector \<Rightarrow> 'a vector \<Rightarrow> int \<times> 'a vector" where
  "vector_duplicate malloc itemsize v copy =
     (if \<not> malloc (vec_len v * itemsize mod 2 ^ 64) then (-1, copy)
      else (0, copy\<lparr>vec_ptr := take (vec_len v) (vec_ptr v), vec_len := vec_len v, vec_cap := vec_len v\<rparr>))"

section \<open>Lemmas\<close>

subsection \<open>Powers of two\<close>

lemma nat_power_of_2:
  "0 < n \<Longrightarrow> n AND (n - 1) = (0 :: nat) \<longleftrightarrow> (\<exists>k. n = 2 ^ k)"
proof (induction n rule: less_induct)
  case (less n)
  show ?case
  proof (cases "even n")
    case True
    then obtain m where n: "n = 2 * m" and m: "0 < m" using less.prems by (auto elim: evenE)
    have "(2 * m - Suc 0) div 2 = m - Suc 0" using m by (cases m) simp_all
    then have "n AND (n - 1) = 2 * (m AND (m - 1))"
      using m by (subst and_rec [of n]) (simp add: n)
    moreover have "(\<exists>k. n = 2 ^ k) \<longleftrightarrow> (\<exists>k. m = 2 ^ k)"
    proof
      assume "\<exists>k. n = 2 ^ k"
      then obtain k where k: "n = 2 ^ k" by blast
      then have "k \<noteq> 0" using True by (cases k) auto
      then obtain j where "k = Suc j" using not0_implies_Suc by blast
      then show "\<exists>k. m = 2 ^ k" using k n by auto
    next
      assume "\<exists>k. m = 2 ^ k"
      then show "\<exists>k. n = 2 ^ k" using n by (metis power_Suc)
    qed
    ultimately show ?thesis using less.IH [of m] m n by simp
  next
    case False
    then obtain m where n: "n = 2 * m + 1" by (auto elim: oddE)
    have "n AND (n - 1) = 2 * m"
      by (subst and_rec [of n]) (simp add: n)
    moreover have "(\<exists>k. n = 2 ^ k) \<longleftrightarrow> m = 0"
    proof
      assume "\<exists>k. n = 2 ^ k"
      then obtain k where k: "n = 2 ^ k" by blast
      then have "k = 0" using False by (cases k) auto
      then show "m = 0" using k n by simp
    next
      assume "m = 0"
      then show "\<exists>k. n = 2 ^ k" using n by (metis add_0 mult_0_right power_0)
    qed
    ultimately show ?thesis by simp
  qed
qed

lemma unat_of_power2: "k < 64 \<Longrightarrow> unat (2 ^ k :: u64) = 2 ^ k"
proof -
  assume k: "k < 64"
  have "(2 :: u64) ^ k = of_nat (2 ^ k)" by simp
  then have "unat ((2 :: u64) ^ k) = 2 ^ k mod 2 ^ 64" by (simp only: unat_of_nat) simp
  also have "\<dots> = 2 ^ k" using k by (intro mod_less power_strict_increasing) simp_all
  finally show ?thesis .
qed

lemma unat_take_bit: "unat (take_bit k (x :: u64)) = unat x mod 2 ^ k"
  unfolding unsigned_take_bit_eq by (simp add: take_bit_eq_mod)

lemma is_power_of_2_iff: "is_power_of_2 v \<longleftrightarrow> (\<exists>k < 64. v = 2 ^ k)"
proof
  assume v: "is_power_of_2 v"
  then have pos: "0 < unat v" by (simp add: is_power_of_2_def unat_gt_0)
  have "unat (v - 1) = unat v - 1" using v unat_minus_one [of v] by (simp add: is_power_of_2_def)
  then have "unat v AND (unat v - 1) = 0"
    using v by (metis is_power_of_2_def unat_0 unsigned_and_eq)
  then obtain k where k: "unat v = 2 ^ k" using nat_power_of_2 [OF pos] by blast
  have "unat v < 2 ^ 64" using unsigned_less [of v] by simp
  then have "k < 64" using k by (metis one_less_numeral_iff power_less_imp_less_exp semiring_norm(76))
  moreover have "v = of_nat (unat v)" by simp
  then have "v = 2 ^ k" unfolding k by simp
  ultimately show "\<exists>k < 64. v = 2 ^ k" by blast
next
  assume "\<exists>k < 64. v = 2 ^ k"
  then obtain k where k: "k < 64" "v = 2 ^ k" by blast
  have v: "unat v = 2 ^ k" using k by (simp add: unat_of_power2)
  then have "v \<noteq> 0" by (metis power_not_zero unat_0 zero_neq_numeral)
  moreover have "unat (v AND (v - 1)) = 0"
    using v nat_power_of_2 [of "2 ^ k"] unat_minus_one [OF \<open>v \<noteq> 0\<close>] by (simp add: unsigned_and_eq)
  ultimately show "is_power_of_2 v" by (simp add: is_power_of_2_def unat_eq_zero)
qed

text \<open>Clearing the low bits is rounding down.\<close>

lemma and_minus_power:
  assumes "k < 64" shows "unat (x AND - (2 ^ k) :: u64) = unat x div 2 ^ k * 2 ^ k"
proof -
  have m: "- (2 ^ k) = NOT (mask k :: u64)"
    by (simp add: not_eq_complement mask_eq_exp_minus_1)
  have "x = (x AND mask k) OR (x AND NOT (mask k))"
    by (simp flip: bit.conj_disj_distrib)
  moreover have "(x AND mask k) OR (x AND NOT (mask k)) = (x AND mask k) + (x AND NOT (mask k))"
    by (rule disjunctive_add [symmetric]) (simp add: bit_simps)
  ultimately have x: "x AND NOT (mask k) = x - take_bit k x"
    by (metis add_diff_cancel_left' take_bit_eq_mask)
  have t: "unat (take_bit k x) = unat x mod 2 ^ k"
    by (rule unat_take_bit)
  then have "take_bit k x \<le> x" by (simp add: word_le_nat_alt)
  then have "unat (x - take_bit k x) = unat x - unat x mod 2 ^ k"
    by (simp add: unat_sub t)
  then show ?thesis by (simp add: m x minus_mod_eq_div_mult)
qed

lemma ROUND_DOWN_exact:
  "is_power_of_2 n \<Longrightarrow> \<exists>r. ROUND_DOWN i n = Some r \<and> unat r = unat i div unat n * unat n"
  by (auto simp: ROUND_DOWN_def is_power_of_2_iff and_minus_power unat_of_power2)

lemma ROUND_UP_exact:
  assumes "is_power_of_2 n" "unat i + unat n \<le> 2 ^ 64"
  shows "\<exists>r. ROUND_UP i n = Some r \<and> unat r = (unat i + unat n - 1) div unat n * unat n"
proof -
  obtain k where k: "k < 64" "n = 2 ^ k" using assms(1) by (auto simp: is_power_of_2_iff)
  then have n: "unat n = 2 ^ k" by (simp add: unat_of_power2)
  have "n \<noteq> 0" using assms(1) by (simp add: is_power_of_2_def)
  then have "unat (n - 1) = unat n - 1" by (simp add: unat_minus_one)
  moreover have "unat i + (unat n - 1) < 2 ^ 64" using assms(2) n by simp
  ultimately have "unat (i + (n - 1)) = unat i + (unat n - 1)"
    by (simp add: unat_word_ariths)
  then have "unat (i + n - 1) = unat i + unat n - 1" using n by (simp add: add_diff_eq)
  then show ?thesis
    using assms(1) and_minus_power [OF k(1), of "i + n - 1"] n k(2) by (simp add: ROUND_UP_def)
qed

lemma IS_ALIGNED_exact:
  assumes "is_power_of_2 a" shows "IS_ALIGNED n a = Some (unat a dvd unat n)"
proof -
  obtain k where k: "k < 64" "a = 2 ^ k" using assms by (auto simp: is_power_of_2_iff)
  have "n AND (a - 1) = take_bit k n"
    by (simp add: k take_bit_eq_mask mask_eq_exp_minus_1)
  moreover have "take_bit k n = 0 \<longleftrightarrow> unat n mod 2 ^ k = 0"
    unfolding unat_take_bit [symmetric] by (simp add: unat_eq_zero)
  ultimately show ?thesis using assms k by (simp add: IS_ALIGNED_def unat_of_power2 dvd_eq_mod_eq_0)
qed

subsection \<open>Zero buffers\<close>

lemma shifted_periodic:
  "take (length xs - d) xs = drop d xs \<Longrightarrow> i + d < length xs \<Longrightarrow> xs ! (i + d) = xs ! i"
proof -
  assume e: "take (length xs - d) xs = drop d xs" and i: "i + d < length xs"
  have "xs ! (i + d) = drop d xs ! i" using i by (simp add: add.commute)
  also have "\<dots> = take (length xs - d) xs ! i" by (simp only: e)
  also have "\<dots> = xs ! i" using i by simp
  finally show ?thesis .
qed

lemma is_zero_iff: "is_zero bs \<longleftrightarrow> (\<forall>i < length bs. bs ! i = 0)"
proof
  assume z: "is_zero bs"
  have small: "i < length bs \<Longrightarrow> i < 16 \<Longrightarrow> bs ! i = 0" for i
    using z by (force simp: is_zero_def Let_def list_ex_iff in_set_conv_nth split: if_splits)
  have "i < length bs \<Longrightarrow> bs ! i = 0" for i
  proof (induction i rule: less_induct)
    case (less i)
    show ?case
    proof (cases "i < 16")
      case True
      then show ?thesis using small less.prems by blast
    next
      case False
      then have e: "take (length bs - 16) bs = drop 16 bs"
        using z less.prems by (simp add: is_zero_def Let_def split: if_splits)
      have "bs ! i = bs ! (i - 16)"
        using shifted_periodic [OF e, of "i - 16"] False less.prems by simp
      then show ?thesis using less.IH [of "i - 16"] False less.prems by simp
    qed
  qed
  then show "\<forall>i < length bs. bs ! i = 0" by blast
next
  assume z: "\<forall>i < length bs. bs ! i = 0"
  then have "take (length bs - 16) bs = drop 16 bs"
    by (auto intro!: nth_equalityI)
  moreover have "\<not> list_ex (\<lambda>b. b \<noteq> 0) (take n bs)" for n
    using z by (auto simp: list_ex_iff in_set_conv_nth)
  ultimately show "is_zero bs" by (simp add: is_zero_def Let_def)
qed

lemma is_zero_replicate: "is_zero bs \<longleftrightarrow> bs = replicate (length bs) 0"
  by (auto simp: is_zero_iff list_eq_iff_nth_eq)

subsection \<open>Sizes with a suffix\<close>

lemma of_digit_char: "d < 10 \<Longrightarrow> of_char (digit_char d) = 48 + d"
  by (simp add: digit_char_def)

lemma digits_value_snoc [simp]: "digits_value (ds @ [c]) = 10 * digits_value ds + (of_char c - 48)"
  by (simp add: digits_value_def)

lemma dec_string_value: "digits_value (dec_string n) = n"
proof (induction n rule: dec_string.induct)
  case (1 n)
  show ?case
  proof (cases "n < 10")
    case True
    then show ?thesis by (simp add: dec_string.simps [of n] digits_value_def of_digit_char)
  next
    case False
    then show ?thesis using 1 by (simp add: dec_string.simps [of n] of_digit_char)
  qed
qed

lemma dec_string_digits: "\<forall>c \<in> set (dec_string n). is_digit c"
proof (induction n rule: dec_string.induct)
  case (1 n)
  then show ?case
    by (cases "n < 10") (auto simp: dec_string.simps [of n] is_digit_def of_digit_char)
qed

lemma dec_string_nonempty [simp]: "dec_string n \<noteq> []"
  by (simp add: dec_string.simps)

lemma digit_not_other: "is_digit c \<Longrightarrow> \<not> is_space c \<and> c \<noteq> CHR ''-'' \<and> c \<noteq> CHR ''+''"
  by (auto simp: is_digit_def is_space_def)

lemma strtoimax_dec:
  assumes "n < 2 ^ 63" "suffix = [] \<or> \<not> is_digit (hd suffix)"
  shows "strtoimax (dec_string n @ suffix) = (int n, suffix, False)"
proof -
  let ?d = "dec_string n"
  obtain c cs where d: "?d = c # cs" by (cases ?d) simp_all
  have c: "\<not> is_space c \<and> c \<noteq> CHR ''-'' \<and> c \<noteq> CHR ''+''"
    using dec_string_digits [of n] digit_not_other d by simp
  have tk: "takeWhile is_digit (?d @ suffix) = ?d"
    using assms(2) dec_string_digits [of n] by (cases suffix) (simp_all add: takeWhile_append2)
  have s: "dropWhile is_space (?d @ suffix) = ?d @ suffix" using c d by simp
  have h: "hd (?d @ suffix) = c" using d by simp
  have "int n < int (2 ^ 63)" using assms(1) by (simp only: of_nat_less_iff)
  then show ?thesis
    unfolding strtoimax_def Let_def s h using c by (simp add: tk dec_string_value)
qed

lemma unat_drop10: "unat (drop_bit 10 (b :: u64)) = unat b div 1024"
  by (simp add: drop_bit_eq_div unat_div)

lemma human_size_loop_value:
  "human_size_loop b i = Some (b', j) \<Longrightarrow> j \<le> i \<and> unat b = unat b' * 1024 ^ (i - j)"
proof (induction b i rule: human_size_loop.induct)
  case (1 b i)
  show ?case
  proof (cases "b \<noteq> 0 \<and> b AND 1023 = 0")
    case True
    then have i: "i \<noteq> 0" and r: "human_size_loop (drop_bit 10 b) (i - 1) = Some (b', j)"
      using "1.prems" by (simp_all add: human_size_loop.simps [of b i] split: if_splits)
    have ih: "j \<le> i - 1 \<and> unat (drop_bit 10 b) = unat b' * 1024 ^ (i - 1 - j)"
      using "1.IH" True i r by simp
    have "b AND 1023 = take_bit 10 b" by (simp add: take_bit_eq_mask mask_eq_exp_minus_1)
    then have "unat b mod 1024 = 0" using True unat_take_bit [of 10 b] by simp
    moreover have "unat (drop_bit 10 b) = unat b div 1024" by (rule unat_drop10)
    ultimately have "unat b = unat b' * 1024 ^ (i - 1 - j) * 1024" using ih by (metis div_mult_mod_eq add.right_neutral)
    moreover have "i - j = Suc (i - 1 - j)" using i ih by linarith
    ultimately show ?thesis using ih by simp
  next
    case False
    then have "human_size_loop b i = Some (b, i)" by (subst human_size_loop.simps) auto
    then show ?thesis using "1.prems" by simp
  qed
qed

lemma human_size_loop_ends:
  "unat b < 1024 ^ Suc i \<Longrightarrow> human_size_loop b i \<noteq> None"
proof (induction b i rule: human_size_loop.induct)
  case (1 b i)
  have t: "b AND 1023 = take_bit 10 b" by (simp add: take_bit_eq_mask mask_eq_exp_minus_1)
  show ?case
  proof (cases "b \<noteq> 0 \<and> b AND 1023 = 0")
    case True
    then have m: "unat b mod 1024 = 0" using unat_take_bit [of 10 b] t by simp
    have "i \<noteq> 0"
    proof
      assume "i = 0"
      then have "unat b = 0" using m "1.prems" by simp
      then show False using True by (simp add: unat_eq_zero)
    qed
    moreover have "unat (drop_bit 10 b) < 1024 ^ Suc (i - 1)"
      using "1.prems" calculation by (simp add: unat_drop10 less_mult_imp_div_less mult.commute)
    ultimately show ?thesis using "1.IH" True by (simp add: human_size_loop.simps [of b i])
  qed (auto simp: human_size_loop.simps [of b i])
qed

text \<open>Printing a size never leaves the table of suffixes.\<close>

lemma human_size_total: "\<exists>text human. human_size bytes = Some (text, human)"
proof -
  have "unat bytes < 2 ^ 64" using unsigned_less [of bytes] by simp
  then have "human_size_loop bytes 6 \<noteq> None" by (intro human_size_loop_ends) simp
  then show ?thesis by (auto simp: human_size_def)
qed

lemma suffix_at:
  assumes "j < 6"
  shows "\<exists>c. take 1 (drop j ''EPTGMK'') = [c] \<and> scale_of_suffix c = Some (1024 ^ (6 - j)) \<and> \<not> is_digit c"
proof -
  consider "j = 0" | "j = 1" | "j = 2" | "j = 3" | "j = 4" | "j = 5" using assms by linarith
  then show ?thesis
  proof cases
    case 1
    then show ?thesis by (intro exI [of _ "CHR ''E''"]) (simp add: is_digit_def)
  next
    case 2
    then show ?thesis by (intro exI [of _ "CHR ''P''"]) (simp add: is_digit_def)
  next
    case 3
    then show ?thesis by (intro exI [of _ "CHR ''T''"]) (simp add: is_digit_def)
  next
    case 4
    then show ?thesis by (intro exI [of _ "CHR ''G''"]) (simp add: is_digit_def)
  next
    case 5
    then show ?thesis by (intro exI [of _ "CHR ''M''"]) (simp add: is_digit_def)
  next
    case 6
    then show ?thesis by (intro exI [of _ "CHR ''K''"]) (simp add: is_digit_def)
  qed
qed

text \<open>
  C22. Sizes read back: the text printed for a size below \<open>2 ^ 63\<close>, with its suffix, is parsed as that size.
\<close>

theorem human_size_roundtrip:
  "unat bytes < 2 ^ 63 \<Longrightarrow> \<exists>text human. human_size bytes = Some (text, human) \<and> human_size_parse text = Inr (unat bytes)"
proof -
  assume small: "unat bytes < 2 ^ 63"
  have "unat bytes < 2 ^ 64" using unsigned_less [of bytes] by simp
  then have "human_size_loop bytes 6 \<noteq> None" by (intro human_size_loop_ends) simp
  then obtain b j where l: "human_size_loop bytes 6 = Some (b, j)" by auto
  have v: "j \<le> 6" "unat bytes = unat b * 1024 ^ (6 - j)" using human_size_loop_value [OF l] by simp_all
  let ?s = "take 1 (drop j ''EPTGMK'')"
  have "unat b * 1 \<le> unat b * 1024 ^ (6 - j)" by (rule mult_le_mono2) simp
  then have b: "unat b < 2 ^ 63" using small v(2) by linarith
  have scale: "unat b \<le> (2 ^ 63 - 1) div 1024 ^ (6 - j)"
    using small v(2) by (subst less_eq_div_iff_mult_less_eq) simp_all
  have "human_size_parse (dec_string (unat b) @ ?s) = Inr (unat bytes)"
  proof (cases "j < 6")
    case True
    then obtain c where c: "?s = [c]" "scale_of_suffix c = Some (1024 ^ (6 - j))" "\<not> is_digit c"
      using suffix_at by blast
    show ?thesis
      unfolding human_size_parse_def c(1) using b c scale v(2)
      by (subst strtoimax_dec) (simp_all del: scale_of_suffix.simps)
  next
    case False
    then have j: "j = 6" using v(1) by simp
    show ?thesis
      unfolding human_size_parse_def using b v(2) j by (subst strtoimax_dec) simp_all
  qed
  then show ?thesis by (auto simp: human_size_def l)
qed

theorem human_size_roundtrip_witness:
  "unat (1536 :: u64) < 2 ^ 63 \<and>
   (\<exists>text human. human_size 1536 = Some (text, human) \<and> human_size_parse text = Inr 1536)"
  using human_size_roundtrip [of 1536] by simp

subsection \<open>Vectors\<close>

lemma check_add_overflow_exact:
  "a < 2 ^ 64 \<Longrightarrow> b < 2 ^ 64 \<Longrightarrow> check_add_overflow a b SIZE_MAX = (\<not> a + b < 2 ^ 64, (a + b) mod 2 ^ 64)"
  by (auto simp: check_add_overflow_def Let_def)

lemma check_mul_overflow_exact:
  "a < 2 ^ 64 \<Longrightarrow> b < 2 ^ 64 \<Longrightarrow> check_mul_overflow a b SIZE_MAX = (\<not> a * b < 2 ^ 64, (a * b) mod 2 ^ 64)"
proof -
  have "b \<noteq> 0 \<Longrightarrow> a \<le> SIZE_MAX div b \<longleftrightarrow> a * b < 2 ^ 64"
    by (subst less_eq_div_iff_mult_less_eq) auto
  then show ?thesis by (cases "b = 0") (auto simp: check_mul_overflow_def Let_def)
qed

lemma calculate_capacity_spec:
  assumes "cap < 2 ^ 64" "n < 2 ^ 64" "0 < itemsize" "itemsize < 2 ^ 64"
  shows "(cap + n) * itemsize < 2 ^ 64 \<Longrightarrow>
      \<exists>newcap newbytes. calculate_capacity cap n itemsize exactly = Some (newcap, newbytes) \<and>
        newbytes = newcap * itemsize \<and> newbytes < 2 ^ 64 \<and> cap + n \<le> newcap \<and> (exactly \<longrightarrow> newcap = cap + n)"
    and "\<not> (cap + n) * itemsize < 2 ^ 64 \<Longrightarrow> calculate_capacity cap n itemsize exactly = None"
proof -
  have le: "m \<le> m * itemsize" for m using assms(3) by simp
  have half: "(cap + 1) div 2 < 2 ^ 64" using assms(1) by simp
  have m64: "m mod 2 ^ 64 < (2 :: nat) ^ 64" for m by simp
  note exact = check_add_overflow_exact [OF assms(1,2)]
    check_mul_overflow_exact [OF m64 [of "cap + n"] assms(4)]
  {
    assume fits: "(cap + n) * itemsize < 2 ^ 64"
    then have c: "cap + n < 2 ^ 64" using le [of "cap + n"] by linarith
    have req: "check_add_overflow cap n SIZE_MAX = (False, cap + n)"
        "check_mul_overflow (cap + n) itemsize SIZE_MAX = (False, (cap + n) * itemsize)"
      using exact c fits by simp_all
    show "\<exists>newcap newbytes. calculate_capacity cap n itemsize exactly = Some (newcap, newbytes) \<and>
        newbytes = newcap * itemsize \<and> newbytes < 2 ^ 64 \<and> cap + n \<le> newcap \<and> (exactly \<longrightarrow> newcap = cap + n)"
    proof (cases "\<not> exactly \<and> cap + 1 < 2 ^ 64 \<and> cap + (cap + 1) div 2 < 2 ^ 64 \<and>
        (cap + (cap + 1) div 2) * itemsize < 2 ^ 64 \<and> (cap + n) * itemsize \<le> (cap + (cap + 1) div 2) * itemsize")
      case True
      let ?nc = "cap + (cap + 1) div 2"
      have a: "check_add_overflow cap 1 SIZE_MAX = (False, cap + 1)"
        using check_add_overflow_exact [OF assms(1), of 1] True by simp
      have b: "check_add_overflow cap ((cap + 1) div 2) SIZE_MAX = (False, ?nc)"
        using check_add_overflow_exact [OF assms(1) half] True by simp
      have c: "check_mul_overflow ?nc itemsize SIZE_MAX = (False, ?nc * itemsize)"
        using check_mul_overflow_exact [of ?nc itemsize] assms(4) True by simp
      have "calculate_capacity cap n itemsize exactly = Some (?nc, ?nc * itemsize)"
        using True unfolding calculate_capacity_def req prod.case a b c by auto
      then show ?thesis using True assms(3) by auto
    next
      case False
      have "calculate_capacity cap n itemsize exactly = Some (cap + n, (cap + n) * itemsize)"
      proof (cases "exactly \<or> \<not> cap + 1 < 2 ^ 64")
        case True
        have a: "check_add_overflow cap 1 SIZE_MAX = (\<not> cap + 1 < 2 ^ 64, (cap + 1) mod 2 ^ 64)"
          by (rule check_add_overflow_exact) (use assms in simp_all)
        show ?thesis using True
          unfolding calculate_capacity_def req prod.case a by (auto split: prod.splits)
      next
        case ne: False
        let ?nc = "cap + (cap + 1) div 2"
        have a: "check_add_overflow cap 1 SIZE_MAX = (False, cap + 1)"
          using check_add_overflow_exact [OF assms(1), of 1] ne by simp
        have b: "check_add_overflow cap ((cap + 1) div 2) SIZE_MAX = (\<not> ?nc < 2 ^ 64, ?nc mod 2 ^ 64)"
          by (rule check_add_overflow_exact [OF assms(1) half])
        have c: "check_mul_overflow (?nc mod 2 ^ 64) itemsize SIZE_MAX =
            (\<not> (?nc mod 2 ^ 64) * itemsize < 2 ^ 64, (?nc mod 2 ^ 64) * itemsize mod 2 ^ 64)"
          by (rule check_mul_overflow_exact [OF m64 assms(4)])
        have "?nc < 2 ^ 64 \<Longrightarrow> (?nc mod 2 ^ 64) * itemsize < 2 ^ 64 \<Longrightarrow>
            (?nc mod 2 ^ 64) * itemsize mod 2 ^ 64 < (cap + n) * itemsize"
          using False ne by (simp add: not_le)
        then show ?thesis
          unfolding calculate_capacity_def req a prod.case b c by auto
      qed
      then show ?thesis using fits by simp
    qed
  }
  assume big: "\<not> (cap + n) * itemsize < 2 ^ 64"
  have "\<not> cap + n < 2 ^ 64 \<or> \<not> (cap + n) mod 2 ^ 64 * itemsize < 2 ^ 64"
    using big by (metis mod_less)
  then show "calculate_capacity cap n itemsize exactly = None"
    unfolding calculate_capacity_def exact(1) prod.case exact(2) by simp
qed

text \<open>A well-formed vector, and the list it stands for.\<close>

definition vector_ok :: "nat \<Rightarrow> 'a vector \<Rightarrow> bool" where
  "vector_ok itemsize v \<longleftrightarrow>
     0 < itemsize \<and> itemsize < 2 ^ 64 \<and> length (vec_ptr v) = vec_cap v \<and> vec_len v \<le> vec_cap v \<and>
     vec_cap v * itemsize < 2 ^ 64 \<and> list_all (\<lambda>c. c \<noteq> None) (take (vec_len v) (vec_ptr v))"

definition vec_list :: "'a vector \<Rightarrow> 'a list" where
  "vec_list v = map the (take (vec_len v) (vec_ptr v))"

lemma vector_ok_empty: "0 < itemsize \<Longrightarrow> itemsize < 2 ^ 64 \<Longrightarrow> vector_ok itemsize empty_vector"
  by (simp add: vector_ok_def empty_vector_def)

lemma vector_cap_small: "vector_ok itemsize v \<Longrightarrow> vec_cap v < 2 ^ 64"
proof -
  assume v: "vector_ok itemsize v"
  have "vec_cap v \<le> vec_cap v * itemsize" using v by (simp add: vector_ok_def)
  then show ?thesis using v unfolding vector_ok_def by linarith
qed

lemma reserve_spec:
  assumes "vector_ok itemsize v" "n < 2 ^ 64" "generic_vector_reserve realloc itemsize v n exactly = (r, v')"
  shows "vector_ok itemsize v' \<and> vec_list v' = vec_list v \<and> vec_len v' = vec_len v \<and>
     (r = 0 \<and> vec_cap v + n \<le> vec_cap v' \<or>
      r = -1 \<and> v' = v \<and> (\<not> (vec_cap v + n) * itemsize < 2 ^ 64 \<or> (\<exists>bytes. \<not> realloc bytes)))"
proof -
  have ok: "0 < itemsize" "itemsize < 2 ^ 64" "length (vec_ptr v) = vec_cap v" "vec_len v \<le> vec_cap v"
    "list_all (\<lambda>c. c \<noteq> None) (take (vec_len v) (vec_ptr v))"
    using assms(1) by (simp_all add: vector_ok_def)
  note spec = calculate_capacity_spec [OF vector_cap_small [OF assms(1)] assms(2) ok(1,2)]
  show ?thesis
  proof (cases "(vec_cap v + n) * itemsize < 2 ^ 64")
    case True
    then obtain nc where nc: "calculate_capacity (vec_cap v) n itemsize exactly = Some (nc, nc * itemsize)"
        "nc * itemsize < 2 ^ 64" "vec_cap v + n \<le> nc"
      using spec(1) [of exactly] by blast
    then show ?thesis
      using assms(1,3) ok
      by (auto simp: generic_vector_reserve_def vector_ok_def vec_list_def split: if_splits)
  next
    case False
    then show ?thesis using assms(1,3) spec(2) [of exactly] by (simp add: generic_vector_reserve_def)
  qed
qed

lemma insert_cells:
  assumes "i \<le> n" "n < length xs"
  shows "\<exists>ys. memmove_cells xs (i + 1) i (n - i) = Some ys \<and> length ys = length xs \<and>
     take (n + 1) (ys[i := c]) = take i xs @ c # take (n - i) (drop i xs)"
proof (cases "i = n")
  case True
  then show ?thesis using assms by (simp add: memmove_cells_def take_Suc_conv_app_nth)
next
  case False
  let ?ys = "take (i + 1) xs @ take (n - i) (drop i xs) @ drop (n + 1) xs"
  have len: "length (take (n - i) (drop i xs)) = n - i" "length (take i xs) = i" using assms False by simp_all
  have "?ys[i := c] = take i xs @ c # take (n - i) (drop i xs) @ drop (n + 1) xs"
    using assms False by (simp add: take_Suc_conv_app_nth list_update_append)
  then have "take (n + 1) (?ys[i := c]) = take i xs @ c # take (n - i) (drop i xs)"
    using assms False len by (simp add: Suc_diff_le)
  moreover have "memmove_cells xs (i + 1) i (n - i) = Some ?ys"
    using assms False by (simp add: memmove_cells_def)
  ultimately show ?thesis using assms False by simp
qed

text \<open>
  C21. Inserting implements the insertion into a list at any position: on success the list has the new element and the
  vector is well formed; otherwise the vector is unchanged, it was full, and the larger array does not fit the
  address space or could not be allocated. No cell outside the array is touched.
\<close>

theorem vector_insert_list:
  "vector_ok itemsize v \<Longrightarrow> i \<le> vec_len v \<Longrightarrow>
   \<exists>r v'. vector_insert realloc itemsize v x i = Some (r, v') \<and> vector_ok itemsize v' \<and>
     (r = 0 \<and> vec_list v' = take i (vec_list v) @ x # drop i (vec_list v) \<or>
      r = -1 \<and> v' = v \<and> vec_len v = vec_cap v \<and>
        (\<not> (vec_cap v + 1) * itemsize < 2 ^ 64 \<or> (\<exists>bytes. \<not> realloc bytes)))"
proof -
  assume v: "vector_ok itemsize v" and i: "i \<le> vec_len v"
  obtain r w where w: "(if vec_len v \<ge> vec_cap v then generic_vector_reserve realloc itemsize v 1 False else (0, v)) = (r, w)"
    by (rule prod.exhaust)
  have r: "vector_ok itemsize w \<and> vec_list w = vec_list v \<and> vec_len w = vec_len v \<and>
     (r = 0 \<and> vec_len v < vec_cap w \<or>
      r = -1 \<and> w = v \<and> vec_len v = vec_cap v \<and> (\<not> (vec_cap v + 1) * itemsize < 2 ^ 64 \<or> (\<exists>bytes. \<not> realloc bytes)))"
  proof (cases "vec_len v \<ge> vec_cap v")
    case True
    then have "generic_vector_reserve realloc itemsize v 1 False = (r, w)" using w by simp
    then show ?thesis using reserve_spec [OF v, of 1 realloc False r w] True v by (auto simp: vector_ok_def)
  next
    case False
    then show ?thesis using w v by auto
  qed
  show ?thesis
  proof (cases "r = -1")
    case True
    then have "vector_insert realloc itemsize v x i = Some (-1, w)"
      using i w by (simp add: vector_insert_def Let_def)
    then show ?thesis using r True by auto
  next
    case False
    then have ok: "vec_len v < vec_cap w" "r = 0" using r by auto
    then have n: "vec_len w < length (vec_ptr w)" using r by (simp add: vector_ok_def)
    then obtain ys where ys: "memmove_cells (vec_ptr w) (i + 1) i (vec_len w - i) = Some ys"
        "length ys = length (vec_ptr w)"
        "take (vec_len w + 1) (ys[i := Some x]) = take i (vec_ptr w) @ Some x # take (vec_len w - i) (drop i (vec_ptr w))"
      using insert_cells [of i "vec_len w" "vec_ptr w" "Some x"] i r by auto
    let ?w = "w\<lparr>vec_ptr := ys[i := Some x], vec_len := vec_len w + 1\<rparr>"
    have "vector_insert realloc itemsize v x i = Some (0, ?w)"
      using i w ys n ok r by (simp add: vector_insert_def Let_def)
    moreover have "vec_list ?w = take i (vec_list w) @ x # drop i (vec_list w)"
      using ys(3) i r by (simp add: vec_list_def take_map drop_map take_drop min_def)
    moreover have "vector_ok itemsize ?w"
    proof -
      have all: "list_all (\<lambda>c. c \<noteq> None) (take (vec_len w) (vec_ptr w))" using r unfolding vector_ok_def by blast
      have split: "take (vec_len w) (vec_ptr w) = take i (vec_ptr w) @ take (vec_len w - i) (drop i (vec_ptr w))"
        using i r by (metis le_add_diff_inverse take_add)
      have "list_all (\<lambda>c. c \<noteq> None) (take (vec_len w + 1) (ys[i := Some x]))"
        using all unfolding ys(3) split by simp
      then show ?thesis using r ys ok n by (auto simp: vector_ok_def)
    qed
    ultimately show ?thesis using r by auto
  qed
qed

theorem vector_insert_list_witness:
  "vector_ok 8 empty_vector \<and>
   (\<exists>r v'. vector_insert (\<lambda>_. True) 8 empty_vector CHR ''a'' 0 = Some (r, v') \<and> vector_ok 8 v' \<and>
     r = 0 \<and> vec_list v' = ''a'')"
  using vector_insert_list [of 8 empty_vector 0 "\<lambda>_. True" "CHR ''a''"]
  by (auto simp: vector_ok_def empty_vector_def vec_list_def)

lemma vector_remove_list:
  assumes v: "vector_ok itemsize v" and i: "i < vec_len v"
  shows "\<exists>v'. vector_remove v i = Some v' \<and> vector_ok itemsize v' \<and>
    vec_list v' = take i (vec_list v) @ drop (i + 1) (vec_list v)"
proof -
  let ?p = "vec_ptr v" and ?n = "vec_len v"
  have n: "?n \<le> length ?p" using v by (simp add: vector_ok_def)
  have "\<exists>ys. memmove_cells ?p i (i + 1) (?n - i - 1) = Some ys \<and> length ys = length ?p \<and>
      take (?n - 1) ys = take i ?p @ drop (i + 1) (take ?n ?p)"
  proof (cases "i + 1 = ?n")
    case True
    then show ?thesis using n True [symmetric] by (simp add: memmove_cells_def)
  next
    case False
    let ?ys = "take i ?p @ take (?n - i - 1) (drop (i + 1) ?p) @ drop (?n - 1) ?p"
    have "memmove_cells ?p i (i + 1) (?n - i - 1) = Some ?ys"
      using False i n by (simp add: memmove_cells_def)
    moreover have "length ?ys = length ?p" using i n False by simp
    moreover have "take (?n - 1) ?ys = take i ?p @ drop (i + 1) (take ?n ?p)"
      using i n False by (simp add: drop_take)
    ultimately show ?thesis by blast
  qed
  then obtain ys where ys: "memmove_cells ?p i (i + 1) (?n - i - 1) = Some ys" "length ys = length ?p"
      "take (?n - 1) ys = take i ?p @ drop (i + 1) (take ?n ?p)" by blast
  let ?v = "v\<lparr>vec_ptr := ys, vec_len := ?n - 1\<rparr>"
  have "vec_list ?v = take i (vec_list v) @ drop (i + 1) (vec_list v)"
    using ys(3) i by (simp add: vec_list_def take_map drop_map min_def)
  moreover have "list_all (\<lambda>c. c \<noteq> None) (take (?n - 1) ys)"
  proof -
    have "take ?n ?p = take i ?p @ drop i (take ?n ?p)"
      using i by (metis append_take_drop_id less_imp_le min.absorb1 take_take)
    then have "set (take i ?p) \<subseteq> set (take ?n ?p)" by (metis Un_upper1 set_append)
    moreover have "set (drop (i + 1) (take ?n ?p)) \<subseteq> set (take ?n ?p)" by (rule set_drop_subset)
    ultimately show ?thesis using v unfolding ys(3) by (auto simp: vector_ok_def list_all_iff)
  qed
  then have "vector_ok itemsize ?v" using v ys(2) by (auto simp: vector_ok_def)
  ultimately show ?thesis using ys(1) i by (auto simp: vector_remove_def)
qed

end
