(* ===== verification/NBD_Copy.thy ===== *)
theory NBD_Copy
  imports NBD_Common
begin

text \<open>
  The copying tool nbdcopy (\<^verbatim>\<open>copy/\<close>): the source and the destination with their operations (files, NBD
  exports, pipes and the null device), the commands with their shared buffers, the callbacks that turn a
  finished read into writes and zeroing, the worker threads, and the single-threaded copy.

  Offsets within the copied range are natural numbers. The size of the source is an \<^verbatim>\<open>int64_t\<close>, so they are
  below \<open>2 ^ 63\<close>, and the lengths added to them are below \<open>2 ^ 32\<close>: none of these sums wraps. Extents come from
  the library, which keeps them inside the export, or from the kernel.
\<close>

section \<open>How the program ends\<close>

text \<open>
  Almost every operation may end the program: with \<^verbatim>\<open>exit (EXIT_FAILURE)\<close> after an error message, in
  \<^verbatim>\<open>abort\<close> or a failed assertion, or in an access to memory that was freed or never allocated. The search for
  the extents of a file may also run forever.
\<close>

datatype stop = EXIT_FAILURE | ABORT | CRASH | HANG

datatype 'a run_result = Ret 'a | Ends stop

primrec andthen :: "'a run_result \<Rightarrow> ('a \<Rightarrow> 'b run_result) \<Rightarrow> 'b run_result" where
  "andthen (Ret x) f = f x"
| "andthen (Ends e) f = Ends e"

definition must :: "stop \<Rightarrow> bool \<Rightarrow> unit run_result" where
  "must e b = (if b then Ret () else Ends e)"

section \<open>The two sides\<close>

datatype rw_kind = FILE_OPS | NBD_OPS | NULL_OPS | PIPE_OPS

text \<open>
  \<^verbatim>\<open>struct rw\<close> with the private data of its subtypes. \<open>rw_bytes\<close> is what the file, device or export holds, or
  what comes out of (was put into) the pipe.
\<close>

record rw =
  rw_ops :: rw_kind
  rw_size :: int
  rw_preferred :: nat
  rw_bytes :: "u8 list"
  rw_is_block :: bool
  rw_seek_hole :: bool
  rw_sector_size :: nat
  rw_punch_hole :: bool
  rw_zero_range :: bool
  rw_fallocate :: bool
  rw_zeroout :: bool
  rw_can_zero :: bool
  rw_read_only :: bool
  rw_multi_conn :: bool
  rw_meta_context :: bool

record extent =
  ext_offset :: nat
  ext_length :: nat
  ext_zero :: bool

datatype fallocate_mode = PUNCH_HOLE | ZERO_RANGE | ALLOCATE_ONLY

text \<open>
  What the system and the NBD library answer. The first argument of each is the time of the call, so that
  every call may be answered differently:
  whether an allocation succeeds and what the memory holds; the outcome of \<^verbatim>\<open>pread\<close>, \<^verbatim>\<open>read\<close> and
  \<^verbatim>\<open>pwrite\<close>, \<^verbatim>\<open>write\<close> (\<^const>\<open>None\<close> for an error, otherwise an upper bound for what is read; one less than an upper bound
  for what is written, since a successful write is not empty); the error number of \<^verbatim>\<open>fallocate\<close> and of the
  \<^verbatim>\<open>BLKZEROOUT\<close> ioctl, 0 for success; the positions \<^verbatim>\<open>lseek\<close> finds for data and for a hole (\<open>Inl\<close> the error number);
  whether the library accepts an asynchronous command and completes a synchronous one; and for a
  block status request the calls of the extent callback (context, descriptors, error), \<^const>\<open>None\<close> if it fails.
\<close>

record copy_env =
  env_alloc :: "nat \<Rightarrow> bool"
  env_garbage :: "nat \<Rightarrow> nat \<Rightarrow> u8"
  env_pread :: "nat \<Rightarrow> nat \<Rightarrow> nat \<Rightarrow> nat option"
  env_pwrite :: "nat \<Rightarrow> nat \<Rightarrow> nat \<Rightarrow> nat option"
  env_fallocate :: "nat \<Rightarrow> fallocate_mode \<Rightarrow> nat \<Rightarrow> nat \<Rightarrow> nat"
  env_zeroout :: "nat \<Rightarrow> nat \<Rightarrow> nat \<Rightarrow> nat"
  env_seek_data :: "nat \<Rightarrow> nat \<Rightarrow> nat + nat"
  env_seek_hole :: "nat \<Rightarrow> nat \<Rightarrow> nat + nat"
  env_nbd :: "nat \<Rightarrow> bool"
  env_block_status :: "nat \<Rightarrow> nat \<Rightarrow> nat \<Rightarrow> (string \<times> (nat \<times> nat) list \<times> nat) list option"

text \<open>The options of the command line, and the source, which copying does not change.\<close>

record copy_cfg =
  cfg_allocated :: bool
  cfg_target_is_zero :: bool
  cfg_extents :: bool
  cfg_flush :: bool
  cfg_max_requests :: nat
  cfg_queue_size :: nat
  cfg_request_size :: nat
  cfg_sparse_size :: nat
  cfg_synchronous :: bool
  cfg_threads :: nat
  cfg_connections :: nat
  cfg_src :: rw
  cfg_env :: copy_env

definition COPY_MAX_REQUEST_SIZE :: nat where "COPY_MAX_REQUEST_SIZE = 32 * 1024 * 1024"
definition MIN_REQUEST_SIZE :: nat where "MIN_REQUEST_SIZE = 4096"
definition THREAD_WORK_SIZE :: nat where "THREAD_WORK_SIZE = 128 * 1024 * 1024"

section \<open>Commands and threads\<close>

record buffer =
  buf_data :: "u8 list"
  buf_refs :: nat

text \<open>
  A command with its slice. The buffers of a thread are numbered; \<open>cmd_buffer\<close> is \<^const>\<open>None\<close> for the null pointer of
  a zeroing command.
\<close>

record copy_command =
  cmd_offset :: nat
  cmd_len :: nat
  cmd_base :: nat
  cmd_buffer :: "nat option"

text \<open>
  Where a worker thread is: before it asks for a range, before it asks for the extents of its range, at the top of
  the loop over the range, waiting for a request slot with a read command in hand, waiting for the commands in
  flight after the last range, and ended.
\<close>

datatype worker_pc = TOP | EXTENTS | LOOP | ISSUE copy_command | DRAIN | FINISHED

text \<open>
  A worker thread sees the shared state (the time, the destination and \<^verbatim>\<open>next_offset\<close>), and has its own queue size,
  buffers, commands in flight on its handle of the source and of the destination, and the variables of
  \<^verbatim>\<open>worker_thread\<close>.
\<close>

record thread =
  clock :: nat
  dst :: rw
  next_offset :: nat
  wqueue_size :: nat
  bufs :: "nat \<Rightarrow> buffer option"
  next_buf :: nat
  src_flight :: "copy_command list"
  dst_flight :: "copy_command list"
  pc :: worker_pc
  w_offset :: nat
  w_count :: nat
  w_exts :: "extent list"
  extent_index :: nat
  is_zeroing :: bool
  zeroing_start :: nat

definition tick :: "thread \<Rightarrow> thread" where
  "tick t = t\<lparr>clock := clock t + 1\<rparr>"

text \<open>Every failed allocation ends the program.\<close>

definition allocate :: "copy_cfg \<Rightarrow> thread \<Rightarrow> thread run_result" where
  "allocate g t = (if env_alloc (cfg_env g) (clock t) then Ret (tick t) else Ends EXIT_FAILURE)"

definition increase_queue_size :: "copy_cfg \<Rightarrow> nat \<Rightarrow> thread \<Rightarrow> thread run_result" where
  "increase_queue_size g len t =
     andthen (must ABORT (wqueue_size t < cfg_queue_size g)) (\<lambda>_.
     Ret (t\<lparr>wqueue_size := wqueue_size t + len\<rparr>))"

definition decrease_queue_size :: "nat \<Rightarrow> thread \<Rightarrow> thread run_result" where
  "decrease_queue_size len t =
     andthen (must ABORT (wqueue_size t \<ge> len)) (\<lambda>_.
     Ret (t\<lparr>wqueue_size := wqueue_size t - len\<rparr>))"

text \<open>New memory has arbitrary contents.\<close>

definition create_buffer :: "copy_cfg \<Rightarrow> nat \<Rightarrow> thread \<Rightarrow> (nat \<times> thread) run_result" where
  "create_buffer g len t =
     andthen (allocate g t) (\<lambda>t.
     andthen (allocate g t) (\<lambda>t.
     Ret (next_buf t,
          t\<lparr>bufs := (bufs t)(next_buf t \<mapsto>
              \<lparr>buf_data = map (env_garbage (cfg_env g) (clock t)) [0 ..< len], buf_refs = 1\<rparr>),
            next_buf := next_buf t + 1\<rparr>)))"

definition create_command :: "copy_cfg \<Rightarrow> nat \<Rightarrow> nat \<Rightarrow> bool \<Rightarrow> thread \<Rightarrow> (copy_command \<times> thread) run_result" where
  "create_command g off len zero t =
     andthen (allocate g t) (\<lambda>t.
     if zero then Ret (\<lparr>cmd_offset = off, cmd_len = len, cmd_base = 0, cmd_buffer = None\<rparr>, t)
     else andthen (create_buffer g len t) (\<lambda>(b, t).
       Ret (\<lparr>cmd_offset = off, cmd_len = len, cmd_base = 0, cmd_buffer = Some b\<rparr>, t)))"

definition create_subcommand ::
    "copy_cfg \<Rightarrow> copy_command \<Rightarrow> nat \<Rightarrow> nat \<Rightarrow> bool \<Rightarrow> thread \<Rightarrow> (copy_command \<times> thread) run_result" where
  "create_subcommand g command off len zero t =
     (let fin = cmd_offset command + cmd_len command in
      andthen (must ABORT (cmd_offset command \<le> off \<and> off < fin)) (\<lambda>_.
      andthen (must ABORT (off + len \<le> fin)) (\<lambda>_.
      andthen (allocate g t) (\<lambda>t.
      if zero then Ret (\<lparr>cmd_offset = off, cmd_len = len, cmd_base = 0, cmd_buffer = None\<rparr>, t)
      else (case cmd_buffer command of
          None \<Rightarrow> Ends CRASH
        | Some b \<Rightarrow> (case bufs t b of
            None \<Rightarrow> Ends CRASH
          | Some buf \<Rightarrow>
              Ret (\<lparr>cmd_offset = off, cmd_len = len, cmd_base = off - cmd_offset command, cmd_buffer = Some b\<rparr>,
                   t\<lparr>bufs := (bufs t)(b \<mapsto> buf\<lparr>buf_refs := buf_refs buf + 1\<rparr>)\<rparr>)))))))"

definition free_command :: "copy_command \<Rightarrow> thread \<Rightarrow> thread run_result" where
  "free_command command t =
     (case cmd_buffer command of
        None \<Rightarrow> Ret t
      | Some b \<Rightarrow> (case bufs t b of
          None \<Rightarrow> Ends CRASH
        | Some buf \<Rightarrow>
            if buf_refs buf = 0 then Ends CRASH
            else if buf_refs buf - 1 = 0 then Ret (t\<lparr>bufs := (bufs t)(b := None)\<rparr>)
            else Ret (t\<lparr>bufs := (bufs t)(b \<mapsto> buf\<lparr>buf_refs := buf_refs buf - 1\<rparr>)\<rparr>)))"

text \<open>The memory a slice stands for; reading outside its buffer is a crash.\<close>

definition slice_bytes :: "copy_command \<Rightarrow> thread \<Rightarrow> u8 list run_result" where
  "slice_bytes command t =
     (case cmd_buffer command of
        None \<Rightarrow> Ends CRASH
      | Some b \<Rightarrow> (case bufs t b of
          None \<Rightarrow> Ends CRASH
        | Some buf \<Rightarrow>
            if cmd_base command + cmd_len command \<le> length (buf_data buf)
            then Ret (take (cmd_len command) (drop (cmd_base command) (buf_data buf)))
            else Ends CRASH))"

text \<open>Bytes stored in a list: the contents of a file with \<open>bs\<close> written at \<open>off\<close>, which extends the file if needed.\<close>

definition put_bytes :: "nat \<Rightarrow> u8 list \<Rightarrow> u8 list \<Rightarrow> u8 list" where
  "put_bytes off bs xs = take off (xs @ replicate (off - length xs) 0) @ bs @ drop (off + length bs) xs"

definition fill_slice :: "copy_command \<Rightarrow> u8 list \<Rightarrow> thread \<Rightarrow> thread run_result" where
  "fill_slice command bs t =
     (case cmd_buffer command of
        None \<Rightarrow> Ends CRASH
      | Some b \<Rightarrow> (case bufs t b of
          None \<Rightarrow> Ends CRASH
        | Some buf \<Rightarrow>
            if cmd_base command + length bs \<le> length (buf_data buf)
            then Ret (t\<lparr>bufs := (bufs t)(b \<mapsto> buf\<lparr>buf_data := put_bytes (cmd_base command) bs (buf_data buf)\<rparr>)\<rparr>)
            else Ends CRASH))"

section \<open>Operations on files\<close>

definition put_dst :: "nat \<Rightarrow> u8 list \<Rightarrow> thread \<Rightarrow> thread" where
  "put_dst off bs t = t\<lparr>dst := (dst t)\<lparr>rw_bytes := put_bytes off bs (rw_bytes (dst t))\<rparr>\<rparr>"

text \<open>
  The bytes \<^verbatim>\<open>file_synch_read\<close> puts at the start of the buffer: it stops early at the end of the file. The page
  cache is only advised and not modelled.
\<close>

function file_synch_read :: "copy_cfg \<Rightarrow> nat \<Rightarrow> nat \<Rightarrow> thread \<Rightarrow> (u8 list \<times> thread) run_result" where
  "file_synch_read g len off t =
     (if len = 0 then Ret ([], t)
      else (case env_pread (cfg_env g) (clock t) len off of
          None \<Rightarrow> Ends EXIT_FAILURE
        | Some k \<Rightarrow>
            let data = take (min k len) (drop off (rw_bytes (cfg_src g)))
            in if data = [] then Ret ([], tick t)
               else andthen (file_synch_read g (len - length data) (off + length data) (tick t)) (\<lambda>(rest, t).
                    Ret (data @ rest, t))))"
  by pat_completeness auto
termination
  by (relation "measure (\<lambda>(g, len, off, t). len)") (auto simp: Let_def)

declare file_synch_read.simps [simp del]

function file_synch_write :: "copy_cfg \<Rightarrow> u8 list \<Rightarrow> nat \<Rightarrow> thread \<Rightarrow> thread run_result" where
  "file_synch_write g data off t =
     (if data = [] then Ret t
      else (case env_pwrite (cfg_env g) (clock t) (length data) off of
          None \<Rightarrow> Ends EXIT_FAILURE
        | Some k \<Rightarrow>
            let r = min (Suc k) (length data)
            in file_synch_write g (drop r data) (off + r) (tick (put_dst off (take r data) t))))"
  by pat_completeness auto
termination
  by (relation "measure (\<lambda>(g, data, off, t). length data)") (auto simp: Let_def)

declare file_synch_write.simps [simp del]

definition COPY_ENOTSUP :: nat where "COPY_ENOTSUP = 95"
definition EOPNOTSUPP :: nat where "EOPNOTSUPP = 95"
definition ENOTTY :: nat where "ENOTTY = 25"
definition ENXIO :: nat where "ENXIO = 6"

definition is_not_supported :: "nat \<Rightarrow> bool" where
  "is_not_supported err \<longleftrightarrow> err = COPY_ENOTSUP \<or> err = EOPNOTSUPP"

definition zero_dst :: "nat \<Rightarrow> nat \<Rightarrow> thread \<Rightarrow> thread" where
  "zero_dst off count t = put_dst off (replicate count 0) t"

definition file_punch_hole :: "copy_cfg \<Rightarrow> nat \<Rightarrow> nat \<Rightarrow> thread \<Rightarrow> (bool \<times> thread) run_result" where
  "file_punch_hole g off count t =
     (let err = env_fallocate (cfg_env g) (clock t) PUNCH_HOLE off count in
      if err \<noteq> 0 then if is_not_supported err then Ret (False, tick t) else Ends EXIT_FAILURE
      else Ret (True, tick (zero_dst off count t)))"

definition file_zero_range :: "copy_cfg \<Rightarrow> nat \<Rightarrow> nat \<Rightarrow> thread \<Rightarrow> (bool \<times> thread) run_result" where
  "file_zero_range g off count t =
     (let err = env_fallocate (cfg_env g) (clock t) ZERO_RANGE off count in
      if err \<noteq> 0 then if is_not_supported err then Ret (False, tick t) else Ends EXIT_FAILURE
      else Ret (True, tick (zero_dst off count t)))"

definition file_zeroout :: "copy_cfg \<Rightarrow> nat \<Rightarrow> nat \<Rightarrow> thread \<Rightarrow> (bool \<times> thread) run_result" where
  "file_zeroout g off count t =
     (let err = env_zeroout (cfg_env g) (clock t) off count in
      if err \<noteq> 0 then if err = ENOTTY then Ret (False, tick t) else Ends EXIT_FAILURE
      else Ret (True, tick (zero_dst off count t)))"

text \<open>
  \<^verbatim>\<open>file_synch_zero\<close> tries one method after the other and gives up for good on those that are not supported.
  The three stages of the function: the first two methods, punching and allocating, and the ioctl.
\<close>

definition zero_by_punch :: "copy_cfg \<Rightarrow> nat \<Rightarrow> nat \<Rightarrow> bool \<Rightarrow> thread \<Rightarrow> (bool \<times> thread) run_result" where
  "zero_by_punch g off count alloc t =
     (if \<not> alloc \<and> rw_punch_hole (dst t)
      then andthen (file_punch_hole g off count t) (\<lambda>(ok, t).
        if ok then Ret (True, t) else Ret (False, t\<lparr>dst := (dst t)\<lparr>rw_punch_hole := False\<rparr>\<rparr>))
      else Ret (False, t))"

definition zero_by_range :: "copy_cfg \<Rightarrow> nat \<Rightarrow> nat \<Rightarrow> thread \<Rightarrow> (bool \<times> thread) run_result" where
  "zero_by_range g off count t =
     (if rw_zero_range (dst t)
      then andthen (file_zero_range g off count t) (\<lambda>(ok, t).
        if ok then Ret (True, t) else Ret (False, t\<lparr>dst := (dst t)\<lparr>rw_zero_range := False\<rparr>\<rparr>))
      else Ret (False, t))"

text \<open>
  The result of \<^verbatim>\<open>fallocate\<close> is tested the wrong way round: a failure (-1) is taken for success.
\<close>

definition zero_by_fallocate :: "copy_cfg \<Rightarrow> nat \<Rightarrow> nat \<Rightarrow> thread \<Rightarrow> (bool \<times> thread) run_result" where
  "zero_by_fallocate g off count t =
     andthen (file_punch_hole g off count t) (\<lambda>(ok, t).
     if ok then
       (if env_fallocate (cfg_env g) (clock t) ALLOCATE_ONLY off count \<noteq> 0 then Ret (True, tick t)
        else Ret (False, (tick t)\<lparr>dst := (dst t)\<lparr>rw_fallocate := False\<rparr>\<rparr>))
     else Ret (False, t\<lparr>dst := (dst t)\<lparr>rw_punch_hole := False\<rparr>\<rparr>))"

definition zero_by_zeroout :: "copy_cfg \<Rightarrow> nat \<Rightarrow> nat \<Rightarrow> thread \<Rightarrow> (bool \<times> thread) run_result" where
  "zero_by_zeroout g off count t =
     (if rw_zeroout (dst t)
      then (case IS_ALIGNED (of_nat off OR of_nat count) (of_nat (rw_sector_size (dst t))) of
          None \<Rightarrow> Ends ABORT
        | Some aligned \<Rightarrow>
            if aligned then andthen (file_zeroout g off count t) (\<lambda>(ok, t).
              if ok then Ret (True, t) else Ret (False, t\<lparr>dst := (dst t)\<lparr>rw_zeroout := False\<rparr>\<rparr>))
            else Ret (False, t))
      else Ret (False, t))"

definition file_synch_zero :: "copy_cfg \<Rightarrow> nat \<Rightarrow> nat \<Rightarrow> bool \<Rightarrow> thread \<Rightarrow> (bool \<times> thread) run_result" where
  "file_synch_zero g off count alloc t =
     andthen (zero_by_punch g off count alloc t) (\<lambda>(ok, t).
     if ok then Ret (True, t)
     else andthen (zero_by_range g off count t) (\<lambda>(ok, t).
     if ok then Ret (True, t)
     else if rw_punch_hole (dst t) \<and> rw_fallocate (dst t) then zero_by_fallocate g off count t
     else zero_by_zeroout g off count t))"

section \<open>Operations on NBD exports\<close>

text \<open>A call of the library that may fail, which ends the program.\<close>

definition nbd_call :: "copy_cfg \<Rightarrow> thread \<Rightarrow> thread run_result" where
  "nbd_call g t = (if env_nbd (cfg_env g) (clock t) then Ret (tick t) else Ends EXIT_FAILURE)"

definition nbd_ops_synch_read :: "copy_cfg \<Rightarrow> nat \<Rightarrow> nat \<Rightarrow> thread \<Rightarrow> (u8 list \<times> thread) run_result" where
  "nbd_ops_synch_read g len off t =
     (let avail = nat (rw_size (cfg_src g)) - off;
          len = (if len > avail then avail else len)
      in if len = 0 then Ret ([], t)
         else andthen (nbd_call g t) (\<lambda>t. Ret (take len (drop off (rw_bytes (cfg_src g))), t)))"

definition nbd_ops_synch_write :: "copy_cfg \<Rightarrow> u8 list \<Rightarrow> nat \<Rightarrow> thread \<Rightarrow> thread run_result" where
  "nbd_ops_synch_write g data off t = andthen (nbd_call g t) (\<lambda>t. Ret (put_dst off data t))"

definition nbd_ops_synch_zero :: "copy_cfg \<Rightarrow> nat \<Rightarrow> nat \<Rightarrow> bool \<Rightarrow> thread \<Rightarrow> (bool \<times> thread) run_result" where
  "nbd_ops_synch_zero g off count alloc t =
     (if \<not> rw_can_zero (dst t) then Ret (False, t)
      else andthen (nbd_call g t) (\<lambda>t. Ret (True, zero_dst off count t)))"

definition nbd_ops_asynch_read :: "copy_cfg \<Rightarrow> copy_command \<Rightarrow> thread \<Rightarrow> thread run_result" where
  "nbd_ops_asynch_read g command t =
     andthen (slice_bytes command t) (\<lambda>_.
     andthen (nbd_call g t) (\<lambda>t. Ret (t\<lparr>src_flight := src_flight t @ [command]\<rparr>)))"

definition nbd_ops_asynch_write :: "copy_cfg \<Rightarrow> copy_command \<Rightarrow> thread \<Rightarrow> thread run_result" where
  "nbd_ops_asynch_write g command t =
     andthen (slice_bytes command t) (\<lambda>_.
     andthen (nbd_call g t) (\<lambda>t. Ret (t\<lparr>dst_flight := dst_flight t @ [command]\<rparr>)))"

definition nbd_ops_asynch_zero :: "copy_cfg \<Rightarrow> copy_command \<Rightarrow> thread \<Rightarrow> (bool \<times> thread) run_result" where
  "nbd_ops_asynch_zero g command t =
     (if \<not> rw_can_zero (dst t) then Ret (False, t)
      else andthen (must ABORT (cmd_len command \<le> 2 ^ 32 - 1)) (\<lambda>_.
           andthen (nbd_call g t) (\<lambda>t. Ret (True, t\<lparr>dst_flight := dst_flight t @ [command]\<rparr>))))"

section \<open>Callbacks\<close>

definition finished_command :: "nat \<Rightarrow> copy_command \<Rightarrow> thread \<Rightarrow> thread run_result" where
  "finished_command err command t =
     (if err \<noteq> 0 then Ends EXIT_FAILURE
      else andthen (if cmd_buffer command \<noteq> None then decrease_queue_size (cmd_len command) t else Ret t)
             (free_command command))"

text \<open>
  The asynchronous operations of the destination. Those of files and of the null device are done at once and
  call \<^verbatim>\<open>finished_command\<close> themselves.
\<close>

definition file_asynch_write :: "copy_cfg \<Rightarrow> copy_command \<Rightarrow> thread \<Rightarrow> thread run_result" where
  "file_asynch_write g command t =
     andthen (slice_bytes command t) (\<lambda>data.
     andthen (file_synch_write g data (cmd_offset command) t)
       (finished_command 0 command))"

definition file_asynch_zero :: "copy_cfg \<Rightarrow> copy_command \<Rightarrow> bool \<Rightarrow> thread \<Rightarrow> (bool \<times> thread) run_result" where
  "file_asynch_zero g command alloc t =
     andthen (file_synch_zero g (cmd_offset command) (cmd_len command) alloc t) (\<lambda>(ok, t).
     if \<not> ok then Ret (False, t)
     else andthen (finished_command 0 command t) (\<lambda>t. Ret (True, t)))"

definition null_asynch_write :: "copy_command \<Rightarrow> thread \<Rightarrow> thread run_result" where
  "null_asynch_write command t = finished_command 0 command t"

definition null_asynch_zero :: "copy_command \<Rightarrow> thread \<Rightarrow> (bool \<times> thread) run_result" where
  "null_asynch_zero command t = andthen (finished_command 0 command t) (\<lambda>t. Ret (True, t))"

definition asynch_write :: "copy_cfg \<Rightarrow> copy_command \<Rightarrow> thread \<Rightarrow> thread run_result" where
  "asynch_write g command t =
     (case rw_ops (dst t) of
        FILE_OPS \<Rightarrow> file_asynch_write g command t
      | NBD_OPS \<Rightarrow> nbd_ops_asynch_write g command t
      | NULL_OPS \<Rightarrow> null_asynch_write command t
      | PIPE_OPS \<Rightarrow> Ends ABORT)"

definition asynch_zero :: "copy_cfg \<Rightarrow> copy_command \<Rightarrow> bool \<Rightarrow> thread \<Rightarrow> (bool \<times> thread) run_result" where
  "asynch_zero g command alloc t =
     (case rw_ops (dst t) of
        FILE_OPS \<Rightarrow> file_asynch_zero g command alloc t
      | NBD_OPS \<Rightarrow> nbd_ops_asynch_zero g command t
      | NULL_OPS \<Rightarrow> null_asynch_zero command t
      | PIPE_OPS \<Rightarrow> Ret (False, t))"

definition pipe_synch_write :: "copy_cfg \<Rightarrow> u8 list \<Rightarrow> thread \<Rightarrow> thread run_result" where
  "pipe_synch_write g data t = file_synch_write g data (length (rw_bytes (dst t))) t"

definition synch_write :: "copy_cfg \<Rightarrow> u8 list \<Rightarrow> nat \<Rightarrow> thread \<Rightarrow> thread run_result" where
  "synch_write g data off t =
     (case rw_ops (dst t) of
        FILE_OPS \<Rightarrow> file_synch_write g data off t
      | NBD_OPS \<Rightarrow> nbd_ops_synch_write g data off t
      | NULL_OPS \<Rightarrow> Ret t
      | PIPE_OPS \<Rightarrow> pipe_synch_write g data t)"

text \<open>
  The loop that writes zeroes in parts of at most \<open>n\<close> bytes; \<^verbatim>\<open>main\<close> makes sure that the request size, and so \<open>n\<close>, is not 0.
\<close>

function write_zeroes :: "copy_cfg \<Rightarrow> nat \<Rightarrow> nat \<Rightarrow> nat \<Rightarrow> thread \<Rightarrow> thread run_result" where
  "write_zeroes g n off count t =
     (if count = 0 \<or> n = 0 then Ret t
      else let len = (if count > n then n else count)
           in andthen (synch_write g (replicate len 0) off t) (write_zeroes g n (off + len) (count - len)))"
  by pat_completeness auto
termination
  by (relation "measure (\<lambda>(g, n, off, count, t). count)") (auto simp: Let_def)

declare write_zeroes.simps [simp del]

definition fill_dst_range_with_zeroes :: "copy_cfg \<Rightarrow> copy_command \<Rightarrow> thread \<Rightarrow> thread run_result" where
  "fill_dst_range_with_zeroes g command t =
     (if cfg_target_is_zero g then free_command command t
      else andthen (asynch_zero g command (cfg_allocated g) t) (\<lambda>(ok, t).
        if ok then Ret t
        else andthen (allocate g t) (\<lambda>t.
             andthen (write_zeroes g (min (cfg_request_size g) (cmd_len command)) (cmd_offset command) (cmd_len command) t)
               (free_command command))))"

text \<open>
  The range from \<open>lo\<close> up to \<open>hi\<close> of a finished read becomes a command of its own, a write or (\<open>zero\<close>) a zeroing.
\<close>

definition sub_write :: "copy_cfg \<Rightarrow> copy_command \<Rightarrow> nat \<Rightarrow> nat \<Rightarrow> thread \<Rightarrow> thread run_result" where
  "sub_write g command lo hi t =
     andthen (create_subcommand g command lo (hi - lo) False t) (\<lambda>(newcommand, t). asynch_write g newcommand t)"

definition sub_zero :: "copy_cfg \<Rightarrow> copy_command \<Rightarrow> nat \<Rightarrow> nat \<Rightarrow> thread \<Rightarrow> thread run_result" where
  "sub_zero g command lo hi t =
     andthen (create_subcommand g command lo (hi - lo) True t) (\<lambda>(newcommand, t).
     andthen (decrease_queue_size (cmd_len newcommand) t) (fill_dst_range_with_zeroes g newcommand))"

text \<open>
  The loop over the blocks of a finished read: \<open>data\<close> is the slice of the command, which starts at \<open>start\<close> and ends at
  \<open>fin\<close>. The result is the value of \<^verbatim>\<open>i\<close>, \<^verbatim>\<open>last_offset\<close> and \<^verbatim>\<open>last_is_zero\<close> after the loop.
\<close>

function sparse_loop :: "copy_cfg \<Rightarrow> copy_command \<Rightarrow> u8 list \<Rightarrow> nat \<Rightarrow> nat \<Rightarrow> nat \<Rightarrow> bool \<Rightarrow> thread \<Rightarrow>
    (nat \<times> nat \<times> bool \<times> thread) run_result" where
  "sparse_loop g command data fin i last_offset last_is_zero t =
     (if 0 < cfg_sparse_size g \<and> i + cfg_sparse_size g \<le> fin
      then
        if is_zero (take (cfg_sparse_size g) (drop (i - cmd_offset command) data))
        then
          if \<not> last_is_zero
          then andthen (if i - last_offset > 0 then sub_write g command last_offset i t else Ret t)
                 (sparse_loop g command data fin (i + cfg_sparse_size g) i True)
          else sparse_loop g command data fin (i + cfg_sparse_size g) last_offset True t
        else
          if last_is_zero
          then andthen (if i - last_offset > 0 then sub_zero g command last_offset i t else Ret t)
                 (sparse_loop g command data fin (i + cfg_sparse_size g) i False)
          else sparse_loop g command data fin (i + cfg_sparse_size g) last_offset False t
      else Ret (i, last_offset, last_is_zero, t))"
  by pat_completeness auto
termination
  by (relation "measure (\<lambda>(g, command, data, fin, i, last_offset, last_is_zero, t). fin - i)") auto

declare sparse_loop.simps [simp del]

definition finished_read :: "copy_cfg \<Rightarrow> nat \<Rightarrow> copy_command \<Rightarrow> thread \<Rightarrow> thread run_result" where
  "finished_read g err command t =
     (if err \<noteq> 0 then Ends EXIT_FAILURE
      else if cfg_allocated g \<or> cfg_sparse_size g = 0 then asynch_write g command t
      else
        let start = cmd_offset command; fin = start + cmd_len command
        in (case ROUND_UP (of_nat start) (of_nat (cfg_sparse_size g)) of
            None \<Rightarrow> Ends ABORT
          | Some up \<Rightarrow>
              andthen (slice_bytes command t) (\<lambda>data.
              andthen (sparse_loop g command data fin (min (unat up) fin) start False t)
                (\<lambda>(i, last_offset, last_is_zero, t).
              andthen (if i - last_offset > 0
                       then if \<not> last_is_zero then sub_write g command last_offset i t
                            else sub_zero g command last_offset i t
                       else Ret t) (\<lambda>t.
              andthen (if fin - i > 0 then sub_write g command i fin t else Ret t)
                (free_command command))))))"

definition file_asynch_read :: "copy_cfg \<Rightarrow> copy_command \<Rightarrow> thread \<Rightarrow> thread run_result" where
  "file_asynch_read g command t =
     andthen (file_synch_read g (cmd_len command) (cmd_offset command) t) (\<lambda>(data, t).
     andthen (fill_slice command data t)
       (finished_read g 0 command))"

definition asynch_read :: "copy_cfg \<Rightarrow> copy_command \<Rightarrow> thread \<Rightarrow> thread run_result" where
  "asynch_read g command t =
     (case rw_ops (cfg_src g) of
        FILE_OPS \<Rightarrow> file_asynch_read g command t
      | NBD_OPS \<Rightarrow> nbd_ops_asynch_read g command t
      | NULL_OPS \<Rightarrow> Ends ABORT
      | PIPE_OPS \<Rightarrow> Ends ABORT)"

section \<open>Extents\<close>

definition default_get_extents :: "copy_cfg \<Rightarrow> nat \<Rightarrow> nat \<Rightarrow> thread \<Rightarrow> (extent list \<times> thread) run_result" where
  "default_get_extents g off count t =
     andthen (allocate g t) (\<lambda>t. Ret ([\<lparr>ext_offset = off, ext_length = count, ext_zero = False\<rparr>], t))"

definition LIBNBD_STATE_ZERO :: nat where "LIBNBD_STATE_ZERO = 2"

text \<open>One call of the callback of a block status request: the extents it adds to the list.\<close>

fun add_entries :: "nat \<Rightarrow> (nat \<times> nat) list \<Rightarrow> extent list" where
  "add_entries off [] = []"
| "add_entries off ((len, flags) # entries) =
     \<lparr>ext_offset = off, ext_length = len, ext_zero = (flags AND LIBNBD_STATE_ZERO \<noteq> 0)\<rparr> # add_entries (off + len) entries"

definition add_extent :: "nat \<Rightarrow> string \<times> (nat \<times> nat) list \<times> nat \<Rightarrow> extent list \<Rightarrow> extent list" where
  "add_extent off call ret =
     (case call of (metacontext, entries, error) \<Rightarrow>
        if metacontext \<noteq> ''base:allocation'' \<or> error \<noteq> 0 then ret else ret @ add_entries off entries)"

text \<open>The extents of one answer are copied, cut at the end of the range, and have to follow each other.\<close>

fun copy_extents :: "extent list \<Rightarrow> nat \<Rightarrow> nat \<Rightarrow> extent list \<Rightarrow> (nat \<times> nat \<times> extent list) run_result" where
  "copy_extents [] off count ret = Ret (off, count, ret)"
| "copy_extents (e # exts) off count ret =
     andthen (must ABORT (ext_offset e = off)) (\<lambda>_.
     let len = (if ext_offset e + ext_length e > off + count
                then ext_length e - (ext_offset e + ext_length e - off - count) else ext_length e)
     in if len = 0 then copy_extents exts off count ret
        else copy_extents exts (off + len) (count - len) (ret @ [e\<lparr>ext_length := len\<rparr>]))"

lemma copy_extents_progress:
  "copy_extents exts off count ret = Ret (off', count', ret') \<Longrightarrow> off' + count' = off + count \<and> off \<le> off'"
proof (induction exts off count ret rule: copy_extents.induct)
  case (2 e exts off count ret)
  then show ?case
    by (fastforce simp: must_def Let_def split: if_splits)
qed simp

text \<open>
  The lists grow while they are filled; one answer of the allocator stands for all of that.
\<close>

function nbd_ops_get_extents :: "copy_cfg \<Rightarrow> nat \<Rightarrow> nat \<Rightarrow> extent list \<Rightarrow> thread \<Rightarrow> (extent list \<times> thread) run_result" where
  "nbd_ops_get_extents g off count ret t =
     (if count = 0 then Ret (ret, t)
      else (case env_block_status (cfg_env g) (clock t) count off of
          None \<Rightarrow> Ends EXIT_FAILURE
        | Some calls \<Rightarrow>
            if \<not> env_alloc (cfg_env g) (clock (tick t)) then Ends EXIT_FAILURE
            else (case copy_extents (fold (add_extent off) calls []) off count ret of
               Ends e \<Rightarrow> Ends e
             | Ret (off', count', ret') \<Rightarrow>
                 if off' = off then Ends EXIT_FAILURE
                 else nbd_ops_get_extents g off' count' ret' (tick (tick t)))))"
  by pat_completeness auto
termination
  by (relation "measure (\<lambda>(g, off, count, ret, t). count)") (auto dest!: copy_extents_progress)

declare nbd_ops_get_extents.simps [simp del]

text \<open>
  The loop of \<^verbatim>\<open>file_get_extents\<close>. It ends because \<^verbatim>\<open>lseek\<close> finds the end of data behind the data; with each turn the
  position moves on, so that as many turns as there are bytes are enough.
\<close>

fun file_extents_loop :: "nat \<Rightarrow> copy_cfg \<Rightarrow> nat \<Rightarrow> nat \<Rightarrow> extent list \<Rightarrow> thread \<Rightarrow> (extent list \<times> thread) run_result" where
  "file_extents_loop 0 g off fin ret t = Ends HANG"
| "file_extents_loop (Suc n) g off fin ret t =
     (case (case env_seek_data (cfg_env g) (clock t) off of
              Inl err \<Rightarrow> if err = ENXIO then Some fin else None
            | Inr pos \<Rightarrow> Some pos) of
        None \<Rightarrow> Ends EXIT_FAILURE
      | Some pos \<Rightarrow>
          andthen (if pos > off then andthen (allocate g (tick t)) (\<lambda>t.
                     Ret (ret @ [\<lparr>ext_offset = off, ext_length = pos - off, ext_zero = True\<rparr>], t))
                   else Ret (ret, tick t)) (\<lambda>(ret, t).
          if pos \<ge> fin then Ret (ret, t)
          else (case env_seek_hole (cfg_env g) (clock t) pos of
              Inl err \<Rightarrow> Ends EXIT_FAILURE
            | Inr hole \<Rightarrow>
                andthen (if hole > pos then andthen (allocate g (tick t)) (\<lambda>t.
                           Ret (ret @ [\<lparr>ext_offset = pos, ext_length = hole - pos, ext_zero = False\<rparr>], t))
                         else Ret (ret, tick t)) (\<lambda>(ret, t).
                if hole < fin then file_extents_loop n g hole fin ret t else Ret (ret, t)))))"

definition file_get_extents :: "copy_cfg \<Rightarrow> nat \<Rightarrow> nat \<Rightarrow> thread \<Rightarrow> (extent list \<times> thread) run_result" where
  "file_get_extents g off count t =
     (if rw_seek_hole (cfg_src g) then
        let fin = off + count in
        andthen (file_extents_loop (Suc count) g off fin [] t) (\<lambda>(ret, t).
        andthen (must ABORT (ret \<noteq> [])) (\<lambda>_.
        let e = last ret in
        andthen (must ABORT (ext_offset e \<le> fin)) (\<lambda>_.
        if ext_offset e + ext_length e > fin
        then Ret (butlast ret @ [e\<lparr>ext_length := ext_length e - (ext_offset e + ext_length e - fin)\<rparr>], t)
        else Ret (ret, t))))
      else default_get_extents g off count t)"

definition get_extents :: "copy_cfg \<Rightarrow> nat \<Rightarrow> nat \<Rightarrow> thread \<Rightarrow> (extent list \<times> thread) run_result" where
  "get_extents g off count t =
     (case rw_ops (cfg_src g) of
        FILE_OPS \<Rightarrow> file_get_extents g off count t
      | NBD_OPS \<Rightarrow> nbd_ops_get_extents g off count [] t
      | NULL_OPS \<Rightarrow> Ends ABORT
      | PIPE_OPS \<Rightarrow> default_get_extents g off count t)"

text \<open>
  \<^verbatim>\<open>only_zeroes\<close>: first the index of the last extent that starts at or before the offset, then the scan of the
  extents up to the end of the region.
\<close>

function advance_index :: "extent list \<Rightarrow> nat \<Rightarrow> nat \<Rightarrow> nat \<Rightarrow> nat" where
  "advance_index exts off j i =
     (if j < length exts \<and> ext_offset (exts ! j) \<le> off then advance_index exts off (j + 1) j else i)"
  by pat_completeness auto
termination
  by (relation "measure (\<lambda>(exts, off, j, i). length exts - j)") auto

declare advance_index.simps [simp del]

function scan_extents :: "extent list \<Rightarrow> nat \<Rightarrow> nat \<Rightarrow> nat \<Rightarrow> bool run_result" where
  "scan_extents exts off len j =
     (if j < length exts
      then andthen (must ABORT (ext_offset (exts ! j) + ext_length (exts ! j) > off)) (\<lambda>_.
           if ext_offset (exts ! j) \<ge> off + len then Ret True
           else if \<not> ext_zero (exts ! j) then Ret False
           else scan_extents exts off len (j + 1))
      else Ret True)"
  by pat_completeness auto
termination
  by (relation "measure (\<lambda>(exts, off, len, j). length exts - j)") auto

declare scan_extents.simps [simp del]

definition only_zeroes :: "extent list \<Rightarrow> nat \<Rightarrow> nat \<Rightarrow> nat \<Rightarrow> (bool \<times> nat) run_result" where
  "only_zeroes exts i off len =
     andthen (must ABORT (i < length exts)) (\<lambda>_.
     andthen (must ABORT (ext_offset (exts ! i) \<le> off)) (\<lambda>_.
     let i = advance_index exts off (i + 1) i in
     andthen (must ABORT (i < length exts)) (\<lambda>_.
     andthen (must ABORT (ext_offset (exts ! i) \<le> off)) (\<lambda>_.
     andthen (must ABORT (i = length exts - 1 \<or> ext_offset (exts ! (i + 1)) > off)) (\<lambda>_.
     andthen (scan_extents exts off len i) (\<lambda>r. Ret (r, i)))))))"

section \<open>Worker threads\<close>

definition src_size :: "copy_cfg \<Rightarrow> nat" where
  "src_size g = nat (rw_size (cfg_src g))"

text \<open>The next range of the source, taken under the lock; \<^const>\<open>None\<close> when there is no more work.\<close>

definition get_next_offset :: "copy_cfg \<Rightarrow> thread \<Rightarrow> (nat \<times> nat) option \<times> thread" where
  "get_next_offset g t =
     (if next_offset t < src_size g
      then let off = next_offset t; count = src_size g - off;
               count = (if count > THREAD_WORK_SIZE then THREAD_WORK_SIZE else count)
           in (Some (off, count), t\<lparr>next_offset := next_offset t + THREAD_WORK_SIZE\<rparr>)
      else (None, t))"

definition in_flight :: "thread \<Rightarrow> nat" where
  "in_flight t = length (src_flight t) + length (dst_flight t)"

text \<open>Zeroing that was put off is done in one command.\<close>

definition flush_zeroing :: "copy_cfg \<Rightarrow> thread \<Rightarrow> thread run_result" where
  "flush_zeroing g t =
     (if is_zeroing t
      then andthen (create_command g (zeroing_start t) (w_offset t - zeroing_start t) True t) (\<lambda>(command, t).
           andthen (fill_dst_range_with_zeroes g command t) (\<lambda>t. Ret (t\<lparr>is_zeroing := False\<rparr>)))
      else Ret t)"

definition next_block :: "nat \<Rightarrow> thread \<Rightarrow> thread" where
  "next_block len t = t\<lparr>w_offset := w_offset t + len, w_count := w_count t - len, pc := LOOP\<rparr>"

text \<open>
  What \<^verbatim>\<open>worker_thread\<close> does from one of its places to the next. \<^const>\<open>None\<close>: it waits in \<^verbatim>\<open>poll_both_ends\<close>.
  While a thread waits, and also when it calls the library to get the extents or to issue a command, the
  callbacks of commands in flight are called: these are separate steps below.
\<close>

definition worker_loop :: "copy_cfg \<Rightarrow> thread \<Rightarrow> thread run_result" where
  "worker_loop g t =
     (if w_count t = 0
      then andthen (flush_zeroing g t) (\<lambda>t. Ret (t\<lparr>pc := TOP\<rparr>))
      else let len = min (w_count t) (cfg_request_size g) in
        andthen (only_zeroes (w_exts t) (extent_index t) (w_offset t) len) (\<lambda>(zero, i).
        let t = t\<lparr>extent_index := i\<rparr> in
        if zero then
          Ret (next_block len (if is_zeroing t then t else t\<lparr>is_zeroing := True, zeroing_start := w_offset t\<rparr>))
        else
          andthen (flush_zeroing g t) (\<lambda>t.
          andthen (create_command g (w_offset t) len False t) (\<lambda>(command, t).
          Ret (t\<lparr>pc := ISSUE command\<rparr>)))))"

definition worker_issue :: "copy_cfg \<Rightarrow> copy_command \<Rightarrow> thread \<Rightarrow> thread run_result option" where
  "worker_issue g command t =
     (if in_flight t \<ge> cfg_max_requests g \<or> wqueue_size t \<ge> cfg_queue_size g then None
      else Some (andthen (increase_queue_size g (cmd_len command) t) (\<lambda>t.
                 andthen (asynch_read g command (t\<lparr>pc := LOOP\<rparr>)) (\<lambda>t.
                 Ret (next_block (cmd_len command) t)))))"

definition worker_step :: "copy_cfg \<Rightarrow> thread \<Rightarrow> thread run_result option" where
  "worker_step g t =
     (case pc t of
        TOP \<Rightarrow> Some (case get_next_offset g t of
            (None, t) \<Rightarrow> Ret (t\<lparr>pc := DRAIN\<rparr>)
          | (Some (off, count), t) \<Rightarrow>
              andthen (must ABORT (0 < count \<and> count \<le> THREAD_WORK_SIZE)) (\<lambda>_.
              Ret (t\<lparr>w_offset := off, w_count := count, pc := EXTENTS\<rparr>)))
      | EXTENTS \<Rightarrow> Some (andthen (if cfg_extents g then get_extents g (w_offset t) (w_count t) t
                                  else default_get_extents g (w_offset t) (w_count t) t) (\<lambda>(exts, t).
                         Ret (t\<lparr>w_exts := exts, extent_index := 0, is_zeroing := False, pc := LOOP\<rparr>)))
      | LOOP \<Rightarrow> Some (worker_loop g t)
      | ISSUE command \<Rightarrow> worker_issue g command t
      | DRAIN \<Rightarrow> (if in_flight t > 0 then None else Some (Ret (t\<lparr>pc := FINISHED\<rparr>)))
      | FINISHED \<Rightarrow> None)"

text \<open>
  The library completes a command in flight and calls its callback: a read has stored the bytes of the
  source in the buffer, a write or zeroing command has changed the destination. \<open>err\<close> is the error of the command.
\<close>

definition complete_read :: "copy_cfg \<Rightarrow> nat \<Rightarrow> nat \<Rightarrow> thread \<Rightarrow> thread run_result" where
  "complete_read g n err t =
     (let command = src_flight t ! n;
          t = t\<lparr>src_flight := take n (src_flight t) @ drop (n + 1) (src_flight t)\<rparr>
      in andthen (if err \<noteq> 0 then Ret t
                  else fill_slice command (take (cmd_len command) (drop (cmd_offset command) (rw_bytes (cfg_src g)))) t)
           (finished_read g err command))"

definition complete_write :: "copy_cfg \<Rightarrow> nat \<Rightarrow> nat \<Rightarrow> thread \<Rightarrow> thread run_result" where
  "complete_write g n err t =
     (let command = dst_flight t ! n;
          t = t\<lparr>dst_flight := take n (dst_flight t) @ drop (n + 1) (dst_flight t)\<rparr>
      in andthen (if err \<noteq> 0 then Ret t
                  else if cmd_buffer command = None then Ret (zero_dst (cmd_offset command) (cmd_len command) t)
                  else andthen (slice_bytes command t) (\<lambda>data. Ret (put_dst (cmd_offset command) data t)))
           (finished_command err command))"

section \<open>Many threads\<close>

record copy =
  g_clock :: nat
  g_dst :: rw
  g_next :: nat
  g_threads :: "thread list"

definition activate :: "copy \<Rightarrow> nat \<Rightarrow> thread" where
  "activate s k = (g_threads s ! k)\<lparr>clock := g_clock s, dst := g_dst s, next_offset := g_next s\<rparr>"

definition deactivate :: "nat \<Rightarrow> copy \<Rightarrow> thread \<Rightarrow> copy" where
  "deactivate k s t = \<lparr>g_clock = clock t, g_dst = dst t, g_next = next_offset t, g_threads = (g_threads s)[k := t]\<rparr>"

definition start_thread :: "rw \<Rightarrow> thread" where
  "start_thread d = \<lparr>clock = 0, dst = d, next_offset = 0, wqueue_size = 0, bufs = (\<lambda>_. None), next_buf = 0,
     src_flight = [], dst_flight = [], pc = TOP, w_offset = 0, w_count = 0, w_exts = [], extent_index = 0,
     is_zeroing = False, zeroing_start = 0\<rparr>"

text \<open>\<^verbatim>\<open>multi_thread_copying\<close> starts the threads and waits until all have ended; they run in any interleaving.\<close>

definition multi_thread_copying :: "copy_cfg \<Rightarrow> rw \<Rightarrow> copy run_result" where
  "multi_thread_copying g d =
     andthen (must ABORT (cfg_threads g > 0)) (\<lambda>_.
     andthen (must ABORT (cfg_threads g = cfg_connections g)) (\<lambda>_.
     andthen (must ABORT (rw_size (cfg_src g) \<noteq> -1)) (\<lambda>_.
     Ret \<lparr>g_clock = 0, g_dst = d, g_next = 0, g_threads = replicate (cfg_threads g) (start_thread d)\<rparr>)))"

inductive copy_step :: "copy_cfg \<Rightarrow> copy \<Rightarrow> copy run_result \<Rightarrow> bool" for g :: copy_cfg where
  run: "k < length (g_threads s) \<Longrightarrow> worker_step g (activate s k) = Some r \<Longrightarrow>
    copy_step g s (andthen r (\<lambda>t. Ret (deactivate k s t)))"
| read_done: "k < length (g_threads s) \<Longrightarrow> n < length (src_flight (activate s k)) \<Longrightarrow>
    copy_step g s (andthen (complete_read g n err (activate s k)) (\<lambda>t. Ret (deactivate k s t)))"
| write_done: "k < length (g_threads s) \<Longrightarrow> n < length (dst_flight (activate s k)) \<Longrightarrow>
    copy_step g s (andthen (complete_write g n err (activate s k)) (\<lambda>t. Ret (deactivate k s t)))"

text \<open>The states and ends a run of the threads can reach.\<close>

inductive copy_reach :: "copy_cfg \<Rightarrow> copy run_result \<Rightarrow> copy run_result \<Rightarrow> bool" for g :: copy_cfg where
  start: "copy_reach g o1 o1"
| more: "copy_reach g o1 (Ret s) \<Longrightarrow> copy_step g s o2 \<Longrightarrow> copy_reach g o1 o2"

definition all_finished :: "copy \<Rightarrow> bool" where
  "all_finished s \<longleftrightarrow> list_all (\<lambda>t. pc t = FINISHED) (g_threads s)"

section \<open>Copying with one thread\<close>

definition pipe_synch_read :: "copy_cfg \<Rightarrow> nat \<Rightarrow> nat \<Rightarrow> thread \<Rightarrow> (u8 list \<times> thread) run_result" where
  "pipe_synch_read g len off t =
     (case env_pread (cfg_env g) (clock t) len off of
        None \<Rightarrow> Ends EXIT_FAILURE
      | Some k \<Rightarrow> Ret (take (min k len) (drop off (rw_bytes (cfg_src g))), tick t))"

definition synch_read :: "copy_cfg \<Rightarrow> nat \<Rightarrow> nat \<Rightarrow> thread \<Rightarrow> (u8 list \<times> thread) run_result" where
  "synch_read g len off t =
     (case rw_ops (cfg_src g) of
        FILE_OPS \<Rightarrow> file_synch_read g len off t
      | NBD_OPS \<Rightarrow> nbd_ops_synch_read g len off t
      | NULL_OPS \<Rightarrow> Ends ABORT
      | PIPE_OPS \<Rightarrow> pipe_synch_read g len off t)"

definition synch_zero :: "copy_cfg \<Rightarrow> nat \<Rightarrow> nat \<Rightarrow> bool \<Rightarrow> thread \<Rightarrow> (bool \<times> thread) run_result" where
  "synch_zero g off count alloc t =
     (case rw_ops (dst t) of
        FILE_OPS \<Rightarrow> file_synch_zero g off count alloc t
      | NBD_OPS \<Rightarrow> nbd_ops_synch_zero g off count alloc t
      | NULL_OPS \<Rightarrow> Ret (True, t)
      | PIPE_OPS \<Rightarrow> Ret (False, t))"

text \<open>
  The two loops of \<^verbatim>\<open>synch_copying\<close>. The number of turns is bounded by \<open>n\<close>: every turn copies at least one byte, so that
  one more turn than there are bytes is enough.
\<close>

fun synch_stream :: "nat \<Rightarrow> copy_cfg \<Rightarrow> nat \<Rightarrow> thread \<Rightarrow> thread run_result" where
  "synch_stream 0 g off t = Ends HANG"
| "synch_stream (Suc n) g off t =
     andthen (synch_read g (cfg_request_size g) off t) (\<lambda>(data, t).
     if data = [] then Ret t
     else andthen (synch_write g data off t) (synch_stream n g (off + length data)))"

definition synch_zero_extent :: "copy_cfg \<Rightarrow> nat \<Rightarrow> nat \<Rightarrow> thread \<Rightarrow> thread run_result" where
  "synch_zero_extent g off len t =
     andthen (synch_zero g off len False t) (\<lambda>(ok, t).
     if ok then Ret t
     else andthen (synch_zero g off len True t) (\<lambda>(ok, t).
     if ok then Ret t else synch_write g (replicate len 0) off t))"

fun synch_extents :: "copy_cfg \<Rightarrow> nat \<Rightarrow> extent list \<Rightarrow> nat \<Rightarrow> thread \<Rightarrow> (nat \<times> thread) run_result" where
  "synch_extents g count [] off t = Ret (off, t)"
| "synch_extents g count (e # exts) off t =
     andthen (must ABORT (ext_length e \<le> count)) (\<lambda>_.
     if ext_zero e
     then andthen (synch_zero_extent g off (ext_length e) t) (synch_extents g count exts (off + ext_length e))
     else andthen (synch_read g (ext_length e) off t) (\<lambda>(data, t).
       if data = [] \<or> length data < ext_length e then Ends EXIT_FAILURE
       else andthen (synch_write g data off t) (synch_extents g count exts (off + length data))))"

fun synch_blocks :: "nat \<Rightarrow> copy_cfg \<Rightarrow> nat \<Rightarrow> thread \<Rightarrow> thread run_result" where
  "synch_blocks 0 g off t = (if off < src_size g then Ends HANG else Ret t)"
| "synch_blocks (Suc n) g off t =
     (if off < src_size g
      then let count = (if src_size g - off > cfg_request_size g then cfg_request_size g else src_size g - off) in
        andthen (if cfg_extents g then get_extents g off count t else default_get_extents g off count t) (\<lambda>(exts, t).
        andthen (synch_extents g count exts off t) (\<lambda>(off, t).
        synch_blocks n g off t))
      else Ret t)"

definition synch_copying :: "copy_cfg \<Rightarrow> thread \<Rightarrow> thread run_result" where
  "synch_copying g t =
     andthen (allocate g t) (\<lambda>t.
     if rw_size (cfg_src g) = -1 then synch_stream (Suc (length (rw_bytes (cfg_src g)))) g 0 t
     else synch_blocks (src_size g) g 0 t)"

section \<open>The main program\<close>

text \<open>
  The options, as \<^verbatim>\<open>getopt_long\<close> delivers them. \<open>scan_unsigned\<close> is \<^verbatim>\<open>sscanf\<close> with \<^verbatim>\<open>%u\<close>.
\<close>

datatype copy_option =
    ALLOCATED | TARGET_IS_ZERO | FLUSH | NO_EXTENTS | SYNCHRONOUS
  | CONNECTIONS string | QUEUE_SIZE string | REQUEST_SIZE string | REQUESTS string | SPARSE string | THREADS string

definition scan_unsigned :: "string \<Rightarrow> nat option" where
  "scan_unsigned str =
     (let s = dropWhile is_space str;
          neg = (s \<noteq> [] \<and> hd s = CHR ''-'');
          t = (if s \<noteq> [] \<and> (hd s = CHR ''-'' \<or> hd s = CHR ''+'') then tl s else s);
          ds = takeWhile is_digit t;
          v = (if digits_value ds \<ge> 2 ^ 64 then 2 ^ 64 - 1
               else if neg then (2 ^ 64 - digits_value ds) mod 2 ^ 64 else digits_value ds)
      in if ds = [] then None else Some (v mod 2 ^ 32))"

definition number :: "(nat \<Rightarrow> bool) \<Rightarrow> nat option \<Rightarrow> nat run_result" where
  "number ok v = (case v of None \<Rightarrow> Ends EXIT_FAILURE | Some n \<Rightarrow> if ok n then Ret n else Ends EXIT_FAILURE)"

definition human :: "string \<Rightarrow> nat option" where
  "human str = (case human_size_parse str of Inl _ \<Rightarrow> None | Inr n \<Rightarrow> Some n)"

fun main_option :: "copy_option \<Rightarrow> copy_cfg \<Rightarrow> copy_cfg run_result" where
  "main_option ALLOCATED g = Ret (g\<lparr>cfg_allocated := True\<rparr>)"
| "main_option TARGET_IS_ZERO g = Ret (g\<lparr>cfg_target_is_zero := True\<rparr>)"
| "main_option FLUSH g = Ret (g\<lparr>cfg_flush := True\<rparr>)"
| "main_option NO_EXTENTS g = Ret (g\<lparr>cfg_extents := False\<rparr>)"
| "main_option SYNCHRONOUS g = Ret (g\<lparr>cfg_synchronous := True\<rparr>)"
| "main_option (CONNECTIONS s) g = andthen (number (\<lambda>n. n \<noteq> 0) (scan_unsigned s)) (\<lambda>n. Ret (g\<lparr>cfg_connections := n\<rparr>))"
| "main_option (QUEUE_SIZE s) g = andthen (number (\<lambda>n. n \<le> 2 ^ 32 - 1) (human s)) (\<lambda>n. Ret (g\<lparr>cfg_queue_size := n\<rparr>))"
| "main_option (REQUEST_SIZE s) g =
     andthen (number (\<lambda>n. MIN_REQUEST_SIZE \<le> n \<and> n \<le> COPY_MAX_REQUEST_SIZE \<and> is_power_of_2 (of_nat n)) (human s)) (\<lambda>n.
     Ret (g\<lparr>cfg_request_size := n\<rparr>))"
| "main_option (REQUESTS s) g = andthen (number (\<lambda>n. n \<noteq> 0) (scan_unsigned s)) (\<lambda>n. Ret (g\<lparr>cfg_max_requests := n\<rparr>))"
| "main_option (SPARSE s) g =
     andthen (number (\<lambda>n. n = 0 \<or> 512 \<le> n \<and> n \<le> 2 ^ 32 - 1 \<and> is_power_of_2 (of_nat n)) (human s)) (\<lambda>n.
     Ret (g\<lparr>cfg_sparse_size := n\<rparr>))"
| "main_option (THREADS s) g = andthen (number (\<lambda>n. True) (scan_unsigned s)) (\<lambda>n. Ret (g\<lparr>cfg_threads := n\<rparr>))"

fun main_options :: "copy_option list \<Rightarrow> copy_cfg \<Rightarrow> copy_cfg run_result" where
  "main_options [] g = Ret g"
| "main_options (x # xs) g = andthen (main_option x g) (main_options xs)"

text \<open>The defaults of the global variables.\<close>

definition copy_defaults :: "copy_cfg \<Rightarrow> copy_cfg" where
  "copy_defaults g = g\<lparr>cfg_allocated := False, cfg_target_is_zero := False, cfg_extents := True, cfg_flush := False,
     cfg_max_requests := 64, cfg_queue_size := 16 * 1024 * 1024, cfg_request_size := 256 * 1024,
     cfg_sparse_size := 4096, cfg_synchronous := False, cfg_threads := 0, cfg_connections := 4\<rparr>"

text \<open>What opening a side given as a subprocess, or as a pipe, means for the settings.\<close>

definition after_open :: "bool \<Rightarrow> rw \<Rightarrow> copy_cfg \<Rightarrow> copy_cfg" where
  "after_open subprocess r g =
     (let g = (if subprocess then g\<lparr>cfg_connections := 1\<rparr> else g)
      in if rw_ops r = PIPE_OPS then g\<lparr>cfg_synchronous := True\<rparr> else g)"

definition is_read_only :: "rw \<Rightarrow> bool" where
  "is_read_only r \<longleftrightarrow> rw_ops r = NBD_OPS \<and> rw_read_only r"

definition can_multi_conn :: "rw \<Rightarrow> bool" where
  "can_multi_conn r = (case rw_ops r of NBD_OPS \<Rightarrow> rw_multi_conn r | PIPE_OPS \<Rightarrow> False | _ \<Rightarrow> True)"

definition can_extents :: "rw \<Rightarrow> bool" where
  "can_extents r = (case rw_ops r of NBD_OPS \<Rightarrow> rw_meta_context r | FILE_OPS \<Rightarrow> True | _ \<Rightarrow> False)"

text \<open>
  \<^verbatim>\<open>file_truncate\<close>: the file is emptied, then given the size of the source, which is an error when that is not
  known. \<open>oks\<close> are the results of the two calls of \<^verbatim>\<open>ftruncate\<close>. The state of the destination is part of every result, since
  the file is already empty when the second call fails.
\<close>

definition file_truncate :: "bool \<times> bool \<Rightarrow> int \<Rightarrow> rw \<Rightarrow> copy_cfg \<Rightarrow> rw \<times> copy_cfg run_result" where
  "file_truncate oks new_size d g =
     (if rw_is_block d then (d, Ret g)
      else if \<not> fst oks then (d, Ends EXIT_FAILURE)
      else let d = d\<lparr>rw_bytes := []\<rparr>
           in if new_size < 0 \<or> \<not> snd oks then (d, Ends EXIT_FAILURE)
              else (d\<lparr>rw_bytes := replicate (nat new_size) 0, rw_size := new_size\<rparr>, Ret (g\<lparr>cfg_target_is_zero := True\<rparr>)))"

definition main_truncate :: "bool \<times> bool \<Rightarrow> rw \<Rightarrow> copy_cfg \<Rightarrow> rw \<times> copy_cfg run_result" where
  "main_truncate oks d g =
     (if rw_ops d = FILE_OPS then file_truncate oks (rw_size (cfg_src g)) d g else (d, Ret g))"

text \<open>
  The settings that follow from each other and from the two sides, up to the truncation of the destination. \<open>cpus\<close> is the
  number of processors online. Assigning to an \<^verbatim>\<open>unsigned\<close> variable drops the high bits.
\<close>

definition main_threads :: "nat \<Rightarrow> rw \<Rightarrow> copy_cfg \<Rightarrow> copy_cfg" where
  "main_threads cpus d g =
     (let g = (if \<not> can_multi_conn (cfg_src g) \<or> \<not> can_multi_conn d then g\<lparr>cfg_connections := 1\<rparr> else g);
          g = (if cfg_threads g = 0 then g\<lparr>cfg_threads := (if cpus = 0 then 1 else cpus)\<rparr> else g);
          g = (if cfg_synchronous g then g\<lparr>cfg_connections := 1\<rparr> else g);
          g = (if cfg_connections g < cfg_threads g then g\<lparr>cfg_threads := cfg_connections g\<rparr> else g)
      in if cfg_threads g < cfg_connections g then g\<lparr>cfg_connections := cfg_threads g\<rparr> else g)"

definition main_sizes :: "rw \<Rightarrow> copy_cfg \<Rightarrow> copy_cfg run_result" where
  "main_sizes d g =
     (let r = max (max (cfg_request_size g) (rw_preferred (cfg_src g)) mod 2 ^ 32) (rw_preferred d) mod 2 ^ 32;
          q = (if r > cfg_queue_size g then r else cfg_queue_size g);
          s = (if cfg_sparse_size g > 0 \<and> cfg_sparse_size g < rw_preferred d then rw_preferred d mod 2 ^ 32
               else cfg_sparse_size g)
      in andthen (must ABORT (r > 0)) (\<lambda>_.
         andthen (must ABORT (r \<le> COPY_MAX_REQUEST_SIZE)) (\<lambda>_.
         andthen (must ABORT (r \<le> THREAD_WORK_SIZE)) (\<lambda>_.
         andthen (must ABORT (is_power_of_2 (of_nat r))) (\<lambda>_.
         andthen (must ABORT (s = 0 \<or> is_power_of_2 (of_nat s))) (\<lambda>_.
         Ret (g\<lparr>cfg_request_size := r, cfg_queue_size := q, cfg_sparse_size := s\<rparr>)))))))"

definition main_setup :: "nat \<Rightarrow> bool \<Rightarrow> bool \<Rightarrow> rw \<Rightarrow> copy_cfg \<Rightarrow> copy_cfg run_result" where
  "main_setup cpus src_sub dst_sub d g =
     (let g = after_open dst_sub d (after_open src_sub (cfg_src g) g) in
      andthen (must ABORT (rw_preferred (cfg_src g) > 0 \<and> is_power_of_2 (of_nat (rw_preferred (cfg_src g))))) (\<lambda>_.
      andthen (must ABORT (rw_preferred d > 0 \<and> is_power_of_2 (of_nat (rw_preferred d)))) (\<lambda>_.
      andthen (must EXIT_FAILURE (\<not> is_read_only d)) (\<lambda>_.
      andthen (must ABORT (cfg_threads g = 0 \<longrightarrow> cpus \<le> 2 ^ 32 - 1)) (\<lambda>_.
      main_sizes d (main_threads cpus d g))))))"

definition main_finish :: "rw \<Rightarrow> copy_cfg \<Rightarrow> copy_cfg run_result" where
  "main_finish d g =
     andthen (must EXIT_FAILURE (\<not> (rw_size (cfg_src g) \<ge> 0 \<and> rw_size d \<ge> 0 \<and> rw_size (cfg_src g) > rw_size d))) (\<lambda>_.
     andthen (must ABORT (cfg_connections g > 1 \<longrightarrow> cfg_threads g = cfg_connections g)) (\<lambda>_.
     Ret (if \<not> can_extents (cfg_src g) then g\<lparr>cfg_extents := False\<rparr> else g)))"

text \<open>
  \<^verbatim>\<open>main\<close> up to the start of the copy: the destination and the settings it starts with.
\<close>

definition copy_main ::
    "copy_option list \<Rightarrow> nat \<Rightarrow> bool \<times> bool \<Rightarrow> bool \<Rightarrow> bool \<Rightarrow> rw \<Rightarrow> copy_cfg \<Rightarrow> rw \<times> copy_cfg run_result" where
  "copy_main options cpus oks src_sub dst_sub d g =
     (case andthen (main_options options (copy_defaults g)) (main_setup cpus src_sub dst_sub d) of
        Ends e \<Rightarrow> (d, Ends e)
      | Ret g \<Rightarrow> (case main_truncate oks d g of (d, r) \<Rightarrow> (d, andthen r (main_finish d))))"

end
