(* ===== verification/NBD_Copy_Safe.thy ===== *)
theory NBD_Copy_Safe
  imports NBD_Copy
begin

text \<open>
  What the operations of the copying tool keep and achieve: the buffers are counted right, the queue size is the
  number of bytes in flight, and the destination only ever changes towards the source. The lemmas are about
  one thread at a time; they are put together for all threads in the theory of the properties.
\<close>

section \<open>Outcomes\<close>

text \<open>The program goes on in a state with the given property, or exits with an error message.\<close>

definition safe :: "('a \<Rightarrow> bool) \<Rightarrow> 'a run_result \<Rightarrow> bool" where
  "safe Q r = (case r of Ret x \<Rightarrow> Q x | Ends e \<Rightarrow> e = EXIT_FAILURE)"

lemma safe_Ret [simp]: "safe Q (Ret x) = Q x"
  by (simp add: safe_def)

lemma safe_Ends [simp]: "safe Q (Ends e) = (e = EXIT_FAILURE)"
  by (simp add: safe_def)

lemma safe_andthen: "safe P r \<Longrightarrow> (\<And>x. P x \<Longrightarrow> safe Q (f x)) \<Longrightarrow> safe Q (andthen r f)"
  by (cases r) simp_all

lemma safe_mono: "safe P r \<Longrightarrow> (\<And>x. P x \<Longrightarrow> Q x) \<Longrightarrow> safe Q r"
  by (cases r) simp_all

lemma safe_must [simp]: "safe Q (andthen (must e b) f) = (if b then safe Q (f ()) else e = EXIT_FAILURE)"
  by (simp add: must_def)

lemma safe_RetD: "safe Q r \<Longrightarrow> r = Ret x \<Longrightarrow> Q x"
  by simp

lemma andthen_Ret [simp]: "andthen r Ret = r"
  by (cases r) simp_all

lemma andthen_assoc: "andthen (andthen r f) h = andthen r (\<lambda>x. andthen (f x) h)"
  by (cases r) simp_all

lemma safe_allocate: "(\<And>c. Q (t\<lparr>clock := c\<rparr>)) \<Longrightarrow> safe Q (allocate g t)"
  by (simp add: allocate_def tick_def)

lemma safe_nbd_call: "(\<And>c. Q (t\<lparr>clock := c\<rparr>)) \<Longrightarrow> safe Q (nbd_call g t)"
  by (simp add: nbd_call_def tick_def)

section \<open>The destination\<close>

abbreviation src_bytes :: "copy_cfg \<Rightarrow> u8 list" where
  "src_bytes g \<equiv> rw_bytes (cfg_src g)"

text \<open>The bytes of the source from \<open>off\<close>, and that they are all zero.\<close>

definition src_range :: "copy_cfg \<Rightarrow> nat \<Rightarrow> nat \<Rightarrow> u8 list" where
  "src_range g off len = take len (drop off (src_bytes g))"

definition src_zero :: "copy_cfg \<Rightarrow> nat \<Rightarrow> nat \<Rightarrow> bool" where
  "src_zero g off len \<longleftrightarrow> (\<forall>p. off \<le> p \<and> p < off + len \<longrightarrow> src_bytes g ! p = 0)"

text \<open>
  A change of the destination towards the source: every byte is kept or becomes that of the source, and those of \<open>R\<close>
  are those of the source afterwards (there is nothing to say of the null device).
\<close>

definition towards :: "copy_cfg \<Rightarrow> nat set \<Rightarrow> rw \<Rightarrow> rw \<Rightarrow> bool" where
  "towards g R d d' \<longleftrightarrow>
     rw_ops d' = rw_ops d \<and> rw_sector_size d' = rw_sector_size d \<and> rw_can_zero d' = rw_can_zero d \<and>
     (rw_zeroout d' \<longrightarrow> rw_zeroout d) \<and>
     length (rw_bytes d') = length (rw_bytes d) \<and>
     (\<forall>p < length (rw_bytes d). rw_bytes d' ! p = rw_bytes d ! p \<or>
        p < src_size g \<and> rw_bytes d' ! p = src_bytes g ! p) \<and>
     (rw_ops d \<noteq> NULL_OPS \<longrightarrow> (\<forall>p \<in> R. rw_bytes d' ! p = src_bytes g ! p))"

definition dst_ok :: "copy_cfg \<Rightarrow> rw \<Rightarrow> bool" where
  "dst_ok g d \<longleftrightarrow>
     rw_ops d \<noteq> PIPE_OPS \<and> (rw_zeroout d \<longrightarrow> is_power_of_2 (of_nat (rw_sector_size d))) \<and>
     (rw_ops d \<noteq> NULL_OPS \<longrightarrow> src_size g \<le> length (rw_bytes d)) \<and>
     (rw_ops d \<noteq> NULL_OPS \<and> cfg_target_is_zero g \<longrightarrow>
        (\<forall>p < src_size g. rw_bytes d ! p = 0 \<or> rw_bytes d ! p = src_bytes g ! p))"

lemma towards_refl [simp]: "towards g {} d d"
  by (simp add: towards_def)

lemma towardsD:
  assumes "towards g R d d'"
  shows "rw_ops d' = rw_ops d" "rw_sector_size d' = rw_sector_size d" "rw_can_zero d' = rw_can_zero d"
    "length (rw_bytes d') = length (rw_bytes d)"
    "p < length (rw_bytes d) \<Longrightarrow> rw_bytes d' ! p = rw_bytes d ! p \<or> p < src_size g \<and> rw_bytes d' ! p = src_bytes g ! p"
    "rw_ops d \<noteq> NULL_OPS \<Longrightarrow> p \<in> R \<Longrightarrow> rw_bytes d' ! p = src_bytes g ! p"
    "rw_zeroout d' \<Longrightarrow> rw_zeroout d"
  using assms by (simp_all add: towards_def)

lemma towards_trans:
  assumes 1: "towards g R d d'" and 2: "towards g R' d' d''" and d: "dst_ok g d" and R: "R \<subseteq> {..< src_size g}"
  shows "towards g (R \<union> R') d d''"
proof -
  have "rw_bytes d'' ! p = rw_bytes d ! p \<or> p < src_size g \<and> rw_bytes d'' ! p = src_bytes g ! p"
    if "p < length (rw_bytes d)" for p
    using towardsD(5) [OF 1, of p] towardsD(5) [OF 2, of p] towardsD(4) [OF 1] that by auto
  moreover have "rw_bytes d'' ! p = src_bytes g ! p" if "rw_ops d \<noteq> NULL_OPS" "p \<in> R \<union> R'" for p
  proof (cases "p \<in> R'")
    case True
    then show ?thesis using towardsD(6) [OF 2] towardsD(1) [OF 1] that by simp
  next
    case False
    then have p: "p \<in> R" using that(2) by simp
    then have "p < length (rw_bytes d')" using R d that(1) towardsD(4) [OF 1] by (auto simp: dst_ok_def)
    then show ?thesis using towardsD(5) [OF 2, of p] towardsD(6) [OF 1 that(1) p] by auto
  qed
  ultimately show ?thesis using towardsD(1-4,7) [OF 1] towardsD(1-4,7) [OF 2] by (simp add: towards_def)
qed

lemma towards_mono: "towards g R d d' \<Longrightarrow> R' \<subseteq> R \<Longrightarrow> towards g R' d d'"
  by (auto simp: towards_def)

lemma dst_ok_towards:
  assumes "dst_ok g d" "towards g R d d'"
  shows "dst_ok g d'"
proof -
  have "rw_bytes d' ! p = 0 \<or> rw_bytes d' ! p = src_bytes g ! p"
    if "rw_ops d \<noteq> NULL_OPS" "cfg_target_is_zero g" "p < src_size g" for p
    using assms(1) that towardsD(5) [OF assms(2), of p] by (auto simp: dst_ok_def)
  then show ?thesis using assms(1) towardsD(1-4,7) [OF assms(2)] by (simp add: dst_ok_def)
qed

lemma length_put_bytes: "off + length bs \<le> length xs \<Longrightarrow> length (put_bytes off bs xs) = length xs"
  by (simp add: put_bytes_def)

lemma nth_put_bytes:
  "off + length bs \<le> length xs \<Longrightarrow> p < length xs \<Longrightarrow>
   put_bytes off bs xs ! p = (if off \<le> p \<and> p < off + length bs then bs ! (p - off) else xs ! p)"
  by (auto simp: put_bytes_def nth_append)

lemma towards_put:
  assumes "off + len \<le> src_size g" "length (src_bytes g) = src_size g" "dst_ok g d" "rw_ops d \<noteq> NULL_OPS"
  shows "towards g {off ..< off + len} d (d\<lparr>rw_bytes := put_bytes off (src_range g off len) (rw_bytes d)\<rparr>)"
proof -
  have l: "length (src_range g off len) = len" using assms(1,2) by (simp add: src_range_def)
  have d: "off + len \<le> length (rw_bytes d)" using assms by (simp add: dst_ok_def)
  then show ?thesis
    using assms by (auto simp: towards_def length_put_bytes nth_put_bytes l) (auto simp: src_range_def)
qed

lemma src_zero_range: "src_zero g off len \<Longrightarrow> off + len \<le> length (src_bytes g) \<Longrightarrow> src_range g off len = replicate len 0"
  by (auto simp: src_zero_def src_range_def intro!: nth_equalityI)

lemma src_range_zero: "src_range g off len = replicate len 0 \<Longrightarrow> off + len \<le> length (src_bytes g) \<Longrightarrow> src_zero g off len"
proof -
  assume e: "src_range g off len = replicate len 0" and l: "off + len \<le> length (src_bytes g)"
  have "src_bytes g ! p = 0" if p: "off \<le> p" "p < off + len" for p
  proof -
    have "src_bytes g ! p = src_range g off len ! (p - off)" using p l by (simp add: src_range_def)
    also have "\<dots> = 0" unfolding e using p by simp
    finally show ?thesis .
  qed
  then show ?thesis by (simp add: src_zero_def)
qed

lemma src_zero_part: "src_zero g off len \<Longrightarrow> off \<le> off' \<Longrightarrow> off' + len' \<le> off + len \<Longrightarrow> src_zero g off' len'"
  by (simp add: src_zero_def)

lemma src_zero_append: "src_zero g off len \<Longrightarrow> src_zero g (off + len) len' \<Longrightarrow> src_zero g off (len + len')"
  unfolding src_zero_def by (metis add.assoc leI)

text \<open>A step that only changes the destination.\<close>

definition only_dst :: "copy_cfg \<Rightarrow> nat set \<Rightarrow> thread \<Rightarrow> thread \<Rightarrow> bool" where
  "only_dst g R t t' \<longleftrightarrow> (\<exists>c d. t' = t\<lparr>clock := c, dst := d\<rparr> \<and> towards g R (dst t) d)"

lemma only_dst_clock [simp]: "only_dst g {} t (t\<lparr>clock := c\<rparr>)"
  unfolding only_dst_def by (rule exI [of _ c], rule exI [of _ "dst t"]) simp

lemma only_dst_refl [simp]: "only_dst g {} t t"
  unfolding only_dst_def by (rule exI [of _ "clock t"], rule exI [of _ "dst t"]) simp

lemma only_dst_trans:
  assumes "only_dst g R t t'" "only_dst g R' t' t''" "dst_ok g (dst t)" "R \<subseteq> {..< src_size g}"
  shows "only_dst g (R \<union> R') t t''"
proof -
  obtain c d where 1: "t' = t\<lparr>clock := c, dst := d\<rparr>" "towards g R (dst t) d" using assms(1) by (auto simp: only_dst_def)
  obtain c' d' where 2: "t'' = t'\<lparr>clock := c', dst := d'\<rparr>" "towards g R' (dst t') d'" using assms(2) by (auto simp: only_dst_def)
  have "towards g (R \<union> R') (dst t) d'" using towards_trans [OF 1(2) _ assms(3,4)] 2(2) 1(1) by simp
  moreover have "t'' = t\<lparr>clock := c', dst := d'\<rparr>" using 1(1) 2(1) by simp
  ultimately show ?thesis unfolding only_dst_def by blast
qed

lemma only_dst_mono: "only_dst g R t t' \<Longrightarrow> R' \<subseteq> R \<Longrightarrow> only_dst g R' t t'"
  by (auto simp: only_dst_def intro: towards_mono)

lemma only_dst_ok: "only_dst g R t t' \<Longrightarrow> dst_ok g (dst t) \<Longrightarrow> dst_ok g (dst t')"
  by (auto simp: only_dst_def intro: dst_ok_towards)

lemma only_dst_kind: "only_dst g R t t' \<Longrightarrow> rw_ops (dst t') = rw_ops (dst t) \<and> rw_can_zero (dst t') = rw_can_zero (dst t)"
  by (auto simp: only_dst_def towards_def)

section \<open>Settings\<close>

definition cfg_ok :: "copy_cfg \<Rightarrow> bool" where
  "cfg_ok g \<longleftrightarrow>
     rw_size (cfg_src g) \<ge> 0 \<and> length (src_bytes g) = src_size g \<and> src_size g < 2 ^ 63 \<and>
     0 < cfg_request_size g \<and> cfg_request_size g \<le> THREAD_WORK_SIZE \<and>
     cfg_sparse_size g < 2 ^ 32 \<and> (cfg_sparse_size g = 0 \<or> is_power_of_2 (of_nat (cfg_sparse_size g))) \<and>
     0 < cfg_queue_size g \<and> 0 < cfg_max_requests g"

lemma cfg_okD:
  assumes "cfg_ok g"
  shows "length (src_bytes g) = src_size g" "src_size g < 2 ^ 63" "0 < cfg_request_size g"
    "cfg_request_size g \<le> THREAD_WORK_SIZE"
  using assms by (simp_all add: cfg_ok_def)

lemma length_src_range: "cfg_ok g \<Longrightarrow> off + len \<le> src_size g \<Longrightarrow> length (src_range g off len) = len"
  by (simp add: src_range_def cfg_ok_def)

lemma take_src_range: "r \<le> len \<Longrightarrow> take r (src_range g off len) = src_range g off r"
  by (simp add: src_range_def min_def)

lemma drop_src_range: "drop r (src_range g off len) = src_range g (off + r) (len - r)"
  by (simp add: src_range_def drop_take add.commute)

section \<open>Files\<close>

lemma only_dst_put:
  assumes "cfg_ok g" "dst_ok g (dst t)" "rw_ops (dst t) \<noteq> NULL_OPS" "off + len \<le> src_size g"
  shows "only_dst g {off ..< off + len} t (put_dst off (src_range g off len) t)"
  unfolding only_dst_def put_dst_def
  using towards_put [of off len g "dst t"] assms cfg_okD(1)
  by (intro exI [of _ "clock t"] exI conjI) simp_all

lemma only_dstI: "t' = t\<lparr>clock := c, dst := d\<rparr> \<Longrightarrow> towards g R (dst t) d \<Longrightarrow> only_dst g R t t'"
  unfolding only_dst_def by blast

lemma only_dst_tick: "only_dst g R t t' \<Longrightarrow> only_dst g R t (tick t')"
proof -
  assume "only_dst g R t t'"
  then obtain c d where t: "t' = t\<lparr>clock := c, dst := d\<rparr>" "towards g R (dst t) d" by (auto simp: only_dst_def)
  then show ?thesis by (intro only_dstI [where c = "Suc c" and d = d]) (simp_all add: tick_def)
qed

lemma only_dst_join:
  assumes "only_dst g {a ..< b} t u" "only_dst g {b ..< c} u v" "dst_ok g (dst t)" "a \<le> b" "b \<le> c" "b \<le> src_size g"
  shows "only_dst g {a ..< c} t v"
proof -
  have "only_dst g ({a ..< b} \<union> {b ..< c}) t v"
    by (rule only_dst_trans [OF assms(1-3)]) (use assms(6) in auto)
  then show ?thesis using assms(4,5) by (simp add: ivl_disj_un_two(3))
qed

lemma only_dst_zero:
  assumes "cfg_ok g" "dst_ok g (dst t)" "rw_ops (dst t) \<noteq> NULL_OPS" "off + len \<le> src_size g" "src_zero g off len"
  shows "only_dst g {off ..< off + len} t (zero_dst off len t)"
  using only_dst_put [OF assms(1-4)] src_zero_range [OF assms(5)] assms(4) cfg_okD(1) [OF assms(1)]
  by (simp add: zero_dst_def)

lemma file_synch_write_src:
  "cfg_ok g \<Longrightarrow> dst_ok g (dst t) \<Longrightarrow> rw_ops (dst t) \<noteq> NULL_OPS \<Longrightarrow> off + len \<le> src_size g \<Longrightarrow>
    data = src_range g off len \<Longrightarrow> safe (only_dst g {off ..< off + len} t) (file_synch_write g data off t)"
proof (induction g data off t arbitrary: len rule: file_synch_write.induct)
  case (1 g data off t)
  have len: "length data = len" using "1.prems" length_src_range by simp
  show ?case
  proof (cases "data = []")
    case True
    then show ?thesis using len by (simp add: file_synch_write.simps)
  next
    case False
    show ?thesis
    proof (cases "env_pwrite (cfg_env g) (clock t) (length data) off")
      case None
      then show ?thesis using False by (simp add: file_synch_write.simps [of g data off t])
    next
      case (Some k)
      let ?r = "min (Suc k) (length data)"
      let ?t = "tick (put_dst off (take ?r data) t)"
      have r: "?r \<le> len" using len by simp
      then have "take ?r data = src_range g off ?r" using "1.prems" take_src_range by metis
      then have first: "only_dst g {off ..< off + ?r} t ?t"
        using only_dst_put [of g t off ?r] "1.prems" r by (intro only_dst_tick) simp
      have rest: "drop ?r data = src_range g (off + ?r) (len - ?r)" using "1.prems" drop_src_range by metis
      have "safe (only_dst g {off + ?r ..< off + ?r + (len - ?r)} ?t) (file_synch_write g (drop ?r data) (off + ?r) ?t)"
        using "1.prems" False Some rest r only_dst_ok [OF first] only_dst_kind [OF first] by (intro "1.IH") simp_all
      then have "safe (only_dst g {off ..< off + len} t) (file_synch_write g (drop ?r data) (off + ?r) ?t)"
      proof (rule safe_mono)
        fix t' assume "only_dst g {off + ?r ..< off + ?r + (len - ?r)} ?t t'"
        from only_dst_join [OF first this] show "only_dst g {off ..< off + len} t t'"
          using "1.prems" r by simp
      qed
      then show ?thesis using False Some by (simp add: file_synch_write.simps [of g data off t] Let_def)
    qed
  qed
qed

text \<open>Each way to zero a range of a file makes it right or leaves it alone, and does nothing else.\<close>

definition zeroing :: "copy_cfg \<Rightarrow> nat \<Rightarrow> nat \<Rightarrow> thread \<Rightarrow> bool \<times> thread \<Rightarrow> bool" where
  "zeroing g off len t r \<longleftrightarrow> only_dst g (if fst r then {off ..< off + len} else {}) t (snd r)"

lemma zeroing_flag:
  assumes "only_dst g {} t t'" "towards g {} (dst t') d"
  shows "dst_ok g (dst t) \<Longrightarrow> only_dst g {} t (t'\<lparr>dst := d\<rparr>)"
proof -
  assume "dst_ok g (dst t)"
  then show ?thesis
    using assms towards_trans [of g "{}" "dst t" "dst t'" "{}" d]
    by (auto simp: only_dst_def [of g "{}" t t'] intro!: only_dstI)
qed

lemma towards_flags:
  "towards g {} d (d\<lparr>rw_punch_hole := b\<rparr>)" "towards g {} d (d\<lparr>rw_zero_range := b\<rparr>)"
  "towards g {} d (d\<lparr>rw_fallocate := b\<rparr>)" "towards g {} d (d\<lparr>rw_zeroout := False\<rparr>)"
  by (simp_all add: towards_def)

definition zero_range_ok :: "copy_cfg \<Rightarrow> nat \<Rightarrow> nat \<Rightarrow> thread \<Rightarrow> bool" where
  "zero_range_ok g off len t \<longleftrightarrow> cfg_ok g \<and> off + len \<le> src_size g \<and> src_zero g off len \<and>
     dst_ok g (dst t) \<and> rw_ops (dst t) \<noteq> NULL_OPS"

lemma zero_range_ok_step: "zero_range_ok g off len t \<Longrightarrow> only_dst g R t t' \<Longrightarrow> zero_range_ok g off len t'"
  using only_dst_ok only_dst_kind unfolding zero_range_ok_def by metis

lemma zeroing_after:
  "only_dst g {} t u \<Longrightarrow> zero_range_ok g off len t \<Longrightarrow> zeroing g off len u r \<Longrightarrow> zeroing g off len t r"
  using only_dst_trans [of g "{}" t u] by (auto simp: zeroing_def zero_range_ok_def)

lemma file_punch_hole_zero:
  "zero_range_ok g off len t \<Longrightarrow> safe (zeroing g off len t) (file_punch_hole g off len t)"
  using only_dst_zero [of g t off len]
  by (simp add: file_punch_hole_def Let_def zeroing_def zero_range_ok_def only_dst_tick)

lemma file_zero_range_zero:
  "zero_range_ok g off len t \<Longrightarrow> safe (zeroing g off len t) (file_zero_range g off len t)"
  using only_dst_zero [of g t off len]
  by (simp add: file_zero_range_def Let_def zeroing_def zero_range_ok_def only_dst_tick)

lemma file_zeroout_zero:
  "zero_range_ok g off len t \<Longrightarrow> safe (zeroing g off len t) (file_zeroout g off len t)"
  using only_dst_zero [of g t off len]
  by (simp add: file_zeroout_def Let_def zeroing_def zero_range_ok_def only_dst_tick)

lemma zero_by_punch_zero:
  assumes "zero_range_ok g off len t"
  shows "safe (zeroing g off len t) (zero_by_punch g off len alloc t)"
  unfolding zero_by_punch_def
  using assms by (auto intro!: safe_andthen [OF file_punch_hole_zero [OF assms]] zeroing_flag towards_flags
      simp: zeroing_def zero_range_ok_def)

lemma zero_by_range_zero:
  assumes "zero_range_ok g off len t"
  shows "safe (zeroing g off len t) (zero_by_range g off len t)"
  unfolding zero_by_range_def
  using assms by (auto intro!: safe_andthen [OF file_zero_range_zero [OF assms]] zeroing_flag towards_flags
      simp: zeroing_def zero_range_ok_def)

lemma zero_by_fallocate_zero:
  assumes "zero_range_ok g off len t"
  shows "safe (zeroing g off len t) (zero_by_fallocate g off len t)"
  unfolding zero_by_fallocate_def
proof (rule safe_andthen [OF file_punch_hole_zero [OF assms]])
  fix r assume r: "zeroing g off len t r"
  obtain ok u where u: "r = (ok, u)" by (rule prod.exhaust)
  have none: "only_dst g {} t u" using r u by (auto simp: zeroing_def elim: only_dst_mono)
  have "only_dst g {} t ((tick u)\<lparr>dst := (dst u)\<lparr>rw_fallocate := False\<rparr>\<rparr>)"
    by (rule zeroing_flag [OF only_dst_tick [OF none]]) (use assms in \<open>simp_all add: tick_def towards_flags zero_range_ok_def\<close>)
  moreover have "only_dst g {} t (u\<lparr>dst := (dst u)\<lparr>rw_punch_hole := False\<rparr>\<rparr>)"
    by (rule zeroing_flag [OF none]) (use assms in \<open>simp_all add: towards_flags zero_range_ok_def\<close>)
  ultimately show "safe (zeroing g off len t) (case r of (ok, t) \<Rightarrow>
      if ok then
       (if env_fallocate (cfg_env g) (clock t) ALLOCATE_ONLY off len \<noteq> 0 then Ret (True, tick t)
        else Ret (False, (tick t)\<lparr>dst := (dst t)\<lparr>rw_fallocate := False\<rparr>\<rparr>))
     else Ret (False, t\<lparr>dst := (dst t)\<lparr>rw_punch_hole := False\<rparr>\<rparr>))"
    using r u by (auto simp: zeroing_def intro: only_dst_tick)
qed

lemma zero_by_zeroout_zero:
  assumes "zero_range_ok g off len t"
  shows "safe (zeroing g off len t) (zero_by_zeroout g off len t)"
proof -
  have al: "IS_ALIGNED n (of_nat (rw_sector_size (dst t))) = Some (unat (of_nat (rw_sector_size (dst t)) :: u64) dvd unat n)"
    if "rw_zeroout (dst t)" for n
    using assms IS_ALIGNED_exact that by (simp add: zero_range_ok_def dst_ok_def)
  show ?thesis
    unfolding zero_by_zeroout_def
    using assms al by (auto intro!: safe_andthen [OF file_zeroout_zero [OF assms]] zeroing_flag towards_flags
        simp: zeroing_def zero_range_ok_def)
qed

lemma file_synch_zero_zero:
  assumes "zero_range_ok g off len t"
  shows "safe (zeroing g off len t) (file_synch_zero g off len alloc t)"
proof -
  have rest: "safe (zeroing g off len t) (if rw_punch_hole (dst v) \<and> rw_fallocate (dst v)
      then zero_by_fallocate g off len v else zero_by_zeroout g off len v)" if v: "only_dst g {} t v" for v
    using zeroing_after [OF v assms] zero_range_ok_step [OF assms v]
    by (auto intro: safe_mono [OF zero_by_fallocate_zero] safe_mono [OF zero_by_zeroout_zero])
  have second: "safe (zeroing g off len t) (andthen (zero_by_range g off len u) (\<lambda>(ok, t).
     if ok then Ret (True, t)
     else if rw_punch_hole (dst t) \<and> rw_fallocate (dst t) then zero_by_fallocate g off len t
     else zero_by_zeroout g off len t))" if u: "only_dst g {} t u" for u
  proof (rule safe_andthen [OF zero_by_range_zero [OF zero_range_ok_step [OF assms u]]])
    fix r assume "zeroing g off len u r"
    then have r: "zeroing g off len t r" by (rule zeroing_after [OF u assms])
    then show "safe (zeroing g off len t) (case r of (ok, t) \<Rightarrow> if ok then Ret (True, t)
       else if rw_punch_hole (dst t) \<and> rw_fallocate (dst t) then zero_by_fallocate g off len t
       else zero_by_zeroout g off len t)"
      using rest [of "snd r"] by (cases r) (auto simp: zeroing_def)
  qed
  show ?thesis
    unfolding file_synch_zero_def
  proof (rule safe_andthen [OF zero_by_punch_zero [OF assms]])
    fix r assume r: "zeroing g off len t r"
    then show "safe (zeroing g off len t) (case r of (ok, t) \<Rightarrow> if ok then Ret (True, t)
       else andthen (zero_by_range g off len t) (\<lambda>(ok, t). if ok then Ret (True, t)
         else if rw_punch_hole (dst t) \<and> rw_fallocate (dst t) then zero_by_fallocate g off len t
         else zero_by_zeroout g off len t))"
      using second [of "snd r"] by (cases r) (auto simp: zeroing_def)
  qed
qed

section \<open>The interface of the destination\<close>

text \<open>
  What the copying code relies on in \<^verbatim>\<open>struct rw_ops\<close> of a destination: writing the bytes of the source where they
  belong makes that range right, and zeroing makes a range that is zero in the source right, or reports that it
  cannot be done; neither has any other effect on the thread.
\<close>

locale synch_ops =
  fixes g :: copy_cfg and kind :: rw_kind
    and swrite :: "u8 list \<Rightarrow> nat \<Rightarrow> thread \<Rightarrow> thread run_result"
    and szero :: "nat \<Rightarrow> nat \<Rightarrow> bool \<Rightarrow> thread \<Rightarrow> (bool \<times> thread) run_result"
  assumes write_right: "cfg_ok g \<Longrightarrow> dst_ok g (dst t) \<Longrightarrow> rw_ops (dst t) = kind \<Longrightarrow> off + len \<le> src_size g \<Longrightarrow>
      safe (only_dst g {off ..< off + len} t) (swrite (src_range g off len) off t)"
    and zero_right: "cfg_ok g \<Longrightarrow> dst_ok g (dst t) \<Longrightarrow> rw_ops (dst t) = kind \<Longrightarrow> off + len \<le> src_size g \<Longrightarrow>
      src_zero g off len \<Longrightarrow> safe (zeroing g off len t) (szero off len alloc t)"
begin

text \<open>Zeroing that falls back to writing zeroes.\<close>

lemma write_zero_range:
  "cfg_ok g \<Longrightarrow> dst_ok g (dst t) \<Longrightarrow> rw_ops (dst t) = kind \<Longrightarrow> off + len \<le> src_size g \<Longrightarrow> src_zero g off len \<Longrightarrow>
   safe (only_dst g {off ..< off + len} t) (swrite (replicate len 0) off t)"
  using write_right [of t off len] src_zero_range [of g off len] cfg_okD(1) [of g] by simp

lemma zero_twice_or_write:
  assumes "cfg_ok g" "dst_ok g (dst t)" "rw_ops (dst t) = kind" "off + len \<le> src_size g" "src_zero g off len"
  shows "safe (only_dst g {off ..< off + len} t)
    (andthen (szero off len a t) (\<lambda>(ok, t). if ok then Ret t
     else andthen (szero off len b t) (\<lambda>(ok, t). if ok then Ret t else swrite (replicate len 0) off t)))"
proof -
  have last: "safe (only_dst g {off ..< off + len} t) (swrite (replicate len 0) off v)" if v: "only_dst g {} t v" for v
    using assms only_dst_ok [OF v] only_dst_kind [OF v] only_dst_trans [OF v, of "{off ..< off + len}"]
    by (auto intro!: safe_mono [OF write_zero_range])
  have next_: "safe (only_dst g {off ..< off + len} t)
      (andthen (szero off len b u) (\<lambda>(ok, t). if ok then Ret t else swrite (replicate len 0) off t))"
    if u: "only_dst g {} t u" for u
  proof (rule safe_andthen)
    show "safe (zeroing g off len u) (szero off len b u)"
      using assms only_dst_ok [OF u] only_dst_kind [OF u] by (intro zero_right) simp_all
    fix r assume "zeroing g off len u r"
    then have "only_dst g (if fst r then {off ..< off + len} else {}) t (snd r)"
      using only_dst_trans [OF u, of _ "snd r"] assms(2) by (auto simp: zeroing_def)
    then show "safe (only_dst g {off ..< off + len} t) (case r of (ok, t) \<Rightarrow> if ok then Ret t else swrite (replicate len 0) off t)"
      using last [of "snd r"] by (cases r) auto
  qed
  show ?thesis
    using next_ by (intro safe_andthen [OF zero_right [OF assms]]) (auto simp: zeroing_def)
qed

end

interpretation file_synch: synch_ops g FILE_OPS "file_synch_write g" "file_synch_zero g" for g
  by unfold_locales (auto intro: file_synch_write_src file_synch_zero_zero simp: zero_range_ok_def)

lemma only_dst_after_clock: "only_dst g R (t\<lparr>clock := c\<rparr>) t' \<Longrightarrow> only_dst g R t t'"
  by (auto simp: only_dst_def)

interpretation nbd_synch: synch_ops g NBD_OPS "nbd_ops_synch_write g" "nbd_ops_synch_zero g" for g
proof
  fix t :: thread and off len :: nat
  assume a: "cfg_ok g" "dst_ok g (dst t)" "rw_ops (dst t) = NBD_OPS" "off + len \<le> src_size g"
  have "only_dst g {off ..< off + len} t (put_dst off (src_range g off len) (t\<lparr>clock := c\<rparr>))" for c
    by (rule only_dst_after_clock [where c = c]) (use only_dst_put [of g "t\<lparr>clock := c\<rparr>" off len] a in simp)
  then show "safe (only_dst g {off ..< off + len} t) (nbd_ops_synch_write g (src_range g off len) off t)"
    unfolding nbd_ops_synch_write_def
    by (intro safe_andthen [OF safe_nbd_call [of "\<lambda>u. \<exists>c. u = t\<lparr>clock := c\<rparr>"]]) auto
  show "safe (zeroing g off len t) (nbd_ops_synch_zero g off len alloc t)" if z: "src_zero g off len" for alloc
  proof -
    have "only_dst g {off ..< off + len} t (zero_dst off len (t\<lparr>clock := c\<rparr>))" for c
      by (rule only_dst_after_clock [where c = c]) (use only_dst_zero [of g "t\<lparr>clock := c\<rparr>" off len] a z in simp)
    then show ?thesis
      unfolding nbd_ops_synch_zero_def
      by (auto simp: zeroing_def intro!: safe_andthen [OF safe_nbd_call [of "\<lambda>u. \<exists>c. u = t\<lparr>clock := c\<rparr>"]])
  qed
qed

lemma only_dst_null: "rw_ops (dst t) = NULL_OPS \<Longrightarrow> only_dst g R t t"
  by (rule only_dstI [where c = "clock t" and d = "dst t"]) (simp_all add: towards_def)

interpretation null_synch: synch_ops g NULL_OPS "\<lambda>data off. Ret" "\<lambda>off len alloc t. Ret (True, t)" for g
  by unfold_locales (simp_all add: only_dst_null zeroing_def)

lemma synch_write_src:
  assumes "cfg_ok g" "dst_ok g (dst t)" "off + len \<le> src_size g"
  shows "safe (only_dst g {off ..< off + len} t) (synch_write g (src_range g off len) off t)"
proof (cases "rw_ops (dst t)")
  case FILE_OPS
  then show ?thesis using file_synch.write_right assms by (simp add: synch_write_def)
next
  case NBD_OPS
  then show ?thesis using nbd_synch.write_right assms by (simp add: synch_write_def)
next
  case NULL_OPS
  then show ?thesis using null_synch.write_right [of g t off len] assms by (simp add: synch_write_def)
next
  case PIPE_OPS
  then show ?thesis using assms(2) by (simp add: dst_ok_def)
qed

lemma write_zeroes_src:
  "cfg_ok g \<Longrightarrow> dst_ok g (dst t) \<Longrightarrow> 0 < n \<Longrightarrow> off + count \<le> src_size g \<Longrightarrow> src_zero g off count \<Longrightarrow>
   safe (only_dst g {off ..< off + count} t) (write_zeroes g n off count t)"
proof (induction g n off count t rule: write_zeroes.induct)
  case (1 g n off count t)
  show ?case
  proof (cases "count = 0")
    case True
    then show ?thesis by (simp add: write_zeroes.simps)
  next
    case False
    let ?len = "if count > n then n else count"
    have z: "src_zero g off ?len" "src_zero g (off + ?len) (count - ?len)"
      using "1.prems" by (auto elim!: src_zero_part)
    have w: "safe (only_dst g {off ..< off + ?len} t) (synch_write g (replicate ?len 0) off t)"
      using synch_write_src [of g t off ?len] src_zero_range [OF z(1)] "1.prems" cfg_okD(1) [of g] by simp
    have "safe (only_dst g {off ..< off + count} t)
        (andthen (synch_write g (replicate ?len 0) off t) (write_zeroes g n (off + ?len) (count - ?len)))"
    proof (rule safe_andthen [OF w])
      fix u assume u: "only_dst g {off ..< off + ?len} t u"
      have "safe (only_dst g {off + ?len ..< off + ?len + (count - ?len)} u) (write_zeroes g n (off + ?len) (count - ?len) u)"
        using "1.prems" False z(2) only_dst_ok [OF u] by (intro "1.IH") auto
      then show "safe (only_dst g {off ..< off + count} t) (write_zeroes g n (off + ?len) (count - ?len) u)"
        using only_dst_join [OF u, of "off + count"] "1.prems" by (elim safe_mono) (simp split: if_splits)
    qed
    then show ?thesis using False "1.prems" by (simp add: write_zeroes.simps [of g n off count t] Let_def)
  qed
qed

section \<open>Buffers and commands in flight\<close>

definition crange :: "copy_command \<Rightarrow> nat set" where
  "crange c = {cmd_offset c ..< cmd_offset c + cmd_len c}"

text \<open>The read command that waits for a request slot, and all read commands.\<close>

definition held :: "thread \<Rightarrow> copy_command list" where
  "held t = (case pc t of ISSUE c \<Rightarrow> [c] | _ \<Rightarrow> [])"

lemma held_simps [simp]:
  "held (t\<lparr>clock := c\<rparr>) = held t" "held (t\<lparr>dst := d\<rparr>) = held t" "held (t\<lparr>bufs := m\<rparr>) = held t"
  "held (t\<lparr>next_buf := b\<rparr>) = held t" "held (t\<lparr>wqueue_size := q\<rparr>) = held t"
  "held (t\<lparr>src_flight := cs\<rparr>) = held t" "held (t\<lparr>dst_flight := cs\<rparr>) = held t"
  "held (t\<lparr>w_offset := x\<rparr>) = held t" "held (t\<lparr>w_count := x\<rparr>) = held t" "held (t\<lparr>w_exts := exts\<rparr>) = held t"
  "held (t\<lparr>extent_index := x\<rparr>) = held t" "held (t\<lparr>is_zeroing := z\<rparr>) = held t"
  "held (t\<lparr>zeroing_start := x\<rparr>) = held t" "held (t\<lparr>next_offset := x\<rparr>) = held t"
  by (simp_all add: held_def)

definition reads :: "thread \<Rightarrow> copy_command list" where
  "reads t = src_flight t @ held t"

definition flights :: "thread \<Rightarrow> copy_command list" where
  "flights t = reads t @ dst_flight t"

definition flying :: "thread \<Rightarrow> nat set" where
  "flying t = (\<Union>c \<in> set (flights t). crange c)"

text \<open>How often a buffer is used.\<close>

abbreviation uses :: "nat \<Rightarrow> copy_command list \<Rightarrow> nat" where
  "uses b cs \<equiv> count_list (map cmd_buffer cs) (Some b)"

text \<open>
  A read command has a buffer of its own, of its length; a command that writes has a slice with the bytes of the source at its
  place, or no buffer where the source is zero.
\<close>

definition read_ok :: "copy_cfg \<Rightarrow> (nat \<Rightarrow> buffer option) \<Rightarrow> copy_command \<Rightarrow> bool" where
  "read_ok g m c \<longleftrightarrow> 0 < cmd_len c \<and> cmd_offset c + cmd_len c \<le> src_size g \<and> cmd_len c \<le> THREAD_WORK_SIZE \<and>
     cmd_base c = 0 \<and>
     (\<exists>b buf. cmd_buffer c = Some b \<and> m b = Some buf \<and> buf_refs buf = 1 \<and> length (buf_data buf) = cmd_len c)"

definition write_ok :: "copy_cfg \<Rightarrow> (nat \<Rightarrow> buffer option) \<Rightarrow> copy_command \<Rightarrow> bool" where
  "write_ok g m c \<longleftrightarrow> 0 < cmd_len c \<and> cmd_offset c + cmd_len c \<le> src_size g \<and> cmd_len c \<le> THREAD_WORK_SIZE \<and>
     (case cmd_buffer c of
        None \<Rightarrow> src_zero g (cmd_offset c) (cmd_len c)
      | Some b \<Rightarrow> \<exists>buf. m b = Some buf \<and> cmd_base c + cmd_len c \<le> length (buf_data buf) \<and>
          take (cmd_len c) (drop (cmd_base c) (buf_data buf)) = src_range g (cmd_offset c) (cmd_len c))"

definition charged :: "thread \<Rightarrow> nat" where
  "charged t = sum_list (map cmd_len (src_flight t)) +
     sum_list (map cmd_len (filter (\<lambda>c. cmd_buffer c \<noteq> None) (dst_flight t)))"

definition refs_of :: "(nat \<Rightarrow> buffer option) \<Rightarrow> nat \<Rightarrow> nat" where
  "refs_of m b = (case m b of None \<Rightarrow> 0 | Some buf \<Rightarrow> buf_refs buf)"

lemma refs_of_upd [simp]:
  "refs_of (m(b \<mapsto> buf)) b' = (if b' = b then buf_refs buf else refs_of m b')"
  "refs_of (m(b := None)) b' = (if b' = b then 0 else refs_of m b')"
  by (simp_all add: refs_of_def)

definition counted :: "thread \<Rightarrow> copy_command list \<Rightarrow> bool" where
  "counted t X \<longleftrightarrow> (\<forall>b. uses b (flights t @ X) = refs_of (bufs t) b) \<and> (\<forall>b buf. bufs t b = Some buf \<longrightarrow> 0 < buf_refs buf)"

text \<open>
  The invariant of a thread while the code has the commands \<open>X\<close> in hand, and \<open>q\<close> bytes of the queue size are for
  commands not in flight.
\<close>

definition tinv :: "copy_cfg \<Rightarrow> copy_command list \<Rightarrow> nat \<Rightarrow> thread \<Rightarrow> bool" where
  "tinv g X q t \<longleftrightarrow>
     dst_ok g (dst t) \<and> (rw_ops (dst t) = NULL_OPS \<longrightarrow> dst_flight t = []) \<and> counted t X \<and> (\<forall>b \<ge> next_buf t. bufs t b = None) \<and> wqueue_size t = charged t + q \<and>
     (\<forall>c \<in> set (reads t). read_ok g (bufs t) c) \<and> (\<forall>c \<in> set (dst_flight t). write_ok g (bufs t) c)"

definition vars :: "thread \<Rightarrow> worker_pc \<times> nat \<times> nat \<times> extent list \<times> nat \<times> bool \<times> nat \<times> nat" where
  "vars t = (pc t, w_offset t, w_count t, w_exts t, extent_index t, is_zeroing t, zeroing_start t, next_offset t)"

text \<open>The contents of a buffer do not change while it is used, and numbers are not used again.\<close>

definition keeps_bufs :: "thread \<Rightarrow> thread \<Rightarrow> bool" where
  "keeps_bufs t t' \<longleftrightarrow> next_buf t \<le> next_buf t' \<and>
     (\<forall>b < next_buf t. \<forall>buf'. bufs t' b = Some buf' \<longrightarrow> (\<exists>buf. bufs t b = Some buf \<and> buf_data buf' = buf_data buf))"

lemma keeps_same: "bufs t' = bufs t \<Longrightarrow> next_buf t' = next_buf t \<Longrightarrow> keeps_bufs t t'"
  by (simp add: keeps_bufs_def)

lemma keeps_trans: "keeps_bufs t u \<Longrightarrow> keeps_bufs u v \<Longrightarrow> keeps_bufs t v"
  unfolding keeps_bufs_def by (metis le_trans order_less_le_trans)

text \<open>
  The positions \<open>P\<close>, and those of the commands in flight before, are right at the destination now or still in flight. The
  variables of the loop are not touched.
\<close>

definition moved :: "copy_cfg \<Rightarrow> nat set \<Rightarrow> thread \<Rightarrow> thread \<Rightarrow> bool" where
  "moved g P t t' \<longleftrightarrow> vars t' = vars t \<and>
     (\<exists>R. R \<subseteq> {..< src_size g} \<and> towards g R (dst t) (dst t') \<and> flying t \<union> P \<subseteq> R \<union> flying t')"

definition made :: "copy_cfg \<Rightarrow> nat set \<Rightarrow> thread \<Rightarrow> thread \<Rightarrow> bool" where
  "made g P t t' \<longleftrightarrow> vars t' = vars t \<and> keeps_bufs t t' \<and>
     (\<exists>R. R \<subseteq> {..< src_size g} \<and> towards g R (dst t) (dst t') \<and> flying t \<union> P \<subseteq> R \<union> flying t')"

definition post :: "copy_cfg \<Rightarrow> copy_command list \<Rightarrow> nat \<Rightarrow> nat set \<Rightarrow> thread \<Rightarrow> thread \<Rightarrow> bool" where
  "post g X q P t t' \<longleftrightarrow> tinv g X q t' \<and> made g P t t'"

lemma made_moved: "made g P t t' \<Longrightarrow> moved g P t t'"
  by (auto simp: made_def moved_def)

lemma made_refl [simp]: "made g {} t t"
  unfolding made_def by (auto simp: keeps_same intro!: exI [of _ "{}"])

lemma made_trans:
  assumes "made g P t u" "made g P' u v" "dst_ok g (dst t)"
  shows "made g (P \<union> P') t v"
proof -
  obtain R where R: "R \<subseteq> {..< src_size g}" "towards g R (dst t) (dst u)" "flying t \<union> P \<subseteq> R \<union> flying u"
    using assms(1) by (auto simp: made_def)
  obtain R' where R': "R' \<subseteq> {..< src_size g}" "towards g R' (dst u) (dst v)" "flying u \<union> P' \<subseteq> R' \<union> flying v"
    using assms(2) by (auto simp: made_def)
  have "towards g (R \<union> R') (dst t) (dst v)" by (rule towards_trans [OF R(2) R'(2) assms(3) R(1)])
  moreover have "keeps_bufs t v" using assms(1,2) keeps_trans by (auto simp: made_def)
  ultimately show ?thesis
    using R R' assms by (auto simp: made_def intro!: exI [of _ "R \<union> R'"])
qed

lemma made_mono: "made g P t t' \<Longrightarrow> P' \<subseteq> P \<Longrightarrow> made g P' t t'"
  unfolding made_def by blast

lemma post_trans:
  "post g X q P t u \<Longrightarrow> post g X' q' P' u v \<Longrightarrow> dst_ok g (dst t) \<Longrightarrow> post g X' q' (P \<union> P') t v"
  using made_trans by (auto simp: post_def)

lemma post_mono: "post g X q P t t' \<Longrightarrow> P' \<subseteq> P \<Longrightarrow> post g X q P' t t'"
  using made_mono by (auto simp: post_def)

lemma post_refl: "tinv g X q t \<Longrightarrow> post g X q {} t t"
  by (simp add: post_def)

lemma tinv_dst: "tinv g X q t \<Longrightarrow> dst_ok g (dst t)"
  by (simp add: tinv_def)

lemma post_tinv: "post g X q P t t' \<Longrightarrow> tinv g X q t'"
  by (simp add: post_def)

text \<open>Composing what two parts of the code do.\<close>

lemma safe_post:
  assumes "safe (post g X q P t) r" "dst_ok g (dst t)"
    "\<And>u. post g X q P t u \<Longrightarrow> safe (post g X' q' P' u) (f u)"
  shows "safe (post g X' q' (P \<union> P') t) (andthen r f)"
  by (rule safe_andthen [OF assms(1)])
     (use assms post_trans in \<open>blast intro: safe_mono [OF assms(3)]\<close>)

lemma tinv_only_dst: "tinv g X q t \<Longrightarrow> only_dst g R t t' \<Longrightarrow> tinv g X q t'"
  using dst_ok_towards towardsD(1) by (fastforce simp: only_dst_def tinv_def counted_def flights_def charged_def reads_def)

lemma made_only_dst: "only_dst g R t t' \<Longrightarrow> R \<subseteq> {..< src_size g} \<Longrightarrow> made g R t t'"
  by (auto simp: only_dst_def made_def vars_def flying_def flights_def reads_def intro!: exI [of _ R] keeps_same)

lemma post_only_dst: "tinv g X q t \<Longrightarrow> only_dst g R t t' \<Longrightarrow> R \<subseteq> {..< src_size g} \<Longrightarrow> post g X q R t t'"
  using tinv_only_dst made_only_dst by (auto simp: post_def)

lemma post_clock: "tinv g X q t \<Longrightarrow> post g X q {} t (t\<lparr>clock := c\<rparr>)"
  by (rule post_only_dst) simp_all

lemma uses_pos: "c \<in> set cs \<Longrightarrow> cmd_buffer c = Some b \<Longrightarrow> 0 < uses b cs"
  by (metis count_list_0_iff gr0I image_eqI list.set_map)

lemma countedD:
  assumes "counted t X" "c \<in> set (flights t @ X)" "cmd_buffer c = Some b"
  shows "\<exists>buf. bufs t b = Some buf \<and> uses b (flights t @ X) = buf_refs buf \<and> 0 < buf_refs buf"
proof -
  have "0 < refs_of (bufs t) b" using uses_pos [OF assms(2,3)] assms(1) unfolding counted_def by metis
  then show ?thesis using assms(1) by (cases "bufs t b") (auto simp: counted_def refs_of_def)
qed

lemma read_ok_cong: "read_ok g m c \<Longrightarrow> (\<And>b. cmd_buffer c = Some b \<Longrightarrow> m' b = m b) \<Longrightarrow> read_ok g m' c"
  by (auto simp: read_ok_def)

lemma write_ok_cong: "write_ok g m c \<Longrightarrow> (\<And>b. cmd_buffer c = Some b \<Longrightarrow> m' b = m b) \<Longrightarrow> write_ok g m' c"
  by (auto simp: write_ok_def split: option.splits)

lemma made_same: "vars t' = vars t \<Longrightarrow> keeps_bufs t t' \<Longrightarrow> dst t' = dst t \<Longrightarrow> flying t \<union> P \<subseteq> flying t' \<Longrightarrow> made g P t t'"
  unfolding made_def by (auto intro!: exI [of _ "{}"])

subsection \<open>Freeing a command\<close>

lemma free_command_ok:
  assumes "tinv g (c # X) q t"
  shows "safe (post g X q {} t) (free_command c t)"
proof (cases "cmd_buffer c")
  case None
  then have "counted t (c # X) = counted t X" by (simp add: counted_def)
  then show ?thesis using assms None by (simp add: free_command_def post_def tinv_def)
next
  case (Some b)
  have cnt: "counted t (c # X)" using assms by (simp add: tinv_def)
  then obtain buf where buf: "bufs t b = Some buf" "uses b (flights t @ X) + 1 = buf_refs buf"
    using countedD [of t "c # X" c b] Some by auto
  define m where "m = (if buf_refs buf = 1 then (bufs t)(b := None)
    else (bufs t)(b \<mapsto> buf\<lparr>buf_refs := buf_refs buf - 1\<rparr>))"
  have run: "free_command c t = Ret (t\<lparr>bufs := m\<rparr>)"
    using Some buf by (auto simp: free_command_def m_def)
  have other: "cmd_buffer c' \<noteq> Some b" if "uses b (flights t @ X) = 0" "c' \<in> set (flights t)" for c'
    using that by (metis Un_iff less_numeral_extra(3) set_append uses_pos)
  have r: "read_ok g m c'" if "c' \<in> set (reads t)" for c'
  proof -
    have ok: "read_ok g (bufs t) c'" using assms that by (simp add: tinv_def)
    have f: "c' \<in> set (flights t)" using that by (auto simp: flights_def)
    have "cmd_buffer c' \<noteq> Some b"
    proof
      assume b: "cmd_buffer c' = Some b"
      then have "buf_refs buf = 1" using ok buf(1) by (auto simp: read_ok_def)
      then show False using other [OF _ f] buf(2) b by simp
    qed
    then show ?thesis by (intro read_ok_cong [OF ok]) (auto simp: m_def)
  qed
  have w: "write_ok g m c'" if "c' \<in> set (dst_flight t)" for c'
  proof -
    have ok: "write_ok g (bufs t) c'" using assms that by (simp add: tinv_def)
    have f: "c' \<in> set (flights t)" using that by (auto simp: flights_def)
    show ?thesis
    proof (cases "cmd_buffer c' = Some b")
      case True
      then have "buf_refs buf \<noteq> 1" using other [OF _ f] buf(2) by fastforce
      then show ?thesis using ok True buf(1) by (auto simp: write_ok_def m_def)
    next
      case False
      then show ?thesis by (intro write_ok_cong [OF ok]) (auto simp: m_def)
    qed
  qed
  have "uses b' (flights t @ X) = refs_of m b'" for b'
  proof (cases "b' = b")
    case True
    then show ?thesis using buf(2) by (auto simp: m_def)
  next
    case False
    then have "uses b' (flights t @ X) = uses b' (flights t @ c # X)" using Some by simp
    also have "\<dots> = refs_of (bufs t) b'" using cnt unfolding counted_def by blast
    finally show ?thesis using False by (simp add: m_def)
  qed
  moreover have "0 < buf_refs buf'" if "m b' = Some buf'" for b' buf'
    using that cnt buf(2) by (auto simp: m_def counted_def split: if_splits)
  ultimately have "counted (t\<lparr>bufs := m\<rparr>) X"
    by (simp add: counted_def flights_def reads_def)
  moreover have "\<forall>b' \<ge> next_buf t. m b' = None" using assms buf(1) by (auto simp: tinv_def m_def)
  ultimately have "tinv g X q (t\<lparr>bufs := m\<rparr>)"
    using assms r w by (simp add: tinv_def charged_def reads_def)
  moreover have "keeps_bufs t (t\<lparr>bufs := m\<rparr>)" using buf(1) by (auto simp: keeps_bufs_def m_def split: if_splits)
  ultimately show ?thesis unfolding run by (simp add: post_def made_same vars_def flying_def flights_def reads_def)
qed

subsection \<open>Completed commands\<close>

lemma decrease_ok: "tinv g X (q + len) t \<Longrightarrow> safe (post g X q {} t) (decrease_queue_size len t)"
  by (simp add: decrease_queue_size_def post_def tinv_def counted_def charged_def made_same keeps_same vars_def flying_def flights_def reads_def)

definition weight_in_queue :: "copy_command \<Rightarrow> nat" where
  "weight_in_queue c = (if cmd_buffer c = None then 0 else cmd_len c)"

lemma finished_command_ok:
  assumes "tinv g (c # X) (q + weight_in_queue c) t"
  shows "safe (post g X q {} t) (finished_command 0 c t)"
proof -
  have "safe (post g (c # X) q {} t) (if cmd_buffer c \<noteq> None then decrease_queue_size (cmd_len c) t else Ret t)"
    using assms decrease_ok [of g "c # X" q "cmd_len c" t] by (auto simp: weight_in_queue_def post_refl)
  from safe_post [OF this tinv_dst [OF assms], of X q "{}"] show ?thesis
    using free_command_ok post_tinv by (fastforce simp: finished_command_def)
qed

lemma counted_add_flight: "counted (t\<lparr>dst_flight := dst_flight t @ [c]\<rparr>) X = counted t (c # X)"
  unfolding counted_def flights_def reads_def by simp

lemma add_flight:
  assumes "tinv g (c # X) (q + weight_in_queue c) t" "write_ok g (bufs t) c" "rw_ops (dst t) \<noteq> NULL_OPS"
  shows "post g X q (crange c) t (t\<lparr>dst_flight := dst_flight t @ [c]\<rparr>)"
  using assms counted_add_flight [of t c X]
  by (auto simp: post_def tinv_def charged_def weight_in_queue_def vars_def flying_def flights_def reads_def intro!: made_same keeps_same)

lemma write_ok_range: "write_ok g m c \<Longrightarrow> crange c \<subseteq> {..< src_size g}"
  by (auto simp: write_ok_def crange_def)

lemma slice_bytes_ok:
  "write_ok g (bufs t) c \<Longrightarrow> cmd_buffer c \<noteq> None \<Longrightarrow> slice_bytes c t = Ret (src_range g (cmd_offset c) (cmd_len c))"
  by (auto simp: write_ok_def slice_bytes_def)

lemma post_null:
  assumes "post g X q {} t t'" "rw_ops (dst t) = NULL_OPS" "R \<subseteq> {..< src_size g}"
  shows "post g X q R t t'"
proof -
  obtain R0 where R0: "R0 \<subseteq> {..< src_size g}" "towards g R0 (dst t) (dst t')" "flying t \<subseteq> R0 \<union> flying t'"
    using assms(1) by (auto simp: post_def made_def)
  then have "towards g (R0 \<union> R) (dst t) (dst t')" using assms(2) by (simp add: towards_def)
  then show ?thesis
    using R0 assms by (auto simp: post_def made_def intro!: exI [of _ "R0 \<union> R"])
qed

lemma asynch_write_ok:
  assumes cfg: "cfg_ok g" and inv: "tinv g (c # X) (q + cmd_len c) t" and w: "write_ok g (bufs t) c" and b: "cmd_buffer c \<noteq> None"
  shows "safe (post g X q (crange c) t) (asynch_write g c t)"
proof -
  have inv': "tinv g (c # X) (q + weight_in_queue c) t" using inv b by (auto simp: weight_in_queue_def)
  note d = tinv_dst [OF inv] and r = write_ok_range [OF w]
  show ?thesis
  proof (cases "rw_ops (dst t)")
    case FILE_OPS
    have "safe (only_dst g (crange c) t) (file_synch_write g (src_range g (cmd_offset c) (cmd_len c)) (cmd_offset c) t)"
      using file_synch.write_right [OF cfg d FILE_OPS] w by (simp add: write_ok_def crange_def)
    then have "safe (post g (c # X) (q + weight_in_queue c) (crange c) t)
        (file_synch_write g (src_range g (cmd_offset c) (cmd_len c)) (cmd_offset c) t)"
      by (rule safe_mono) (rule post_only_dst [OF inv' _ r])
    from safe_post [OF this d, of X q "{}" "finished_command 0 c"] show ?thesis
      using FILE_OPS finished_command_ok post_tinv
      by (fastforce simp: asynch_write_def file_asynch_write_def slice_bytes_ok [OF w b])
  next
    case NBD_OPS
    have "safe (post g (c # X) (q + weight_in_queue c) {} t) (nbd_call g t)"
      by (rule safe_nbd_call) (rule post_clock [OF inv'])
    moreover have "post g X q (crange c) t (u\<lparr>dst_flight := dst_flight u @ [c]\<rparr>)" if "u = t\<lparr>clock := k\<rparr>" for u k
      using post_trans [OF post_clock [OF inv', of k] add_flight [of g c X q "t\<lparr>clock := k\<rparr>"] d]
        post_tinv [OF post_clock [OF inv', of k]] w that NBD_OPS by simp
    ultimately show ?thesis
      using NBD_OPS
      by (auto simp: asynch_write_def nbd_ops_asynch_write_def slice_bytes_ok [OF w b]
          intro!: safe_andthen [OF safe_nbd_call [of "\<lambda>u. \<exists>k. u = t\<lparr>clock := k\<rparr>"]])
  next
    case NULL_OPS
    then show ?thesis
      using finished_command_ok [OF inv'] post_null [OF _ NULL_OPS r]
      by (auto simp: asynch_write_def null_asynch_write_def intro: safe_mono)
  next
    case PIPE_OPS
    then show ?thesis using d by (simp add: dst_ok_def)
  qed
qed

text \<open>A zeroing command that is refused stays in hand.\<close>

definition zero_post :: "copy_cfg \<Rightarrow> copy_command \<Rightarrow> copy_command list \<Rightarrow> nat \<Rightarrow> thread \<Rightarrow> bool \<times> thread \<Rightarrow> bool" where
  "zero_post g c X q t r \<longleftrightarrow> (if fst r then post g X q (crange c) t (snd r) else post g (c # X) q {} t (snd r))"

lemma THREAD_WORK_SIZE_small: "THREAD_WORK_SIZE \<le> 2 ^ 32 - 1"
  by (simp add: THREAD_WORK_SIZE_def)

lemma asynch_zero_ok:
  assumes cfg: "cfg_ok g" and inv: "tinv g (c # X) q t" and w: "write_ok g (bufs t) c" and b: "cmd_buffer c = None"
  shows "safe (zero_post g c X q t) (asynch_zero g c alloc t)"
proof -
  have inv': "tinv g (c # X) (q + weight_in_queue c) t" using inv b by (simp add: weight_in_queue_def)
  note d = tinv_dst [OF inv] and r = write_ok_range [OF w]
  have z: "src_zero g (cmd_offset c) (cmd_len c)" "cmd_offset c + cmd_len c \<le> src_size g" "cmd_len c \<le> 2 ^ 32 - 1"
    using w b THREAD_WORK_SIZE_small by (auto simp: write_ok_def)
  show ?thesis
  proof (cases "rw_ops (dst t)")
    case FILE_OPS
    have zr: "safe (zeroing g (cmd_offset c) (cmd_len c) t) (file_synch_zero g (cmd_offset c) (cmd_len c) alloc t)"
      by (rule file_synch.zero_right [OF cfg d FILE_OPS z(2,1)])
    show ?thesis
      unfolding asynch_zero_def FILE_OPS rw_kind.case file_asynch_zero_def
    proof (rule safe_andthen [OF zr])
      fix x assume x: "zeroing g (cmd_offset c) (cmd_len c) t x"
      obtain ok u where u: "x = (ok, u)" by (rule prod.exhaust)
      show "safe (zero_post g c X q t) (case x of (ok, t) \<Rightarrow> if \<not> ok then Ret (False, t)
          else andthen (finished_command 0 c t) (\<lambda>t. Ret (True, t)))"
      proof (cases ok)
        case True
        then have p: "post g (c # X) (q + weight_in_queue c) (crange c) t u"
          using x u post_only_dst [OF inv' _ r] by (simp add: zeroing_def crange_def)
        have "safe (post g X q (crange c) t) (finished_command 0 c u)"
          by (rule safe_mono [OF finished_command_ok [OF post_tinv [OF p]]]) (use post_trans [OF p _ d] in fastforce)
        then show ?thesis using True u by (auto simp: zero_post_def intro!: safe_andthen)
      next
        case False
        then show ?thesis using x u post_only_dst [OF inv, of "{}"] by (simp add: zeroing_def zero_post_def)
      qed
    qed
  next
    case NBD_OPS
    have "post g X q (crange c) t (u\<lparr>dst_flight := dst_flight u @ [c]\<rparr>)" if "u = t\<lparr>clock := k\<rparr>" for u k
      using post_trans [OF post_clock [OF inv', of k] add_flight [of g c X q "t\<lparr>clock := k\<rparr>"] d]
        post_tinv [OF post_clock [OF inv', of k]] w that NBD_OPS by simp
    then show ?thesis
      using NBD_OPS z(3) post_refl [OF inv]
      by (auto simp: asynch_zero_def nbd_ops_asynch_zero_def zero_post_def
          intro!: safe_andthen [OF safe_nbd_call [of "\<lambda>u. \<exists>k. u = t\<lparr>clock := k\<rparr>"]])
  next
    case NULL_OPS
    then show ?thesis
      using finished_command_ok [OF inv'] post_null [OF _ NULL_OPS r]
      by (auto simp: asynch_zero_def null_asynch_zero_def zero_post_def intro!: safe_andthen)
  next
    case PIPE_OPS
    then show ?thesis using d by (simp add: dst_ok_def)
  qed
qed

lemma fill_dst_range_ok:
  assumes cfg: "cfg_ok g" and inv: "tinv g (c # X) q t" and w: "write_ok g (bufs t) c" and b: "cmd_buffer c = None"
  shows "safe (post g X q (crange c) t) (fill_dst_range_with_zeroes g c t)"
proof -
  note d = tinv_dst [OF inv] and r = write_ok_range [OF w]
  have z: "src_zero g (cmd_offset c) (cmd_len c)" "cmd_offset c + cmd_len c \<le> src_size g" "0 < cmd_len c"
    using w b by (auto simp: write_ok_def)
  show ?thesis
  proof (cases "cfg_target_is_zero g")
    case True
    have "rw_bytes (dst t) ! p = src_bytes g ! p" if "p \<in> crange c" "rw_ops (dst t) \<noteq> NULL_OPS" for p
    proof -
      have "p < src_size g" "src_bytes g ! p = 0" using that(1) z by (auto simp: crange_def src_zero_def)
      then show ?thesis using d True that(2) by (auto simp: dst_ok_def)
    qed
    then have "towards g (crange c) (dst t) (dst t)" by (simp add: towards_def)
    then have "only_dst g (crange c) t t" by (intro only_dstI [where c = "clock t" and d = "dst t"]) simp_all
    then have p: "post g (c # X) q (crange c) t t" using post_only_dst [OF inv _ r] by simp
    have "safe (post g X q (crange c) t) (free_command c t)"
      by (rule safe_mono [OF free_command_ok [OF inv]]) (use post_trans [OF p _ d] in fastforce)
    then show ?thesis using True by (simp add: fill_dst_range_with_zeroes_def)
  next
    case False
    have fall: "safe (post g X q (crange c) t) (andthen (allocate g u) (\<lambda>t.
        andthen (write_zeroes g (min (cfg_request_size g) (cmd_len c)) (cmd_offset c) (cmd_len c) t) (free_command c)))"
      if u: "post g (c # X) q {} t u" for u
    proof (rule safe_andthen [OF safe_allocate [of "\<lambda>v. post g (c # X) q {} t v"]])
      show "post g (c # X) q {} t (u\<lparr>clock := k\<rparr>)" for k
        using post_trans [OF u post_clock [OF post_tinv [OF u], of k] d] by simp
    next
      fix v assume v: "post g (c # X) q {} t v"
      note vi = post_tinv [OF v]
      have "safe (only_dst g (crange c) v) (write_zeroes g (min (cfg_request_size g) (cmd_len c)) (cmd_offset c) (cmd_len c) v)"
        unfolding crange_def using cfg_okD(3) [OF cfg] z by (intro write_zeroes_src [OF cfg tinv_dst [OF vi]]) simp_all
      then have "safe (post g (c # X) q (crange c) v)
          (write_zeroes g (min (cfg_request_size g) (cmd_len c)) (cmd_offset c) (cmd_len c) v)"
        by (rule safe_mono) (rule post_only_dst [OF vi _ r])
      from safe_post [OF this tinv_dst [OF vi], of X q "{}" "free_command c"]
      have "safe (post g X q (crange c) v)
          (andthen (write_zeroes g (min (cfg_request_size g) (cmd_len c)) (cmd_offset c) (cmd_len c) v) (free_command c))"
        using free_command_ok post_tinv by fastforce
      then show "safe (post g X q (crange c) t)
          (andthen (write_zeroes g (min (cfg_request_size g) (cmd_len c)) (cmd_offset c) (cmd_len c) v) (free_command c))"
        by (rule safe_mono) (use post_trans [OF v _ d] in fastforce)
    qed
    have after: "safe (post g X q (crange c) t) (case x of (ok, t) \<Rightarrow> if ok then Ret t else andthen (allocate g t) (\<lambda>t.
        andthen (write_zeroes g (min (cfg_request_size g) (cmd_len c)) (cmd_offset c) (cmd_len c) t) (free_command c)))"
      if "zero_post g c X q t x" for x
      using that fall [of "snd x"] by (cases x) (auto simp: zero_post_def)
    show ?thesis
      unfolding fill_dst_range_with_zeroes_def if_not_P [OF False]
      by (rule safe_andthen [OF asynch_zero_ok [OF cfg inv w b]]) (rule after)
  qed
qed

subsection \<open>New commands\<close>

text \<open>What can be said of the rest of the thread when only a new buffer is added, or one is used once more.\<close>

lemma create_zero_ok:
  assumes "tinv g X q t"
  shows "safe (\<lambda>(c, t'). post g (c # X) q {} t t' \<and> c = \<lparr>cmd_offset = off, cmd_len = len, cmd_base = 0, cmd_buffer = None\<rparr>)
    (create_command g off len True t)"
proof -
  have cnt: "tinv g (c # X) q u = tinv g X q u" if "cmd_buffer c = None" for c u
    using that by (simp add: tinv_def counted_def)
  show ?thesis
    unfolding create_command_def
    using post_clock [OF assms]
    by (intro safe_andthen [OF safe_allocate [of "\<lambda>u. \<exists>k. u = t\<lparr>clock := k\<rparr>"]]) (auto simp: post_def cnt)
qed

lemma tinv_new_buffer:
  assumes "tinv g X q t" "cmd_buffer c = Some (next_buf t)"
  shows "tinv g (c # X) q (t\<lparr>bufs := (bufs t)(next_buf t \<mapsto> \<lparr>buf_data = data, buf_refs = 1\<rparr>), next_buf := next_buf t + 1\<rparr>)"
    (is "tinv g (c # X) q ?t")
proof -
  let ?m = "(bufs t)(next_buf t \<mapsto> \<lparr>buf_data = data, buf_refs = 1\<rparr>)"
  have cnt: "counted t X" and new: "bufs t (next_buf t) = None" using assms(1) by (simp_all add: tinv_def)
  have none: "uses (next_buf t) (flights t @ X) = 0" using cnt new unfolding counted_def by (simp add: refs_of_def)
  have old: "cmd_buffer c' \<noteq> Some (next_buf t)" if "c' \<in> set (flights t)" for c'
    using uses_pos [of c' "flights t @ X" "next_buf t"] none that by auto
  have "uses b (flights t @ c # X) = refs_of ?m b" for b
  proof (cases "b = next_buf t")
    case True
    then show ?thesis using none assms(2) by simp
  next
    case False
    then show ?thesis using cnt assms(2) unfolding counted_def by simp
  qed
  moreover have "0 < buf_refs buf" if "?m b = Some buf" for b buf
    using that cnt by (auto simp: counted_def split: if_splits)
  ultimately have "counted ?t (c # X)" by (simp add: counted_def flights_def reads_def)
  moreover have "read_ok g ?m c'" if "c' \<in> set (reads t)" for c'
    by (rule read_ok_cong [of g "bufs t"]) (use assms(1) that old [of c'] in \<open>auto simp: tinv_def flights_def reads_def\<close>)
  moreover have "write_ok g ?m c'" if "c' \<in> set (dst_flight t)" for c'
    by (rule write_ok_cong [of g "bufs t"]) (use assms(1) that old [of c'] in \<open>auto simp: tinv_def flights_def reads_def\<close>)
  ultimately show ?thesis using assms(1) by (simp add: tinv_def charged_def reads_def)
qed

lemma create_read_ok:
  assumes "tinv g X q t" "0 < len" "off + len \<le> src_size g" "len \<le> THREAD_WORK_SIZE"
  shows "safe (\<lambda>(c, t'). post g (c # X) q {} t t' \<and> read_ok g (bufs t') c \<and> cmd_offset c = off \<and> cmd_len c = len)
    (create_command g off len False t)"
proof -
  let ?c = "\<lambda>u. \<lparr>cmd_offset = off, cmd_len = len, cmd_base = 0, cmd_buffer = Some (next_buf u)\<rparr>"
  let ?u = "\<lambda>k. t\<lparr>clock := k\<rparr>"
  let ?t = "\<lambda>k data. (?u k)\<lparr>bufs := (bufs t)(next_buf t \<mapsto> \<lparr>buf_data = data, buf_refs = 1\<rparr>), next_buf := next_buf t + 1\<rparr>"
  have u: "tinv g X q (?u k)" for k by (rule post_tinv [OF post_clock [OF assms(1)]])
  have "post g (?c t # X) q {} t (?t k data) \<and> read_ok g (bufs (?t k data)) (?c t)" if "length data = len" for k data
    using tinv_new_buffer [OF u [of k], of "?c t" data] assms(2-4) that
    by (auto simp: post_def read_ok_def vars_def flying_def flights_def reads_def keeps_bufs_def intro!: made_same)
  then show ?thesis
    unfolding create_command_def create_buffer_def
    by (auto simp: andthen_assoc intro!: safe_andthen [OF safe_allocate [of "\<lambda>u. \<exists>k. u = t\<lparr>clock := k\<rparr>"]]
        safe_andthen [OF safe_allocate [of "\<lambda>u. \<exists>k. u = t\<lparr>clock := k\<rparr>"]] safe_allocate)
qed

text \<open>A read command whose buffer has the bytes of the source.\<close>

definition filled :: "copy_cfg \<Rightarrow> copy_command \<Rightarrow> thread \<Rightarrow> bool" where
  "filled g c t \<longleftrightarrow> 0 < cmd_len c \<and> cmd_offset c + cmd_len c \<le> src_size g \<and> cmd_len c \<le> THREAD_WORK_SIZE \<and> cmd_base c = 0 \<and>
     (\<exists>b buf. cmd_buffer c = Some b \<and> bufs t b = Some buf \<and> buf_data buf = src_range g (cmd_offset c) (cmd_len c))"

lemma filled_kept:
  assumes "filled g c t" "tinv g (c # X) q t" "post g (c # X') q' P t t'"
  shows "filled g c t'"
proof -
  obtain b buf where b: "cmd_buffer c = Some b" "bufs t b = Some buf" "buf_data buf = src_range g (cmd_offset c) (cmd_len c)"
    using assms(1) by (auto simp: filled_def)
  have "b < next_buf t" using b(2) assms(2) unfolding tinv_def by (metis leI option.distinct(1))
  moreover obtain buf' where "bufs t' b = Some buf'"
    using countedD [of t' "c # X'" c b] b(1) assms(3) by (auto simp: post_def tinv_def)
  ultimately have "buf_data buf' = buf_data buf"
    using assms(3) b(2) by (auto simp: post_def made_def keeps_bufs_def)
  then show ?thesis using assms(1) b \<open>bufs t' b = Some buf'\<close> by (auto simp: filled_def)
qed

lemma filled_write_ok: "cfg_ok g \<Longrightarrow> filled g c t \<Longrightarrow> write_ok g (bufs t) c"
  using length_src_range by (auto simp: filled_def write_ok_def)

lemma tinv_use_again:
  assumes "tinv g (c # X) q t" "cmd_buffer c = Some b" "bufs t b = Some buf" "cmd_buffer n = Some b"
  shows "tinv g (n # c # X) q (t\<lparr>bufs := (bufs t)(b \<mapsto> buf\<lparr>buf_refs := buf_refs buf + 1\<rparr>)\<rparr>)"
proof -
  let ?m = "(bufs t)(b \<mapsto> buf\<lparr>buf_refs := buf_refs buf + 1\<rparr>)"
  have cnt: "counted t (c # X)" using assms(1) by (simp add: tinv_def)
  have refs: "uses b (flights t @ c # X) = buf_refs buf" using cnt assms(3) unfolding counted_def by (simp add: refs_of_def)
  have "uses b' (flights t @ n # c # X) = refs_of ?m b'" for b'
  proof (cases "b' = b")
    case True
    then show ?thesis using refs assms(4) by simp
  next
    case False
    have "uses b' (flights t @ n # c # X) = uses b' (flights t @ c # X)" using False assms(4) by simp
    also have "\<dots> = refs_of (bufs t) b'" using cnt unfolding counted_def by blast
    finally show ?thesis using False by simp
  qed
  moreover have "0 < buf_refs buf'" if "?m b' = Some buf'" for b' buf'
    using that cnt by (auto simp: counted_def split: if_splits)
  ultimately have "counted (t\<lparr>bufs := ?m\<rparr>) (n # c # X)" by (simp add: counted_def flights_def reads_def)
  moreover have "read_ok g ?m c'" if c': "c' \<in> set (reads t)" for c'
  proof (rule read_ok_cong [of g "bufs t"])
    show ok: "read_ok g (bufs t) c'" using assms(1) c' by (simp add: tinv_def)
    have "cmd_buffer c' \<noteq> Some b"
    proof
      assume b: "cmd_buffer c' = Some b"
      then have "buf_refs buf = 1" using ok assms(3) by (auto simp: read_ok_def)
      moreover have "0 < uses b (flights t)" using uses_pos [of c' "flights t" b] c' b by (auto simp: flights_def)
      ultimately show False using refs assms(2) by simp
    qed
    then show "?m b' = bufs t b'" if "cmd_buffer c' = Some b'" for b' using that by auto
  qed
  moreover have "write_ok g ?m c'" if "c' \<in> set (dst_flight t)" for c'
  proof -
    have ok: "write_ok g (bufs t) c'" using assms(1) that by (simp add: tinv_def)
    show ?thesis
    proof (cases "cmd_buffer c' = Some b")
      case True
      then show ?thesis using ok assms(3) by (auto simp: write_ok_def)
    next
      case False
      then show ?thesis by (intro write_ok_cong [OF ok]) auto
    qed
  qed
  ultimately show ?thesis using assms(1,3) by (auto simp: tinv_def charged_def reads_def)
qed

definition sub_of :: "copy_command \<Rightarrow> nat \<Rightarrow> nat \<Rightarrow> bool" where
  "sub_of c lo hi \<longleftrightarrow> cmd_offset c \<le> lo \<and> lo < hi \<and> hi \<le> cmd_offset c + cmd_len c"

lemma create_subcommand_ok:
  assumes cfg: "cfg_ok g" and inv: "tinv g (c # X) q t" and fil: "filled g c t" and sub: "sub_of c lo hi"
  shows "safe (\<lambda>(n, t'). post g (n # c # X) q {} t t' \<and> cmd_offset n = lo \<and> cmd_len n = hi - lo \<and>
      cmd_buffer n \<noteq> None \<and> write_ok g (bufs t') n) (create_subcommand g c lo (hi - lo) False t)"
    and "safe (\<lambda>(n, t'). post g (n # c # X) q {} t t' \<and> n = \<lparr>cmd_offset = lo, cmd_len = hi - lo, cmd_base = 0, cmd_buffer = None\<rparr>)
      (create_subcommand g c lo (hi - lo) True t)"
proof -
  note d = tinv_dst [OF inv]
  obtain b buf where b: "cmd_buffer c = Some b" "bufs t b = Some buf" "buf_data buf = src_range g (cmd_offset c) (cmd_len c)"
    using fil by (auto simp: filled_def)
  let ?n = "\<lparr>cmd_offset = lo, cmd_len = hi - lo, cmd_base = lo - cmd_offset c, cmd_buffer = Some b\<rparr>"
  let ?t = "\<lambda>k. (t\<lparr>clock := k\<rparr>)\<lparr>bufs := (bufs t)(b \<mapsto> buf\<lparr>buf_refs := buf_refs buf + 1\<rparr>)\<rparr>"
  have "tinv g (c # X) q (t\<lparr>clock := k\<rparr>)" for k by (rule post_tinv [OF post_clock [OF inv]])
  then have "tinv g (?n # c # X) q (?t k)" for k
    using tinv_use_again [of g c X q "t\<lparr>clock := k\<rparr>" b buf ?n] b by simp
  moreover have "made g {} t (?t k)" for k
    using b(2) by (intro made_same) (auto simp: vars_def keeps_bufs_def flying_def flights_def reads_def)
  ultimately have p: "post g (?n # c # X) q {} t (?t k)" for k by (simp add: post_def)
  have "take (hi - lo) (drop (lo - cmd_offset c) (src_range g (cmd_offset c) (cmd_len c))) = src_range g lo (hi - lo)"
    using sub by (auto simp: drop_src_range sub_of_def intro!: take_src_range)
  then have w: "write_ok g (bufs (?t k)) ?n" for k
    using fil sub b(3) length_src_range [OF cfg, of "cmd_offset c" "cmd_len c"]
    by (auto simp: write_ok_def filled_def sub_of_def)
  show "safe (\<lambda>(n, t'). post g (n # c # X) q {} t t' \<and> cmd_offset n = lo \<and> cmd_len n = hi - lo \<and>
      cmd_buffer n \<noteq> None \<and> write_ok g (bufs t') n) (create_subcommand g c lo (hi - lo) False t)"
    unfolding create_subcommand_def Let_def
    using sub b p w by (auto simp: sub_of_def intro!: safe_andthen [OF safe_allocate [of "\<lambda>u. \<exists>k. u = t\<lparr>clock := k\<rparr>"]])
  have cnt: "tinv g (n # c # X) q u = tinv g (c # X) q u" if "cmd_buffer n = None" for n u
    using that by (simp add: tinv_def counted_def)
  show "safe (\<lambda>(n, t'). post g (n # c # X) q {} t t' \<and> n = \<lparr>cmd_offset = lo, cmd_len = hi - lo, cmd_base = 0, cmd_buffer = None\<rparr>)
      (create_subcommand g c lo (hi - lo) True t)"
    unfolding create_subcommand_def Let_def
    using sub post_clock [OF inv]
    by (auto simp: sub_of_def post_def cnt intro!: safe_andthen [OF safe_allocate [of "\<lambda>u. \<exists>k. u = t\<lparr>clock := k\<rparr>"]])
qed

subsection \<open>Finished reads\<close>

lemma sub_write_ok:
  assumes cfg: "cfg_ok g" and inv: "tinv g (c # X) (q + (hi - lo)) t" and fil: "filled g c t" and sub: "sub_of c lo hi"
  shows "safe (post g (c # X) q {lo ..< hi} t) (sub_write g c lo hi t)"
  unfolding sub_write_def
proof (rule safe_andthen [OF create_subcommand_ok(1) [OF cfg inv fil sub]])
  note d = tinv_dst [OF inv]
  fix r assume r: "case r of (n, t') \<Rightarrow> post g (n # c # X) (q + (hi - lo)) {} t t' \<and> cmd_offset n = lo \<and> cmd_len n = hi - lo \<and>
      cmd_buffer n \<noteq> None \<and> write_ok g (bufs t') n"
  obtain n u where n: "r = (n, u)" by (rule prod.exhaust)
  have p: "post g (n # c # X) (q + (hi - lo)) {} t u" and c: "crange n = {lo ..< hi}"
    and w: "safe (post g (c # X) q (crange n) u) (asynch_write g n u)"
    using r n sub asynch_write_ok [OF cfg, of n "c # X" q u] by (auto simp: crange_def sub_of_def post_def)
  show "safe (post g (c # X) q {lo ..< hi} t) (case r of (n, t) \<Rightarrow> asynch_write g n t)"
    using n safe_mono [OF w] post_trans [OF p _ d] c by fastforce
qed

lemma sub_zero_ok:
  assumes cfg: "cfg_ok g" and inv: "tinv g (c # X) (q + (hi - lo)) t" and fil: "filled g c t" and sub: "sub_of c lo hi"
    and z: "src_zero g lo (hi - lo)"
  shows "safe (post g (c # X) q {lo ..< hi} t) (sub_zero g c lo hi t)"
  unfolding sub_zero_def
proof (rule safe_andthen [OF create_subcommand_ok(2) [OF cfg inv fil sub]])
  note d = tinv_dst [OF inv]
  fix r assume r: "case r of (n, t') \<Rightarrow> post g (n # c # X) (q + (hi - lo)) {} t t' \<and>
      n = \<lparr>cmd_offset = lo, cmd_len = hi - lo, cmd_base = 0, cmd_buffer = None\<rparr>"
  obtain n u where n: "r = (n, u)" by (rule prod.exhaust)
  have p: "post g (n # c # X) (q + (hi - lo)) {} t u" and c: "crange n = {lo ..< hi}" and b: "cmd_buffer n = None"
    and l: "cmd_len n = hi - lo"
    using r n sub by (auto simp: crange_def sub_of_def)
  have w: "write_ok g m n" for m
    using r n z fil sub by (auto simp: write_ok_def filled_def sub_of_def)
  have dec: "safe (post g (n # c # X) q {} u) (decrease_queue_size (cmd_len n) u)"
    by (rule decrease_ok) (use post_tinv [OF p] l in simp)
  have fill: "safe (post g (c # X) q {lo ..< hi} v) (fill_dst_range_with_zeroes g n v)" if "post g (n # c # X) q {} u v" for v
    using fill_dst_range_ok [OF cfg post_tinv [OF that] w b] c by simp
  have "safe (post g (c # X) q ({} \<union> {lo ..< hi}) u) (andthen (decrease_queue_size (cmd_len n) u) (fill_dst_range_with_zeroes g n))"
    by (rule safe_post [OF dec tinv_dst [OF post_tinv [OF p]] fill])
  then show "safe (post g (c # X) q {lo ..< hi} t) (case r of (n, t) \<Rightarrow>
      andthen (decrease_queue_size (cmd_len n) t) (fill_dst_range_with_zeroes g n))"
    using n post_trans [OF p _ d] by (auto elim!: safe_mono)
qed

text \<open>
  The invariant of the loop over the blocks: everything before \<open>last_offset\<close> has been passed on, the rest of the
  command is still in the queue size, and if the pending range is a zero range then it is zero.
\<close>

definition loop_post :: "copy_cfg \<Rightarrow> copy_command \<Rightarrow> copy_command list \<Rightarrow> nat \<Rightarrow> nat \<Rightarrow> nat \<Rightarrow> thread \<Rightarrow> nat \<times> nat \<times> bool \<times> thread \<Rightarrow> bool" where
  "loop_post g c X q fin lo t r \<longleftrightarrow> (case r of (i, last_offset, last_is_zero, t') \<Rightarrow>
     post g (c # X) (q + (fin - last_offset)) {lo ..< last_offset} t t' \<and> filled g c t' \<and>
     lo \<le> last_offset \<and> last_offset \<le> i \<and> i \<le> fin \<and> (last_is_zero \<longrightarrow> src_zero g last_offset (i - last_offset)))"

lemma loop_post_step:
  assumes "post g (c # X) (q + (fin - mid)) {lo ..< mid} t u" "dst_ok g (dst t)" "lo \<le> mid" "loop_post g c X q fin mid u r"
  shows "loop_post g c X q fin lo t r"
proof -
  obtain i l z v where r: "r = (i, l, z, v)" by (cases r) auto
  have "post g (c # X) (q + (fin - l)) ({lo ..< mid} \<union> {mid ..< l}) t v"
    using post_trans [OF assms(1) _ assms(2)] assms(4) r by (auto simp: loop_post_def)
  then show ?thesis
    using assms(3,4) r by (auto simp: loop_post_def ivl_disj_un_two(3))
qed

lemma block_zero:
  assumes cfg: "cfg_ok g" and c: "cmd_offset c \<le> i" "i + n \<le> cmd_offset c + cmd_len c" "cmd_offset c + cmd_len c \<le> src_size g"
    and z: "is_zero (take n (drop (i - cmd_offset c) (src_range g (cmd_offset c) (cmd_len c))))"
  shows "src_zero g i n"
proof -
  have "take n (drop (i - cmd_offset c) (src_range g (cmd_offset c) (cmd_len c))) = src_range g i n"
    using c by (auto simp: drop_src_range intro!: take_src_range)
  moreover have "length (src_range g i n) = n" using c by (intro length_src_range [OF cfg]) linarith
  ultimately have "src_range g i n = replicate n 0" using z is_zero_replicate by metis
  then show ?thesis using c cfg_okD(1) [OF cfg] by (intro src_range_zero) simp_all
qed

lemma sparse_loop_ok:
  assumes cfg: "cfg_ok g" and data: "data = src_range g (cmd_offset c) (cmd_len c)" and fin: "fin = cmd_offset c + cmd_len c"
  shows "tinv g (c # X) (q + (fin - lo)) t \<Longrightarrow> filled g c t \<Longrightarrow> cmd_offset c \<le> lo \<Longrightarrow> lo \<le> i \<Longrightarrow> i \<le> fin \<Longrightarrow>
    (z \<longrightarrow> src_zero g lo (i - lo)) \<Longrightarrow> safe (loop_post g c X q fin lo t) (sparse_loop g c data fin i lo z t)"
proof (induction "fin - i" arbitrary: i lo z t rule: less_induct)
  case less
  note inv = less.prems(1) and fil = less.prems(2)
  note d = tinv_dst [OF inv]
  let ?n = "cfg_sparse_size g"
  show ?case
  proof (cases "0 < ?n \<and> i + ?n \<le> fin")
    case False
    then have "sparse_loop g c data fin i lo z t = Ret (i, lo, z, t)" by (subst sparse_loop.simps) auto
    then show ?thesis using less.prems post_refl [OF inv] by (simp add: loop_post_def)
  next
    case True
    let ?zero = "is_zero (take ?n (drop (i - cmd_offset c) data))"
    have blk: "?zero \<Longrightarrow> src_zero g i ?n"
      using block_zero [OF cfg, of c i ?n] True less.prems fin data by (simp add: filled_def)
    have dec: "fin - (i + ?n) < fin - i" using True less.prems by linarith
    have sub: "i - lo > 0 \<Longrightarrow> sub_of c lo i" using less.prems fin by (auto simp: sub_of_def)
    have q: "tinv g (c # X) ((q + (fin - i)) + (i - lo)) t" using inv less.prems by simp
    have switch: "safe (loop_post g c X q fin lo t)
        (andthen (if i - lo > 0 then act else Ret t) (sparse_loop g c data fin (i + ?n) i ?zero))"
      if act: "i - lo > 0 \<Longrightarrow> safe (post g (c # X) (q + (fin - i)) {lo ..< i} t) act" for act
    proof (rule safe_andthen [of "post g (c # X) (q + (fin - i)) {lo ..< i} t"])
      show "safe (post g (c # X) (q + (fin - i)) {lo ..< i} t) (if i - lo > 0 then act else Ret t)"
        using act post_refl [OF inv] less.prems by auto
      fix u assume u: "post g (c # X) (q + (fin - i)) {lo ..< i} t u"
      have "safe (loop_post g c X q fin i u) (sparse_loop g c data fin (i + ?n) i ?zero u)"
        using less.prems True blk post_tinv [OF u] filled_kept [OF fil inv u] by (intro less.hyps [OF dec]) auto
      then show "safe (loop_post g c X q fin lo t) (sparse_loop g c data fin (i + ?n) i ?zero u)"
        by (rule safe_mono) (rule loop_post_step [OF u d less.prems(4)])
    qed
    have stay: "safe (loop_post g c X q fin lo t) (sparse_loop g c data fin (i + ?n) lo z t)" if "z = ?zero"
    proof (rule less.hyps [OF dec inv fil])
      show "z \<longrightarrow> src_zero g lo (i + ?n - lo)"
        using that blk less.prems src_zero_append [of g lo "i - lo" ?n] by auto
    qed (use less.prems True in auto)
    show ?thesis
    proof (cases ?zero)
      case zero: True
      show ?thesis
      proof (cases z)
        case True
        then show ?thesis using stay zero \<open>0 < ?n \<and> i + ?n \<le> fin\<close> by (subst sparse_loop.simps) simp
      next
        case False
        have "safe (loop_post g c X q fin lo t)
            (andthen (if i - lo > 0 then sub_write g c lo i t else Ret t) (sparse_loop g c data fin (i + ?n) i ?zero))"
          by (rule switch) (rule sub_write_ok [OF cfg q fil sub])
        then show ?thesis using False zero \<open>0 < ?n \<and> i + ?n \<le> fin\<close> by (subst sparse_loop.simps) simp
      qed
    next
      case data: False
      show ?thesis
      proof (cases z)
        case True
        have "safe (loop_post g c X q fin lo t)
            (andthen (if i - lo > 0 then sub_zero g c lo i t else Ret t) (sparse_loop g c data fin (i + ?n) i ?zero))"
          by (rule switch) (use sub_zero_ok [OF cfg q fil sub] less.prems True in simp)
        then show ?thesis using True data \<open>0 < ?n \<and> i + ?n \<le> fin\<close> by (subst sparse_loop.simps) simp
      next
        case False
        then show ?thesis using stay data \<open>0 < ?n \<and> i + ?n \<le> fin\<close> by (subst sparse_loop.simps) simp
      qed
    qed
  qed
qed

lemma round_up_start:
  assumes "cfg_ok g" "start \<le> src_size g" "cfg_sparse_size g \<noteq> 0"
  shows "\<exists>up. ROUND_UP (of_nat start) (of_nat (cfg_sparse_size g)) = Some up \<and> start \<le> unat up"
proof -
  let ?n = "cfg_sparse_size g"
  have b: "start < 2 ^ 63" "?n < 2 ^ 32" "is_power_of_2 (of_nat ?n)" using assms by (auto simp: cfg_ok_def)
  then have u: "unat (of_nat start :: u64) = start" "unat (of_nat ?n :: u64) = ?n"
    by (simp_all add: unat_of_nat)
  have "unat (of_nat start :: u64) + unat (of_nat ?n :: u64) \<le> 2 ^ 64" using b u by simp
  then obtain up where up: "ROUND_UP (of_nat start) (of_nat ?n) = Some up" "unat up = (start + ?n - 1) div ?n * ?n"
    using ROUND_UP_exact [OF b(3), of "of_nat start"] u by auto
  have "start + ?n - 1 = (start + ?n - 1) div ?n * ?n + (start + ?n - 1) mod ?n" by (simp only: div_mult_mod_eq)
  moreover have "(start + ?n - 1) mod ?n < ?n" using assms(3) by simp
  ultimately have "start \<le> (start + ?n - 1) div ?n * ?n" using assms(3) by linarith
  then show ?thesis using up by auto
qed

lemma finished_read_ok:
  assumes cfg: "cfg_ok g" and inv: "tinv g (c # X) (q + cmd_len c) t" and fil: "filled g c t"
  shows "safe (post g X q (crange c) t) (finished_read g 0 c t)"
proof (cases "cfg_allocated g \<or> cfg_sparse_size g = 0")
  case True
  then show ?thesis
    using asynch_write_ok [OF cfg inv filled_write_ok [OF cfg fil]] fil by (auto simp: finished_read_def filled_def)
next
  case False
  note d = tinv_dst [OF inv]
  let ?start = "cmd_offset c" and ?fin = "cmd_offset c + cmd_len c" and ?data = "src_range g (cmd_offset c) (cmd_len c)"
  obtain up where up: "ROUND_UP (of_nat ?start) (of_nat (cfg_sparse_size g)) = Some up" "?start \<le> unat up"
    using round_up_start [OF cfg, of ?start] False fil by (auto simp: filled_def)
  have sb: "slice_bytes c t = Ret ?data"
    using slice_bytes_ok [OF filled_write_ok [OF cfg fil]] fil by (auto simp: filled_def)
  have loop: "safe (loop_post g c X q ?fin ?start t) (sparse_loop g c ?data ?fin (min (unat up) ?fin) ?start False t)"
    by (rule sparse_loop_ok [OF cfg refl refl]) (use inv fil up in simp_all)
  have rest: "safe (post g X q {l ..< ?fin} u)
      (andthen (if i - l > 0 then if \<not> z then sub_write g c l i u else sub_zero g c l i u else Ret u) (\<lambda>t.
       andthen (if ?fin - i > 0 then sub_write g c i ?fin t else Ret t) (free_command c)))"
    if r: "loop_post g c X q ?fin ?start t (i, l, z, u)" for i l z u
  proof -
    have le: "?start \<le> l" "l \<le> i" "i \<le> ?fin" "z \<Longrightarrow> src_zero g l (i - l)" and fu: "filled g c u"
      and iu: "tinv g (c # X) ((q + (?fin - i)) + (i - l)) u"
      using r by (auto simp: loop_post_def post_def)
    have a: "safe (post g (c # X) (q + (?fin - i)) {l ..< i} u)
        (if i - l > 0 then if \<not> z then sub_write g c l i u else sub_zero g c l i u else Ret u)"
    proof (cases "i - l > 0")
      case True
      then have "sub_of c l i" using le by (auto simp: sub_of_def)
      then show ?thesis using True sub_write_ok [OF cfg iu fu] sub_zero_ok [OF cfg iu fu] le(4) by simp
    next
      case False
      then show ?thesis using post_refl [OF iu] le by simp
    qed
    have "safe (post g X q ({i ..< ?fin} \<union> {}) v) (andthen (if ?fin - i > 0 then sub_write g c i ?fin v else Ret v) (free_command c))"
      if v: "post g (c # X) (q + (?fin - i)) {l ..< i} u v" for v
    proof (rule safe_post [OF _ tinv_dst [OF post_tinv [OF v]]])
      note iv = post_tinv [OF v] and fv = filled_kept [OF fu iu v]
      show "safe (post g (c # X) q {i ..< ?fin} v) (if ?fin - i > 0 then sub_write g c i ?fin v else Ret v)"
      proof (cases "?fin - i > 0")
        case True
        then have "sub_of c i ?fin" using le by (auto simp: sub_of_def)
        then show ?thesis using True sub_write_ok [OF cfg iv fv] by simp
      next
        case False
        then show ?thesis using post_refl [OF iv] by simp
      qed
    qed (rule free_command_ok, rule post_tinv)
    from safe_post [OF a tinv_dst [OF iu] this] show ?thesis using le by (simp add: ivl_disj_un_two(3))
  qed
  let ?body = "\<lambda>(i, l, z, u). andthen (if i - l > 0 then if \<not> z then sub_write g c l i u else sub_zero g c l i u else Ret u) (\<lambda>t.
       andthen (if ?fin - i > 0 then sub_write g c i ?fin t else Ret t) (free_command c))"
  have run: "finished_read g 0 c t = andthen (sparse_loop g c ?data ?fin (min (unat up) ?fin) ?start False t) ?body"
    using False by (simp add: finished_read_def up sb Let_def)
  show ?thesis
    unfolding run
  proof (rule safe_andthen [OF loop])
    fix r assume r: "loop_post g c X q ?fin ?start t r"
    obtain i l z u where ilzu: "r = (i, l, z, u)" by (cases r) auto
    have "post g (c # X) (q + (?fin - l)) {?start ..< l} t u" and le: "?start \<le> l" "l \<le> ?fin"
      using r ilzu by (auto simp: loop_post_def)
    then have "post g X q {l ..< ?fin} u v \<Longrightarrow> post g X q (crange c) t v" for v
      using post_trans [of g "c # X" _ "{?start ..< l}" t u X q "{l ..< ?fin}" v] d by (simp add: crange_def ivl_disj_un_two(3))
    then show "safe (post g X q (crange c) t) (?body r)"
      using safe_mono [OF rest [OF r [unfolded ilzu]]] unfolding ilzu prod.case by blast
  qed
qed

section \<open>Completions\<close>

lemma put_bytes_all: "length bs = length xs \<Longrightarrow> put_bytes 0 bs xs = bs"
  by (simp add: put_bytes_def)

lemma fill_slice_ok:
  assumes cfg: "cfg_ok g" and inv: "tinv g (c # X) q t" and r: "read_ok g (bufs t) c"
  shows "\<exists>m. fill_slice c (src_range g (cmd_offset c) (cmd_len c)) t = Ret (t\<lparr>bufs := m\<rparr>) \<and>
    tinv g (c # X) q (t\<lparr>bufs := m\<rparr>) \<and> filled g c (t\<lparr>bufs := m\<rparr>)"
proof -
  let ?data = "src_range g (cmd_offset c) (cmd_len c)"
  obtain b buf where b: "cmd_buffer c = Some b" "bufs t b = Some buf" "buf_refs buf = 1" "length (buf_data buf) = cmd_len c"
      "cmd_base c = 0" "cmd_offset c + cmd_len c \<le> src_size g"
    using r by (auto simp: read_ok_def)
  have len: "length ?data = cmd_len c" by (rule length_src_range [OF cfg b(6)])
  let ?m = "(bufs t)(b \<mapsto> buf\<lparr>buf_data := ?data\<rparr>)"
  have run: "fill_slice c ?data t = Ret (t\<lparr>bufs := ?m\<rparr>)"
    using b len by (simp add: fill_slice_def put_bytes_all)
  have cnt: "counted t (c # X)" using inv by (simp add: tinv_def)
  then have "uses b (flights t @ c # X) = 1" using b(2,3) unfolding counted_def by (simp add: refs_of_def)
  then have none: "uses b (flights t) = 0" using b(1) by simp
  have other: "cmd_buffer c' \<noteq> Some b" if "c' \<in> set (flights t)" for c'
    using uses_pos [OF that, of b] none by auto
  have "refs_of ?m b' = refs_of (bufs t) b'" for b' using b(2) by (simp add: refs_of_def)
  then have "counted (t\<lparr>bufs := ?m\<rparr>) (c # X)"
    using cnt b(2) unfolding counted_def by (auto simp: flights_def reads_def split: if_splits)
  moreover have "read_ok g ?m c'" if "c' \<in> set (reads t)" for c'
    by (rule read_ok_cong [of g "bufs t"]) (use inv that other [of c'] in \<open>auto simp: tinv_def flights_def\<close>)
  moreover have "write_ok g ?m c'" if "c' \<in> set (dst_flight t)" for c'
    by (rule write_ok_cong [of g "bufs t"]) (use inv that other [of c'] in \<open>auto simp: tinv_def flights_def\<close>)
  ultimately have "tinv g (c # X) q (t\<lparr>bufs := ?m\<rparr>)"
    using inv b(2) by (auto simp: tinv_def charged_def reads_def)
  moreover have "filled g c (t\<lparr>bufs := ?m\<rparr>)" using r b by (auto simp: filled_def read_ok_def)
  ultimately show ?thesis using run by blast
qed

lemma uses_remove: "n < length cs \<Longrightarrow> uses b (take n cs @ drop (n + 1) cs) + uses b [cs ! n] = uses b cs"
proof -
  assume "n < length cs"
  then have "uses b cs = uses b (take n cs @ cs ! n # drop (n + 1) cs)" by (simp add: id_take_nth_drop [symmetric])
  then show ?thesis by simp
qed

lemma sum_remove: "n < length cs \<Longrightarrow> sum_list (map f (take n cs @ drop (n + 1) cs)) + f (cs ! n) = sum_list (map (f :: copy_command \<Rightarrow> nat) cs)"
proof -
  assume "n < length cs"
  then have "sum_list (map f cs) = sum_list (map f (take n cs @ cs ! n # drop (n + 1) cs))" by (simp add: id_take_nth_drop [symmetric])
  then show ?thesis by simp
qed

lemma set_remove: "n < length cs \<Longrightarrow> set cs = insert (cs ! n) (set (take n cs @ drop (n + 1) cs))"
proof -
  assume "n < length cs"
  then have "set cs = set (take n cs @ cs ! n # drop (n + 1) cs)" by (simp add: id_take_nth_drop [symmetric])
  then show ?thesis by simp
qed

text \<open>A command taken out of the list of those in flight is in hand.\<close>

lemma tinv_take_read:
  assumes "tinv g X q t" "n < length (src_flight t)"
  shows "tinv g (src_flight t ! n # X) (q + cmd_len (src_flight t ! n))
      (t\<lparr>src_flight := take n (src_flight t) @ drop (n + 1) (src_flight t)\<rparr>)" (is "tinv g (?c # X) _ ?t")
    and "read_ok g (bufs t) (src_flight t ! n)"
    and "flying t \<subseteq> crange (src_flight t ! n) \<union> flying (t\<lparr>src_flight := take n (src_flight t) @ drop (n + 1) (src_flight t)\<rparr>)"
proof -
  have "uses b (flights ?t @ ?c # X) = uses b (flights t @ X)" for b
    using uses_remove [OF assms(2), of b] by (auto simp: flights_def reads_def split: if_splits)
  then have "counted ?t (?c # X)" using assms(1) by (simp add: tinv_def counted_def)
  moreover have "charged t = charged ?t + cmd_len ?c" using sum_remove [OF assms(2), of cmd_len] by (simp add: charged_def)
  ultimately show "tinv g (?c # X) (q + cmd_len ?c) ?t"
    using assms(1) set_remove [OF assms(2)] by (auto simp: tinv_def reads_def)
  show "read_ok g (bufs t) ?c" using assms by (simp add: tinv_def reads_def)
  show "flying t \<subseteq> crange ?c \<union> flying ?t"
    using set_remove [OF assms(2)] by (auto simp: flying_def flights_def reads_def)
qed

lemma tinv_take_write:
  assumes "tinv g X q t" "n < length (dst_flight t)"
  shows "tinv g (dst_flight t ! n # X) (q + weight_in_queue (dst_flight t ! n))
      (t\<lparr>dst_flight := take n (dst_flight t) @ drop (n + 1) (dst_flight t)\<rparr>)" (is "tinv g (?c # X) _ ?t")
    and "write_ok g (bufs t) (dst_flight t ! n)"
    and "flying t \<subseteq> crange (dst_flight t ! n) \<union> flying (t\<lparr>dst_flight := take n (dst_flight t) @ drop (n + 1) (dst_flight t)\<rparr>)"
proof -
  have "uses b (flights ?t @ ?c # X) = uses b (flights t @ X)" for b
    using uses_remove [OF assms(2), of b] by (auto simp: flights_def reads_def split: if_splits)
  then have "counted ?t (?c # X)" using assms(1) by (simp add: tinv_def counted_def)
  moreover have "sum_list (map cmd_len (filter (\<lambda>c. cmd_buffer c \<noteq> None) cs)) = sum_list (map weight_in_queue cs)" for cs
    by (induction cs) (simp_all add: weight_in_queue_def)
  then have "charged t = charged ?t + weight_in_queue ?c"
    using sum_remove [OF assms(2), of weight_in_queue] by (simp add: charged_def)
  ultimately show "tinv g (?c # X) (q + weight_in_queue ?c) ?t"
    using assms(1) set_remove [OF assms(2)] by (auto simp: tinv_def reads_def)
  show "write_ok g (bufs t) ?c" using assms by (simp add: tinv_def)
  show "flying t \<subseteq> crange ?c \<union> flying ?t"
    using set_remove [OF assms(2)] by (auto simp: flying_def flights_def reads_def)
qed

definition tpost :: "copy_cfg \<Rightarrow> copy_command list \<Rightarrow> nat \<Rightarrow> nat set \<Rightarrow> thread \<Rightarrow> thread \<Rightarrow> bool" where
  "tpost g X q P t t' \<longleftrightarrow> tinv g X q t' \<and> moved g P t t'"

lemma tpost_from:
  assumes "post g X q P u v" "vars u = vars t" "dst u = dst t" "flying t \<union> P' \<subseteq> P \<union> flying u"
  shows "tpost g X q P' t v"
proof -
  obtain R where "R \<subseteq> {..< src_size g}" "towards g R (dst u) (dst v)" "flying u \<union> P \<subseteq> R \<union> flying v"
    using assms(1) by (auto simp: post_def made_def)
  then show ?thesis using assms by (auto simp: tpost_def moved_def post_def made_def intro!: exI [of _ R])
qed

lemma vars_flight [simp]:
  "vars (t\<lparr>src_flight := cs\<rparr>) = vars t" "vars (t\<lparr>dst_flight := cs\<rparr>) = vars t" "vars (t\<lparr>bufs := m\<rparr>) = vars t"
  by (simp_all add: vars_def)

lemma flying_bufs [simp]: "flying (t\<lparr>bufs := m\<rparr>) = flying t"
  by (simp add: flying_def flights_def reads_def)

lemma complete_read_ok:
  assumes cfg: "cfg_ok g" and inv: "tinv g X q t" and n: "n < length (src_flight t)"
  shows "safe (tpost g X q {} t) (complete_read g n err t)"
proof (cases "err = 0")
  case False
  then show ?thesis by (simp add: complete_read_def Let_def finished_read_def)
next
  case True
  let ?c = "src_flight t ! n" and ?u = "t\<lparr>src_flight := take n (src_flight t) @ drop (n + 1) (src_flight t)\<rparr>"
  note tk = tinv_take_read [OF inv n]
  obtain m where m: "fill_slice ?c (src_range g (cmd_offset ?c) (cmd_len ?c)) ?u = Ret (?u\<lparr>bufs := m\<rparr>)"
      "tinv g (?c # X) (q + cmd_len ?c) (?u\<lparr>bufs := m\<rparr>)" "filled g ?c (?u\<lparr>bufs := m\<rparr>)"
    using fill_slice_ok [OF cfg tk(1)] tk(2) by auto
  have "safe (post g X q (crange ?c) (?u\<lparr>bufs := m\<rparr>)) (finished_read g 0 ?c (?u\<lparr>bufs := m\<rparr>))"
    by (rule finished_read_ok [OF cfg m(2,3)])
  then have "safe (tpost g X q {} t) (finished_read g 0 ?c (?u\<lparr>bufs := m\<rparr>))"
    by (rule safe_mono) (rule tpost_from, assumption, use tk(3) in \<open>simp_all\<close>)
  then show ?thesis
    using True m(1) by (simp add: complete_read_def Let_def src_range_def)
qed

lemma complete_write_ok:
  assumes cfg: "cfg_ok g" and inv: "tinv g X q t" and n: "n < length (dst_flight t)"
  shows "safe (tpost g X q {} t) (complete_write g n err t)"
proof (cases "err = 0")
  case False
  then show ?thesis
    by (auto simp: complete_write_def Let_def finished_command_def)
next
  case True
  let ?c = "dst_flight t ! n" and ?u = "t\<lparr>dst_flight := take n (dst_flight t) @ drop (n + 1) (dst_flight t)\<rparr>"
  note tk = tinv_take_write [OF inv n]
  have w: "write_ok g (bufs ?u) ?c" using tk(2) by simp
  have d: "dst_ok g (dst ?u)" "rw_ops (dst ?u) \<noteq> NULL_OPS" using inv n by (auto simp: tinv_def)
  have run: "\<exists>v. (if cmd_buffer ?c = None then Ret (zero_dst (cmd_offset ?c) (cmd_len ?c) ?u)
      else andthen (slice_bytes ?c ?u) (\<lambda>data. Ret (put_dst (cmd_offset ?c) data ?u))) = Ret v \<and> only_dst g (crange ?c) ?u v"
  proof (cases "cmd_buffer ?c = None")
    case True
    then show ?thesis using only_dst_zero [OF cfg d] w by (auto simp: write_ok_def crange_def)
  next
    case False
    then show ?thesis using only_dst_put [OF cfg d] slice_bytes_ok [OF w] w by (auto simp: write_ok_def crange_def)
  qed
  then obtain v where v: "(if cmd_buffer ?c = None then Ret (zero_dst (cmd_offset ?c) (cmd_len ?c) ?u)
      else andthen (slice_bytes ?c ?u) (\<lambda>data. Ret (put_dst (cmd_offset ?c) data ?u))) = Ret v" "only_dst g (crange ?c) ?u v"
    by blast
  have p: "post g (?c # X) (q + weight_in_queue ?c) (crange ?c) ?u v"
    by (rule post_only_dst [OF tk(1) v(2) write_ok_range [OF tk(2)]])
  have "safe (post g X q (crange ?c) ?u) (finished_command 0 ?c v)"
    by (rule safe_mono [OF finished_command_ok [OF post_tinv [OF p]]]) (use post_trans [OF p _ d(1)] in fastforce)
  then have "safe (tpost g X q {} t) (finished_command 0 ?c v)"
    by (rule safe_mono) (rule tpost_from, assumption, use tk(3) in \<open>simp_all\<close>)
  then show ?thesis
    unfolding complete_write_def Let_def True by (simp only: simp_thms if_False v(1) andthen.simps)
qed

end
