(* ===== verification/NBD_Copy_Extents.thy ===== *)
theory NBD_Copy_Extents
  imports NBD_Copy_Safe
begin

text \<open>
  The lists of extents of the copying tool: those it gets from a server or from the kernel are contiguous, cover
  exactly the range asked for, and call a range zero only if it is; and \<^verbatim>\<open>only_zeroes\<close>, with the index it
  keeps, decides exactly whether a region meets only zero extents.
\<close>

section \<open>Contiguous lists\<close>

fun covers :: "nat \<Rightarrow> nat \<Rightarrow> extent list \<Rightarrow> bool" where
  "covers off count [] \<longleftrightarrow> count = 0"
| "covers off count (e # exts) \<longleftrightarrow> ext_offset e = off \<and> 0 < ext_length e \<and> ext_length e \<le> count \<and>
     covers (off + ext_length e) (count - ext_length e) exts"

definition extents_true :: "copy_cfg \<Rightarrow> extent list \<Rightarrow> bool" where
  "extents_true g exts \<longleftrightarrow> list_all (\<lambda>e. ext_zero e \<longrightarrow> src_zero g (ext_offset e) (ext_length e)) exts"

lemma extents_true_simps [simp]:
  "extents_true g []" "extents_true g (e # exts) \<longleftrightarrow> (ext_zero e \<longrightarrow> src_zero g (ext_offset e) (ext_length e)) \<and> extents_true g exts"
  "extents_true g (xs @ ys) \<longleftrightarrow> extents_true g xs \<and> extents_true g ys"
  by (simp_all add: extents_true_def)

lemma covers_append: "covers off a xs \<Longrightarrow> covers (off + a) b ys \<Longrightarrow> covers off (a + b) (xs @ ys)"
proof (induction xs arbitrary: off a)
  case (Cons e xs)
  then have "covers (off + ext_length e) (a - ext_length e + b) (xs @ ys)" by (intro Cons.IH) simp_all
  then show ?case using Cons.prems by simp
qed simp

lemma covers_nth:
  "covers off count exts \<Longrightarrow> j < length exts \<Longrightarrow>
   off \<le> ext_offset (exts ! j) \<and> 0 < ext_length (exts ! j) \<and> ext_offset (exts ! j) + ext_length (exts ! j) \<le> off + count \<and>
   (j = 0 \<longrightarrow> ext_offset (exts ! j) = off) \<and>
   (Suc j < length exts \<longrightarrow> ext_offset (exts ! Suc j) = ext_offset (exts ! j) + ext_length (exts ! j)) \<and>
   (Suc j = length exts \<longrightarrow> ext_offset (exts ! j) + ext_length (exts ! j) = off + count)"
proof (induction exts arbitrary: off count j)
  case (Cons e exts)
  show ?case
  proof (cases j)
    case 0
    then show ?thesis using Cons.prems by (cases exts) auto
  next
    case (Suc k)
    have n: "(e # exts) ! j = exts ! k" "(e # exts) ! Suc j = exts ! Suc k" by (simp_all add: Suc)
    have cov: "ext_length e \<le> count" "covers (off + ext_length e) (count - ext_length e) exts" "k < length exts"
      using Cons.prems Suc by simp_all
    show ?thesis using Cons.IH [OF cov(2,3)] cov(1) Suc unfolding n by auto
  qed
qed simp

lemma covers_mono: "covers off count exts \<Longrightarrow> i < j \<Longrightarrow> j < length exts \<Longrightarrow>
    ext_offset (exts ! i) + ext_length (exts ! i) \<le> ext_offset (exts ! j)"
proof (induction j)
  case (Suc j)
  show ?case
  proof (cases "i = j")
    case True
    then show ?thesis using covers_nth [OF Suc.prems(1), of j] Suc.prems by simp
  next
    case False
    then show ?thesis using Suc covers_nth [OF Suc.prems(1), of j] by simp
  qed
qed simp

lemma covers_nonempty: "covers off count exts \<Longrightarrow> 0 < count \<Longrightarrow> exts \<noteq> []"
  by auto

lemma covers_sum: "covers off count exts \<Longrightarrow> sum_list (map ext_length exts) = count"
proof (induction exts arbitrary: off count)
  case (Cons e exts)
  then show ?case using Cons.IH [of "off + ext_length e" "count - ext_length e"] by simp
qed simp

section \<open>The test for zeroes\<close>

text \<open>The extents that overlap a region.\<close>

definition overlaps :: "extent \<Rightarrow> nat \<Rightarrow> nat \<Rightarrow> bool" where
  "overlaps e off len \<longleftrightarrow> ext_offset e < off + len \<and> off < ext_offset e + ext_length e"

lemma advance_index_spec:
  "covers o0 c0 exts \<Longrightarrow> i < length exts \<Longrightarrow> j = Suc i \<Longrightarrow> ext_offset (exts ! i) \<le> off \<Longrightarrow>
   let i' = advance_index exts off j i in i \<le> i' \<and> i' < length exts \<and> ext_offset (exts ! i') \<le> off \<and>
     (i' = length exts - 1 \<or> off < ext_offset (exts ! (i' + 1)))"
proof (induction exts off j i rule: advance_index.induct)
  case (1 exts off j i)
  show ?case
  proof (cases "j < length exts \<and> ext_offset (exts ! j) \<le> off")
    case True
    then have "advance_index exts off j i = advance_index exts off (j + 1) j" by (simp add: advance_index.simps [of exts off j i])
    then show ?thesis using "1.IH" [OF True] "1.prems" True by (simp add: Let_def)
  next
    case False
    then have "advance_index exts off j i = i" by (subst advance_index.simps) auto
    then show ?thesis using "1.prems" False by (auto simp: Let_def)
  qed
qed

lemma scan_extents_spec:
  "covers o0 c0 exts \<Longrightarrow> j \<le> length exts \<Longrightarrow> (j < length exts \<longrightarrow> off < ext_offset (exts ! j) + ext_length (exts ! j)) \<Longrightarrow>
   scan_extents exts off len j = Ret (\<forall>k. j \<le> k \<and> k < length exts \<and> ext_offset (exts ! k) < off + len \<longrightarrow> ext_zero (exts ! k))"
proof (induction exts off len j rule: scan_extents.induct)
  case (1 exts off len j)
  show ?case
  proof (cases "j < length exts")
    case False
    then show ?thesis by (subst scan_extents.simps) auto
  next
    case True
    have next_: "Suc j < length exts \<longrightarrow> off < ext_offset (exts ! Suc j) + ext_length (exts ! Suc j)"
      using covers_nth [OF "1.prems"(1) True] "1.prems"(3) True by auto
    have past: "off + len \<le> ext_offset (exts ! j) \<Longrightarrow> j \<le> k \<Longrightarrow> k < length exts \<Longrightarrow> \<not> ext_offset (exts ! k) < off + len" for k
      using covers_mono [OF "1.prems"(1), of j k] by (cases "j = k") auto
    show ?thesis
    proof (cases "ext_offset (exts ! j) < off + len \<and> ext_zero (exts ! j)")
      case go: True
      have "scan_extents exts off len j = scan_extents exts off len (j + 1)"
        using True go "1.prems"(3) by (subst scan_extents.simps) (simp add: must_def)
      also have "\<dots> = Ret (\<forall>k. j + 1 \<le> k \<and> k < length exts \<and> ext_offset (exts ! k) < off + len \<longrightarrow> ext_zero (exts ! k))"
        using "1.IH" [OF True] "1.prems" True go next_ by simp
      also have "(\<forall>k. j + 1 \<le> k \<and> k < length exts \<and> ext_offset (exts ! k) < off + len \<longrightarrow> ext_zero (exts ! k)) =
          (\<forall>k. j \<le> k \<and> k < length exts \<and> ext_offset (exts ! k) < off + len \<longrightarrow> ext_zero (exts ! k))"
      proof -
        have "j \<le> k \<longleftrightarrow> k = j \<or> j + 1 \<le> k" for k by auto
        then show ?thesis using go by auto
      qed
      finally show ?thesis .
    next
      case stop: False
      show ?thesis
      proof (cases "ext_offset (exts ! j) < off + len")
        case False
        then have "\<forall>k. j \<le> k \<and> k < length exts \<and> ext_offset (exts ! k) < off + len \<longrightarrow> ext_zero (exts ! k)"
          using past by (meson not_less)
        moreover have "scan_extents exts off len j = Ret True"
          using True False "1.prems"(3) by (subst scan_extents.simps) (simp add: must_def)
        ultimately show ?thesis by simp
      next
        case inside: True
        then have "\<not> (\<forall>k. j \<le> k \<and> k < length exts \<and> ext_offset (exts ! k) < off + len \<longrightarrow> ext_zero (exts ! k))"
          using stop True by blast
        moreover have "scan_extents exts off len j = Ret False"
          using True inside stop "1.prems"(3) by (subst scan_extents.simps) (simp add: must_def)
        ultimately show ?thesis by simp
      qed
    qed
  qed
qed

lemma only_zeroes_spec:
  assumes cov: "covers o0 c0 exts" and i: "i < length exts" "ext_offset (exts ! i) \<le> off" and off: "off < o0 + c0"
  shows "\<exists>i'. only_zeroes exts i off len = Ret (\<forall>e \<in> set exts. overlaps e off len \<longrightarrow> ext_zero e, i') \<and>
    i' < length exts \<and> ext_offset (exts ! i') \<le> off"
proof -
  let ?i = "advance_index exts off (i + 1) i"
  have a: "i \<le> ?i" "?i < length exts" "ext_offset (exts ! ?i) \<le> off" "?i = length exts - 1 \<or> off < ext_offset (exts ! (?i + 1))"
    using advance_index_spec [OF cov i(1) _ i(2), of "i + 1"] by (simp_all add: Let_def)
  have e: "off < ext_offset (exts ! ?i) + ext_length (exts ! ?i)"
  proof -
    have "Suc ?i < length exts \<or> Suc ?i = length exts" using a(2) by linarith
    then show ?thesis using a(4) covers_nth [OF cov a(2)] off by auto
  qed
  have before: "k < ?i \<Longrightarrow> \<not> overlaps (exts ! k) off len" for k
    using covers_mono [OF cov, of k ?i] a(2,3) by (auto simp: overlaps_def)
  have after: "?i \<le> k \<Longrightarrow> k < length exts \<Longrightarrow> off < ext_offset (exts ! k) + ext_length (exts ! k)" for k
    using covers_mono [OF cov, of ?i k] covers_nth [OF cov, of k] e by (cases "k = ?i") auto
  have "scan_extents exts off len ?i = Ret (\<forall>k. ?i \<le> k \<and> k < length exts \<and> ext_offset (exts ! k) < off + len \<longrightarrow> ext_zero (exts ! k))"
    by (rule scan_extents_spec [OF cov]) (use a e in simp_all)
  also have "(\<forall>k. ?i \<le> k \<and> k < length exts \<and> ext_offset (exts ! k) < off + len \<longrightarrow> ext_zero (exts ! k)) =
      (\<forall>e \<in> set exts. overlaps e off len \<longrightarrow> ext_zero e)"
    unfolding all_set_conv_all_nth
  proof (intro iffI allI impI)
    fix k assume all: "\<forall>k. ?i \<le> k \<and> k < length exts \<and> ext_offset (exts ! k) < off + len \<longrightarrow> ext_zero (exts ! k)"
      and k: "k < length exts" "overlaps (exts ! k) off len"
    then have "?i \<le> k" using before not_less by blast
    then show "ext_zero (exts ! k)" using all k by (simp add: overlaps_def)
  next
    fix k assume "\<forall>i < length exts. overlaps (exts ! i) off len \<longrightarrow> ext_zero (exts ! i)"
      "?i \<le> k \<and> k < length exts \<and> ext_offset (exts ! k) < off + len"
    then show "ext_zero (exts ! k)" using after by (simp add: overlaps_def)
  qed
  finally show ?thesis
    using a i by (auto simp: only_zeroes_def Let_def must_def)
qed

text \<open>A region of zero extents is zero in the source.\<close>

lemma covers_position:
  "covers off count exts \<Longrightarrow> off \<le> p \<Longrightarrow> p < off + count \<Longrightarrow> \<exists>e \<in> set exts. ext_offset e \<le> p \<and> p < ext_offset e + ext_length e"
proof (induction exts arbitrary: off count)
  case (Cons e exts)
  show ?case
  proof (cases "p < off + ext_length e")
    case True
    then show ?thesis using Cons.prems by auto
  next
    case False
    then show ?thesis using Cons.IH [of "off + ext_length e" "count - ext_length e"] Cons.prems by auto
  qed
qed simp

lemma zero_region:
  assumes "covers o0 c0 exts" "extents_true g exts" "o0 \<le> off" "off + len \<le> o0 + c0"
    "\<forall>e \<in> set exts. overlaps e off len \<longrightarrow> ext_zero e"
  shows "src_zero g off len"
  unfolding src_zero_def
proof (intro allI impI)
  fix p assume p: "off \<le> p \<and> p < off + len"
  then obtain e where e: "e \<in> set exts" "ext_offset e \<le> p" "p < ext_offset e + ext_length e"
    using covers_position [OF assms(1), of p] assms(3,4) by auto
  then have "overlaps e off len" using p by (auto simp: overlaps_def)
  then have "ext_zero e" using assms(5) e(1) by blast
  then have "src_zero g (ext_offset e) (ext_length e)" using assms(2) e(1) by (auto simp: extents_true_def list_all_iff)
  then show "src_bytes g ! p = 0" using e by (auto simp: src_zero_def)
qed

section \<open>Extents of an export\<close>

text \<open>
  Descriptors as the protocol has them: none is empty, only the last goes beyond the range asked for, and one
  that is marked zero reads as zeroes.
\<close>

fun entries_ok :: "copy_cfg \<Rightarrow> nat \<Rightarrow> nat \<Rightarrow> (nat \<times> nat) list \<Rightarrow> bool" where
  "entries_ok g off fin [] \<longleftrightarrow> True"
| "entries_ok g off fin ((len, flags) # entries) \<longleftrightarrow> 0 < len \<and> off < fin \<and>
     (flags AND LIBNBD_STATE_ZERO \<noteq> 0 \<longrightarrow> src_zero g off (min len (fin - off))) \<and> entries_ok g (off + len) fin entries"

lemma copy_extents_ok:
  "entries_ok g off fin entries \<Longrightarrow> off + count = fin \<Longrightarrow>
   \<exists>off' count' new. copy_extents (add_entries off entries) off count ret = Ret (off', count', ret @ new) \<and>
     off \<le> off' \<and> off' + count' = fin \<and> covers off (off' - off) new \<and> extents_true g new"
proof (induction entries arbitrary: off count ret)
  case Nil
  then show ?case by simp
next
  case (Cons entry entries)
  obtain len flags where e: "entry = (len, flags)" by (rule prod.exhaust)
  define l where "l = min len count"
  define x where "x = \<lparr>ext_offset = off, ext_length = l, ext_zero = (flags AND LIBNBD_STATE_ZERO \<noteq> 0)\<rparr>"
  have pos: "0 < len" "off < fin" "0 < l" using Cons.prems e by (auto simp: l_def)
  have run: "copy_extents (add_entries off (entry # entries)) off count ret =
      copy_extents (add_entries (off + len) entries) (off + l) (count - l) (ret @ [x])"
    using pos e Cons.prems by (auto simp: must_def Let_def l_def x_def min_def)
  have zx: "ext_zero x \<longrightarrow> src_zero g off l"
    using Cons.prems e by (auto simp: x_def l_def min_def split: if_splits)
  show ?case
  proof (cases "len \<le> count")
    case True
    then have l: "l = len" by (simp add: l_def)
    obtain off' count' new where ih: "copy_extents (add_entries (off + len) entries) (off + l) (count - l) (ret @ [x]) =
          Ret (off', count', (ret @ [x]) @ new)" "off + len \<le> off'" "off' + count' = fin"
        "covers (off + len) (off' - (off + len)) new" "extents_true g new"
      using Cons.IH [of "off + len" "count - l" "ret @ [x]"] Cons.prems e True l by auto
    have "covers off (off' - off) (x # new)" using ih l pos by (auto simp: x_def)
    then show ?thesis
      unfolding run ih(1) using ih zx l by (intro exI [of _ off'] exI [of _ count'] exI [of _ "x # new"]) (auto simp: x_def)
  next
    case False
    have "entries = []"
    proof (cases entries)
      case (Cons y ys)
      then show ?thesis using Cons.prems e False by (cases y) auto
    qed simp
    moreover have "l = count" using False by (simp add: l_def)
    ultimately show ?thesis
      unfolding run using Cons.prems zx pos by (intro exI [of _ fin] exI [of _ 0] exI [of _ "[x]"]) (auto simp: x_def)
  qed
qed

text \<open>A server that answers for the context at most once per request.\<close>

definition block_status_ok :: "copy_cfg \<Rightarrow> bool" where
  "block_status_ok g \<longleftrightarrow> (\<forall>time count off calls.
     0 < count \<and> off + count \<le> src_size g \<and> env_block_status (cfg_env g) time count off = Some calls \<longrightarrow>
     (\<exists>entries. fold (add_extent off) calls [] = add_entries off entries \<and> entries_ok g off (off + count) entries))"

definition extents_post :: "copy_cfg \<Rightarrow> nat \<Rightarrow> nat \<Rightarrow> extent list \<Rightarrow> thread \<Rightarrow> extent list \<times> thread \<Rightarrow> bool" where
  "extents_post g off count ret t r \<longleftrightarrow> (\<exists>new k. r = (ret @ new, t\<lparr>clock := k\<rparr>) \<and> covers off count new \<and> extents_true g new)"

lemma nbd_ops_get_extents_ok:
  assumes "block_status_ok g"
  shows "off + count \<le> src_size g \<Longrightarrow> safe (extents_post g off count ret t) (nbd_ops_get_extents g off count ret t)"
proof (induction count arbitrary: off ret t rule: less_induct)
  case (less count)
  show ?case
  proof (cases "count = 0")
    case True
    then show ?thesis
      by (auto simp: nbd_ops_get_extents.simps extents_post_def intro!: exI [of _ "[]"] exI [of _ "clock t"])
  next
    case False
    show ?thesis
    proof (cases "env_block_status (cfg_env g) (clock t) count off")
      case None
      then show ?thesis using False by (simp add: nbd_ops_get_extents.simps [of g off count])
    next
      case (Some calls)
      then obtain entries where en: "fold (add_extent off) calls [] = add_entries off entries" "entries_ok g off (off + count) entries"
        using assms [unfolded block_status_ok_def, THEN spec, THEN spec, THEN spec, THEN spec, THEN mp] less.prems False by blast
      obtain off' count' new where c: "copy_extents (add_entries off entries) off count ret = Ret (off', count', ret @ new)"
          "off \<le> off'" "off' + count' = off + count" "covers off (off' - off) new" "extents_true g new"
        using copy_extents_ok [OF en(2), of count ret] by auto
      show ?thesis
      proof (cases "off' = off")
        case True
        then show ?thesis using False Some en(1) c(1) by (simp add: nbd_ops_get_extents.simps [of g off count])
      next
        case ne: False
        have "safe (extents_post g off' count' (ret @ new) (tick (tick t))) (nbd_ops_get_extents g off' count' (ret @ new) (tick (tick t)))"
          using c ne less.prems by (intro less.IH) auto
        then have "safe (extents_post g off count ret t) (nbd_ops_get_extents g off' count' (ret @ new) (tick (tick t)))"
        proof (rule safe_mono)
          fix r assume "extents_post g off' count' (ret @ new) (tick (tick t)) r"
          then obtain more k where m: "r = ((ret @ new) @ more, (tick (tick t))\<lparr>clock := k\<rparr>)" "covers off' count' more" "extents_true g more"
            by (auto simp: extents_post_def)
          have "covers off (off' - off + count') (new @ more)" using covers_append [OF c(4)] m(2) c(2) by simp
          moreover have "off' - off + count' = count" using c by linarith
          ultimately show "extents_post g off count ret t r"
            using m c(5) by (auto simp: extents_post_def tick_def intro!: exI [of _ "new @ more"] exI [of _ k])
        qed
        then show ?thesis using False Some en(1) c(1) ne by (simp add: nbd_ops_get_extents.simps [of g off count])
      qed
    qed
  qed
qed

section \<open>Extents of a file\<close>

text \<open>
  What \<^verbatim>\<open>lseek\<close> promises for an offset in the file: up to the data it finds, or to the end of the file if there is no
  more, the file reads as zeroes; and data has an end behind it.
\<close>

definition seek_ok :: "copy_cfg \<Rightarrow> bool" where
  "seek_ok g \<longleftrightarrow> (\<forall>time off. off < src_size g \<longrightarrow>
     (\<forall>pos. env_seek_data (cfg_env g) time off = Inr pos \<longrightarrow> off \<le> pos \<and> src_zero g off (min pos (src_size g) - off) \<and>
        (\<forall>time' hole. env_seek_hole (cfg_env g) time' pos = Inr hole \<longrightarrow> pos < hole)) \<and>
     (env_seek_data (cfg_env g) time off = Inl ENXIO \<longrightarrow> src_zero g off (src_size g - off)))"

text \<open>A list that covers everything up to \<open>fin\<close>; its last extent may go further.\<close>

fun reaches :: "copy_cfg \<Rightarrow> nat \<Rightarrow> nat \<Rightarrow> extent list \<Rightarrow> bool" where
  "reaches g off fin [] \<longleftrightarrow> False"
| "reaches g off fin (e # exts) \<longleftrightarrow> ext_offset e = off \<and> off < fin \<and> 0 < ext_length e \<and>
     (ext_zero e \<longrightarrow> src_zero g off (min (ext_length e) (fin - off))) \<and>
     (if fin \<le> off + ext_length e then exts = [] else reaches g (off + ext_length e) fin exts)"

definition cut_last :: "nat \<Rightarrow> extent list \<Rightarrow> extent list" where
  "cut_last fin exts = (let e = last exts in
     if ext_offset e + ext_length e > fin
     then butlast exts @ [e\<lparr>ext_length := ext_length e - (ext_offset e + ext_length e - fin)\<rparr>] else exts)"

lemma reaches_cut:
  "reaches g off fin exts \<Longrightarrow> exts \<noteq> [] \<and> ext_offset (last exts) \<le> fin \<and> covers off (fin - off) (cut_last fin exts) \<and>
     extents_true g (cut_last fin exts)"
proof (induction exts arbitrary: off)
  case (Cons e exts)
  show ?case
  proof (cases "fin \<le> off + ext_length e")
    case True
    then show ?thesis using Cons.prems by (auto simp: cut_last_def Let_def min_def split: if_splits)
  next
    case False
    then have r: "reaches g (off + ext_length e) fin exts" using Cons.prems by simp
    note ih = Cons.IH [OF r]
    then have "cut_last fin (e # exts) = e # cut_last fin exts" by (simp add: cut_last_def Let_def)
    moreover have "min (ext_length e) (fin - off) = ext_length e" using False by simp
    ultimately show ?thesis using Cons.prems False ih by auto
  qed
qed simp

lemma reaches_hole:
  assumes "src_zero g off (min pos (src_size g) - off)" "off < pos" "off < fin" "fin \<le> src_size g"
  shows "src_zero g off (min (pos - off) (fin - off))"
  using assms by (elim src_zero_part) auto

lemma safe_append:
  assumes "\<And>k. Q (ret @ [e], t\<lparr>clock := k\<rparr>)"
  shows "safe Q (andthen (allocate g (tick t)) (\<lambda>t. Ret (ret @ [e], t)))"
  using assms by (auto simp: tick_def intro!: safe_andthen [OF safe_allocate [of "\<lambda>u. \<exists>k. u = t\<lparr>clock := k\<rparr>"]])

definition reach_post :: "copy_cfg \<Rightarrow> nat \<Rightarrow> nat \<Rightarrow> extent list \<Rightarrow> thread \<Rightarrow> extent list \<times> thread \<Rightarrow> bool" where
  "reach_post g off fin ret t r \<longleftrightarrow> (\<exists>new k. r = (ret @ new, t\<lparr>clock := k\<rparr>) \<and> reaches g off fin new)"

lemma file_extents_loop_ok:
  assumes sk: "seek_ok g" and fin: "fin \<le> src_size g"
  shows "off < fin \<Longrightarrow> fin - off < n \<Longrightarrow> safe (reach_post g off fin ret t) (file_extents_loop n g off fin ret t)"
proof (induction n arbitrary: off ret t)
  case (Suc n)
  have off: "off < src_size g" using Suc.prems fin by linarith
  define found where "found = (case env_seek_data (cfg_env g) (clock t) off of
      Inl err \<Rightarrow> if err = ENXIO then Some fin else None | Inr pos \<Rightarrow> Some pos)"
  show ?case
  proof (cases found)
    case None
    then show ?thesis by (simp add: found_def)
  next
    case (Some pos)
    have "off \<le> pos \<and> (off < pos \<longrightarrow> src_zero g off (min (pos - off) (fin - off))) \<and>
        (pos < fin \<longrightarrow> (\<forall>time hole. env_seek_hole (cfg_env g) time pos = Inr hole \<longrightarrow> pos < hole))"
    proof (cases "env_seek_data (cfg_env g) (clock t) off")
      case (Inl err)
      then have p: "pos = fin" "err = ENXIO" using Some by (auto simp: found_def split: if_splits)
      then have "src_zero g off (src_size g - off)" using sk off Inl unfolding seek_ok_def by blast
      then have "src_zero g off (fin - off)" using Suc.prems fin by (elim src_zero_part) auto
      then show ?thesis using p Suc.prems by simp
    next
      case (Inr pos')
      then have p: "pos' = pos" using Some by (simp add: found_def)
      then have "off \<le> pos \<and> src_zero g off (min pos (src_size g) - off) \<and>
          (\<forall>time' hole. env_seek_hole (cfg_env g) time' pos = Inr hole \<longrightarrow> pos < hole)"
        using sk off Inr unfolding seek_ok_def by blast
      then show ?thesis using reaches_hole [of g off pos fin] Suc.prems fin by blast
    qed
    then have pos: "off \<le> pos" "off < pos \<Longrightarrow> src_zero g off (min (pos - off) (fin - off))"
      "pos < fin \<Longrightarrow> env_seek_hole (cfg_env g) time pos = Inr hole \<Longrightarrow> pos < hole" for time hole
      by blast+
    let ?e = "\<lparr>ext_offset = off, ext_length = pos - off, ext_zero = True\<rparr>"
    define pre where "pre = (if pos > off then [?e] else [])"
    have first: "safe (\<lambda>r. \<exists>k. r = (ret @ pre, t\<lparr>clock := k\<rparr>))
        (if pos > off then andthen (allocate g (tick t)) (\<lambda>t. Ret (ret @ [?e], t)) else Ret (ret, tick t))"
    proof (cases "pos > off")
      case True
      have "safe (\<lambda>r. \<exists>k. r = (ret @ [?e], t\<lparr>clock := k\<rparr>)) (andthen (allocate g (tick t)) (\<lambda>t. Ret (ret @ [?e], t)))"
        by (rule safe_append) blast
      then show ?thesis using True by (simp add: pre_def)
    next
      case False
      then show ?thesis by (auto simp: pre_def tick_def)
    qed
    have whole: "reaches g pos fin more \<Longrightarrow> pos < fin \<Longrightarrow> reaches g off fin (pre @ more)" for more
      using pos(1,2) Suc.prems by (auto simp: pre_def)
    have at_end: "fin \<le> pos \<Longrightarrow> reaches g off fin pre" using pos(2) Suc.prems by (auto simp: pre_def)
    have second: "safe (reach_post g off fin ret t) (case env_seek_hole (cfg_env g) (clock u) pos of
              Inl err \<Rightarrow> Ends EXIT_FAILURE
            | Inr hole \<Rightarrow>
                andthen (if hole > pos then andthen (allocate g (tick u)) (\<lambda>t.
                           Ret ((ret @ pre) @ [\<lparr>ext_offset = pos, ext_length = hole - pos, ext_zero = False\<rparr>], t))
                         else Ret (ret @ pre, tick u)) (\<lambda>(ret, t).
                if hole < fin then file_extents_loop n g hole fin ret t else Ret (ret, t)))"
      if p: "pos < fin" and u: "u = t\<lparr>clock := k\<rparr>" for u k
    proof (cases "env_seek_hole (cfg_env g) (clock u) pos")
      case (Inr hole)
      then have h: "pos < hole" using pos(3) p by blast
      let ?d = "\<lparr>ext_offset = pos, ext_length = hole - pos, ext_zero = False\<rparr>"
      have rest: "safe (reach_post g off fin ret t) (if hole < fin then file_extents_loop n g hole fin ((ret @ pre) @ [?d]) v
          else Ret ((ret @ pre) @ [?d], v))" if v: "v = u\<lparr>clock := k\<rparr>" for v k
      proof (cases "hole < fin")
        case True
        then have "safe (reach_post g hole fin ((ret @ pre) @ [?d]) v) (file_extents_loop n g hole fin ((ret @ pre) @ [?d]) v)"
          using Suc.prems pos(1) h p by (intro Suc.IH) auto
        then have "safe (reach_post g off fin ret t) (file_extents_loop n g hole fin ((ret @ pre) @ [?d]) v)"
        proof (rule safe_mono)
          fix r assume "reach_post g hole fin ((ret @ pre) @ [?d]) v r"
          then obtain new k where r: "r = (((ret @ pre) @ [?d]) @ new, v\<lparr>clock := k\<rparr>)" "reaches g hole fin new"
            by (auto simp: reach_post_def)
          have "reaches g pos fin (?d # new)" using r(2) p h True by simp
          then show "reach_post g off fin ret t r"
            using r(1) whole p u v by (auto simp: reach_post_def intro!: exI [of _ "pre @ ?d # new"] exI [of _ k])
        qed
        then show ?thesis using True by simp
      next
        case False
        then have "reaches g pos fin [?d]" using p h by simp
        then show ?thesis
          using False whole [of "[?d]"] p u v by (auto simp: reach_post_def intro!: exI [of _ "pre @ [?d]"] exI [of _ k])
      qed
      show ?thesis
        unfolding Inr sum.case if_P [OF h]
        by (rule safe_andthen [OF safe_append [of "\<lambda>r. \<exists>k. r = ((ret @ pre) @ [?d], u\<lparr>clock := k\<rparr>)"]]) (use rest in auto)
    qed simp
    have "safe (reach_post g off fin ret t) (case r of (ret, t) \<Rightarrow> if pos \<ge> fin then Ret (ret, t)
          else (case env_seek_hole (cfg_env g) (clock t) pos of
              Inl err \<Rightarrow> Ends EXIT_FAILURE
            | Inr hole \<Rightarrow>
                andthen (if hole > pos then andthen (allocate g (tick t)) (\<lambda>t.
                           Ret (ret @ [\<lparr>ext_offset = pos, ext_length = hole - pos, ext_zero = False\<rparr>], t))
                         else Ret (ret, tick t)) (\<lambda>(ret, t).
                if hole < fin then file_extents_loop n g hole fin ret t else Ret (ret, t))))"
      if "\<exists>k. r = (ret @ pre, t\<lparr>clock := k\<rparr>)" for r
      using that at_end second by (auto simp: reach_post_def not_le)
    from safe_andthen [OF first this] show ?thesis
      using Some unfolding found_def by (simp del: append_assoc)
  qed
qed simp

lemma default_get_extents_ok:
  "0 < count \<Longrightarrow> safe (extents_post g off count [] t) (default_get_extents g off count t)"
  unfolding default_get_extents_def
  by (rule safe_andthen [OF safe_allocate [of "\<lambda>u. \<exists>k. u = t\<lparr>clock := k\<rparr>"]]) (auto simp: extents_post_def)

lemma file_get_extents_ok:
  assumes "seek_ok g" "off + count \<le> src_size g" "0 < count"
  shows "safe (extents_post g off count [] t) (file_get_extents g off count t)"
proof (cases "rw_seek_hole (cfg_src g)")
  case False
  then show ?thesis using default_get_extents_ok [OF assms(3)] by (simp add: file_get_extents_def)
next
  case True
  have loop: "safe (reach_post g off (off + count) [] t) (file_extents_loop (Suc count) g off (off + count) [] t)"
    by (rule file_extents_loop_ok [OF assms(1,2)]) (use assms(3) in simp_all)
  have cut: "(if ext_offset (last ret) + ext_length (last ret) > fin
        then Ret (butlast ret @ [(last ret)\<lparr>ext_length := ext_length (last ret) - (ext_offset (last ret) + ext_length (last ret) - fin)\<rparr>], u)
        else Ret (ret, u)) = Ret (cut_last fin ret, u)" for ret fin and u :: thread
    by (simp add: cut_last_def Let_def)
  show ?thesis
    unfolding file_get_extents_def if_P [OF True] Let_def cut
  proof (rule safe_andthen [OF loop])
    fix r assume "reach_post g off (off + count) [] t r"
    then obtain new k where r: "r = (new, t\<lparr>clock := k\<rparr>)" "reaches g off (off + count) new" by (auto simp: reach_post_def)
    show "safe (extents_post g off count [] t) (case r of (ret, t) \<Rightarrow> andthen (must ABORT (ret \<noteq> [])) (\<lambda>_.
        andthen (must ABORT (ext_offset (last ret) \<le> off + count)) (\<lambda>_. Ret (cut_last (off + count) ret, t))))"
      using reaches_cut [OF r(2)] r(1) by (auto simp: extents_post_def)
  qed
qed

text \<open>What the copy relies on: the kernel or the server tells the truth about the source, and the source can be read to its end.\<close>

definition src_ok :: "copy_cfg \<Rightarrow> bool" where
  "src_ok g \<longleftrightarrow> (case rw_ops (cfg_src g) of
       FILE_OPS \<Rightarrow> (cfg_extents g \<longrightarrow> seek_ok g) \<and>
         (\<forall>time len off k. env_pread (cfg_env g) time len off = Some k \<longrightarrow> 0 < k)
     | NBD_OPS \<Rightarrow> cfg_extents g \<longrightarrow> block_status_ok g
     | _ \<Rightarrow> False)"

lemma worker_extents_ok:
  assumes "src_ok g" "off + count \<le> src_size g" "0 < count"
  shows "safe (extents_post g off count [] t) (if cfg_extents g then get_extents g off count t else default_get_extents g off count t)"
  using assms file_get_extents_ok [of g off count t] nbd_ops_get_extents_ok [of g off count "[]" t]
    default_get_extents_ok [of count g off t]
  by (auto simp: src_ok_def get_extents_def split: rw_kind.splits)

section \<open>Reading the source\<close>

lemma file_synch_read_src:
  assumes "cfg_ok g" "\<forall>time len off k. env_pread (cfg_env g) time len off = Some k \<longrightarrow> 0 < k"
  shows "off + len \<le> src_size g \<Longrightarrow>
    safe (\<lambda>r. \<exists>k. r = (src_range g off len, t\<lparr>clock := k\<rparr>)) (file_synch_read g len off t)"
proof (induction len arbitrary: off t rule: less_induct)
  case (less len)
  show ?case
  proof (cases "len = 0")
    case True
    then show ?thesis
      by (subst file_synch_read.simps) (auto simp: src_range_def intro!: exI [of _ "clock t"])
  next
    case False
    show ?thesis
    proof (cases "env_pread (cfg_env g) (clock t) len off")
      case None
      then show ?thesis using False by (subst file_synch_read.simps) simp
    next
      case (Some k)
      define data where "data = take (min k len) (drop off (src_bytes g))"
      have k: "0 < k" using assms(2) Some by blast
      have len: "length data = min k len" using less.prems cfg_okD(1) [OF assms(1)] by (auto simp: data_def)
      then have ne: "data \<noteq> []" using k False by auto
      have split: "data @ src_range g (off + length data) (len - length data) = src_range g off len"
      proof -
        have "take (length data) (src_range g off len) = data" unfolding len by (simp add: data_def src_range_def min_def)
        moreover have "drop (length data) (src_range g off len) = src_range g (off + length data) (len - length data)"
          by (rule drop_src_range)
        ultimately show ?thesis by (metis append_take_drop_id)
      qed
      have "safe (\<lambda>r. \<exists>k. r = (src_range g (off + length data) (len - length data), (tick t)\<lparr>clock := k\<rparr>))
          (file_synch_read g (len - length data) (off + length data) (tick t))"
        using less.prems len k False by (intro less.IH) auto
      then have "safe (\<lambda>r. \<exists>k. r = (src_range g off len, t\<lparr>clock := k\<rparr>))
          (andthen (file_synch_read g (len - length data) (off + length data) (tick t)) (\<lambda>(rest, t). Ret (data @ rest, t)))"
        by (rule safe_andthen) (use split in \<open>auto simp: tick_def\<close>)
      then show ?thesis
        using False Some ne unfolding file_synch_read.simps [of g len off t] by (simp add: Let_def data_def [symmetric])
    qed
  qed
qed

lemma asynch_read_ok:
  assumes cfg: "cfg_ok g" and src: "src_ok g" and inv: "tinv g (c # X) (q + cmd_len c) t" and r: "read_ok g (bufs t) c"
  shows "safe (tpost g X q (crange c) t) (asynch_read g c t)"
proof (cases "rw_ops (cfg_src g)")
  case FILE_OPS
  have data: "safe (\<lambda>r. \<exists>k. r = (src_range g (cmd_offset c) (cmd_len c), t\<lparr>clock := k\<rparr>))
      (file_synch_read g (cmd_len c) (cmd_offset c) t)"
    using src r FILE_OPS by (intro file_synch_read_src [OF cfg]) (auto simp: src_ok_def read_ok_def)
  have "safe (tpost g X q (crange c) t)
      (andthen (fill_slice c (src_range g (cmd_offset c) (cmd_len c)) u) (finished_read g 0 c))" if u: "u = t\<lparr>clock := k\<rparr>" for u k
  proof -
    have "tinv g (c # X) (q + cmd_len c) u" using post_tinv [OF post_clock [OF inv]] u by simp
    from fill_slice_ok [OF cfg this] r u obtain m where m:
        "fill_slice c (src_range g (cmd_offset c) (cmd_len c)) u = Ret (u\<lparr>bufs := m\<rparr>)"
        "tinv g (c # X) (q + cmd_len c) (u\<lparr>bufs := m\<rparr>)" "filled g c (u\<lparr>bufs := m\<rparr>)" by auto
    have "vars (u\<lparr>bufs := m\<rparr>) = vars t" "dst (u\<lparr>bufs := m\<rparr>) = dst t" "flying (u\<lparr>bufs := m\<rparr>) = flying t"
      using u by (simp_all add: vars_def flying_def flights_def reads_def)
    then have "safe (tpost g X q (crange c) t) (finished_read g 0 c (u\<lparr>bufs := m\<rparr>))"
      by (intro safe_mono [OF finished_read_ok [OF cfg m(2,3)]] tpost_from [of g X q "crange c" "u\<lparr>bufs := m\<rparr>"]) auto
    then show ?thesis using m(1) by simp
  qed
  then show ?thesis
    using FILE_OPS by (auto simp: asynch_read_def file_asynch_read_def intro!: safe_andthen [OF data])
next
  case NBD_OPS
  have sb: "\<exists>bs. slice_bytes c t = Ret bs" using r by (auto simp: slice_bytes_def read_ok_def)
  have "uses b (flights (t\<lparr>clock := k, src_flight := src_flight t @ [c]\<rparr>) @ X) = uses b (flights t @ c # X)" for b k
    by (simp add: flights_def reads_def)
  then have "counted (t\<lparr>clock := k, src_flight := src_flight t @ [c]\<rparr>) X" for k
    using inv by (simp add: tinv_def counted_def)
  then have "tpost g X q (crange c) t (t\<lparr>clock := k, src_flight := src_flight t @ [c]\<rparr>)" for k
    using inv r by (auto simp: tpost_def tinv_def charged_def reads_def moved_def vars_def flying_def flights_def intro!: exI [of _ "{}"])
  then show ?thesis
    using NBD_OPS sb
    by (auto simp: asynch_read_def nbd_ops_asynch_read_def intro!: safe_andthen [OF safe_nbd_call [of "\<lambda>u. \<exists>k. u = t\<lparr>clock := k\<rparr>"]])
qed (use src in \<open>simp_all add: src_ok_def\<close>)

end
