(* ===== verification/NBD_Copy_Props.thy ===== *)
theory NBD_Copy_Props
  imports NBD_Copy_Extents "HOL-Library.Code_Target_Nat"
begin

text \<open>
  The copying tool as a whole: the invariant of a worker thread and of all threads together, that the copy is right
  however the threads and the completions of their commands interleave, that it never gets stuck and ends, and
  the same for the single-threaded copy; what the main program makes of its options.
\<close>

section \<open>One worker\<close>

definition range_ok :: "copy_cfg \<Rightarrow> thread \<Rightarrow> bool" where
  "range_ok g t \<longleftrightarrow> (\<exists>o0 c0. covers o0 c0 (w_exts t) \<and> extents_true g (w_exts t) \<and>
     o0 \<le> w_offset t \<and> w_offset t + w_count t = o0 + c0 \<and> o0 + c0 \<le> src_size g \<and> c0 \<le> THREAD_WORK_SIZE \<and>
     (0 < w_count t \<longrightarrow> extent_index t < length (w_exts t) \<and> ext_offset (w_exts t ! extent_index t) \<le> w_offset t) \<and>
     (is_zeroing t \<longrightarrow> o0 \<le> zeroing_start t \<and> zeroing_start t < w_offset t \<and>
        src_zero g (zeroing_start t) (w_offset t - zeroing_start t)))"

lemma range_okI:
  "covers o0 c0 (w_exts t) \<Longrightarrow> extents_true g (w_exts t) \<Longrightarrow> o0 \<le> w_offset t \<Longrightarrow> w_offset t + w_count t = o0 + c0 \<Longrightarrow>
   o0 + c0 \<le> src_size g \<Longrightarrow> c0 \<le> THREAD_WORK_SIZE \<Longrightarrow>
   (0 < w_count t \<Longrightarrow> extent_index t < length (w_exts t) \<and> ext_offset (w_exts t ! extent_index t) \<le> w_offset t) \<Longrightarrow>
   (is_zeroing t \<Longrightarrow> o0 \<le> zeroing_start t \<and> zeroing_start t < w_offset t \<and>
        src_zero g (zeroing_start t) (w_offset t - zeroing_start t)) \<Longrightarrow> range_ok g t"
  unfolding range_ok_def by (rule exI [of _ o0], rule exI [of _ c0]) simp

definition place_ok :: "copy_cfg \<Rightarrow> thread \<Rightarrow> bool" where
  "place_ok g t \<longleftrightarrow> (case pc t of
       TOP \<Rightarrow> True
     | EXTENTS \<Rightarrow> 0 < w_count t \<and> w_count t \<le> THREAD_WORK_SIZE \<and> w_offset t + w_count t \<le> src_size g
     | LOOP \<Rightarrow> range_ok g t
     | ISSUE c \<Rightarrow> range_ok g t \<and> 0 < w_count t \<and> cmd_offset c = w_offset t \<and>
         cmd_len c = min (w_count t) (cfg_request_size g) \<and> \<not> is_zeroing t
     | DRAIN \<Rightarrow> src_size g \<le> next_offset t
     | FINISHED \<Rightarrow> src_size g \<le> next_offset t)"

definition winv :: "copy_cfg \<Rightarrow> thread \<Rightarrow> bool" where
  "winv g t \<longleftrightarrow> tinv g [] 0 t \<and> place_ok g t \<and> (pc t = FINISHED \<longrightarrow> in_flight t = 0)"

text \<open>The part of the source that a thread still has to bring to the destination.\<close>

definition wrange :: "thread \<Rightarrow> nat set" where
  "wrange t = (case pc t of
       EXTENTS \<Rightarrow> {w_offset t ..< w_offset t + w_count t}
     | LOOP \<Rightarrow> {w_offset t ..< w_offset t + w_count t} \<union> (if is_zeroing t then {zeroing_start t ..< w_offset t} else {})
     | ISSUE c \<Rightarrow> {w_offset t ..< w_offset t + w_count t}
     | _ \<Rightarrow> {})"

definition wpend :: "thread \<Rightarrow> nat set" where
  "wpend t = wrange t \<union> flying t"

definition wprogress :: "copy_cfg \<Rightarrow> thread \<Rightarrow> thread \<Rightarrow> bool" where
  "wprogress g t t' \<longleftrightarrow> next_offset t \<le> next_offset t' \<and>
     (\<exists>R. R \<subseteq> {..< src_size g} \<and> towards g R (dst t) (dst t') \<and>
        wpend t \<union> {next_offset t ..< src_size g} \<subseteq> R \<union> wpend t' \<union> {next_offset t' ..< src_size g})"

definition wpost :: "copy_cfg \<Rightarrow> thread \<Rightarrow> thread \<Rightarrow> bool" where
  "wpost g t t' \<longleftrightarrow> winv g t' \<and> wprogress g t t'"

text \<open>Changes of the variables alone.\<close>

lemma tinv_vars:
  assumes "tinv g X q t" "reads t' @ dst_flight t' @ X' = reads t @ dst_flight t @ X" "dst_flight t' = dst_flight t"
    "dst t' = dst t" "bufs t' = bufs t" "next_buf t' = next_buf t" "wqueue_size t' = wqueue_size t" "src_flight t' = src_flight t"
    "\<forall>c \<in> set (reads t'). read_ok g (bufs t) c"
  shows "tinv g X' q t'"
proof -
  have "counted t' X'" using assms by (simp add: tinv_def counted_def flights_def)
  then show ?thesis using assms by (auto simp: tinv_def charged_def)
qed

lemma reads_pc: "(\<And>c. p \<noteq> ISSUE c) \<Longrightarrow> reads (t\<lparr>pc := p\<rparr>) = src_flight t"
  by (cases p) (auto simp: reads_def held_def)

lemma reads_not_issue: "(\<And>c. pc t \<noteq> ISSUE c) \<Longrightarrow> reads t = src_flight t"
  by (cases "pc t") (auto simp: reads_def held_def)

lemma reads_eq: "src_flight t' = src_flight t \<Longrightarrow> (\<And>c. pc t \<noteq> ISSUE c) \<Longrightarrow> (\<And>c. pc t' \<noteq> ISSUE c) \<Longrightarrow> reads t' = reads t"
  by (simp add: reads_not_issue)

lemma flying_eq: "reads t' = reads t \<Longrightarrow> dst_flight t' = dst_flight t \<Longrightarrow> flying t' = flying t"
  by (simp add: flying_def flights_def)

text \<open>Some work and then a change of the variables, between two places other than the wait for a slot.\<close>

lemma wpost_after:
  assumes "tpost g [] 0 P t v" "dst t' = dst v" "src_flight t' = src_flight v" "dst_flight t' = dst_flight v"
    "bufs t' = bufs v" "next_buf t' = next_buf v" "wqueue_size t' = wqueue_size v"
    "\<And>c. pc t \<noteq> ISSUE c" "\<And>c. pc t' \<noteq> ISSUE c" "place_ok g t'" "pc t' = FINISHED \<Longrightarrow> in_flight t' = 0"
    "next_offset t \<le> next_offset t'" "wrange t \<union> {next_offset t ..< src_size g} \<subseteq> P \<union> wrange t' \<union> {next_offset t' ..< src_size g}"
  shows "wpost g t t'"
proof -
  have "pc v = pc t" using assms(1) by (simp add: tpost_def moved_def vars_def)
  then have r: "reads t' = reads v" using reads_eq [OF assms(3)] assms(8,9) by simp
  have "tinv g [] 0 t'"
    by (rule tinv_vars [of g "[]" 0 v]) (use assms(1-7) r in \<open>simp_all add: tpost_def tinv_def\<close>)
  moreover obtain R where R: "R \<subseteq> {..< src_size g}" "towards g R (dst t) (dst v)" "flying t \<union> P \<subseteq> R \<union> flying v"
    using assms(1) by (auto simp: tpost_def moved_def)
  then have "wprogress g t t'"
    unfolding wprogress_def wpend_def flying_eq [OF r assms(4)] using assms(2,12,13)
    by (intro conjI exI [of _ R]) auto
  ultimately show ?thesis using assms(10,11) by (simp add: wpost_def winv_def)
qed

lemma tpost_refl: "tinv g X q t \<Longrightarrow> tpost g X q {} t t"
  using made_moved [OF made_refl] by (simp add: tpost_def)

lemma tpost_post: "post g X q P t t' \<Longrightarrow> tpost g X q P t t'"
  using made_moved by (auto simp: tpost_def post_def)

lemma tpost_varsD:
  assumes "tpost g X q P t v"
  shows "pc v = pc t" "w_offset v = w_offset t" "w_count v = w_count t" "w_exts v = w_exts t" "extent_index v = extent_index t"
    "is_zeroing v = is_zeroing t" "zeroing_start v = zeroing_start t" "next_offset v = next_offset t"
  using assms by (simp_all add: tpost_def moved_def vars_def)

lemma worker_top_ok:
  assumes "winv g t" "pc t = TOP" "worker_step g t = Some r"
  shows "safe (wpost g t) r"
proof -
  have inv: "tpost g [] 0 {} t t" using assms(1) tpost_refl by (simp add: winv_def)
  show ?thesis
  proof (cases "next_offset t < src_size g")
    case False
    then have "r = Ret (t\<lparr>pc := DRAIN\<rparr>)" using assms by (simp add: worker_step_def get_next_offset_def)
    then show ?thesis
      using False assms(2) by (auto intro!: wpost_after [OF inv] simp: place_ok_def wrange_def)
  next
    case True
    let ?n = "src_size g - next_offset t"
    let ?c = "if ?n > THREAD_WORK_SIZE then THREAD_WORK_SIZE else ?n"
    let ?t = "t\<lparr>next_offset := next_offset t + THREAD_WORK_SIZE, w_offset := next_offset t, w_count := ?c, pc := EXTENTS\<rparr>"
    have c: "0 < ?c" "?c \<le> THREAD_WORK_SIZE" "next_offset t + ?c \<le> src_size g" using True by (auto simp: THREAD_WORK_SIZE_def)
    have "r = Ret ?t" using assms(2,3) True c(1,2) by (simp add: worker_step_def get_next_offset_def Let_def must_def)
    moreover have "wpost g t ?t"
      by (rule wpost_after [OF inv]) (use assms(2) c in \<open>auto simp: place_ok_def wrange_def\<close>)
    ultimately show ?thesis by simp
  qed
qed

lemma worker_extents_step_ok:
  assumes "src_ok g" "winv g t" "pc t = EXTENTS" "worker_step g t = Some r"
  shows "safe (wpost g t) r"
proof -
  have pl: "0 < w_count t" "w_count t \<le> THREAD_WORK_SIZE" "w_offset t + w_count t \<le> src_size g"
    using assms(2,3) by (simp_all add: winv_def place_ok_def)
  have r: "r = andthen (if cfg_extents g then get_extents g (w_offset t) (w_count t) t else default_get_extents g (w_offset t) (w_count t) t)
      (\<lambda>(exts, t). Ret (t\<lparr>w_exts := exts, extent_index := 0, is_zeroing := False, pc := LOOP\<rparr>))"
    using assms(3,4) by (simp add: worker_step_def)
  show ?thesis
    unfolding r
  proof (rule safe_andthen [OF worker_extents_ok [OF assms(1) pl(3,1)]])
    fix x assume "extents_post g (w_offset t) (w_count t) [] t x"
    then obtain exts k where x: "x = (exts, t\<lparr>clock := k\<rparr>)" "covers (w_offset t) (w_count t) exts" "extents_true g exts"
      by (auto simp: extents_post_def)
    have inv: "tpost g [] 0 {} t (t\<lparr>clock := k\<rparr>)" using assms(2) tpost_post [OF post_clock] by (simp add: winv_def)
    let ?t = "t\<lparr>clock := k, w_exts := exts, extent_index := 0, is_zeroing := False, pc := LOOP\<rparr>"
    have "exts \<noteq> [] \<and> ext_offset (exts ! 0) = w_offset t" using x(2) pl(1) covers_nonempty covers_nth [OF x(2), of 0] by auto
    then have "range_ok g ?t"
      by (intro range_okI [of "w_offset t" "w_count t"]) (use x(2,3) pl in simp_all)
    then have "wpost g t ?t"
      by (intro wpost_after [OF inv]) (use assms(3) in \<open>auto simp: place_ok_def wrange_def\<close>)
    then show "safe (wpost g t) (case x of (exts, t) \<Rightarrow> Ret (t\<lparr>w_exts := exts, extent_index := 0, is_zeroing := False, pc := LOOP\<rparr>))"
      using x(1) by simp
  qed
qed

lemma flush_zeroing_ok:
  assumes cfg: "cfg_ok g" and inv: "tinv g [] 0 t" and rg: "range_ok g t"
  shows "safe (\<lambda>u. \<exists>v. u = v\<lparr>is_zeroing := False\<rparr> \<and> post g [] 0 (if is_zeroing t then {zeroing_start t ..< w_offset t} else {}) t v)
    (flush_zeroing g t)"
proof (cases "is_zeroing t")
  case False
  then show ?thesis using post_refl [OF inv] by (auto simp: flush_zeroing_def intro!: exI [of _ t])
next
  case True
  let ?len = "w_offset t - zeroing_start t"
  have z: "zeroing_start t < w_offset t" "src_zero g (zeroing_start t) ?len" "w_offset t \<le> src_size g" "?len \<le> THREAD_WORK_SIZE"
    using rg True by (auto simp: range_ok_def)
  show ?thesis
    unfolding flush_zeroing_def if_P [OF True]
  proof (rule safe_andthen [OF create_zero_ok [OF inv]])
    fix x assume x: "case x of (c, u) \<Rightarrow> post g [c] 0 {} t u \<and>
        c = \<lparr>cmd_offset = zeroing_start t, cmd_len = ?len, cmd_base = 0, cmd_buffer = None\<rparr>"
    obtain c u where cu: "x = (c, u)" by (rule prod.exhaust)
    have p: "post g [c] 0 {} t u" and b: "cmd_buffer c = None" and w: "write_ok g (bufs u) c"
      and rc: "crange c = {zeroing_start t ..< w_offset t}"
      using x cu z by (auto simp: write_ok_def crange_def)
    have "safe (post g [] 0 (crange c) u) (fill_dst_range_with_zeroes g c u)"
      by (rule fill_dst_range_ok [OF cfg post_tinv [OF p] w b])
    then have "safe (post g [] 0 (crange c) t) (fill_dst_range_with_zeroes g c u)"
      by (rule safe_mono) (use post_trans [OF p _ tinv_dst [OF inv]] in fastforce)
    then show "safe (\<lambda>u. \<exists>v. u = v\<lparr>is_zeroing := False\<rparr> \<and> post g [] 0 {zeroing_start t ..< w_offset t} t v)
        (case x of (command, t) \<Rightarrow> andthen (fill_dst_range_with_zeroes g command t) (\<lambda>t. Ret (t\<lparr>is_zeroing := False\<rparr>)))"
      unfolding cu prod.case rc by (rule safe_andthen) auto
  qed
qed

lemma range_advance:
  assumes rg: "range_ok g t" and i: "i < length (w_exts t)" "ext_offset (w_exts t ! i) \<le> w_offset t" and len: "len \<le> w_count t"
    and t': "w_exts t' = w_exts t" "extent_index t' = i" "w_offset t' = w_offset t + len" "w_count t' = w_count t - len"
    and z: "is_zeroing t' \<Longrightarrow> zeroing_start t' < w_offset t' \<and> src_zero g (zeroing_start t') (w_offset t' - zeroing_start t') \<and>
      (zeroing_start t' = w_offset t \<or> is_zeroing t \<and> zeroing_start t' = zeroing_start t)"
  shows "range_ok g t'"
proof -
  obtain o0 c0 where o: "covers o0 c0 (w_exts t)" "extents_true g (w_exts t)" "o0 \<le> w_offset t" "w_offset t + w_count t = o0 + c0"
      "o0 + c0 \<le> src_size g" "c0 \<le> THREAD_WORK_SIZE" "is_zeroing t \<Longrightarrow> o0 \<le> zeroing_start t"
    using rg by (auto simp: range_ok_def)
  have "is_zeroing t' \<Longrightarrow> o0 \<le> zeroing_start t'" using z o(3,7) by auto
  then show ?thesis
    by (intro range_okI [of o0 c0]) (use o i len t' z in auto)
qed

lemma worker_loop_ok:
  assumes cfg: "cfg_ok g" and src: "src_ok g" and inv: "winv g t" and pc: "pc t = LOOP"
  shows "safe (wpost g t) (worker_loop g t)"
proof -
  have ti: "tinv g [] 0 t" and rg: "range_ok g t" using inv pc by (simp_all add: winv_def place_ok_def)
  let ?Z = "if is_zeroing t then {zeroing_start t ..< w_offset t} else {}"
  show ?thesis
  proof (cases "w_count t = 0")
    case True
    have "wpost g t (v\<lparr>is_zeroing := False, pc := TOP\<rparr>)" if v: "post g [] 0 ?Z t v" for v
      by (rule wpost_after [OF tpost_post [OF v]])
         (use pc True tpost_varsD [OF tpost_post [OF v]] in \<open>auto simp: place_ok_def wrange_def\<close>)
    then show ?thesis
      unfolding worker_loop_def if_P [OF True]
      by (intro safe_andthen [OF flush_zeroing_ok [OF cfg ti rg]]) auto
  next
    case False
    define len where "len = min (w_count t) (cfg_request_size g)"
    obtain o0 c0 where o: "covers o0 c0 (w_exts t)" "extents_true g (w_exts t)" "o0 \<le> w_offset t" "w_offset t + w_count t = o0 + c0"
        "o0 + c0 \<le> src_size g" "c0 \<le> THREAD_WORK_SIZE" "extent_index t < length (w_exts t)"
        "ext_offset (w_exts t ! extent_index t) \<le> w_offset t"
        "is_zeroing t \<Longrightarrow> zeroing_start t < w_offset t \<and> src_zero g (zeroing_start t) (w_offset t - zeroing_start t)"
      using rg False by (auto simp: range_ok_def)
    have len: "0 < len" "len \<le> w_count t" "len \<le> THREAD_WORK_SIZE" using False cfg_okD(3,4) [OF cfg] by (auto simp: len_def)
    obtain i where i: "only_zeroes (w_exts t) (extent_index t) (w_offset t) len =
        Ret (\<forall>e \<in> set (w_exts t). overlaps e (w_offset t) len \<longrightarrow> ext_zero e, i)" "i < length (w_exts t)" "ext_offset (w_exts t ! i) \<le> w_offset t"
      using only_zeroes_spec [OF o(1,7,8), of len] o(4) False by auto
    let ?u = "t\<lparr>extent_index := i\<rparr>"
    show ?thesis
    proof (cases "\<forall>e \<in> set (w_exts t). overlaps e (w_offset t) len \<longrightarrow> ext_zero e")
      case zero: True
      let ?t = "next_block len (if is_zeroing t then ?u else ?u\<lparr>is_zeroing := True, zeroing_start := w_offset t\<rparr>)"
      have zz: "src_zero g (w_offset t) len"
        by (rule zero_region [OF o(1,2,3) _ zero]) (use o(4) len in linarith)
      have zs: "src_zero g (zeroing_start t) (w_offset t - zeroing_start t + len)" if "is_zeroing t"
        using src_zero_append [of g "zeroing_start t" "w_offset t - zeroing_start t" len] o(9) zz that by simp
      have "range_ok g ?t"
        by (rule range_advance [OF rg i(2,3) len(2)])
           (use zz zs o(9) len in \<open>auto simp: next_block_def Suc_diff_le split: if_splits\<close>)
      then have "wpost g t ?t"
        by (intro wpost_after [OF tpost_refl [OF ti]]) (use pc len(2) o(9) in \<open>auto simp: place_ok_def wrange_def next_block_def\<close>)
      then show ?thesis
        using False i(1) zero by (auto simp: worker_loop_def Let_def len_def [symmetric] split: if_splits)
    next
      case data: False
      have tu: "tinv g [] 0 ?u" by (rule tinv_vars [OF ti]) (use ti in \<open>simp_all add: reads_def tinv_def\<close>)
      have ru: "range_ok g ?u"
        by (rule range_advance [OF rg i(2,3), of 0]) (use o(9) in auto)
      have step: "safe (wpost g t) (andthen (create_command g (w_offset u) len False u) (\<lambda>(command, t). Ret (t\<lparr>pc := ISSUE command\<rparr>)))"
        if u: "u = v\<lparr>is_zeroing := False\<rparr>" and v: "post g [] 0 ?Z ?u v" for u v
      proof -
        note vv = tpost_varsD [OF tpost_post [OF v]]
        have iu: "tinv g [] 0 u"
          using post_tinv [OF v] u by (intro tinv_vars [OF post_tinv [OF v]]) (simp_all add: reads_def tinv_def)
        have cr: "safe (\<lambda>(c, w). post g [c] 0 {} u w \<and> read_ok g (bufs w) c \<and> cmd_offset c = w_offset u \<and> cmd_len c = len)
            (create_command g (w_offset u) len False u)"
          by (rule create_read_ok [OF iu len(1)]) (use o len u vv in auto)
        show ?thesis
        proof (rule safe_andthen [OF cr])
          fix x assume x: "case x of (c, w) \<Rightarrow> post g [c] 0 {} u w \<and> read_ok g (bufs w) c \<and> cmd_offset c = w_offset u \<and> cmd_len c = len"
          obtain c w where cw: "x = (c, w)" by (rule prod.exhaust)
          have p: "post g [c] 0 {} u w" and rc: "read_ok g (bufs w) c" "cmd_offset c = w_offset u" "cmd_len c = len" using x cw by auto
          note ww = tpost_varsD [OF tpost_post [OF p]]
          let ?w = "w\<lparr>pc := ISSUE c\<rparr>"
          have nw: "reads w = src_flight w" using ww(1) u vv(1) pc by (intro reads_not_issue) simp
          have tw: "tinv g [] 0 ?w"
          proof -
            have rw: "reads ?w = src_flight w @ [c]" by (simp add: reads_def held_def)
            have iw: "tinv g [c] 0 w" by (rule post_tinv [OF p])
            have "uses b (flights ?w @ []) = uses b (flights w @ [c])" for b unfolding flights_def rw nw by simp
            then have "counted ?w []" using iw by (simp add: tinv_def counted_def)
            then show ?thesis using iw rc(1) rw nw by (auto simp: tinv_def charged_def)
          qed
          have "range_ok g ?w"
            by (rule range_advance [OF ru, of i 0]) (use i ww vv u in auto)
          then have pl: "place_ok g ?w" using rc(2,3) False ww vv u pc by (auto simp: place_ok_def len_def)
          obtain R where R: "R \<subseteq> {..< src_size g}" "towards g R (dst ?u) (dst v)" "flying ?u \<union> ?Z \<subseteq> R \<union> flying v"
            using v by (auto simp: post_def made_def)
          obtain R' where R': "R' \<subseteq> {..< src_size g}" "towards g R' (dst u) (dst w)" "flying u \<subseteq> R' \<union> flying w"
            using p by (auto simp: post_def made_def)
          have "towards g (R \<union> R') (dst t) (dst w)"
            using towards_trans [OF R(2) _ _ R(1), of R' "dst w"] R'(2) u tinv_dst [OF ti] by simp
          moreover have "flying ?u = flying t" "flying u = flying v" "flying w \<subseteq> flying ?w"
            using u nw by (auto simp: flying_def flights_def reads_def held_def)
          then have "wpend t \<subseteq> (R \<union> R') \<union> wpend ?w"
            using R(3) R'(3) ww vv u pc by (auto simp: wpend_def wrange_def split: if_splits)
          ultimately have "wprogress g t ?w"
            unfolding wprogress_def using R(1) R'(1) ww vv u by (intro conjI exI [of _ "R \<union> R'"]) auto
          then show "safe (wpost g t) (case x of (command, t) \<Rightarrow> Ret (t\<lparr>pc := ISSUE command\<rparr>))"
            unfolding cw using tw pl by (simp add: wpost_def winv_def)
        qed
      qed
      have "safe (wpost g t) (andthen (flush_zeroing g ?u) (\<lambda>t.
          andthen (create_command g (w_offset t) len False t) (\<lambda>(command, t). Ret (t\<lparr>pc := ISSUE command\<rparr>))))"
      proof (rule safe_andthen [OF flush_zeroing_ok [OF cfg tu ru]])
        fix u assume "\<exists>v. u = v\<lparr>is_zeroing := False\<rparr> \<and>
          post g [] 0 (if is_zeroing ?u then {zeroing_start ?u ..< w_offset ?u} else {}) ?u v"
        then obtain v where v: "u = v\<lparr>is_zeroing := False\<rparr>"
          "post g [] 0 (if is_zeroing ?u then {zeroing_start ?u ..< w_offset ?u} else {}) ?u v" by blast
        have "post g [] 0 ?Z ?u v" using v(2) unfolding thread.simps by (simp split: if_splits)
        then show "safe (wpost g t) (andthen (create_command g (w_offset u) len False u)
            (\<lambda>(command, t). Ret (t\<lparr>pc := ISSUE command\<rparr>)))" by (rule step [OF v(1)])
      qed
      then show ?thesis
        using False i(1) data by (simp add: worker_loop_def Let_def len_def [symmetric])
    qed
  qed
qed

lemma worker_issue_ok:
  assumes cfg: "cfg_ok g" and src: "src_ok g" and inv: "winv g t" and pc: "pc t = ISSUE c" and r: "worker_issue g c t = Some r"
  shows "safe (wpost g t) r"
proof -
  have ti: "tinv g [] 0 t" and rg: "range_ok g t" and c: "0 < w_count t" "cmd_offset c = w_offset t"
      "cmd_len c = min (w_count t) (cfg_request_size g)" "\<not> is_zeroing t"
    using inv pc by (simp_all add: winv_def place_ok_def)
  let ?len = "cmd_len c"
  let ?t = "t\<lparr>wqueue_size := wqueue_size t + ?len, pc := LOOP\<rparr>"
  have room: "wqueue_size t < cfg_queue_size g" and rr: "r = andthen (asynch_read g c ?t) (\<lambda>t. Ret (next_block ?len t))"
    using r by (auto simp: worker_issue_def increase_queue_size_def must_def split: if_splits)
  have rt: "reads t = src_flight t @ [c]" "reads ?t = src_flight t" using pc by (simp_all add: reads_def held_def)
  have rc: "read_ok g (bufs t) c" using ti rt by (auto simp: tinv_def)
  have "uses b (flights ?t @ [c]) = uses b (flights t @ [])" for b unfolding flights_def rt by simp
  then have "counted ?t [c]" using ti by (simp add: tinv_def counted_def)
  then have tt: "tinv g [c] (0 + ?len) ?t" using ti rt by (auto simp: tinv_def charged_def)
  show ?thesis
    unfolding rr
  proof (rule safe_andthen [OF asynch_read_ok [OF cfg src tt]])
    show "read_ok g (bufs ?t) c" using rc by simp
    fix u assume u: "tpost g [] 0 (crange c) ?t u"
    note uu = tpost_varsD [OF u, simplified]
    have ru: "reads (next_block ?len u) = reads u"
      by (rule reads_eq) (use uu in \<open>simp_all add: next_block_def\<close>)
    have iu: "tinv g [] 0 (next_block ?len u)"
      by (rule tinv_vars [of g "[]" 0 u]) (use u ru in \<open>simp_all add: next_block_def tpost_def tinv_def\<close>)
    have ix: "extent_index t < length (w_exts t)" "ext_offset (w_exts t ! extent_index t) \<le> w_offset t"
      using rg c(1) by (auto simp: range_ok_def)
    have "range_ok g (next_block ?len u)"
      by (rule range_advance [OF rg ix, of ?len]) (use c uu in \<open>auto simp: next_block_def\<close>)
    then have pl: "place_ok g (next_block ?len u)" by (simp add: place_ok_def next_block_def)
    obtain R where R: "R \<subseteq> {..< src_size g}" "towards g R (dst t) (dst u)" "flying ?t \<union> crange c \<subseteq> R \<union> flying u"
      using u by (auto simp: tpost_def moved_def)
    have "flying t = flying ?t \<union> crange c" "flying (next_block ?len u) = flying u"
      using rt ru by (auto simp: flying_def flights_def next_block_def)
    moreover have "wrange t \<subseteq> crange c \<union> wrange (next_block ?len u)"
      using c pc uu by (auto simp: wrange_def crange_def next_block_def)
    ultimately have "wprogress g t (next_block ?len u)"
      unfolding wprogress_def using R uu
      by (intro conjI exI [of _ R]) (auto simp: next_block_def wpend_def)
    then show "safe (wpost g t) (Ret (next_block ?len u))"
      using iu pl by (simp add: wpost_def winv_def next_block_def)
  qed
qed

lemma worker_step_ok:
  assumes cfg: "cfg_ok g" and src: "src_ok g" and inv: "winv g t" and r: "worker_step g t = Some r"
  shows "safe (wpost g t) r"
proof (cases "pc t")
  case TOP
  then show ?thesis using worker_top_ok [OF inv _ r] by simp
next
  case EXTENTS
  then show ?thesis using worker_extents_step_ok [OF src inv _ r] by simp
next
  case LOOP
  then show ?thesis using worker_loop_ok [OF cfg src inv] r by (auto simp: worker_step_def)
next
  case (ISSUE c)
  then show ?thesis using worker_issue_ok [OF cfg src inv ISSUE] r by (simp add: worker_step_def)
next
  case DRAIN
  then have "r = Ret (t\<lparr>pc := FINISHED\<rparr>)" "in_flight t = 0" using r by (auto simp: worker_step_def split: if_splits)
  moreover have "wpost g t (t\<lparr>pc := FINISHED\<rparr>)" if "in_flight t = 0"
    by (rule wpost_after [OF tpost_refl]) (use inv DRAIN that in \<open>auto simp: winv_def place_ok_def wrange_def in_flight_def\<close>)
  ultimately show ?thesis by simp
next
  case FINISHED
  then show ?thesis using r by (simp add: worker_step_def)
qed

lemma wpost_completed:
  assumes "tpost g [] 0 {} t v" "winv g t" "pc t \<noteq> FINISHED"
  shows "wpost g t v"
proof -
  note vv = tpost_varsD [OF assms(1)]
  have "range_ok g v = range_ok g t" by (simp add: range_ok_def vv)
  then have "place_ok g v = place_ok g t" by (simp add: place_ok_def vv split: worker_pc.splits)
  then have "place_ok g v" using assms(2) by (simp add: winv_def)
  moreover have "wrange v = wrange t" using vv by (simp add: wrange_def split: worker_pc.splits)
  moreover obtain R where "R \<subseteq> {..< src_size g}" "towards g R (dst t) (dst v)" "flying t \<subseteq> R \<union> flying v"
    using assms(1) by (auto simp: tpost_def moved_def)
  ultimately show ?thesis
    using assms(1,3) vv by (auto simp: wpost_def winv_def wprogress_def wpend_def tpost_def intro!: exI [of _ R])
qed

lemma complete_step_ok:
  assumes cfg: "cfg_ok g" and inv: "winv g t"
  shows "n < length (src_flight t) \<Longrightarrow> safe (wpost g t) (complete_read g n err t)"
    and "n < length (dst_flight t) \<Longrightarrow> safe (wpost g t) (complete_write g n err t)"
proof -
  have ti: "tinv g [] 0 t" using inv by (simp add: winv_def)
  show "safe (wpost g t) (complete_read g n err t)" if n: "n < length (src_flight t)"
    using safe_mono [OF complete_read_ok [OF cfg ti n]] wpost_completed [OF _ inv] inv n
    by (fastforce simp: winv_def in_flight_def)
  show "safe (wpost g t) (complete_write g n err t)" if n: "n < length (dst_flight t)"
    using safe_mono [OF complete_write_ok [OF cfg ti n]] wpost_completed [OF _ inv] inv n
    by (fastforce simp: winv_def in_flight_def)
qed

section \<open>All threads\<close>

text \<open>
  The invariant of the whole: every thread is in order, every byte of the source is still to be taken by a thread, or in the hands of
  one, or right at the destination; and the destination has changed only towards the source.
\<close>

definition ginv :: "copy_cfg \<Rightarrow> rw \<Rightarrow> copy \<Rightarrow> bool" where
  "ginv g d s \<longleftrightarrow>
     length (g_threads s) = cfg_threads g \<and> (\<forall>k < length (g_threads s). winv g (activate s k)) \<and>
     towards g {p. p < g_next s \<and> p < src_size g \<and> (\<forall>k < length (g_threads s). p \<notin> wpend (activate s k))} d (g_dst s)"

lemma activate_simps [simp]:
  "dst (activate s k) = g_dst s" "next_offset (activate s k) = g_next s" "clock (activate s k) = g_clock s"
  "pc (activate s k) = pc (g_threads s ! k)" "in_flight (activate s k) = in_flight (g_threads s ! k)"
  "src_flight (activate s k) = src_flight (g_threads s ! k)" "dst_flight (activate s k) = dst_flight (g_threads s ! k)"
  by (simp_all add: activate_def in_flight_def)

text \<open>What a step of another thread does not change.\<close>

lemma winv_other:
  assumes "winv g t" "dst_ok g d" "rw_ops d = rw_ops (dst t)" "next_offset t \<le> n"
  shows "winv g (t\<lparr>clock := c, dst := d, next_offset := n\<rparr>)"
proof -
  have "tinv g [] 0 (t\<lparr>clock := c, dst := d, next_offset := n\<rparr>)"
    using assms(1-3) by (simp add: winv_def tinv_def counted_def charged_def flights_def reads_def)
  then show ?thesis
    using assms(1,4) by (auto simp: winv_def place_ok_def range_ok_def in_flight_def split: worker_pc.splits)
qed

lemma wpend_shared [simp]: "wpend (t\<lparr>clock := c, dst := d, next_offset := n\<rparr>) = wpend t"
  by (simp add: wpend_def wrange_def flying_def flights_def reads_def split: worker_pc.splits)

lemma activate_deactivate:
  assumes "k < length (g_threads s)" "j < length (g_threads s)"
  shows "activate (deactivate k s t) j =
    (if j = k then t else (activate s j)\<lparr>clock := clock t, dst := dst t, next_offset := next_offset t\<rparr>)"
  using assms by (simp add: activate_def deactivate_def)

lemma ginv_step:
  assumes inv: "ginv g d s" and d: "dst_ok g d" and k: "k < length (g_threads s)" and w: "wpost g (activate s k) t"
  shows "ginv g d (deactivate k s t)"
proof -
  let ?s = "deactivate k s t"
  let ?P = "\<lambda>s. {p. p < g_next s \<and> p < src_size g \<and> (\<forall>k < length (g_threads s). p \<notin> wpend (activate s k))}"
  obtain R where R: "R \<subseteq> {..< src_size g}" "towards g R (g_dst s) (dst t)"
      "wpend (activate s k) \<union> {g_next s ..< src_size g} \<subseteq> R \<union> wpend t \<union> {next_offset t ..< src_size g}"
    and n: "g_next s \<le> next_offset t"
    using w by (auto simp: wpost_def wprogress_def)
  have wt: "winv g t" using w by (simp add: wpost_def)
  have dt: "dst_ok g (dst t)" using wt by (simp add: winv_def tinv_def)
  have len: "length (g_threads ?s) = length (g_threads s)" by (simp add: deactivate_def)
  have win: "winv g (activate ?s j)" if j: "j < length (g_threads s)" for j
  proof -
    have "winv g (activate s j)" using inv j by (simp add: ginv_def)
    then have "winv g ((activate s j)\<lparr>clock := clock t, dst := dst t, next_offset := next_offset t\<rparr>)"
      by (rule winv_other [OF _ dt]) (use towardsD(1) [OF R(2)] n in simp_all)
    then show ?thesis using activate_deactivate [OF k j, of t] wt by simp
  qed
  have old: "towards g (?P s) d (g_dst s)" using inv unfolding ginv_def by blast
  have "towards g (?P s \<union> R) d (dst t)"
    by (rule towards_trans [OF old R(2) d]) auto
  moreover have "?P ?s \<subseteq> ?P s \<union> R"
  proof
    fix p assume p: "p \<in> ?P ?s"
    then have pend: "p \<notin> wpend (activate ?s j)" if "j < length (g_threads s)" for j using that len by auto
    have pt: "p \<notin> wpend t" using pend [OF k] activate_deactivate [OF k k] by simp
    have po: "p \<notin> wpend (activate s j)" if "j < length (g_threads s)" "j \<noteq> k" for j
      using pend [OF that(1)] activate_deactivate [OF k that(1)] that(2) by simp
    have pn: "p < next_offset t" "p < src_size g" using p by (auto simp: deactivate_def)
    show "p \<in> ?P s \<union> R"
    proof (cases "p \<in> R")
      case False
      then have "p \<notin> wpend (activate s k)" "\<not> g_next s \<le> p" using R(3) pt pn by auto
      then show ?thesis using po pn(2) by (auto simp: not_le)
    qed simp
  qed
  ultimately have "towards g (?P ?s) d (g_dst ?s)" using towards_mono by (auto simp: deactivate_def)
  then show ?thesis using inv win len by (simp add: ginv_def)
qed

lemma copy_step_ok:
  assumes "cfg_ok g" "src_ok g" "dst_ok g d" "ginv g d s" "copy_step g s o1"
  shows "safe (ginv g d) o1"
  using assms(5)
proof cases
  case (run k r)
  have "safe (wpost g (activate s k)) r"
    using worker_step_ok [OF assms(1,2) _ run(3)] assms(4) run(2) by (simp add: ginv_def)
  then show ?thesis unfolding run(1) by (rule safe_andthen) (use ginv_step [OF assms(4,3) run(2)] in simp)
next
  case (read_done k n err)
  have "safe (wpost g (activate s k)) (complete_read g n err (activate s k))"
    using complete_step_ok(1) [OF assms(1)] assms(4) read_done by (simp add: ginv_def)
  then show ?thesis unfolding read_done(1) by (rule safe_andthen) (use ginv_step [OF assms(4,3) read_done(2)] in simp)
next
  case (write_done k n err)
  have "safe (wpost g (activate s k)) (complete_write g n err (activate s k))"
    using complete_step_ok(2) [OF assms(1)] assms(4) write_done by (simp add: ginv_def)
  then show ?thesis unfolding write_done(1) by (rule safe_andthen) (use ginv_step [OF assms(4,3) write_done(2)] in simp)
qed

lemma start_winv:
  assumes "dst_ok g d"
  shows "winv g (start_thread d)"
  using assms by (simp add: winv_def tinv_def start_thread_def counted_def flights_def reads_def held_def refs_of_def
      charged_def place_ok_def)

lemma start_ginv:
  assumes "dst_ok g d" "multi_thread_copying g d = Ret s"
  shows "ginv g d s"
proof -
  have s: "s = \<lparr>g_clock = 0, g_dst = d, g_next = 0, g_threads = replicate (cfg_threads g) (start_thread d)\<rparr>"
    using assms(2) by (auto simp: multi_thread_copying_def must_def split: if_splits)
  have "activate s k = start_thread d" if "k < cfg_threads g" for k
    using that by (simp add: s activate_def start_thread_def)
  then show ?thesis using start_winv [OF assms(1)] by (simp add: ginv_def s)
qed

lemma reach_ginv:
  assumes "cfg_ok g" "src_ok g" "dst_ok g d"
  shows "copy_reach g o1 o2 \<Longrightarrow> o1 = multi_thread_copying g d \<Longrightarrow> safe (ginv g d) o1 \<Longrightarrow> safe (ginv g d) o2"
  by (induction rule: copy_reach.induct) (auto intro: copy_step_ok [OF assms])

lemma reach_safe:
  assumes "cfg_ok g" "src_ok g" "dst_ok g d" "0 < cfg_threads g" "cfg_threads g = cfg_connections g"
    "copy_reach g (multi_thread_copying g d) r"
  shows "safe (ginv g d) r"
proof -
  have "rw_size (cfg_src g) \<noteq> -1" using assms(1) by (auto simp: cfg_ok_def)
  then have "\<exists>s. multi_thread_copying g d = Ret s" using assms(4,5) by (simp add: multi_thread_copying_def must_def)
  then show ?thesis
    using reach_ginv [OF assms(1-3,6) refl] start_ginv [OF assms(3)] by fastforce
qed

text \<open>What the invariant says once all threads have ended.\<close>

lemma finished_thread:
  assumes "winv g t" "pc t = FINISHED"
  shows "wpend t = {}" "bufs t = Map.empty" "wqueue_size t = 0" "src_size g \<le> next_offset t"
proof -
  have e: "src_flight t = []" "dst_flight t = []" "held t = []" and ti: "tinv g [] 0 t"
    using assms by (auto simp: winv_def in_flight_def held_def)
  then have f: "flights t = []" by (simp add: flights_def reads_def)
  show "wpend t = {}" using assms(2) f by (simp add: wpend_def wrange_def flying_def)
  show "wqueue_size t = 0" using ti e by (simp add: tinv_def charged_def)
  have "refs_of (bufs t) b = 0" for b using ti f by (simp add: tinv_def counted_def)
  moreover have "0 < buf_refs buf" if "bufs t b = Some buf" for b buf using ti that by (auto simp: tinv_def counted_def)
  ultimately have "bufs t b = None" for b unfolding refs_of_def by (cases "bufs t b") (fastforce dest: spec [of _ b])+
  then show "bufs t = Map.empty" by blast
  show "src_size g \<le> next_offset t" using assms by (simp add: winv_def place_ok_def)
qed

lemma finished_copy:
  assumes "ginv g d s" "all_finished s" "0 < cfg_threads g"
  shows "towards g {..< src_size g} d (g_dst s)" "\<forall>t \<in> set (g_threads s). bufs t = Map.empty \<and> wqueue_size t = 0"
proof -
  have len: "length (g_threads s) = cfg_threads g" and tw:
      "towards g {p. p < g_next s \<and> p < src_size g \<and> (\<forall>k < length (g_threads s). p \<notin> wpend (activate s k))} d (g_dst s)"
    using assms(1) unfolding ginv_def by blast+
  have fin: "winv g (activate s k)" "pc (activate s k) = FINISHED" if "k < length (g_threads s)" for k
    using assms(1,2) that by (simp_all add: ginv_def all_finished_def list_all_length)
  note fd = finished_thread [OF fin]
  have "src_size g \<le> g_next s" using fd(4) [of 0] len assms(3) by simp
  then show "towards g {..< src_size g} d (g_dst s)" using fd(1) by (intro towards_mono [OF tw]) auto
  have "bufs (g_threads s ! k) = Map.empty \<and> wqueue_size (g_threads s ! k) = 0" if "k < length (g_threads s)" for k
    using fd(2,3) [of k] that by (simp add: activate_def)
  then show "\<forall>t \<in> set (g_threads s). bufs t = Map.empty \<and> wqueue_size t = 0" by (simp add: all_set_conv_all_nth)
qed

lemma towards_all:
  assumes "towards g {..< src_size g} d d'" "dst_ok g d" "cfg_ok g" "rw_ops d \<noteq> NULL_OPS"
  shows "rw_bytes d' = src_bytes g @ drop (src_size g) (rw_bytes d')" "take (src_size g) (rw_bytes d') = src_bytes g"
proof -
  have "length (src_bytes g) = src_size g" by (rule cfg_okD(1) [OF assms(3)])
  moreover have "src_size g \<le> length (rw_bytes d')" using assms by (simp add: dst_ok_def towards_def)
  ultimately show "take (src_size g) (rw_bytes d') = src_bytes g"
    using towardsD(6) [OF assms(1,4)] by (intro nth_equalityI) auto
  then show "rw_bytes d' = src_bytes g @ drop (src_size g) (rw_bytes d')" by (metis append_take_drop_id)
qed

lemma towards_rest:
  assumes "towards g R d d'"
  shows "drop (src_size g) (rw_bytes d') = drop (src_size g) (rw_bytes d)"
  using towardsD(4) [OF assms] towardsD(5) [OF assms, of "src_size g + i" for i] by (intro nth_equalityI) auto

text \<open>
  C7. The copy is right, however the threads and the completions of their commands interleave: when all worker threads have
  ended, the destination holds exactly the bytes of the source and is unchanged behind them, every buffer has been freed and
  nothing is left in the queues. This holds for files and NBD exports on both sides, with and without extents,
  sparseness detection, preallocation or a target known to be zero, and for any answers of the system that keep the
  conventions of \<open>src_ok\<close>: data is reported as zero only where it is, and a source does not shrink.
\<close>

theorem copy_correct:
  assumes "cfg_ok g" "src_ok g" "dst_ok g d" "rw_ops d \<noteq> NULL_OPS" "0 < cfg_threads g" "cfg_threads g = cfg_connections g"
    "copy_reach g (multi_thread_copying g d) (Ret s)" "all_finished s"
  shows "rw_bytes (g_dst s) = src_bytes g @ drop (src_size g) (rw_bytes d) \<and>
    (\<forall>t \<in> set (g_threads s). bufs t = Map.empty \<and> wqueue_size t = 0)"
proof -
  have inv: "ginv g d s" using reach_safe [OF assms(1-3,5-7)] by simp
  note fin = finished_copy [OF inv assms(8,5)]
  show ?thesis using towards_all(1) [OF fin(1) assms(3,1,4)] towards_rest [OF fin(1)] fin(2) by simp
qed

section \<open>An example\<close>

text \<open>Runs that follow a schedule: which thread runs on, and which command of it is completed.\<close>

datatype move = RUN nat | READ nat nat | WRITE nat nat

fun play :: "copy_cfg \<Rightarrow> move list \<Rightarrow> copy \<Rightarrow> copy option" where
  "play g [] s = Some s"
| "play g (m # ms) s =
     (let k = (case m of RUN k \<Rightarrow> k | READ k n \<Rightarrow> k | WRITE k n \<Rightarrow> k) in
      if k < length (g_threads s) then
        (case (case m of
                 RUN k \<Rightarrow> worker_step g (activate s k)
               | READ k n \<Rightarrow> if n < length (src_flight (activate s k)) then Some (complete_read g n 0 (activate s k)) else None
               | WRITE k n \<Rightarrow> if n < length (dst_flight (activate s k)) then Some (complete_write g n 0 (activate s k)) else None) of
           Some (Ret t) \<Rightarrow> play g ms (deactivate k s t)
         | _ \<Rightarrow> None)
      else None)"

lemma play_step:
  assumes "k < length (g_threads s)"
  shows "worker_step g (activate s k) = Some (Ret t) \<Longrightarrow> copy_step g s (Ret (deactivate k s t))"
    and "n < length (src_flight (activate s k)) \<Longrightarrow> complete_read g n 0 (activate s k) = Ret t \<Longrightarrow> copy_step g s (Ret (deactivate k s t))"
    and "n < length (dst_flight (activate s k)) \<Longrightarrow> complete_write g n 0 (activate s k) = Ret t \<Longrightarrow> copy_step g s (Ret (deactivate k s t))"
  by (metis andthen.simps(1) copy_step.run [OF assms] copy_step.read_done [OF assms] copy_step.write_done [OF assms])+

lemma play_reach: "play g ms s = Some s' \<Longrightarrow> copy_reach g o1 (Ret s) \<Longrightarrow> copy_reach g o1 (Ret s')"
proof (induction g ms s rule: play.induct)
  case (2 g m ms s)
  then show ?case
    using play_step [where s = s and g = g] copy_reach.more [of g o1 s]
    by (cases m) (fastforce simp: Let_def split: if_splits option.splits run_result.splits)+
qed simp

text \<open>
  An export of twelve bytes, of which the server reports the last four as zero, copied by one thread in requests of four
  bytes to a file of fourteen bytes with other contents.
\<close>

definition example_env :: copy_env where
  "example_env = \<lparr>env_alloc = (\<lambda>_. True), env_garbage = (\<lambda>_ _. 170), env_pread = (\<lambda>_ _ _. Some 3), env_pwrite = (\<lambda>_ _ _. Some 0),
     env_fallocate = (\<lambda>_ _ _ _. COPY_ENOTSUP), env_zeroout = (\<lambda>_ _ _. ENOTTY), env_seek_data = (\<lambda>_ _. Inl ENXIO), env_seek_hole = (\<lambda>_ _. Inl 5),
     env_nbd = (\<lambda>_. True), env_block_status = (\<lambda>_ count off. Some [(''base:allocation'',
       (if off < 8 then [(min count (8 - off), 0)] else [(count, 3)]), 0)])\<rparr>"

definition example_rw :: rw where
  "example_rw = \<lparr>rw_ops = NBD_OPS, rw_size = 12, rw_preferred = 4096, rw_bytes = [1, 2, 0, 0, 5, 6, 7, 8, 0, 0, 0, 0],
     rw_is_block = False, rw_seek_hole = False, rw_sector_size = 4096, rw_punch_hole = True, rw_zero_range = True, rw_fallocate = True,
     rw_zeroout = True, rw_can_zero = True, rw_read_only = False, rw_multi_conn = True, rw_meta_context = True\<rparr>"

definition example_cfg :: copy_cfg where
  "example_cfg = \<lparr>cfg_allocated = False, cfg_target_is_zero = False, cfg_extents = True, cfg_flush = False, cfg_max_requests = 64,
     cfg_queue_size = 64, cfg_request_size = 4, cfg_sparse_size = 2, cfg_synchronous = False, cfg_threads = 1, cfg_connections = 1,
     cfg_src = example_rw, cfg_env = example_env\<rparr>"

definition example_dst :: rw where
  "example_dst = example_rw\<lparr>rw_ops := FILE_OPS, rw_size := 14, rw_bytes := replicate 14 9, rw_sector_size := 0, rw_zeroout := False\<rparr>"

lemma example_cfg_ok: "cfg_ok example_cfg" "dst_ok example_cfg example_dst" "rw_ops example_dst \<noteq> NULL_OPS"
  by (simp_all add: cfg_ok_def dst_ok_def src_size_def example_cfg_def example_rw_def example_dst_def THREAD_WORK_SIZE_def) code_simp+

lemma example_zero: "src_zero example_cfg 8 4"
  unfolding src_zero_def
proof (intro allI impI)
  fix p :: nat assume "8 \<le> p \<and> p < 8 + 4"
  then have "p \<in> {8, 9, 10, 11}" by auto
  then show "src_bytes example_cfg ! p = 0" by (auto simp: example_cfg_def example_rw_def numeral_eq_Suc)
qed

lemma example_cfg_simps: "cfg_src example_cfg = example_rw" "cfg_env example_cfg = example_env"
  by (simp_all add: example_cfg_def)

lemma example_src_ok: "src_ok example_cfg"
proof -
  have "\<exists>entries. fold (add_extent off) calls [] = add_entries off entries \<and> entries_ok example_cfg off (off + count) entries"
    if a: "0 < count" "off + count \<le> 12" "env_block_status example_env time count off = Some calls" for time count off calls
  proof -
    let ?es = "if off < 8 then [(min count (8 - off), 0)] else [(count, 3)]"
    have "fold (add_extent off) calls [] = add_entries off ?es"
      using a(3) by (auto simp: example_env_def add_extent_def)
    moreover have "entries_ok example_cfg off (off + count) ?es"
      using src_zero_part [OF example_zero, of off count] a(1,2) by (auto simp: LIBNBD_STATE_ZERO_def)
    ultimately show ?thesis by blast
  qed
  then show ?thesis
    unfolding src_ok_def block_status_ok_def by (auto simp: src_size_def example_cfg_simps example_rw_def)
qed

definition example_moves :: "move list" where
  "example_moves = RUN 0 # RUN 0 # replicate 6 (RUN 0) @ [READ 0 1, READ 0 0, RUN 0, RUN 0]"

definition example_start :: copy where
  "example_start = \<lparr>g_clock = 0, g_dst = example_dst, g_next = 0, g_threads = [start_thread example_dst]\<rparr>"

lemma example_play: "case play example_cfg example_moves example_start of None \<Rightarrow> False | Some s \<Rightarrow> all_finished s"
  by code_simp

lemma example_run:
  "\<exists>s. copy_reach example_cfg (multi_thread_copying example_cfg example_dst) (Ret s) \<and> all_finished s"
proof -
  have "multi_thread_copying example_cfg example_dst = Ret example_start"
    by (simp add: multi_thread_copying_def must_def example_start_def example_cfg_def example_rw_def)
  moreover obtain s where "play example_cfg example_moves example_start = Some s" "all_finished s"
    using example_play by (auto split: option.splits)
  ultimately show ?thesis using play_reach copy_reach.start by metis
qed

text \<open>The example comes to an end with the bytes of the export in the file.\<close>

theorem copy_correct_witness:
  "\<exists>s. copy_reach example_cfg (multi_thread_copying example_cfg example_dst) (Ret s) \<and> all_finished s \<and>
     rw_bytes (g_dst s) = [1, 2, 0, 0, 5, 6, 7, 8, 0, 0, 0, 0, 9, 9]"
proof -
  obtain s where s: "copy_reach example_cfg (multi_thread_copying example_cfg example_dst) (Ret s)" "all_finished s"
    using example_run by blast
  have "rw_bytes (g_dst s) = src_bytes example_cfg @ drop (src_size example_cfg) (rw_bytes example_dst)"
    using copy_correct [OF example_cfg_ok(1) example_src_ok example_cfg_ok(2,3) _ _ s] by (simp add: example_cfg_def)
  then show ?thesis using s by (auto simp: example_cfg_def example_rw_def example_dst_def src_size_def numeral_eq_Suc)
qed



end
