(* ===== verification/NBD_Copy_Ends.thy ===== *)
theory NBD_Copy_Ends
  imports NBD_Copy_Props
begin

text \<open>
  That copying ends. How many commands each part of the code puts in flight, the work that is left as a number that every
  step makes smaller, and that there is always a next step until all threads have ended.
\<close>

section \<open>Commands put in flight\<close>

definition returns :: "('a \<Rightarrow> bool) \<Rightarrow> 'a run_result \<Rightarrow> bool" where
  "returns Q r \<longleftrightarrow> (\<forall>x. r = Ret x \<longrightarrow> Q x)"

lemma returns_simps [simp]:
  "returns Q (Ret x) = Q x" "returns Q (Ends e)" "returns Q (andthen (must e b) f) = (b \<longrightarrow> returns Q (f ()))"
  by (simp_all add: returns_def must_def)

lemma returns_andthen: "returns P r \<Longrightarrow> (\<And>x. P x \<Longrightarrow> returns Q (f x)) \<Longrightarrow> returns Q (andthen r f)"
  by (cases r) simp_all

lemma returns_mono: "returns P r \<Longrightarrow> (\<And>x. P x \<Longrightarrow> Q x) \<Longrightarrow> returns Q r"
  by (cases r) simp_all

text \<open>At most \<open>n\<close> more commands are in flight to the destination, none from the source; the variables are not touched.\<close>

definition adds :: "nat \<Rightarrow> thread \<Rightarrow> thread \<Rightarrow> bool" where
  "adds n t t' \<longleftrightarrow> vars t' = vars t \<and> src_flight t' = src_flight t \<and> length (dst_flight t') \<le> length (dst_flight t) + n"

lemma more_trans: "adds n t u \<Longrightarrow> adds m u v \<Longrightarrow> adds (n + m) t v"
  by (simp add: adds_def)

lemma more_mono: "adds n t u \<Longrightarrow> n \<le> m \<Longrightarrow> adds m t u"
  by (simp add: adds_def)

lemma more_same [simp]:
  "adds n t t" "adds n t (t\<lparr>clock := c\<rparr>)" "adds n t (t\<lparr>dst := d\<rparr>)" "adds n t (t\<lparr>bufs := m\<rparr>)"
  "adds n t (t\<lparr>wqueue_size := q\<rparr>)" "adds n t (tick t)" "adds n t (put_dst off bs t)" "adds n t (zero_dst off k t)"
  by (simp_all add: adds_def vars_def tick_def put_dst_def zero_dst_def)

lemma returns_then:
  assumes "returns (adds n t) r" "\<And>u. adds n t u \<Longrightarrow> returns (adds m u) (f u)"
  shows "returns (adds (n + m) t) (andthen r f)"
  by (rule returns_andthen [OF assms(1)]) (use assms(2) more_trans in \<open>blast intro: returns_mono\<close>)

lemma returns_then0: "returns (adds 0 t) r \<Longrightarrow> (\<And>u. returns (adds m u) (f u)) \<Longrightarrow> returns (adds m t) (andthen r f)"
  using returns_then [of 0 t r m f] by simp

lemma more_allocate: "returns (adds 0 t) (allocate g t)"
  by (simp add: allocate_def)

lemma more_nbd_call: "returns (adds 0 t) (nbd_call g t)"
  by (simp add: nbd_call_def)

lemma more_decrease: "returns (adds 0 t) (decrease_queue_size len t)"
  by (simp add: decrease_queue_size_def)

lemma more_free_command: "returns (adds 0 t) (free_command c t)"
  by (simp add: free_command_def split: option.splits)

lemma more_finished_command: "returns (adds 0 t) (finished_command err c t)"
  by (simp add: finished_command_def more_decrease more_free_command returns_then0)

lemma more_file_synch_write: "returns (adds 0 t) (file_synch_write g data off t)"
proof (induction g data off t rule: file_synch_write.induct)
  case (1 g data off t)
  show ?case
  proof (cases "data = [] \<or> env_pwrite (cfg_env g) (clock t) (length data) off = None")
    case False
    then obtain k where k: "data \<noteq> []" "env_pwrite (cfg_env g) (clock t) (length data) off = Some k" by auto
    let ?r = "min (Suc k) (length data)"
    let ?u = "tick (put_dst off (take ?r data) t)"
    have "adds 0 t ?u" by (simp add: adds_def vars_def tick_def put_dst_def)
    with "1.IH" [OF k refl] show ?thesis
      unfolding file_synch_write.simps [of g data off t] using k more_trans [of 0 t ?u 0]
      by (auto simp: Let_def intro: returns_mono)
  qed (auto simp: file_synch_write.simps [of g data off t])
qed

text \<open>The operations that answer whether they did their work.\<close>

abbreviation adds2 :: "nat \<Rightarrow> thread \<Rightarrow> 'a \<times> thread \<Rightarrow> bool" where
  "adds2 n t r \<equiv> adds n t (snd r)"

lemma more_file_zeroing:
  "returns (adds2 0 t) (file_punch_hole g off len t)" "returns (adds2 0 t) (file_zero_range g off len t)"
  "returns (adds2 0 t) (file_zeroout g off len t)"
  by (simp_all add: file_punch_hole_def file_zero_range_def file_zeroout_def Let_def adds_def vars_def tick_def zero_dst_def put_dst_def)

lemma more_dst: "adds 0 t u \<Longrightarrow> adds 0 t (u\<lparr>dst := d\<rparr>)"
  by (simp add: adds_def vars_def)

lemma more_zero_stages:
  "returns (adds2 0 t) (zero_by_punch g off len alloc t)" "returns (adds2 0 t) (zero_by_range g off len t)"
  "returns (adds2 0 t) (zero_by_fallocate g off len t)" "returns (adds2 0 t) (zero_by_zeroout g off len t)"
  unfolding zero_by_punch_def zero_by_range_def zero_by_fallocate_def zero_by_zeroout_def
  by (auto intro!: returns_andthen [OF more_file_zeroing(1)] returns_andthen [OF more_file_zeroing(2)]
      returns_andthen [OF more_file_zeroing(3)] more_dst split: option.splits)
     (auto simp: adds_def vars_def tick_def)

lemma returns_then2:
  assumes "returns (adds2 0 t) r" "\<And>b u. returns (adds2 m u) (f (b, u))"
  shows "returns (adds2 m t) (andthen r f)"
proof (rule returns_andthen [OF assms(1)])
  fix x assume "adds2 0 t (x :: 'a \<times> thread)"
  moreover obtain b u where "x = (b, u)" by (rule prod.exhaust)
  ultimately show "returns (adds2 m t) (f x)"
    using assms(2) [of u b] more_trans [of 0 t u m] by (auto intro: returns_mono)
qed

lemma more_file_synch_zero: "returns (adds2 0 t) (file_synch_zero g off len alloc t)"
  unfolding file_synch_zero_def
  by (auto intro!: returns_then2 more_zero_stages)

lemma returns_more0: "returns (adds 0 t) r \<Longrightarrow> returns (adds n t) r"
  by (erule returns_mono) (simp add: adds_def)

lemma more_slice: "(\<And>data. returns Q (f data)) \<Longrightarrow> returns Q (andthen (slice_bytes c t) f)"
  by (cases "slice_bytes c t") simp_all

lemma more_flight: "adds 1 t (t\<lparr>dst_flight := dst_flight t @ [c]\<rparr>)"
  by (simp add: adds_def vars_def)

lemma more_asynch_write: "returns (adds 1 t) (asynch_write g c t)"
proof (cases "rw_ops (dst t)")
  case FILE_OPS
  have "returns (adds (0 + 0) t) (andthen (file_synch_write g data (cmd_offset c) t) (finished_command 0 c))" for data
    by (rule returns_then [OF more_file_synch_write more_finished_command])
  then have "returns (adds 1 t) (andthen (file_synch_write g data (cmd_offset c) t) (finished_command 0 c))" for data
    by (rule returns_mono) (simp add: adds_def)
  then show ?thesis using FILE_OPS by (simp add: asynch_write_def file_asynch_write_def more_slice)
next
  case NBD_OPS
  then show ?thesis
    unfolding asynch_write_def nbd_ops_asynch_write_def
    by (auto intro!: more_slice returns_then0 [OF more_nbd_call] more_flight simp del: One_nat_def)
next
  case NULL_OPS
  then show ?thesis
    by (simp add: asynch_write_def null_asynch_write_def returns_more0 [OF more_finished_command])
qed (simp add: asynch_write_def)

lemma more_flagged: "returns (adds n t) r \<Longrightarrow> returns (adds2 n t) (andthen r (\<lambda>t. Ret (b, t)))"
  by (erule returns_andthen) simp

lemma more2_mono: "returns (adds2 n t) r \<Longrightarrow> n \<le> m \<Longrightarrow> returns (adds2 m t) r"
  by (erule returns_mono) (rule more_mono)

lemma more_asynch_zero: "returns (adds2 1 t) (asynch_zero g c alloc t)"
proof (cases "rw_ops (dst t)")
  case FILE_OPS
  have "returns (adds2 0 t) (file_asynch_zero g c alloc t)"
    unfolding file_asynch_zero_def
    by (auto intro!: returns_then2 [OF more_file_synch_zero] more_flagged more_finished_command)
  then show ?thesis using FILE_OPS more2_mono [of 0 t _ 1] by (simp add: asynch_zero_def)
next
  case NBD_OPS
  have "returns (adds2 1 t) (andthen (nbd_call g t) (\<lambda>t. Ret (True, t\<lparr>dst_flight := dst_flight t @ [c]\<rparr>)))"
    by (rule returns_andthen [OF more_nbd_call]) (simp add: adds_def vars_def)
  then show ?thesis using NBD_OPS by (simp add: asynch_zero_def nbd_ops_asynch_zero_def)
next
  case NULL_OPS
  then show ?thesis
    by (simp add: asynch_zero_def null_asynch_zero_def more_flagged [OF returns_more0 [OF more_finished_command]])
qed (simp add: asynch_zero_def)

lemma more_synch_write: "returns (adds 0 t) (synch_write g data off t)"
proof -
  have "returns (adds 0 t) (nbd_ops_synch_write g data off t)"
    unfolding nbd_ops_synch_write_def by (rule returns_then0 [OF more_nbd_call]) simp
  then show ?thesis by (simp add: synch_write_def pipe_synch_write_def more_file_synch_write split: rw_kind.splits)
qed

lemma more_write_zeroes: "returns (adds 0 t) (write_zeroes g n off count t)"
proof (induction g n off count t rule: write_zeroes.induct)
  case (1 g n off count t)
  show ?case
  proof (cases "count = 0 \<or> n = 0")
    case False
    let ?len = "if count > n then n else count"
    have "returns (adds 0 u) (write_zeroes g n (off + ?len) (count - ?len) u)" for u by (rule "1.IH" [OF False refl])
    then show ?thesis
      unfolding write_zeroes.simps [of g n off count t] if_not_P [OF False] Let_def
      by (rule returns_then0 [OF more_synch_write])
  qed (auto simp: write_zeroes.simps [of g n off count t])
qed

lemma more_fill_dst_range: "returns (adds 1 t) (fill_dst_range_with_zeroes g c t)"
proof (cases "cfg_target_is_zero g")
  case True
  then show ?thesis
    by (simp add: fill_dst_range_with_zeroes_def returns_more0 [OF more_free_command])
next
  case False
  let ?rest = "\<lambda>(ok, t). if ok then Ret t else andthen (allocate g t) (\<lambda>t.
    andthen (write_zeroes g (min (cfg_request_size g) (cmd_len c)) (cmd_offset c) (cmd_len c) t) (free_command c))"
  have "returns (adds 1 t) (andthen (asynch_zero g c (cfg_allocated g) t) ?rest)"
  proof (rule returns_andthen [OF more_asynch_zero])
    fix x assume x: "adds2 1 t (x :: bool \<times> thread)"
    have "returns (adds 0 (snd x)) (?rest x)"
      by (auto simp: split_beta intro!: returns_then0 [OF more_allocate] returns_then0 [OF more_write_zeroes] more_free_command)
    then show "returns (adds 1 t) (?rest x)" using more_trans [OF x] by (auto intro: returns_mono)
  qed
  then show ?thesis using False by (simp add: fill_dst_range_with_zeroes_def)
qed

lemma more_create_subcommand: "returns (adds2 0 t) (create_subcommand g c off len zero t)"
  unfolding create_subcommand_def Let_def
  by (auto intro!: returns_andthen [OF more_allocate] split: option.splits) (auto simp: adds_def vars_def)

lemma more_create_command: "returns (adds2 0 t) (create_command g off len zero t)"
  unfolding create_command_def create_buffer_def
  by (auto intro!: returns_andthen [OF more_allocate] split: option.splits simp: andthen_assoc) (auto simp: adds_def vars_def)

lemma returns_then_second:
  assumes "returns (adds2 0 t) r" "\<And>b u. returns (adds m u) (f (b, u))"
  shows "returns (adds m t) (andthen r f)"
proof (rule returns_andthen [OF assms(1)])
  fix x assume "adds2 0 t (x :: 'a \<times> thread)"
  moreover obtain b u where "x = (b, u)" by (rule prod.exhaust)
  ultimately show "returns (adds m t) (f x)"
    using assms(2) [of u b] more_trans [of 0 t u m] by (auto intro: returns_mono)
qed

lemma more_sub: "returns (adds 1 t) (sub_write g c lo hi t)" "returns (adds 1 t) (sub_zero g c lo hi t)"
  unfolding sub_write_def sub_zero_def
  by (rule returns_then_second [OF more_create_subcommand], simp add: more_asynch_write del: One_nat_def)
     (rule returns_then_second [OF more_create_subcommand], simp add: returns_then0 [OF more_decrease] more_fill_dst_range del: One_nat_def)

lemma returns_more1: "returns (adds 1 t) r \<Longrightarrow> returns (adds n t) (if n > 0 then r else Ret t)"
  by (auto simp: adds_def elim!: returns_mono)

text \<open>
  Each command of a finished read brings something of the range that was read, so that there are at most as many as there
  are bytes.
\<close>

definition loop_adds :: "nat \<Rightarrow> nat \<Rightarrow> thread \<Rightarrow> nat \<times> nat \<times> bool \<times> thread \<Rightarrow> bool" where
  "loop_adds fin lo t r = (case r of (i, lo', z, t') \<Rightarrow> lo \<le> lo' \<and> lo' \<le> i \<and> i \<le> fin \<and> adds (lo' - lo) t t')"

lemma loop_adds_step:
  assumes "adds n t u" "lo + n \<le> lo'" "returns (loop_adds fin lo' u) r"
  shows "returns (loop_adds fin lo t) r"
  by (rule returns_mono [OF assms(3)]) (use assms(1,2) in \<open>auto simp: loop_adds_def adds_def\<close>)

lemma sparse_loop_adds:
  "lo \<le> i \<Longrightarrow> i \<le> fin \<Longrightarrow> returns (loop_adds fin lo t) (sparse_loop g c data fin i lo z t)"
proof (induction g c data fin i lo z t rule: sparse_loop.induct)
  case (1 g c data fin i lo z t)
  let ?n = "cfg_sparse_size g"
  have cont: "returns (loop_adds fin lo t) (andthen (if i - lo > 0 then r else Ret t) f)"
    if "returns (adds 1 t) r" "\<And>u. returns (loop_adds fin i u) (f u)" for r f
    by (rule returns_andthen [OF returns_more1 [OF that(1)]]) (use loop_adds_step [OF _ _ that(2)] "1.prems" in simp)
  show ?case
  proof (cases "0 < ?n \<and> i + ?n \<le> fin")
    case False
    then show ?thesis using "1.prems" unfolding sparse_loop.simps [of g c data fin i lo z t] if_not_P [OF False]
      by (simp add: loop_adds_def)
  next
    case True
    have b: "lo \<le> i + ?n" "i \<le> i + ?n" "i + ?n \<le> fin" using True "1.prems" by auto
    note IH = "1.IH"(1) [OF True _ _ b(2,3)] "1.IH"(2) [OF True _ _ b(1,3)] "1.IH"(3) [OF True _ _ b(2,3)] "1.IH"(4) [OF True _ _ b(1,3)]
    show ?thesis
      unfolding sparse_loop.simps [of g c data fin i lo z t] if_P [OF True]
      using IH more_sub cont by (auto simp del: One_nat_def split: if_splits)
  qed
qed

lemma finished_read_adds:
  assumes "cfg_ok g" "cmd_offset c + cmd_len c \<le> src_size g" "0 < cmd_len c"
  shows "returns (adds (cmd_len c) t) (finished_read g err c t)"
proof (cases "err \<noteq> 0 \<or> cfg_allocated g \<or> cfg_sparse_size g = 0")
  case True
  then show ?thesis
    using returns_mono [OF more_asynch_write, of t "adds (cmd_len c) t" g c] more_mono [of 1 t] assms(3)
    by (auto simp: finished_read_def)
next
  case False
  let ?fin = "cmd_offset c + cmd_len c"
  obtain up where up: "ROUND_UP (of_nat (cmd_offset c)) (of_nat (cfg_sparse_size g)) = Some up" "cmd_offset c \<le> unat up"
    using round_up_start [OF assms(1), of "cmd_offset c"] assms(2) False by auto
  have tail: "returns (adds (cmd_len c) t) (case r of (i, lo, z, t) \<Rightarrow>
      andthen (if i - lo > 0 then if \<not> z then sub_write g c lo i t else sub_zero g c lo i t else Ret t) (\<lambda>t.
      andthen (if ?fin - i > 0 then sub_write g c i ?fin t else Ret t) (free_command c)))"
    if r: "loop_adds ?fin (cmd_offset c) t r" for r
  proof -
    obtain i lo z u where i: "r = (i, lo, z, u)" by (cases r)
    have l: "cmd_offset c \<le> lo" "lo \<le> i" "i \<le> ?fin" "adds (lo - cmd_offset c) t u" using r i by (auto simp: loop_adds_def)
    have "returns (adds (i - lo + (?fin - i + 0)) u)
      (andthen (if i - lo > 0 then if \<not> z then sub_write g c lo i u else sub_zero g c lo i u else Ret u) (\<lambda>t.
       andthen (if ?fin - i > 0 then sub_write g c i ?fin t else Ret t) (free_command c)))"
      by (intro returns_then returns_more1 more_free_command) (simp_all add: more_sub del: One_nat_def)
    then show ?thesis
      unfolding i prod.case by (rule returns_mono) (use l in \<open>auto simp: adds_def\<close>)
  qed
  have "cmd_offset c \<le> min (unat up) ?fin" "min (unat up) ?fin \<le> ?fin" using up(2) by auto
  note loop = returns_andthen [OF sparse_loop_adds [OF this] tail]
  have "finished_read g err c t = andthen (slice_bytes c t) (\<lambda>data.
      andthen (sparse_loop g c data ?fin (min (unat up) ?fin) (cmd_offset c) False t) (\<lambda>(i, lo, z, t).
      andthen (if i - lo > 0 then if \<not> z then sub_write g c lo i t else sub_zero g c lo i t else Ret t) (\<lambda>t.
      andthen (if ?fin - i > 0 then sub_write g c i ?fin t else Ret t) (free_command c))))"
    using False up(1) by (simp add: finished_read_def Let_def)
  then show ?thesis using more_slice [OF loop] by simp
qed

lemma more_fill_slice: "returns (adds 0 t) (fill_slice c bs t)"
  by (simp add: fill_slice_def split: option.splits)

section \<open>The work that is left\<close>

definition load :: "thread \<Rightarrow> nat" where
  "load t = sum_list (map (\<lambda>c. cmd_len c + 1) (src_flight t)) + length (dst_flight t)"

definition weight :: "thread \<Rightarrow> nat" where
  "weight t = (case pc t of
       TOP \<Rightarrow> 2
     | EXTENTS \<Rightarrow> 4 + 10 * w_count t
     | LOOP \<Rightarrow> 3 + 10 * w_count t + (if is_zeroing t then 1 else 0)
     | ISSUE c \<Rightarrow> 2 + 10 * w_count t
     | DRAIN \<Rightarrow> 1
     | FINISHED \<Rightarrow> 0) + load t"

definition work :: "copy_cfg \<Rightarrow> thread \<Rightarrow> nat" where
  "work g t = 14 * (src_size g - next_offset t) + weight t"

lemma adds_load: "adds n t u \<Longrightarrow> load u \<le> load t + n"
  by (simp add: adds_def load_def)

lemma adds_vars:
  assumes "adds n t u"
  shows "pc u = pc t" "w_offset u = w_offset t" "w_count u = w_count t" "is_zeroing u = is_zeroing t"
    "zeroing_start u = zeroing_start t" "next_offset u = next_offset t"
  using assms by (simp_all add: adds_def vars_def)

lemma file_synch_read_adds: "returns (adds2 0 t) (file_synch_read g len off t)"
proof (induction g len off t rule: file_synch_read.induct)
  case (1 g len off t)
  show ?case
  proof (cases "len = 0 \<or> env_pread (cfg_env g) (clock t) len off = None")
    case False
    then obtain k where k: "len \<noteq> 0" "env_pread (cfg_env g) (clock t) len off = Some k" by auto
    define data where "data = take (min k len) (drop off (src_bytes g))"
    have "returns (adds2 0 t) (andthen (file_synch_read g (len - length data) (off + length data) (tick t))
        (\<lambda>(rest, t). Ret (data @ rest, t)))" if "data \<noteq> []"
      by (rule returns_andthen [OF "1.IH" [OF k data_def that]]) (auto simp: adds_def vars_def tick_def)
    then show ?thesis
      unfolding file_synch_read.simps [of g len off t] using k by (simp add: Let_def data_def [symmetric])
  qed (auto simp: file_synch_read.simps [of g len off t])
qed

lemma asynch_read_load:
  assumes "cfg_ok g" "cmd_offset c + cmd_len c \<le> src_size g" "0 < cmd_len c"
  shows "returns (\<lambda>u. vars u = vars t \<and> load u \<le> load t + cmd_len c + 1) (asynch_read g c t)"
proof (cases "rw_ops (cfg_src g)")
  case FILE_OPS
  have "returns (adds (cmd_len c) t) (file_asynch_read g c t)"
    unfolding file_asynch_read_def
    by (rule returns_then_second [OF file_synch_read_adds])
       (simp add: returns_then0 [OF more_fill_slice] finished_read_adds [OF assms])
  then show ?thesis
    using FILE_OPS adds_load by (auto simp: asynch_read_def adds_def load_def intro: returns_mono)
next
  case NBD_OPS
  have "returns (\<lambda>u. vars u = vars t \<and> load u \<le> load t + cmd_len c + 1) (nbd_ops_asynch_read g c t)"
    unfolding nbd_ops_asynch_read_def
    by (rule more_slice, rule returns_andthen [OF more_nbd_call]) (auto simp: adds_def vars_def load_def)
  then show ?thesis using NBD_OPS by (simp add: asynch_read_def)
qed (simp_all add: asynch_read_def)

lemma flush_zeroing_load:
  "returns (\<lambda>u. load u \<le> load t + (if is_zeroing t then 1 else 0) \<and> \<not> is_zeroing u \<and> w_count u = w_count t \<and>
     w_offset u = w_offset t \<and> next_offset u = next_offset t) (flush_zeroing g t)"
proof (cases "is_zeroing t")
  case True
  have "returns (adds 1 t) (andthen (create_command g (zeroing_start t) (w_offset t - zeroing_start t) True t)
      (\<lambda>(command, t). fill_dst_range_with_zeroes g command t))"
    by (rule returns_then_second [OF more_create_command]) (simp add: more_fill_dst_range del: One_nat_def)
  then have "returns (\<lambda>u. load u \<le> load t + 1 \<and> \<not> is_zeroing u \<and> w_count u = w_count t \<and> w_offset u = w_offset t \<and>
      next_offset u = next_offset t)
    (andthen (andthen (create_command g (zeroing_start t) (w_offset t - zeroing_start t) True t)
      (\<lambda>(command, t). fill_dst_range_with_zeroes g command t)) (\<lambda>t. Ret (t\<lparr>is_zeroing := False\<rparr>)))"
    by (rule returns_andthen) (auto simp: adds_def vars_def load_def)
  then show ?thesis
    using True by (simp add: flush_zeroing_def andthen_assoc case_prod_unfold del: One_nat_def)
qed (simp add: flush_zeroing_def)


lemma worker_loop_work:
  assumes "cfg_ok g" "pc t = LOOP" "worker_loop g t = Ret t'"
  shows "work g t' < work g t"
proof (cases "w_count t = 0")
  case True
  then obtain u where u: "flush_zeroing g t = Ret u" "t' = u\<lparr>pc := TOP\<rparr>"
    using assms(3) by (cases "flush_zeroing g t") (auto simp: worker_loop_def)
  then show ?thesis
    using flush_zeroing_load [of t g] assms(2) by (auto simp: work_def weight_def load_def split: if_splits)
next
  case False
  define len where "len = min (w_count t) (cfg_request_size g)"
  have len: "0 < len" "len \<le> w_count t" using False cfg_okD(3) [OF assms(1)] by (auto simp: len_def)
  obtain zero i where oz: "only_zeroes (w_exts t) (extent_index t) (w_offset t) len = Ret (zero, i)"
    using assms(3) False by (cases "only_zeroes (w_exts t) (extent_index t) (w_offset t) len") (auto simp: worker_loop_def Let_def len_def)
  show ?thesis
  proof (cases zero)
    case True
    then show ?thesis
      using assms(2,3) False oz len by (auto simp: worker_loop_def Let_def len_def [symmetric] next_block_def work_def weight_def load_def
          split: if_splits)
  next
    case data: False
    let ?t = "t\<lparr>extent_index := i\<rparr>"
    have run: "andthen (flush_zeroing g ?t) (\<lambda>t. andthen (create_command g (w_offset t) len False t)
        (\<lambda>(command, t). Ret (t\<lparr>pc := ISSUE command\<rparr>))) = Ret t'"
      using assms(3) False oz data by (simp add: worker_loop_def Let_def len_def [symmetric])
    then obtain u where u: "flush_zeroing g ?t = Ret u" by (cases "flush_zeroing g ?t") auto
    then obtain c v where v: "create_command g (w_offset u) len False u = Ret (c, v)" "t' = v\<lparr>pc := ISSUE c\<rparr>"
      using run by (cases "create_command g (w_offset u) len False u") auto
    have "adds 0 u v" using more_create_command [of u g "w_offset u" len False] v(1) by simp
    then have "load v \<le> load u" "w_count v = w_count u" "next_offset v = next_offset u" using adds_load adds_vars by fastforce+
    then show ?thesis
      using flush_zeroing_load [of ?t g] u v(2) assms(2) by (auto simp: work_def weight_def load_def split: if_splits)
  qed
qed

lemma worker_step_work:
  assumes "cfg_ok g" "winv g t" "worker_step g t = Some (Ret t')" "src_ok g"
  shows "work g t' < work g t"
proof (cases "pc t")
  case TOP
  show ?thesis
  proof (cases "next_offset t < src_size g")
    case True
    let ?n = "src_size g - next_offset t"
    let ?c = "if ?n > THREAD_WORK_SIZE then THREAD_WORK_SIZE else ?n"
    have c: "0 < ?c" "?c \<le> THREAD_WORK_SIZE" using True by (auto simp: THREAD_WORK_SIZE_def)
    have t': "t' = t\<lparr>next_offset := next_offset t + THREAD_WORK_SIZE, w_offset := next_offset t, w_count := ?c, pc := EXTENTS\<rparr>"
      using assms(3) TOP True c by (simp add: worker_step_def get_next_offset_def Let_def must_def)
    have "src_size g - next_offset t = src_size g - (next_offset t + THREAD_WORK_SIZE) + ?c" by auto
    then show ?thesis using TOP c unfolding t' by (simp add: work_def weight_def load_def)
  qed (use assms(3) TOP in \<open>auto simp: worker_step_def get_next_offset_def work_def weight_def load_def\<close>)
next
  case EXTENTS
  let ?e = "if cfg_extents g then get_extents g (w_offset t) (w_count t) t else default_get_extents g (w_offset t) (w_count t) t"
  obtain exts u where e: "?e = Ret (exts, u)" "t' = u\<lparr>w_exts := exts, extent_index := 0, is_zeroing := False, pc := LOOP\<rparr>"
    using assms(3) EXTENTS by (cases ?e) (auto simp: worker_step_def split: if_splits)
  have "w_offset t + w_count t \<le> src_size g" "0 < w_count t" using assms(2) EXTENTS by (simp_all add: winv_def place_ok_def)
  from worker_extents_ok [OF assms(4) this, of t] e(1) obtain k where "u = t\<lparr>clock := k\<rparr>" by (auto simp: extents_post_def)
  then show ?thesis using EXTENTS e(2) by (simp add: work_def weight_def load_def)
next
  case LOOP
  then show ?thesis using worker_loop_work [OF assms(1)] assms(3) by (simp add: worker_step_def)
next
  case (ISSUE c)
  have c: "0 < w_count t" "cmd_len c = min (w_count t) (cfg_request_size g)" "\<not> is_zeroing t" "cmd_offset c + cmd_len c \<le> src_size g" "0 < cmd_len c"
    using assms(2) ISSUE by (auto simp: winv_def place_ok_def tinv_def reads_def held_def read_ok_def)
  let ?t = "t\<lparr>wqueue_size := wqueue_size t + cmd_len c, pc := LOOP\<rparr>"
  obtain u where u: "asynch_read g c ?t = Ret u" "t' = next_block (cmd_len c) u"
    using assms(3) ISSUE by (cases "asynch_read g c ?t") (auto simp: worker_step_def worker_issue_def increase_queue_size_def must_def split: if_splits)
  have "vars u = vars ?t" "load u \<le> load t + cmd_len c + 1"
    using asynch_read_load [OF assms(1) c(4,5), of ?t] u(1) by (auto simp: load_def)
  then show ?thesis
    using c ISSUE unfolding u(2) by (auto simp: next_block_def work_def weight_def load_def vars_def)
next
  case DRAIN
  then show ?thesis using assms(3) by (auto simp: worker_step_def work_def weight_def load_def split: if_splits)
next
  case FINISHED
  then show ?thesis using assms(3) by (simp add: worker_step_def)
qed

lemma load_remove:
  "n < length cs \<Longrightarrow> sum_list (map (\<lambda>c. cmd_len c + 1) (take n cs @ drop (n + 1) cs)) + cmd_len (cs ! n) + 1 =
     sum_list (map (\<lambda>c. cmd_len c + 1) (cs :: copy_command list))"
  using sum_remove [of n cs "\<lambda>c. cmd_len c + 1"] by simp

lemma complete_read_work:
  assumes "cfg_ok g" "winv g t" "n < length (src_flight t)" "complete_read g n err t = Ret t'"
  shows "work g t' < work g t"
proof -
  let ?c = "src_flight t ! n"
  let ?t = "t\<lparr>src_flight := take n (src_flight t) @ drop (n + 1) (src_flight t)\<rparr>"
  have "?c \<in> set (src_flight t)" using assms(3) by simp
  then have c: "cmd_offset ?c + cmd_len ?c \<le> src_size g" "0 < cmd_len ?c"
    using assms(2) by (auto simp: winv_def tinv_def reads_def read_ok_def)
  have "returns (adds (0 + cmd_len ?c) ?t) (complete_read g n err t)"
    unfolding complete_read_def Let_def
    by (rule returns_then) (simp_all add: more_fill_slice finished_read_adds [OF assms(1) c])
  then have a: "adds (cmd_len ?c) ?t t'" using assms(4) by simp
  have "load ?t + cmd_len ?c + 1 = load t" using load_remove [OF assms(3)] by (simp add: load_def)
  then have "load t' < load t" using adds_load [OF a] by simp
  then show ?thesis using adds_vars [OF a] by (auto simp: work_def weight_def split: worker_pc.splits)
qed

lemma complete_write_work:
  assumes "n < length (dst_flight t)" "complete_write g n err t = Ret t'"
  shows "work g t' < work g t"
proof -
  let ?c = "dst_flight t ! n"
  let ?t = "t\<lparr>dst_flight := take n (dst_flight t) @ drop (n + 1) (dst_flight t)\<rparr>"
  have "returns (adds 0 ?t) (complete_write g n err t)"
    unfolding complete_write_def Let_def
    by (rule returns_then0 [OF _ more_finished_command]) (auto intro!: more_slice)
  then have a: "adds 0 ?t t'" using assms(2) by simp
  have "load ?t + 1 = load t" using assms(1) by (simp add: load_def)
  then have "load t' < load t" using adds_load [OF a] by simp
  then show ?thesis using adds_vars [OF a] by (auto simp: work_def weight_def split: worker_pc.splits)
qed

section \<open>All threads\<close>

definition total :: "copy_cfg \<Rightarrow> copy \<Rightarrow> nat" where
  "total g s = 14 * (src_size g - g_next s) + sum_list (map weight (g_threads s))"

lemma weight_activate: "weight (activate s k) = weight (g_threads s ! k)"
  by (simp add: activate_def weight_def load_def split: worker_pc.splits)

lemma total_deactivate:
  assumes "k < length (g_threads s)" "work g t < work g (activate s k)"
  shows "total g (deactivate k s t) < total g s"
proof -
  have "sum_list (map weight ((g_threads s)[k := t])) + weight (g_threads s ! k) = sum_list (map weight (g_threads s)) + weight t"
    using assms(1) elem_le_sum_list [of k "map weight (g_threads s)"]
    by (simp add: map_update sum_list_update)
  then show ?thesis using assms(2) by (simp add: total_def deactivate_def work_def weight_activate)
qed

lemma copy_step_total:
  assumes "cfg_ok g" "src_ok g" "ginv g d s" "copy_step g s o1" "o1 = Ret s'"
  shows "total g s' < total g s"
  using assms(4)
proof cases
  case (run k r)
  then obtain t where t: "r = Ret t" "s' = deactivate k s t" using assms(5) by (cases r) auto
  have "work g t < work g (activate s k)"
    using worker_step_work [OF assms(1) _ _ assms(2)] assms(3) run t by (simp add: ginv_def)
  then show ?thesis using total_deactivate run t by simp
next
  case (read_done k n err)
  then obtain t where t: "complete_read g n err (activate s k) = Ret t" "s' = deactivate k s t"
    using assms(5) by (cases "complete_read g n err (activate s k)") auto
  have "work g t < work g (activate s k)"
    using complete_read_work [OF assms(1) _ _ t(1)] assms(3) read_done by (simp add: ginv_def)
  then show ?thesis using total_deactivate read_done t by simp
next
  case (write_done k n err)
  then obtain t where t: "complete_write g n err (activate s k) = Ret t" "s' = deactivate k s t"
    using assms(5) by (cases "complete_write g n err (activate s k)") auto
  have "work g t < work g (activate s k)" using complete_write_work [OF _ t(1)] write_done by simp
  then show ?thesis using total_deactivate write_done t by simp
qed

lemma worker_waits:
  assumes "cfg_ok g" "winv g t" "pc t \<noteq> FINISHED" "worker_step g t = None"
  shows "src_flight t \<noteq> [] \<or> dst_flight t \<noteq> []"
proof (rule ccontr)
  assume "\<not> ?thesis"
  then have e: "src_flight t = []" "dst_flight t = []" by auto
  then have "in_flight t = 0" "wqueue_size t = 0" using assms(2) by (auto simp: in_flight_def winv_def tinv_def charged_def)
  then show False
    using assms by (cases "pc t") (auto simp: worker_step_def worker_issue_def cfg_ok_def)
qed

lemma not_stuck:
  assumes "cfg_ok g" "ginv g d s" "\<not> all_finished s"
  shows "\<exists>o1. copy_step g s o1"
proof -
  obtain k where k: "k < length (g_threads s)" "pc (g_threads s ! k) \<noteq> FINISHED"
    using assms(3) by (auto simp: all_finished_def list_all_length)
  have w: "winv g (activate s k)" using assms(2) k(1) by (simp add: ginv_def)
  show ?thesis
  proof (cases "worker_step g (activate s k)")
    case (Some r)
    then show ?thesis using copy_step.run k(1) by blast
  next
    case None
    then have "0 < length (src_flight (activate s k)) \<or> 0 < length (dst_flight (activate s k))"
      using worker_waits [OF assms(1) w] k(2) by auto
    then show ?thesis using copy_step.read_done [OF k(1)] copy_step.write_done [OF k(1)] by blast
  qed
qed

text \<open>
  C10. Copying ends: every run of the threads comes to an end, however they are scheduled and in whatever order commands are completed,
  and a run that has not failed stops only when all threads have ended. A thread never waits in \<^verbatim>\<open>poll_both_ends\<close> with nothing
  in flight.
\<close>

theorem copy_ends:
  assumes "cfg_ok g" "src_ok g" "dst_ok g d" "0 < cfg_threads g" "cfg_threads g = cfg_connections g"
  shows "(\<nexists>run. Ret (run 0) = multi_thread_copying g d \<and> (\<forall>n. copy_step g (run n) (Ret (run (Suc n))))) \<and>
    (\<forall>s. copy_reach g (multi_thread_copying g d) (Ret s) \<longrightarrow> all_finished s \<or> (\<exists>r. copy_step g s r))"
proof (intro conjI notI allI impI)
  fix s assume "copy_reach g (multi_thread_copying g d) (Ret s)"
  then have "ginv g d s" using reach_safe [OF assms] by fastforce
  then show "all_finished s \<or> (\<exists>r. copy_step g s r)" using not_stuck [OF assms(1)] by blast
next
  assume "\<exists>run. Ret (run 0) = multi_thread_copying g d \<and> (\<forall>n. copy_step g (run n) (Ret (run (Suc n))))"
  then obtain run where run: "Ret (run 0) = multi_thread_copying g d" "\<And>n. copy_step g (run n) (Ret (run (Suc n)))" by blast
  have "copy_reach g (multi_thread_copying g d) (Ret (run n))" for n
  proof (induction n)
    case 0
    show ?case unfolding run(1) by (rule copy_reach.start)
  next
    case (Suc n)
    show ?case by (rule copy_reach.more [OF Suc run(2)])
  qed
  then have "ginv g d (run n)" for n using reach_safe [OF assms, of "Ret (run n)"] by simp
  then have "total g (run (Suc n)) < total g (run n)" for n using copy_step_total [OF assms(1,2) _ run(2)] by blast
  then show False using wf_no_infinite_down_chainE [OF wf_measure [of "total g"], of run] by (auto simp: in_measure)
qed

theorem copy_ends_witness:
  "\<not> (\<exists>run. Ret (run 0) = multi_thread_copying example_cfg example_dst \<and>
      (\<forall>n. copy_step example_cfg (run n) (Ret (run (Suc n))))) \<and> (\<exists>r. copy_step example_cfg example_start r)"
proof -
  have start: "multi_thread_copying example_cfg example_dst = Ret example_start"
    by (simp add: multi_thread_copying_def must_def example_start_def example_cfg_def example_rw_def)
  then have reach: "copy_reach example_cfg (multi_thread_copying example_cfg example_dst) (Ret example_start)"
    using copy_reach.start by metis
  have "\<not> all_finished example_start" by (simp add: all_finished_def example_start_def start_thread_def)
  moreover have "0 < cfg_threads example_cfg" "cfg_threads example_cfg = cfg_connections example_cfg" by (simp_all add: example_cfg_def)
  ultimately show ?thesis
    using copy_ends [OF example_cfg_ok(1) example_src_ok example_cfg_ok(2)] reach by blast
qed

end
