(* ===== verification/NBD_Copy_Main.thy ===== *)
theory NBD_Copy_Main
  imports NBD_Copy_Ends
begin

text \<open>
  The copy with a single thread, what the main program makes of its options, and the program from its options to the end of
  the copy.
\<close>

section \<open>Copying with one thread\<close>

text \<open>The dispatch on the kind of the destination keeps the contract of its operations.\<close>

interpretation any_synch: synch_ops g kind "synch_write g" "synch_zero g" for g kind
proof
  fix t :: thread and off len :: nat
  assume a: "cfg_ok g" "dst_ok g (dst t)" "rw_ops (dst t) = kind" "off + len \<le> src_size g"
  show "safe (only_dst g {off ..< off + len} t) (synch_write g (src_range g off len) off t)"
    by (rule synch_write_src [OF a(1,2,4)])
  assume z: "src_zero g off len"
  show "safe (zeroing g off len t) (synch_zero g off len alloc t)" for alloc
    using file_synch.zero_right [of g t off len alloc] nbd_synch.zero_right [of g t off len alloc]
      null_synch.zero_right [of g t off len] a z
    by (cases "rw_ops (dst t)") (auto simp: synch_zero_def dst_ok_def)
qed

lemma synch_zero_extent_src:
  assumes "cfg_ok g" "dst_ok g (dst t)" "off + len \<le> src_size g" "src_zero g off len"
  shows "safe (only_dst g {off ..< off + len} t) (synch_zero_extent g off len t)"
  unfolding synch_zero_extent_def by (rule any_synch.zero_twice_or_write [OF assms(1,2) refl assms(3,4)])

lemma synch_read_src:
  assumes "cfg_ok g" "src_ok g" "off + len \<le> src_size g"
  shows "safe (\<lambda>r. \<exists>k. r = (src_range g off len, t\<lparr>clock := k\<rparr>)) (synch_read g len off t)"
proof (cases "rw_ops (cfg_src g)")
  case FILE_OPS
  then show ?thesis
    using file_synch_read_src [OF assms(1) _ assms(3), of t] assms(2) by (simp add: synch_read_def src_ok_def)
next
  case NBD_OPS
  have "len \<le> nat (rw_size (cfg_src g)) - off" using assms(3) by (simp add: src_size_def)
  then have "safe (\<lambda>r. \<exists>k. r = (src_range g off len, t\<lparr>clock := k\<rparr>)) (nbd_ops_synch_read g len off t)"
    by (auto simp: nbd_ops_synch_read_def Let_def src_range_def nbd_call_def tick_def not_less intro: exI [of _ "clock t"])
  then show ?thesis using NBD_OPS by (simp add: synch_read_def)
qed (use assms(2) in \<open>simp_all add: src_ok_def\<close>)

definition copied :: "copy_cfg \<Rightarrow> nat \<Rightarrow> nat \<Rightarrow> thread \<Rightarrow> nat \<times> thread \<Rightarrow> bool" where
  "copied g off fin t r \<longleftrightarrow> fst r = fin \<and> only_dst g {off ..< fin} t (snd r)"

lemma synch_extents_src:
  assumes cfg: "cfg_ok g" and src: "src_ok g"
  shows "covers off c exts \<Longrightarrow> c \<le> count \<Longrightarrow> extents_true g exts \<Longrightarrow> dst_ok g (dst t) \<Longrightarrow> off + c \<le> src_size g \<Longrightarrow>
    safe (copied g off (off + c) t) (synch_extents g count exts off t)"
proof (induction exts arbitrary: off c t)
  case Nil
  then show ?case by (simp add: copied_def)
next
  case (Cons e exts)
  let ?len = "ext_length e"
  have e: "ext_offset e = off" "0 < ?len" "?len \<le> c" "covers (off + ?len) (c - ?len) exts" "?len \<le> count"
    "extents_true g exts" "ext_zero e \<longrightarrow> src_zero g off ?len"
    using Cons.prems by auto
  have rest: "safe (copied g off (off + c) t) (synch_extents g count exts (off + ?len) u)"
    if u: "only_dst g {off ..< off + ?len} t u" for u
  proof -
    have "safe (copied g (off + ?len) (off + ?len + (c - ?len)) u) (synch_extents g count exts (off + ?len) u)"
      using Cons.prems e only_dst_ok [OF u] by (intro Cons.IH) auto
    then show ?thesis
      by (rule safe_mono) (use e u Cons.prems only_dst_join [OF u] in \<open>auto simp: copied_def\<close>)
  qed
  show ?case
  proof (cases "ext_zero e")
    case True
    have "safe (only_dst g {off ..< off + ?len} t) (synch_zero_extent g off ?len t)"
      using Cons.prems e True by (intro synch_zero_extent_src [OF cfg]) auto
    then have "safe (copied g off (off + c) t) (andthen (synch_zero_extent g off ?len t) (synch_extents g count exts (off + ?len)))"
      by (rule safe_andthen) (rule rest)
    then show ?thesis using e True by simp
  next
    case False
    have le: "off + ?len \<le> src_size g" using Cons.prems e by simp
    note l = length_src_range [OF cfg le]
    have w: "safe (only_dst g {off ..< off + ?len} t) (synch_write g (src_range g off ?len) off (t\<lparr>clock := k\<rparr>))" for k
      by (rule safe_mono [OF synch_write_src [OF cfg _ le]]) (use Cons.prems only_dst_after_clock in auto)
    have "safe (copied g off (off + c) t) (andthen (synch_read g ?len off t) (\<lambda>(data, t).
        if data = [] \<or> length data < ?len then Ends EXIT_FAILURE
        else andthen (synch_write g data off t) (synch_extents g count exts (off + length data))))"
      by (rule safe_andthen [OF synch_read_src [OF cfg src le]]) (use l e(2) in \<open>auto intro!: safe_andthen [OF w] rest\<close>)
    then show ?thesis using e(5) False by simp
  qed
qed

lemma synch_blocks_src:
  assumes cfg: "cfg_ok g" and src: "src_ok g"
  shows "src_size g - off \<le> n \<Longrightarrow> off \<le> src_size g \<Longrightarrow> dst_ok g (dst t) \<Longrightarrow>
    safe (only_dst g {off ..< src_size g} t) (synch_blocks n g off t)"
proof (induction n arbitrary: off t)
  case 0
  then show ?case by simp
next
  case (Suc n)
  show ?case
  proof (cases "off < src_size g")
    case False
    then show ?thesis using Suc.prems by simp
  next
    case True
    define count where "count = (if src_size g - off > cfg_request_size g then cfg_request_size g else src_size g - off)"
    have c: "0 < count" "off + count \<le> src_size g" using True cfg_okD(3) [OF cfg] by (auto simp: count_def)
    have step: "safe (only_dst g {off ..< src_size g} t)
        (andthen (synch_extents g count exts off (t\<lparr>clock := k\<rparr>)) (\<lambda>(off, t). synch_blocks n g off t))"
      if x: "covers off count exts" "extents_true g exts" for exts k
    proof -
      have "safe (copied g off (off + count) (t\<lparr>clock := k\<rparr>)) (synch_extents g count exts off (t\<lparr>clock := k\<rparr>))"
        using x Suc.prems c by (intro synch_extents_src [OF cfg src]) auto
      then show ?thesis
      proof (rule safe_andthen)
        fix r assume "copied g off (off + count) (t\<lparr>clock := k\<rparr>) r"
        then obtain u where r: "r = (off + count, u)" "only_dst g {off ..< off + count} t u"
          using only_dst_after_clock by (cases r) (auto simp: copied_def)
        have "safe (only_dst g {off + count ..< src_size g} u) (synch_blocks n g (off + count) u)"
          using Suc.prems c only_dst_ok [OF r(2)] by (intro Suc.IH) auto
        then show "safe (only_dst g {off ..< src_size g} t) (case r of (off, t) \<Rightarrow> synch_blocks n g off t)"
          unfolding r(1) prod.case by (rule safe_mono) (use r(2) c Suc.prems only_dst_join in auto)
      qed
    qed
    have ex: "safe (extents_post g off count [] t) (if cfg_extents g then get_extents g off count t else default_get_extents g off count t)"
      by (rule worker_extents_ok [OF src c(2,1)])
    have "safe (only_dst g {off ..< src_size g} t)
        (andthen (if cfg_extents g then get_extents g off count t else default_get_extents g off count t) (\<lambda>(exts, t).
         andthen (synch_extents g count exts off t) (\<lambda>(off, t). synch_blocks n g off t)))"
      by (rule safe_andthen [OF ex]) (use step in \<open>auto simp: extents_post_def\<close>)
    then show ?thesis using True by (simp add: Let_def count_def [symmetric])
  qed
qed

lemma synch_copying_safe:
  assumes "cfg_ok g" "src_ok g" "dst_ok g (dst t)" "rw_ops (dst t) \<noteq> NULL_OPS"
  shows "synch_copying g t = Ends EXIT_FAILURE \<or>
    (\<exists>t'. synch_copying g t = Ret t' \<and> rw_bytes (dst t') = src_bytes g @ drop (src_size g) (rw_bytes (dst t)))"
proof -
  have "safe (only_dst g {0 ..< src_size g} t) (synch_blocks (src_size g) g 0 (t\<lparr>clock := k\<rparr>))" for k
    by (rule safe_mono [OF synch_blocks_src [OF assms(1,2)]]) (use assms(3) only_dst_after_clock in auto)
  moreover have "rw_size (cfg_src g) \<noteq> -1" using assms(1) by (auto simp: cfg_ok_def)
  ultimately have s: "safe (only_dst g {0 ..< src_size g} t) (synch_copying g t)"
    unfolding synch_copying_def
    by (auto intro!: safe_andthen [OF safe_allocate [of "\<lambda>u. \<exists>k. u = t\<lparr>clock := k\<rparr>"]])
  have "rw_bytes (dst t') = src_bytes g @ drop (src_size g) (rw_bytes (dst t))" if "only_dst g {0 ..< src_size g} t t'" for t'
  proof -
    have tw: "towards g {..< src_size g} (dst t) (dst t')" using that by (auto simp: only_dst_def atLeast0LessThan)
    show ?thesis using towards_all(1) [OF tw assms(3,1,4)] towards_rest [OF tw] by simp
  qed
  then show ?thesis using s by (cases "synch_copying g t") auto
qed

text \<open>
  The single-threaded copy of a source of known size is right as well: it returns with the bytes of the source at the destination and
  the rest unchanged, or exits with a failure; it never aborts, and its loops end.
\<close>

theorem synch_copy_right:
  assumes "cfg_ok g" "src_ok g" "dst_ok g (dst t)" "rw_ops (dst t) \<noteq> NULL_OPS"
  shows "synch_copying g t = Ends EXIT_FAILURE \<or>
    (\<exists>t'. synch_copying g t = Ret t' \<and> rw_bytes (dst t') = src_bytes g @ drop (src_size g) (rw_bytes (dst t)))"
  by (rule synch_copying_safe [OF assms])

lemma example_synch: "case synch_copying example_cfg (start_thread example_dst) of Ret t \<Rightarrow> True | Ends e \<Rightarrow> False"
  by code_simp

theorem synch_copy_right_witness:
  "\<exists>t. synch_copying example_cfg (start_thread example_dst) = Ret t \<and> rw_bytes (dst t) = [1, 2, 0, 0, 5, 6, 7, 8, 0, 0, 0, 0, 9, 9]"
proof -
  have "dst (start_thread example_dst) = example_dst" by (simp add: start_thread_def)
  then obtain t where t: "synch_copying example_cfg (start_thread example_dst) = Ret t"
      "rw_bytes (dst t) = src_bytes example_cfg @ drop (src_size example_cfg) (rw_bytes example_dst)"
    using synch_copy_right [OF example_cfg_ok(1) example_src_ok, of "start_thread example_dst"] example_cfg_ok(2,3) example_synch
    by auto
  then show ?thesis by (auto simp: example_cfg_def example_rw_def example_dst_def src_size_def numeral_eq_Suc)
qed

section \<open>Streams\<close>

lemma pipe_write_appends:
  "rw_ops (dst t) = PIPE_OPS \<Longrightarrow> file_synch_write g data (length (rw_bytes (dst t))) t = Ret t' \<Longrightarrow>
   rw_bytes (dst t') = rw_bytes (dst t) @ data \<and> rw_ops (dst t') = PIPE_OPS"
proof (induction "length data" arbitrary: data t rule: less_induct)
  case less
  show ?case
  proof (cases "data = []")
    case True
    then show ?thesis using less.prems by (simp add: file_synch_write.simps)
  next
    case False
    then obtain k where k: "env_pwrite (cfg_env g) (clock t) (length data) (length (rw_bytes (dst t))) = Some k"
      using less.prems(2) by (cases "env_pwrite (cfg_env g) (clock t) (length data) (length (rw_bytes (dst t)))")
        (simp_all add: file_synch_write.simps [of g data])
    define r where "r = min (Suc k) (length data)"
    let ?u = "tick (put_dst (length (rw_bytes (dst t))) (take r data) t)"
    have u: "rw_bytes (dst ?u) = rw_bytes (dst t) @ take r data" "rw_ops (dst ?u) = PIPE_OPS"
      using less.prems(1) by (simp_all add: tick_def put_dst_def put_bytes_def)
    have r: "0 < r" "r \<le> length data" using False by (auto simp: r_def)
    then have run: "file_synch_write g (drop r data) (length (rw_bytes (dst ?u))) ?u = Ret t'"
      using less.prems(2) False k u(1) unfolding file_synch_write.simps [of g data] by (simp add: Let_def r_def [symmetric])
    have "length (drop r data) < length data" using r by simp
    from less.hyps [OF this u(2) run] have "rw_bytes (dst t') = rw_bytes (dst ?u) @ drop r data \<and> rw_ops (dst t') = PIPE_OPS" .
    then show ?thesis using u(1) by simp
  qed
qed

lemma pipe_write_ends: "file_synch_write g data off t = Ends e \<Longrightarrow> e = EXIT_FAILURE"
proof (induction g data off t rule: file_synch_write.induct)
  case (1 g data off t)
  then show ?case
    by (cases "data = []"; cases "env_pwrite (cfg_env g) (clock t) (length data) off")
       (auto simp: file_synch_write.simps [of g data] file_synch_write.simps [of g "[]"] Let_def)
qed

text \<open>
  C23. A stream is passed on whole: copying from a pipe to a pipe puts exactly the bytes that come out of the one into the other, in
  order, however reads and writes are cut short, or exits with a failure.
\<close>

theorem stream_passed_on:
  assumes "rw_ops (cfg_src g) = PIPE_OPS" "rw_size (cfg_src g) = -1" "rw_ops (dst t) = PIPE_OPS" "0 < cfg_request_size g"
    and "\<forall>time len off k. env_pread (cfg_env g) time len off = Some k \<longrightarrow> 0 < k"
  shows "synch_copying g t = Ends EXIT_FAILURE \<or>
    (\<exists>t'. synch_copying g t = Ret t' \<and> rw_bytes (dst t') = rw_bytes (dst t) @ src_bytes g)"
proof -
  have loop: "synch_stream n g off t = Ends EXIT_FAILURE \<or>
      (\<exists>t'. synch_stream n g off t = Ret t' \<and> rw_bytes (dst t') = rw_bytes (dst t) @ drop off (src_bytes g))"
    if "rw_ops (dst t) = PIPE_OPS" "length (src_bytes g) - off < n" for n off t
    using that
  proof (induction n arbitrary: off t)
    case (Suc n)
    show ?case
    proof (cases "env_pread (cfg_env g) (clock t) (cfg_request_size g) off")
      case None
      then show ?thesis using assms(1) by (simp add: synch_read_def pipe_synch_read_def)
    next
      case (Some k)
      define data where "data = take (min k (cfg_request_size g)) (drop off (src_bytes g))"
      have rd: "synch_read g (cfg_request_size g) off t = Ret (data, tick t)"
        using Some assms(1) by (simp add: synch_read_def pipe_synch_read_def data_def)
      have k: "0 < k" using assms(5) Some by blast
      show ?thesis
      proof (cases "data = []")
        case True
        then have "length (src_bytes g) \<le> off" using k assms(4) by (auto simp: data_def min_def split: if_splits)
        then show ?thesis using True rd by (simp add: tick_def)
      next
        case False
        have tt: "rw_ops (dst (tick t)) = PIPE_OPS" "rw_bytes (dst (tick t)) = rw_bytes (dst t)"
          using Suc.prems(1) by (simp_all add: tick_def)
        show ?thesis
        proof (cases "synch_write g data off (tick t)")
          case (Ends e)
          then show ?thesis using False rd pipe_write_ends tt(1) by (fastforce simp: synch_write_def pipe_synch_write_def)
        next
          case (Ret u)
          then have u: "rw_bytes (dst u) = rw_bytes (dst t) @ data" "rw_ops (dst u) = PIPE_OPS"
            using pipe_write_appends [OF tt(1)] tt by (simp_all add: synch_write_def pipe_synch_write_def)
          have "0 < length data" "off < length (src_bytes g)" using False by (auto simp: data_def)
          then have "length (src_bytes g) - (off + length data) < n" using Suc.prems(2) by linarith
          note ih = Suc.IH [OF u(2) this]
          have td: "take (length data) (drop off (src_bytes g)) = data" by (auto simp: data_def min_def)
          have "data @ drop (off + length data) (src_bytes g) = drop off (src_bytes g)"
            using append_take_drop_id [of "length data" "drop off (src_bytes g)"] td by (simp add: add.commute)
          then show ?thesis using ih False rd Ret u(1) by simp
        qed
      qed
    qed
  qed simp
  have "synch_stream (Suc (length (src_bytes g))) g 0 u = Ends EXIT_FAILURE \<or>
      (\<exists>t'. synch_stream (Suc (length (src_bytes g))) g 0 u = Ret t' \<and> rw_bytes (dst t') = rw_bytes (dst t) @ src_bytes g)"
    if "u = t\<lparr>clock := c\<rparr>" for u c
    using loop [of u 0 "Suc (length (src_bytes g))"] assms(3) that by auto
  then show ?thesis using assms(2) unfolding synch_copying_def allocate_def tick_def by auto
qed

definition example_stream :: copy_cfg where
  "example_stream = example_cfg\<lparr>cfg_src := example_rw\<lparr>rw_ops := PIPE_OPS, rw_size := -1\<rparr>\<rparr>"

definition example_pipe :: rw where
  "example_pipe = example_rw\<lparr>rw_ops := PIPE_OPS, rw_size := -1, rw_bytes := []\<rparr>"

lemma example_stream_returns: "case synch_copying example_stream (start_thread example_pipe) of Ret t \<Rightarrow> True | Ends e \<Rightarrow> False"
  by code_simp

theorem stream_passed_on_witness:
  "\<exists>t. synch_copying example_stream (start_thread example_pipe) = Ret t \<and> rw_bytes (dst t) = [1, 2, 0, 0, 5, 6, 7, 8, 0, 0, 0, 0]"
proof -
  have e: "rw_ops (cfg_src example_stream) = PIPE_OPS" "rw_size (cfg_src example_stream) = -1"
      "rw_ops (dst (start_thread example_pipe)) = PIPE_OPS" "0 < cfg_request_size example_stream"
      "\<forall>time len off k. env_pread (cfg_env example_stream) time len off = Some k \<longrightarrow> 0 < k"
    by (simp_all add: example_stream_def example_cfg_def example_env_def example_pipe_def start_thread_def)
  show ?thesis
    using stream_passed_on [OF e] example_stream_returns
    by (auto simp: example_stream_def example_cfg_def example_rw_def example_pipe_def start_thread_def)
qed

section \<open>The main program\<close>

text \<open>What the options keep: the two sides and the system are not touched, and these settings stay in range.\<close>

definition settings_ok :: "copy_cfg \<Rightarrow> bool" where
  "settings_ok g \<longleftrightarrow> 0 < cfg_connections g \<and> 0 < cfg_max_requests g \<and> cfg_sparse_size g < 2 ^ 32"

definition same_sides :: "copy_cfg \<Rightarrow> copy_cfg \<Rightarrow> bool" where
  "same_sides g g' \<longleftrightarrow> cfg_src g' = cfg_src g \<and> cfg_env g' = cfg_env g"

lemma number_Ret: "number ok v = Ret n \<longleftrightarrow> v = Some n \<and> ok n"
  by (auto simp: number_def split: option.splits if_splits)

lemma main_option_ok:
  assumes "main_option x g = Ret g'" "settings_ok g"
  shows "settings_ok g' \<and> same_sides g g' \<and> (cfg_target_is_zero g' \<longleftrightarrow> cfg_target_is_zero g \<or> x = TARGET_IS_ZERO)"
proof -
  have n: "(\<exists>n. number ok v = Ret n \<and> g' = f n)" if "andthen (number ok v) (\<lambda>n. Ret (f n)) = Ret g'" for ok v f
    using that by (cases "number ok v") auto
  show ?thesis
    using assms by (cases x) (auto dest!: n simp: number_Ret settings_ok_def same_sides_def)
qed

lemma main_options_ok:
  "main_options xs g = Ret g' \<Longrightarrow> settings_ok g \<Longrightarrow>
   settings_ok g' \<and> same_sides g g' \<and> (cfg_target_is_zero g' \<longleftrightarrow> cfg_target_is_zero g \<or> TARGET_IS_ZERO \<in> set xs)"
proof (induction xs arbitrary: g)
  case Nil
  then show ?case by (simp add: same_sides_def)
next
  case (Cons x xs)
  then obtain g1 where "main_option x g = Ret g1" "main_options xs g1 = Ret g'" by (cases "main_option x g") auto
  with Cons.IH main_option_ok [of x g g1] Cons.prems(2) show ?case by (auto simp: same_sides_def)
qed

lemma main_threads_ok:
  assumes "0 < cfg_connections g"
  shows "0 < cfg_threads (main_threads cpus d g)" "cfg_threads (main_threads cpus d g) = cfg_connections (main_threads cpus d g)"
    "same_sides g (main_threads cpus d g)" "cfg_target_is_zero (main_threads cpus d g) = cfg_target_is_zero g"
    "cfg_max_requests (main_threads cpus d g) = cfg_max_requests g" "cfg_sparse_size (main_threads cpus d g) = cfg_sparse_size g"
  using assms by (auto simp: main_threads_def Let_def same_sides_def)

lemma main_sizes_ok:
  assumes "main_sizes d g = Ret g'"
  shows "0 < cfg_request_size g'" "cfg_request_size g' \<le> THREAD_WORK_SIZE" "cfg_request_size g' \<le> cfg_queue_size g'"
    "cfg_sparse_size g' = 0 \<or> is_power_of_2 (of_nat (cfg_sparse_size g'))" "cfg_sparse_size g < 2 ^ 32 \<Longrightarrow> cfg_sparse_size g' < 2 ^ 32"
    "same_sides g g'" "cfg_target_is_zero g' = cfg_target_is_zero g" "cfg_max_requests g' = cfg_max_requests g"
    "cfg_threads g' = cfg_threads g" "cfg_connections g' = cfg_connections g"
proof -
  define r where "r = max (max (cfg_request_size g) (rw_preferred (cfg_src g)) mod 2 ^ 32) (rw_preferred d) mod 2 ^ 32"
  define q where "q = (if r > cfg_queue_size g then r else cfg_queue_size g)"
  define s where "s = (if cfg_sparse_size g > 0 \<and> cfg_sparse_size g < rw_preferred d then rw_preferred d mod 2 ^ 32 else cfg_sparse_size g)"
  have "r > 0 \<and> r \<le> COPY_MAX_REQUEST_SIZE \<and> r \<le> THREAD_WORK_SIZE \<and> is_power_of_2 (of_nat r) \<and> (s = 0 \<or> is_power_of_2 (of_nat s)) \<and>
      g' = g\<lparr>cfg_request_size := r, cfg_queue_size := q, cfg_sparse_size := s\<rparr>"
    using assms unfolding main_sizes_def Let_def r_def [symmetric] q_def [symmetric] s_def [symmetric] must_def
    by (simp split: if_splits)
  moreover have "cfg_sparse_size g < 2 ^ 32 \<Longrightarrow> s < 2 ^ 32" by (simp add: s_def)
  moreover have "r \<le> q" by (simp add: q_def)
  ultimately show "0 < cfg_request_size g'" "cfg_request_size g' \<le> THREAD_WORK_SIZE" "cfg_request_size g' \<le> cfg_queue_size g'"
    "cfg_sparse_size g' = 0 \<or> is_power_of_2 (of_nat (cfg_sparse_size g'))" "cfg_sparse_size g < 2 ^ 32 \<Longrightarrow> cfg_sparse_size g' < 2 ^ 32"
    "same_sides g g'" "cfg_target_is_zero g' = cfg_target_is_zero g" "cfg_max_requests g' = cfg_max_requests g"
    "cfg_threads g' = cfg_threads g" "cfg_connections g' = cfg_connections g"
    by (simp_all add: same_sides_def)
qed

lemma after_open_ok: "settings_ok g \<Longrightarrow> settings_ok (after_open sub r g)" "same_sides g (after_open sub r g)"
    "cfg_target_is_zero (after_open sub r g) = cfg_target_is_zero g"
  by (auto simp: after_open_def Let_def settings_ok_def same_sides_def)

definition started :: "copy_cfg \<Rightarrow> bool" where
  "started g \<longleftrightarrow> 0 < cfg_request_size g \<and> cfg_request_size g \<le> THREAD_WORK_SIZE \<and> 0 < cfg_queue_size g \<and> 0 < cfg_max_requests g \<and>
     cfg_sparse_size g < 2 ^ 32 \<and> (cfg_sparse_size g = 0 \<or> is_power_of_2 (of_nat (cfg_sparse_size g))) \<and>
     0 < cfg_threads g \<and> cfg_threads g = cfg_connections g"

lemma main_setup_ok:
  assumes "main_setup cpus src_sub dst_sub d g = Ret g'" "settings_ok g"
  shows "started g' \<and> same_sides g g' \<and> cfg_target_is_zero g' = cfg_target_is_zero g"
proof -
  define g1 where "g1 = after_open dst_sub d (after_open src_sub (cfg_src g) g)"
  have 1: "settings_ok g1" "same_sides g g1" "cfg_target_is_zero g1 = cfg_target_is_zero g"
    using after_open_ok assms(2) by (auto simp: g1_def same_sides_def)
  have s: "main_sizes d (main_threads cpus d g1) = Ret g'"
    using assms(1) unfolding main_setup_def g1_def [symmetric] must_def by (auto split: if_splits)
  have c: "0 < cfg_connections g1" using 1(1) by (simp add: settings_ok_def)
  note t = main_threads_ok [OF c, of cpus d] and z = main_sizes_ok [OF s]
  have "0 < cfg_queue_size g'" using z(1,3) by linarith
  then show ?thesis using t z 1 by (auto simp: started_def settings_ok_def same_sides_def)
qed

lemma copy_main_stages:
  assumes "copy_main options cpus oks src_sub dst_sub d g = (d', Ret g')"
  shows "\<exists>g1 g2. started g1 \<and> same_sides g g1 \<and> (cfg_target_is_zero g1 \<longleftrightarrow> TARGET_IS_ZERO \<in> set options) \<and>
    main_truncate oks d g1 = (d', Ret g2) \<and> main_finish d' g2 = Ret g'"
proof -
  have def_ok: "settings_ok (copy_defaults g)" by (simp add: settings_ok_def copy_defaults_def)
  obtain g0 where g0: "main_options options (copy_defaults g) = Ret g0"
    using assms by (cases "main_options options (copy_defaults g)") (auto simp: copy_main_def)
  obtain g1 where g1: "main_setup cpus src_sub dst_sub d g0 = Ret g1"
    using assms g0 by (cases "main_setup cpus src_sub dst_sub d g0") (auto simp: copy_main_def)
  have o: "settings_ok g0" "same_sides (copy_defaults g) g0" "cfg_target_is_zero g0 \<longleftrightarrow> TARGET_IS_ZERO \<in> set options"
    using main_options_ok [OF g0 def_ok] by (auto simp: copy_defaults_def)
  have "same_sides g g1" using main_setup_ok [OF g1 o(1)] o(2) by (auto simp: same_sides_def copy_defaults_def)
  moreover obtain d2 r where "main_truncate oks d g1 = (d2, r)" by (cases "main_truncate oks d g1")
  moreover obtain g2 where "r = Ret g2" "d2 = d'" "main_finish d' g2 = Ret g'"
    using assms g0 g1 calculation(2) by (cases r) (auto simp: copy_main_def)
  ultimately show ?thesis using main_setup_ok [OF g1 o(1)] o(3) by blast
qed

text \<open>A source of known size and a destination that can hold data, as they are opened.\<close>

definition source_side :: "rw \<Rightarrow> bool" where
  "source_side r \<longleftrightarrow> 0 \<le> rw_size r \<and> length (rw_bytes r) = nat (rw_size r) \<and> length (rw_bytes r) < 2 ^ 63"

definition target_side :: "copy_option list \<Rightarrow> rw \<Rightarrow> bool" where
  "target_side options d \<longleftrightarrow> (rw_ops d = FILE_OPS \<or> rw_ops d = NBD_OPS) \<and> 0 \<le> rw_size d \<and> length (rw_bytes d) = nat (rw_size d) \<and>
     (rw_zeroout d \<longrightarrow> is_power_of_2 (of_nat (rw_sector_size d))) \<and>
     (TARGET_IS_ZERO \<in> set options \<longrightarrow> list_all (\<lambda>b. b = 0) (rw_bytes d))"

text \<open>What is behind the copied range afterwards: nothing in a regular file, otherwise what was there before.\<close>

definition kept :: "copy_cfg \<Rightarrow> rw \<Rightarrow> u8 list" where
  "kept g d = (if rw_ops d = FILE_OPS \<and> \<not> rw_is_block d then [] else drop (src_size g) (rw_bytes d))"

lemma main_finish_ok:
  assumes "main_finish d g = Ret g'"
  shows "\<not> (rw_size (cfg_src g) \<ge> 0 \<and> rw_size d \<ge> 0 \<and> rw_size (cfg_src g) > rw_size d)" "\<exists>b. g' = g\<lparr>cfg_extents := b\<rparr>"
proof -
  show "\<not> (rw_size (cfg_src g) \<ge> 0 \<and> rw_size d \<ge> 0 \<and> rw_size (cfg_src g) > rw_size d)"
    using assms by (auto simp: main_finish_def must_def split: if_splits)
  have "g' = (if \<not> can_extents (cfg_src g) then g\<lparr>cfg_extents := False\<rparr> else g)"
    using assms by (simp add: main_finish_def must_def split: if_splits)
  moreover have "g = g\<lparr>cfg_extents := cfg_extents g\<rparr>" by simp
  ultimately show "\<exists>b. g' = g\<lparr>cfg_extents := b\<rparr>" by metis
qed

lemma started_cfg_ok:
  assumes "started g" "source_side (cfg_src g)"
  shows "cfg_ok g"
  using assms unfolding cfg_ok_def started_def source_side_def src_size_def by auto

lemma started_extents [simp]: "started (g\<lparr>cfg_extents := b\<rparr>) = started g"
  by (simp add: started_def)

lemma started_target [simp]: "started (g\<lparr>cfg_target_is_zero := b\<rparr>) = started g"
  by (simp add: started_def)

text \<open>What the main program hands to the copy.\<close>

lemma copy_main_ok:
  assumes m: "copy_main options cpus oks src_sub dst_sub d g = (d', Ret g')"
    and s: "source_side (cfg_src g)" and t: "target_side options d"
  shows "cfg_ok g'" "dst_ok g' d'" "0 < cfg_threads g'" "cfg_threads g' = cfg_connections g'" "same_sides g g'"
    "rw_ops d' = rw_ops d" "drop (src_size g') (rw_bytes d') = kept g d"
proof -
  obtain g1 g2 where g1: "started g1" "same_sides g g1" "cfg_target_is_zero g1 \<longleftrightarrow> TARGET_IS_ZERO \<in> set options"
    and tr: "main_truncate oks d g1 = (d', Ret g2)" and fi: "main_finish d' g2 = Ret g'"
    using copy_main_stages [OF m] by blast
  have src: "source_side (cfg_src g1)" "src_size g1 = src_size g" "cfg_src g1 = cfg_src g"
    using s g1(2) by (simp_all add: same_sides_def src_size_def)
  obtain b where g': "g' = g2\<lparr>cfg_extents := b\<rparr>" using main_finish_ok(2) [OF fi] by blast
  note fits = main_finish_ok(1) [OF fi]
  have len: "length (rw_bytes d) = nat (rw_size d)" "0 \<le> rw_size (cfg_src g1)" "0 \<le> rw_size d"
    using t src(1) by (simp_all add: target_side_def source_side_def)
  show "cfg_ok g'" "dst_ok g' d'" "0 < cfg_threads g'" "cfg_threads g' = cfg_connections g'" "same_sides g g'"
    "rw_ops d' = rw_ops d" "drop (src_size g') (rw_bytes d') = kept g d"
  proof -
    consider (reg) "rw_ops d = FILE_OPS" "\<not> rw_is_block d" | (other) "rw_ops d = NBD_OPS \<or> rw_is_block d"
      using t by (auto simp: target_side_def)
    then have "(g2 = g1 \<or> g2 = g1\<lparr>cfg_target_is_zero := True\<rparr>) \<and> dst_ok g2 d' \<and> rw_ops d' = rw_ops d \<and>
        drop (src_size g) (rw_bytes d') = kept g d"
    proof cases
      case reg
      have d': "d' = d\<lparr>rw_bytes := replicate (src_size g1) 0, rw_size := rw_size (cfg_src g1)\<rparr>" "g2 = g1\<lparr>cfg_target_is_zero := True\<rparr>"
        using tr reg by (auto simp: main_truncate_def file_truncate_def src_size_def Let_def split: if_splits)
      have "src_size g2 = src_size g1" by (simp add: d'(2) src_size_def)
      then show ?thesis
        using reg t src(2) by (simp add: d'(1) dst_ok_def target_side_def kept_def) (simp add: d'(2))
    next
      case other
      have d': "d' = d" "g2 = g1"
        using tr other by (auto simp: main_truncate_def file_truncate_def split: if_splits)
      have "src_size g1 \<le> length (rw_bytes d)" using fits len d' by (simp add: src_size_def)
      moreover have "rw_bytes d ! p = 0" if "cfg_target_is_zero g1" "p < src_size g1" for p
        using t g1(3) that calculation by (auto simp: target_side_def list_all_length)
      ultimately show ?thesis using t other d' by (auto simp: dst_ok_def target_side_def kept_def)
    qed
    moreover from this have st: "started g2" "same_sides g g2" using g1 by (auto simp: same_sides_def)
    moreover have "src_size g' = src_size g" using st(2) g' by (simp add: src_size_def same_sides_def)
    moreover have "source_side (cfg_src g')" using s st(2) g' by (simp add: same_sides_def)
    ultimately show "cfg_ok g'" "dst_ok g' d'" "0 < cfg_threads g'" "cfg_threads g' = cfg_connections g'" "same_sides g g'"
      "rw_ops d' = rw_ops d" "drop (src_size g') (rw_bytes d') = kept g d"
      using started_cfg_ok [of g'] by (auto simp: g' started_def same_sides_def dst_ok_def src_size_def)
  qed
qed


definition example_main :: "rw \<times> copy_cfg run_result" where
  "example_main = copy_main [NO_EXTENTS, SYNCHRONOUS] 2 (True, True) False False example_dst example_cfg"

lemma example_main_returns: "case example_main of (d, r) \<Rightarrow> (case r of
     Ret g \<Rightarrow> \<not> cfg_extents g \<and> cfg_synchronous g \<and> (case synch_copying g (start_thread d) of Ret t \<Rightarrow> True | Ends e \<Rightarrow> False)
   | Ends e \<Rightarrow> False)"
  by code_simp


text \<open>
  C38. A stream cannot be copied to a regular file: its size is not known, and shrinking the file to the size -1 fails. By then
  the file has already been emptied. This happens with all options and on every run that gets as far as that.
\<close>

theorem stream_to_file_fails:
  assumes "rw_size (cfg_src g) = -1" "rw_ops d = FILE_OPS" "\<not> rw_is_block d"
  shows "(\<exists>e. snd (copy_main options cpus oks src_sub dst_sub d g) = Ends e) \<and>
    (fst oks \<and> andthen (main_options options (copy_defaults g)) (main_setup cpus src_sub dst_sub d) = Ret g1 \<longrightarrow>
     copy_main options cpus oks src_sub dst_sub d g = (d\<lparr>rw_bytes := []\<rparr>, Ends EXIT_FAILURE))"
proof -
  let ?r = "andthen (main_options options (copy_defaults g)) (main_setup cpus src_sub dst_sub d)"
  have size: "rw_size (cfg_src g2) = -1" if "?r = Ret g2" for g2
  proof -
    obtain g0 where g0: "main_options options (copy_defaults g) = Ret g0" "main_setup cpus src_sub dst_sub d g0 = Ret g2"
      using \<open>?r = Ret g2\<close> by (cases "main_options options (copy_defaults g)") auto
    have "settings_ok (copy_defaults g)" by (simp add: settings_ok_def copy_defaults_def)
    from main_options_ok [OF g0(1) this] have o: "settings_ok g0" "same_sides (copy_defaults g) g0" by auto
    then show ?thesis using main_setup_ok [OF g0(2) o(1)] assms(1) by (simp add: same_sides_def copy_defaults_def)
  qed
  then show ?thesis
    using assms(2,3) by (cases ?r) (auto simp: copy_main_def main_truncate_def file_truncate_def Let_def)
qed

theorem stream_to_file_fails_witness:
  "copy_main [] 1 (True, True) False False example_dst example_stream = (example_dst\<lparr>rw_bytes := []\<rparr>, Ends EXIT_FAILURE)"
proof -
  have "case andthen (main_options [] (copy_defaults example_stream)) (main_setup 1 False False example_dst) of Ret g \<Rightarrow> True | Ends e \<Rightarrow> False"
    by code_simp
  then obtain g1 where g1: "andthen (main_options [] (copy_defaults example_stream)) (main_setup 1 False False example_dst) = Ret g1"
    by (auto split: run_result.splits)
  have "rw_size (cfg_src example_stream) = -1" "rw_ops example_dst = FILE_OPS" "\<not> rw_is_block example_dst"
    by (simp_all add: example_stream_def example_dst_def example_rw_def)
  from stream_to_file_fails [OF this, where options = "[]" and cpus = 1 and oks = "(True, True)" and src_sub = False and
      dst_sub = False and ?g1.0 = g1] g1
  show ?thesis unfolding fst_conv by blast
qed

end
