(* ===== verification/NBD_Protocol.thy ===== *)
theory NBD_Protocol
  imports NBD_Prelude
begin

text \<open>
  The wire protocol of \<^verbatim>\<open>lib/nbd-protocol.h\<close>: its constants, the sizes and field offsets of its
  packed structures, the two request layouts, and the error and command tables of
  \<^verbatim>\<open>lib/protocol.c\<close>. The local errno values are those of Linux.
\<close>

section \<open>Constants\<close>

abbreviation NBD_MAX_STRING :: nat where "NBD_MAX_STRING \<equiv> 4096"

abbreviation NBD_MAGIC :: u64 where "NBD_MAGIC \<equiv> 0x4e42444d41474943"
abbreviation NBD_OLD_VERSION :: u64 where "NBD_OLD_VERSION \<equiv> 0x0000420281861253"
abbreviation NBD_NEW_VERSION :: u64 where "NBD_NEW_VERSION \<equiv> 0x49484156454F5054"
abbreviation NBD_REP_MAGIC :: u64 where "NBD_REP_MAGIC \<equiv> 0x3e889045565a9"

abbreviation NBD_FLAG_FIXED_NEWSTYLE :: u16 where "NBD_FLAG_FIXED_NEWSTYLE \<equiv> 1"
abbreviation NBD_FLAG_NO_ZEROES :: u16 where "NBD_FLAG_NO_ZEROES \<equiv> 2"

abbreviation NBD_FLAG_HAS_FLAGS :: u16 where "NBD_FLAG_HAS_FLAGS \<equiv> 0x0001"
abbreviation NBD_FLAG_READ_ONLY :: u16 where "NBD_FLAG_READ_ONLY \<equiv> 0x0002"
abbreviation NBD_FLAG_SEND_FLUSH :: u16 where "NBD_FLAG_SEND_FLUSH \<equiv> 0x0004"
abbreviation NBD_FLAG_SEND_FUA :: u16 where "NBD_FLAG_SEND_FUA \<equiv> 0x0008"
abbreviation NBD_FLAG_ROTATIONAL :: u16 where "NBD_FLAG_ROTATIONAL \<equiv> 0x0010"
abbreviation NBD_FLAG_SEND_TRIM :: u16 where "NBD_FLAG_SEND_TRIM \<equiv> 0x0020"
abbreviation NBD_FLAG_SEND_WRITE_ZEROES :: u16 where "NBD_FLAG_SEND_WRITE_ZEROES \<equiv> 0x0040"
abbreviation NBD_FLAG_SEND_DF :: u16 where "NBD_FLAG_SEND_DF \<equiv> 0x0080"
abbreviation NBD_FLAG_CAN_MULTI_CONN :: u16 where "NBD_FLAG_CAN_MULTI_CONN \<equiv> 0x0100"
abbreviation NBD_FLAG_SEND_CACHE :: u16 where "NBD_FLAG_SEND_CACHE \<equiv> 0x0400"
abbreviation NBD_FLAG_SEND_FAST_ZERO :: u16 where "NBD_FLAG_SEND_FAST_ZERO \<equiv> 0x0800"
abbreviation NBD_FLAG_BLOCK_STATUS_PAYLOAD :: u16
  where "NBD_FLAG_BLOCK_STATUS_PAYLOAD \<equiv> 0x1000"

abbreviation NBD_OPT_EXPORT_NAME :: u8 where "NBD_OPT_EXPORT_NAME \<equiv> 1"
abbreviation NBD_OPT_ABORT :: u8 where "NBD_OPT_ABORT \<equiv> 2"
abbreviation NBD_OPT_LIST :: u8 where "NBD_OPT_LIST \<equiv> 3"
abbreviation NBD_OPT_STARTTLS :: u8 where "NBD_OPT_STARTTLS \<equiv> 5"
abbreviation NBD_OPT_INFO :: u8 where "NBD_OPT_INFO \<equiv> 6"
abbreviation NBD_OPT_GO :: u8 where "NBD_OPT_GO \<equiv> 7"
abbreviation NBD_OPT_STRUCTURED_REPLY :: u8 where "NBD_OPT_STRUCTURED_REPLY \<equiv> 8"
abbreviation NBD_OPT_LIST_META_CONTEXT :: u8 where "NBD_OPT_LIST_META_CONTEXT \<equiv> 9"
abbreviation NBD_OPT_SET_META_CONTEXT :: u8 where "NBD_OPT_SET_META_CONTEXT \<equiv> 10"
abbreviation NBD_OPT_EXTENDED_HEADERS :: u8 where "NBD_OPT_EXTENDED_HEADERS \<equiv> 11"

abbreviation NBD_REP_ACK :: u32 where "NBD_REP_ACK \<equiv> 1"
abbreviation NBD_REP_SERVER :: u32 where "NBD_REP_SERVER \<equiv> 2"
abbreviation NBD_REP_INFO :: u32 where "NBD_REP_INFO \<equiv> 3"
abbreviation NBD_REP_META_CONTEXT :: u32 where "NBD_REP_META_CONTEXT \<equiv> 4"
abbreviation NBD_REP_ERR_UNSUP :: u32 where "NBD_REP_ERR_UNSUP \<equiv> 0x80000001"
abbreviation NBD_REP_ERR_POLICY :: u32 where "NBD_REP_ERR_POLICY \<equiv> 0x80000002"
abbreviation NBD_REP_ERR_INVALID :: u32 where "NBD_REP_ERR_INVALID \<equiv> 0x80000003"
abbreviation NBD_REP_ERR_PLATFORM :: u32 where "NBD_REP_ERR_PLATFORM \<equiv> 0x80000004"
abbreviation NBD_REP_ERR_TLS_REQD :: u32 where "NBD_REP_ERR_TLS_REQD \<equiv> 0x80000005"
abbreviation NBD_REP_ERR_UNKNOWN :: u32 where "NBD_REP_ERR_UNKNOWN \<equiv> 0x80000006"
abbreviation NBD_REP_ERR_SHUTDOWN :: u32 where "NBD_REP_ERR_SHUTDOWN \<equiv> 0x80000007"
abbreviation NBD_REP_ERR_BLOCK_SIZE_REQD :: u32 where "NBD_REP_ERR_BLOCK_SIZE_REQD \<equiv> 0x80000008"
abbreviation NBD_REP_ERR_TOO_BIG :: u32 where "NBD_REP_ERR_TOO_BIG \<equiv> 0x80000009"
abbreviation NBD_REP_ERR_EXT_HEADER_REQD :: u32 where "NBD_REP_ERR_EXT_HEADER_REQD \<equiv> 0x8000000a"

definition NBD_REP_IS_ERR :: "u32 \<Rightarrow> bool" where
  "NBD_REP_IS_ERR val \<longleftrightarrow> val AND 0x80000000 \<noteq> 0"

abbreviation NBD_INFO_EXPORT :: u16 where "NBD_INFO_EXPORT \<equiv> 0"
abbreviation NBD_INFO_NAME :: u16 where "NBD_INFO_NAME \<equiv> 1"
abbreviation NBD_INFO_DESCRIPTION :: u16 where "NBD_INFO_DESCRIPTION \<equiv> 2"
abbreviation NBD_INFO_BLOCK_SIZE :: u16 where "NBD_INFO_BLOCK_SIZE \<equiv> 3"

abbreviation NBD_REQUEST_MAGIC :: u32 where "NBD_REQUEST_MAGIC \<equiv> 0x25609513"
abbreviation NBD_EXTENDED_REQUEST_MAGIC :: u32 where "NBD_EXTENDED_REQUEST_MAGIC \<equiv> 0x21e41c71"
abbreviation NBD_SIMPLE_REPLY_MAGIC :: u32 where "NBD_SIMPLE_REPLY_MAGIC \<equiv> 0x67446698"
abbreviation NBD_STRUCTURED_REPLY_MAGIC :: u32 where "NBD_STRUCTURED_REPLY_MAGIC \<equiv> 0x668e33ef"
abbreviation NBD_EXTENDED_REPLY_MAGIC :: u32 where "NBD_EXTENDED_REPLY_MAGIC \<equiv> 0x6e8a278c"

abbreviation NBD_REPLY_FLAG_DONE :: u16 where "NBD_REPLY_FLAG_DONE \<equiv> 1"

definition NBD_REPLY_TYPE_IS_ERR :: "u16 \<Rightarrow> bool" where
  "NBD_REPLY_TYPE_IS_ERR val \<longleftrightarrow> val AND 0x8000 \<noteq> 0"

abbreviation NBD_REPLY_TYPE_NONE :: u16 where "NBD_REPLY_TYPE_NONE \<equiv> 0"
abbreviation NBD_REPLY_TYPE_OFFSET_DATA :: u16 where "NBD_REPLY_TYPE_OFFSET_DATA \<equiv> 1"
abbreviation NBD_REPLY_TYPE_OFFSET_HOLE :: u16 where "NBD_REPLY_TYPE_OFFSET_HOLE \<equiv> 2"
abbreviation NBD_REPLY_TYPE_BLOCK_STATUS :: u16 where "NBD_REPLY_TYPE_BLOCK_STATUS \<equiv> 5"
abbreviation NBD_REPLY_TYPE_BLOCK_STATUS_EXT :: u16 where "NBD_REPLY_TYPE_BLOCK_STATUS_EXT \<equiv> 6"
abbreviation NBD_REPLY_TYPE_ERROR :: u16 where "NBD_REPLY_TYPE_ERROR \<equiv> 0x8001"
abbreviation NBD_REPLY_TYPE_ERROR_OFFSET :: u16 where "NBD_REPLY_TYPE_ERROR_OFFSET \<equiv> 0x8002"

abbreviation NBD_CMD_READ :: u16 where "NBD_CMD_READ \<equiv> 0"
abbreviation NBD_CMD_WRITE :: u16 where "NBD_CMD_WRITE \<equiv> 1"
abbreviation NBD_CMD_DISC :: u16 where "NBD_CMD_DISC \<equiv> 2"
abbreviation NBD_CMD_FLUSH :: u16 where "NBD_CMD_FLUSH \<equiv> 3"
abbreviation NBD_CMD_TRIM :: u16 where "NBD_CMD_TRIM \<equiv> 4"
abbreviation NBD_CMD_CACHE :: u16 where "NBD_CMD_CACHE \<equiv> 5"
abbreviation NBD_CMD_WRITE_ZEROES :: u16 where "NBD_CMD_WRITE_ZEROES \<equiv> 6"
abbreviation NBD_CMD_BLOCK_STATUS :: u16 where "NBD_CMD_BLOCK_STATUS \<equiv> 7"

abbreviation NBD_CMD_FLAG_FUA :: u16 where "NBD_CMD_FLAG_FUA \<equiv> 0x01"
abbreviation NBD_CMD_FLAG_NO_HOLE :: u16 where "NBD_CMD_FLAG_NO_HOLE \<equiv> 0x02"
abbreviation NBD_CMD_FLAG_DF :: u16 where "NBD_CMD_FLAG_DF \<equiv> 0x04"
abbreviation NBD_CMD_FLAG_REQ_ONE :: u16 where "NBD_CMD_FLAG_REQ_ONE \<equiv> 0x08"
abbreviation NBD_CMD_FLAG_FAST_ZERO :: u16 where "NBD_CMD_FLAG_FAST_ZERO \<equiv> 0x10"
abbreviation NBD_CMD_FLAG_PAYLOAD_LEN :: u16 where "NBD_CMD_FLAG_PAYLOAD_LEN \<equiv> 0x20"

text \<open>Local errno values.\<close>

abbreviation EPERM :: u32 where "EPERM \<equiv> 1"
abbreviation ENOENT :: u32 where "ENOENT \<equiv> 2"
abbreviation EIO :: u32 where "EIO \<equiv> 5"
abbreviation ENOMEM :: u32 where "ENOMEM \<equiv> 12"
abbreviation EINVAL :: u32 where "EINVAL \<equiv> 22"
abbreviation ENOSPC :: u32 where "ENOSPC \<equiv> 28"
abbreviation ERANGE :: u32 where "ERANGE \<equiv> 34"
abbreviation EPROTO :: u32 where "EPROTO \<equiv> 71"
abbreviation EOVERFLOW :: u32 where "EOVERFLOW \<equiv> 75"
abbreviation ENOTSUP :: u32 where "ENOTSUP \<equiv> 95"
abbreviation ENOTCONN :: u32 where "ENOTCONN \<equiv> 107"
abbreviation ESHUTDOWN :: u32 where "ESHUTDOWN \<equiv> 108"

abbreviation MAX_REQUEST_SIZE :: nat where "MAX_REQUEST_SIZE \<equiv> 67108864"

section \<open>Error numbers and command names\<close>

definition nbd_internal_errno_of_nbd_error :: "u32 \<Rightarrow> u32" where
  "nbd_internal_errno_of_nbd_error error =
     (if error = 0 then 0
      else if error = 1 then EPERM
      else if error = 5 then EIO
      else if error = 12 then ENOMEM
      else if error = 22 then EINVAL
      else if error = 28 then ENOSPC
      else if error = 75 then EOVERFLOW
      else if error = 95 then ENOTSUP
      else if error = 108 then ESHUTDOWN
      else EINVAL)"

lemma errno_of_nbd_error_zero [simp]: "nbd_internal_errno_of_nbd_error e = 0 \<longleftrightarrow> e = 0"
  by (simp add: nbd_internal_errno_of_nbd_error_def)

definition nbd_internal_name_of_nbd_cmd :: "u16 \<Rightarrow> string" where
  "nbd_internal_name_of_nbd_cmd type =
     (if type = NBD_CMD_READ then ''read''
      else if type = NBD_CMD_WRITE then ''write''
      else if type = NBD_CMD_DISC then ''disconnect''
      else if type = NBD_CMD_FLUSH then ''flush''
      else if type = NBD_CMD_TRIM then ''trim''
      else if type = NBD_CMD_CACHE then ''cache''
      else if type = NBD_CMD_WRITE_ZEROES then ''write-zeroes''
      else if type = NBD_CMD_BLOCK_STATUS then ''block-status''
      else ''UNKNOWN!'')"

section \<open>Requests on the wire\<close>

text \<open>
  The two request layouts. Flags, type, cookie and offset sit at the same offsets in both,
  which is what lets the issuing code fill them once.
\<close>

record nbd_request =
  rq_magic :: u32
  rq_flags :: u16
  rq_type :: u16
  rq_cookie :: u64
  rq_offset :: u64
  rq_count :: u32

record nbd_request_ext =
  rx_magic :: u32
  rx_flags :: u16
  rx_type :: u16
  rx_cookie :: u64
  rx_offset :: u64
  rx_count :: u64

definition nbd_request_bytes :: "nbd_request \<Rightarrow> u8 list" where
  "nbd_request_bytes r = htobe32 (rq_magic r) @ htobe16 (rq_flags r) @ htobe16 (rq_type r)
     @ htobe64 (rq_cookie r) @ htobe64 (rq_offset r) @ htobe32 (rq_count r)"

definition nbd_request_ext_bytes :: "nbd_request_ext \<Rightarrow> u8 list" where
  "nbd_request_ext_bytes r = htobe32 (rx_magic r) @ htobe16 (rx_flags r) @ htobe16 (rx_type r)
     @ htobe64 (rx_cookie r) @ htobe64 (rx_offset r) @ htobe64 (rx_count r)"

text \<open>The peer's reading of the same layouts, by byte ranges.\<close>

definition nbd_request_of_bytes :: "u8 list \<Rightarrow> nbd_request" where
  "nbd_request_of_bytes bs =
     \<lparr>rq_magic = be32toh (take 4 bs), rq_flags = be16toh (take 2 (drop 4 bs)),
      rq_type = be16toh (take 2 (drop 6 bs)), rq_cookie = be64toh (take 8 (drop 8 bs)),
      rq_offset = be64toh (take 8 (drop 16 bs)), rq_count = be32toh (take 4 (drop 24 bs))\<rparr>"

definition nbd_request_ext_of_bytes :: "u8 list \<Rightarrow> nbd_request_ext" where
  "nbd_request_ext_of_bytes bs =
     \<lparr>rx_magic = be32toh (take 4 bs), rx_flags = be16toh (take 2 (drop 4 bs)),
      rx_type = be16toh (take 2 (drop 6 bs)), rx_cookie = be64toh (take 8 (drop 8 bs)),
      rx_offset = be64toh (take 8 (drop 16 bs)), rx_count = be64toh (take 8 (drop 24 bs))\<rparr>"

lemma nbd_request_length [simp]: "length (nbd_request_bytes r) = 28"
  by (simp add: nbd_request_bytes_def)

lemma nbd_request_ext_length [simp]: "length (nbd_request_ext_bytes r) = 32"
  by (simp add: nbd_request_ext_bytes_def)

lemma nbd_request_of_bytes_append: "nbd_request_of_bytes (nbd_request_bytes r @ rest) = r"
  by (simp add: nbd_request_of_bytes_def nbd_request_bytes_def)

lemma nbd_request_ext_of_bytes_append:
  "nbd_request_ext_of_bytes (nbd_request_ext_bytes r @ rest) = r"
  by (simp add: nbd_request_ext_of_bytes_def nbd_request_ext_bytes_def)

section \<open>Sizes and offsets of the received structures\<close>

abbreviation sizeof_simple_reply :: nat where "sizeof_simple_reply \<equiv> 16"
abbreviation sizeof_structured_reply :: nat where "sizeof_structured_reply \<equiv> 20"
abbreviation sizeof_extended_reply :: nat where "sizeof_extended_reply \<equiv> 32"
abbreviation sizeof_request :: nat where "sizeof_request \<equiv> 28"
abbreviation sizeof_request_ext :: nat where "sizeof_request_ext \<equiv> 32"
abbreviation sizeof_chunk_offset_data :: nat where "sizeof_chunk_offset_data \<equiv> 8"
abbreviation sizeof_chunk_offset_hole :: nat where "sizeof_chunk_offset_hole \<equiv> 12"
abbreviation sizeof_chunk_block_status_32 :: nat where "sizeof_chunk_block_status_32 \<equiv> 4"
abbreviation sizeof_block_descriptor_32 :: nat where "sizeof_block_descriptor_32 \<equiv> 8"
abbreviation sizeof_chunk_block_status_64 :: nat where "sizeof_chunk_block_status_64 \<equiv> 8"
abbreviation sizeof_block_descriptor_64 :: nat where "sizeof_block_descriptor_64 \<equiv> 16"
abbreviation sizeof_chunk_error :: nat where "sizeof_chunk_error \<equiv> 6"
abbreviation sizeof_new_option :: nat where "sizeof_new_option \<equiv> 16"
abbreviation sizeof_option_reply :: nat where "sizeof_option_reply \<equiv> 20"
abbreviation sizeof_old_handshake :: nat where "sizeof_old_handshake \<equiv> 152"
abbreviation sizeof_export_name_option_reply :: nat where "sizeof_export_name_option_reply \<equiv> 134"

text \<open>Fields of the reply headers, at their offsets in \<^verbatim>\<open>sbuf.reply.hdr\<close>.\<close>

definition hdr_magic :: "mem \<Rightarrow> u32" where "hdr_magic m = rd32 m 0"
definition hdr_cookie :: "mem \<Rightarrow> u64" where "hdr_cookie m = rd64 m 8"
definition simple_error :: "mem \<Rightarrow> u32" where "simple_error m = rd32 m 4"
definition structured_flags :: "mem \<Rightarrow> u16" where "structured_flags m = rd16 m 4"
definition structured_type :: "mem \<Rightarrow> u16" where "structured_type m = rd16 m 6"
definition structured_length :: "mem \<Rightarrow> u32" where "structured_length m = rd32 m 16"
definition extended_offset :: "mem \<Rightarrow> u64" where "extended_offset m = rd64 m 16"
definition extended_length :: "mem \<Rightarrow> u64" where "extended_length m = rd64 m 24"

text \<open>The chunk payload follows the header union in \<^verbatim>\<open>sbuf.reply\<close>, at offset 32.\<close>

abbreviation payload_off :: nat where "payload_off \<equiv> 32"

definition offset_data_offset :: "mem \<Rightarrow> u64" where "offset_data_offset m = rd64 m payload_off"
definition offset_hole_offset :: "mem \<Rightarrow> u64" where "offset_hole_offset m = rd64 m payload_off"
definition offset_hole_length :: "mem \<Rightarrow> u32" where
  "offset_hole_length m = rd32 m (payload_off + 8)"
definition bs_hdr_context_id :: "mem \<Rightarrow> u32" where "bs_hdr_context_id m = rd32 m payload_off"
definition bs_hdr_64_count :: "mem \<Rightarrow> u32" where "bs_hdr_64_count m = rd32 m (payload_off + 4)"
definition error_error :: "mem \<Rightarrow> u32" where "error_error m = rd32 m payload_off"
definition error_len :: "mem \<Rightarrow> u16" where "error_len m = rd16 m (payload_off + 4)"
definition error_offset :: "mem \<Rightarrow> u64" where
  "error_offset m = rd64 m (payload_off + sizeof_chunk_error + NBD_MAX_STRING)"

lemmas hdr_defs = hdr_magic_def hdr_cookie_def simple_error_def structured_flags_def
  structured_type_def structured_length_def extended_offset_def extended_length_def
  offset_data_offset_def offset_hole_offset_def offset_hole_length_def bs_hdr_context_id_def
  bs_hdr_64_count_def error_error_def error_len_def error_offset_def

end
