(* ===== verification/NBD_Handle.thy ===== *)
theory NBD_Handle
  imports NBD_Protocol
begin

text \<open>
  The data of the library (\<^verbatim>\<open>lib/internal.h\<close>): the states of the connection state machine
  (\<^verbatim>\<open>lib/states.h\<close>), user callbacks, commands, the transport socket and the handle itself; and
  the state predicates of \<^verbatim>\<open>lib/is-state.c\<close> with the group tables of \<^verbatim>\<open>lib/states-run.c\<close>.

  The nested groups of the state machine are nested datatypes. A command is pointed at by
  its cookie. The linked lists of commands are lists, with their tail pointers kept as
  separate fields, because the code maintains them separately.
\<close>

section \<open>States\<close>

datatype connect_state = CONNECT_START | CONNECT_CONNECTING

datatype connect_tcp_state =
  TCP_START | TCP_CONNECT | TCP_CONNECTING | TCP_NEXT_ADDRESS

datatype magic_state = MAGIC_START | RECV_MAGIC | CHECK_MAGIC

datatype oldstyle_state = OLDSTYLE_START | RECV_REMAINING | OLDSTYLE_CHECK

datatype starttls_state =
  STARTTLS_START | STARTTLS_SEND | STARTTLS_RECV_REPLY | STARTTLS_RECV_REPLY_PAYLOAD
| STARTTLS_CHECK_REPLY | TLS_HANDSHAKE_READ | TLS_HANDSHAKE_WRITE | TLS_HANDSHAKE_DONE

datatype simple_opt_state =
  OPT_START | OPT_SEND | OPT_RECV_REPLY | OPT_RECV_REPLY_PAYLOAD | OPT_CHECK_REPLY

datatype meta_context_state =
  META_START | META_SEND | META_SEND_EXPORTNAMELEN | META_SEND_EXPORTNAME | META_SEND_NRQUERIES
| META_PREPARE_NEXT_QUERY | META_SEND_QUERYLEN | META_SEND_QUERY | META_PREPARE_FOR_REPLY
| META_RECV_REPLY | META_RECV_REPLY_PAYLOAD | META_CHECK_REPLY

datatype opt_go_state =
  GO_START | GO_SEND | GO_SEND_EXPORTNAMELEN | GO_SEND_EXPORT | GO_SEND_NRINFOS | GO_SEND_INFO
| GO_RECV_REPLY | GO_RECV_REPLY_PAYLOAD | GO_CHECK_REPLY

datatype export_name_state =
  EXPORT_NAME_START | EXPORT_NAME_SEND | EXPORT_NAME_SEND_EXPORT | EXPORT_NAME_RECV_REPLY
| EXPORT_NAME_CHECK_REPLY

datatype newstyle_state =
  NEWSTYLE_START | RECV_GFLAGS | CHECK_GFLAGS | SEND_CFLAGS
| OPT_STARTTLS starttls_state | OPT_EXTENDED_HEADERS simple_opt_state
| OPT_STRUCTURED_REPLY simple_opt_state | OPT_META_CONTEXT meta_context_state
| OPT_GO opt_go_state | OPT_EXPORT_NAME export_name_state | OPT_LIST simple_opt_state
| PREPARE_OPT_ABORT | SEND_OPT_ABORT | SEND_OPTION_SHUTDOWN | FINISHED

datatype issue_command_state =
  ISSUE_START | SEND_REQUEST | PAUSE_SEND_REQUEST | PREPARE_WRITE_PAYLOAD | SEND_WRITE_PAYLOAD
| PAUSE_WRITE_PAYLOAD | SEND_WRITE_SHUTDOWN | PAUSE_WRITE_SHUTDOWN | ISSUE_FINISH

datatype simple_reply_state = SIMPLE_START | RECV_READ_PAYLOAD

datatype chunk_reply_state =
  CHUNK_START | RECV_ERROR | RECV_ERROR_MESSAGE | RECV_ERROR_TAIL | RECV_OFFSET_DATA
| RECV_OFFSET_DATA_DATA | RECV_OFFSET_HOLE | RECV_BS_HEADER | RECV_BS_ENTRIES | RESYNC
| CHUNK_FINISH

datatype reply_state =
  REPLY_START | RECV_REPLY | CHECK_REPLY_MAGIC | RECV_STRUCTURED_REMAINING
| SIMPLE_REPLY simple_reply_state | CHUNK_REPLY chunk_reply_state | FINISH_COMMAND

datatype state =
  START | CONNECT connect_state | CONNECT_TCP connect_tcp_state | CONNECT_COMMAND_START
| CONNECT_SA_START | MAGIC magic_state | OLDSTYLE oldstyle_state | NEWSTYLE newstyle_state
| NEGOTIATING | READY | ISSUE_COMMAND issue_command_state | REPLY reply_state | DEAD | CLOSED

datatype external_event =
  notify_read | notify_write | cmd_create | cmd_connect_sockaddr | cmd_connect_tcp
| cmd_connect_command | cmd_connect_sa | cmd_connect_socket | cmd_issue

datatype state_group =
  GROUP_TOP | GROUP_CONNECT | GROUP_CONNECT_TCP | GROUP_CONNECT_COMMAND | GROUP_CONNECT_SA
| GROUP_MAGIC | GROUP_OLDSTYLE | GROUP_NEWSTYLE | GROUP_NEWSTYLE_OPT_STARTTLS
| GROUP_NEWSTYLE_OPT_EXTENDED_HEADERS | GROUP_NEWSTYLE_OPT_STRUCTURED_REPLY
| GROUP_NEWSTYLE_OPT_META_CONTEXT | GROUP_NEWSTYLE_OPT_GO | GROUP_NEWSTYLE_OPT_EXPORT_NAME
| GROUP_NEWSTYLE_OPT_LIST | GROUP_ISSUE_COMMAND | GROUP_REPLY | GROUP_REPLY_SIMPLE_REPLY
| GROUP_REPLY_CHUNK_REPLY

section \<open>Callbacks\<close>

text \<open>
  A user callback with its free function. Callbacks take the value the library passes in
  \<^verbatim>\<open>*error\<close> and answer with their return value and the value they leave in \<^verbatim>\<open>*error\<close>.
\<close>

datatype 'f cbk = Cbk (cbk_fun: "'f option") (cbk_free: bool)

type_synonym completion_fn = "u32 \<Rightarrow> int \<times> u32"
type_synonym chunk_fn = "u8 list \<Rightarrow> u64 \<Rightarrow> u32 \<Rightarrow> u32 \<Rightarrow> int \<times> u32"
type_synonym extent32_fn = "cstr \<Rightarrow> u64 \<Rightarrow> u32 list \<Rightarrow> u32 \<Rightarrow> int \<times> u32"
type_synonym extent64_fn = "cstr \<Rightarrow> u64 \<Rightarrow> (u64 \<times> u64) list \<Rightarrow> u32 \<Rightarrow> int \<times> u32"
type_synonym list_fn = "cstr \<Rightarrow> cstr \<Rightarrow> int"
type_synonym context_fn = "cstr \<Rightarrow> int"

definition CALLBACK_IS_NULL :: "'f cbk \<Rightarrow> bool" where
  "CALLBACK_IS_NULL cb \<longleftrightarrow> cbk_fun cb = None \<and> \<not> cbk_free cb"

abbreviation null_cbk :: "'f cbk" where "null_cbk \<equiv> Cbk None False"

lemma CALLBACK_IS_NULL_null [simp]: "CALLBACK_IS_NULL null_cbk"
  by (simp add: CALLBACK_IS_NULL_def)

text \<open>The union \<^verbatim>\<open>fn\<close> of \<^verbatim>\<open>struct command_cb\<close>, tagged with the member that was stored.\<close>

datatype cb_fn =
  FnNull
| FnExtent32 "extent32_fn cbk"
| FnExtent64 "extent64_fn cbk"
| FnChunk "chunk_fn cbk"
| FnList "list_fn cbk"
| FnContext "context_fn cbk"

fun fn_is_null :: "cb_fn \<Rightarrow> bool" where
  "fn_is_null FnNull = True"
| "fn_is_null (FnExtent32 c) = CALLBACK_IS_NULL c"
| "fn_is_null (FnExtent64 c) = CALLBACK_IS_NULL c"
| "fn_is_null (FnChunk c) = CALLBACK_IS_NULL c"
| "fn_is_null (FnList c) = CALLBACK_IS_NULL c"
| "fn_is_null (FnContext c) = CALLBACK_IS_NULL c"

fun fn_free :: "cb_fn \<Rightarrow> bool" where
  "fn_free FnNull = False"
| "fn_free (FnExtent32 c) = cbk_free c"
| "fn_free (FnExtent64 c) = cbk_free c"
| "fn_free (FnChunk c) = cbk_free c"
| "fn_free (FnList c) = cbk_free c"
| "fn_free (FnContext c) = cbk_free c"

record command_cb =
  cb_fn :: cb_fn
  cb_completion :: "completion_fn cbk"
  cb_wide :: bool

text \<open>What the library tells the user, in order: the calls and frees of callbacks.\<close>

datatype cb_event =
  CompletionCall u64 u32
| ChunkCall u64 "u8 list" u64 u32 u32
| ExtentCall u64 cstr u64 "(u64 \<times> u64) list" u32
| FreeFn u64
| FreeCompletion u64
| OptCompletionCall u32
| OptFreeFn
| OptFreeCompletion
| ListCall cstr cstr
| ContextCall cstr

section \<open>Commands, socket, handle\<close>

record command =
  c_flags :: u16
  c_type :: u16
  c_cookie :: u64
  c_offset :: u64
  c_count :: u64
  c_data :: "u8 list option"
  c_ids :: "u32 list option"
  c_cb :: command_cb
  c_initialized :: bool
  c_data_seen :: u32
  c_error :: u32

text \<open>
  The transport is an input of the model: the answers its operations will give, in order.
  \<open>RxData\<close> carries the bytes that arrived (none: the peer closed), \<open>TxAccept n\<close> lets at most
  \<open>n\<close> bytes through. An exhausted script answers \<^verbatim>\<open>EAGAIN\<close>. \<open>pending\<close> and \<open>shut_writes\<close> are the
  answers of the optional operations, which only the TLS transport makes interesting.
\<close>

datatype rx_event = RxData "u8 list" | RxAgain | RxErr u32

datatype tx_event = TxAccept nat | TxAgain | TxErr u32

record socket =
  rx :: "rx_event list"
  tx :: "tx_event list"
  sent :: "u8 list"
  pending_answers :: "bool list"
  shut_answers :: "bool list"

record meta_context =
  mc_name :: cstr
  mc_context_id :: u32

text \<open>Where the bytes being received go: nowhere, into \<^verbatim>\<open>sbuf\<close>, into the buffer of the command with a
  cookie, or into \<^verbatim>\<open>bs_raw\<close>, each at an offset.\<close>

datatype rptr = RNull | RSbuf nat | RData u64 nat | RBsRaw nat

text \<open>
  The last two fields are not fields of \<^verbatim>\<open>struct nbd_handle\<close>: \<open>next_state\<close> and \<open>blocked\<close> are
  the two out-parameters of the function that enters a state. \<open>last_error\<close> is the thread-local
  error of \<^verbatim>\<open>lib/errors.c\<close> and \<open>trace\<close> records the callbacks.
\<close>

record nbd_handle =
  export_name :: cstr
  tls :: nat
  request_eh :: bool
  extended_headers :: bool
  request_sr :: bool
  request_meta :: bool
  request_meta_contexts :: "cstr list"
  opt_mode :: bool
  opt_current :: u8
  opt_cb :: command_cb
  request_block_size :: bool
  full_info :: bool
  pread_initialize :: bool
  gflags :: u16
  exportsize :: u64
  eflags :: u16
  block_minimum :: u32
  block_preferred :: u32
  block_maximum :: u32
  payload_maximum :: u32
  canonical_name :: "cstr option"
  description :: "cstr option"
  protocol :: "string option"
  tls_negotiated :: bool
  unique :: u64
  bytes_sent :: u64
  chunks_sent :: u64
  bytes_received :: u64
  chunks_received :: u64
  strict :: u32
  public_state :: state
  state :: state
  structured_replies :: bool
  meta_valid :: bool
  meta_contexts :: "meta_context list"
  sock :: "socket option"
  rbuf :: rptr
  rlen :: nat
  wbuf :: "u8 list"
  wlen :: nat
  wflags_more :: bool
  sbuf :: mem
  req :: mem
  in_write_payload :: bool
  in_write_shutdown :: bool
  querylist :: "cstr list"
  querynum :: nat
  payload_left :: nat
  bs_count :: nat
  bs_raw :: "u8 list"
  cmds_to_issue :: "command list"
  cmds_to_issue_tail :: "u64 option"
  cmds_in_flight :: "command list"
  cmds_done :: "command list"
  cmds_done_tail :: "u64 option"
  in_flight :: int
  reply_cmd :: "u64 option"
  reply_state :: state
  disconnect_request :: bool
  last_error :: "(u32 \<times> string) option"
  trace :: "cb_event list"
  next_state :: state
  blocked :: bool

definition set_error :: "u32 \<Rightarrow> string \<Rightarrow> nbd_handle \<Rightarrow> nbd_handle" where
  "set_error err msg h = h\<lparr>last_error := Some (err, msg)\<rparr>"

definition nbd_get_errno :: "nbd_handle \<Rightarrow> u32" where
  "nbd_get_errno h = (case last_error h of None \<Rightarrow> 0 | Some (e, _) \<Rightarrow> e)"

section \<open>State groups and predicates\<close>

fun newstyle_group :: "newstyle_state \<Rightarrow> state_group" where
  "newstyle_group (OPT_STARTTLS _) = GROUP_NEWSTYLE_OPT_STARTTLS"
| "newstyle_group (OPT_EXTENDED_HEADERS _) = GROUP_NEWSTYLE_OPT_EXTENDED_HEADERS"
| "newstyle_group (OPT_STRUCTURED_REPLY _) = GROUP_NEWSTYLE_OPT_STRUCTURED_REPLY"
| "newstyle_group (OPT_META_CONTEXT _) = GROUP_NEWSTYLE_OPT_META_CONTEXT"
| "newstyle_group (OPT_GO _) = GROUP_NEWSTYLE_OPT_GO"
| "newstyle_group (OPT_EXPORT_NAME _) = GROUP_NEWSTYLE_OPT_EXPORT_NAME"
| "newstyle_group (OPT_LIST _) = GROUP_NEWSTYLE_OPT_LIST"
| "newstyle_group _ = GROUP_NEWSTYLE"

fun nbd_internal_state_group :: "state \<Rightarrow> state_group" where
  "nbd_internal_state_group START = GROUP_TOP"
| "nbd_internal_state_group (CONNECT _) = GROUP_CONNECT"
| "nbd_internal_state_group (CONNECT_TCP _) = GROUP_CONNECT_TCP"
| "nbd_internal_state_group CONNECT_COMMAND_START = GROUP_CONNECT_COMMAND"
| "nbd_internal_state_group CONNECT_SA_START = GROUP_CONNECT_SA"
| "nbd_internal_state_group (MAGIC _) = GROUP_MAGIC"
| "nbd_internal_state_group (OLDSTYLE _) = GROUP_OLDSTYLE"
| "nbd_internal_state_group (NEWSTYLE s) = newstyle_group s"
| "nbd_internal_state_group NEGOTIATING = GROUP_TOP"
| "nbd_internal_state_group READY = GROUP_TOP"
| "nbd_internal_state_group (ISSUE_COMMAND _) = GROUP_ISSUE_COMMAND"
| "nbd_internal_state_group (REPLY (SIMPLE_REPLY _)) = GROUP_REPLY_SIMPLE_REPLY"
| "nbd_internal_state_group (REPLY (CHUNK_REPLY _)) = GROUP_REPLY_CHUNK_REPLY"
| "nbd_internal_state_group (REPLY _) = GROUP_REPLY"
| "nbd_internal_state_group DEAD = GROUP_TOP"
| "nbd_internal_state_group CLOSED = GROUP_TOP"

fun nbd_internal_state_group_parent :: "state_group \<Rightarrow> state_group" where
  "nbd_internal_state_group_parent GROUP_NEWSTYLE_OPT_STARTTLS = GROUP_NEWSTYLE"
| "nbd_internal_state_group_parent GROUP_NEWSTYLE_OPT_EXTENDED_HEADERS = GROUP_NEWSTYLE"
| "nbd_internal_state_group_parent GROUP_NEWSTYLE_OPT_STRUCTURED_REPLY = GROUP_NEWSTYLE"
| "nbd_internal_state_group_parent GROUP_NEWSTYLE_OPT_META_CONTEXT = GROUP_NEWSTYLE"
| "nbd_internal_state_group_parent GROUP_NEWSTYLE_OPT_GO = GROUP_NEWSTYLE"
| "nbd_internal_state_group_parent GROUP_NEWSTYLE_OPT_EXPORT_NAME = GROUP_NEWSTYLE"
| "nbd_internal_state_group_parent GROUP_NEWSTYLE_OPT_LIST = GROUP_NEWSTYLE"
| "nbd_internal_state_group_parent GROUP_REPLY_SIMPLE_REPLY = GROUP_REPLY"
| "nbd_internal_state_group_parent GROUP_REPLY_CHUNK_REPLY = GROUP_REPLY"
| "nbd_internal_state_group_parent _ = GROUP_TOP"

text \<open>The two recursive searches up the group tree end at \<open>GROUP_TOP\<close>: the tree has depth two.\<close>

fun group_depth :: "state_group \<Rightarrow> nat" where
  "group_depth GROUP_TOP = 0"
| "group_depth g = (if nbd_internal_state_group_parent g = GROUP_TOP then 1 else 2)"

lemma group_depth_parent: "g \<noteq> GROUP_TOP \<Longrightarrow> group_depth (nbd_internal_state_group_parent g) < group_depth g"
  by (cases g) auto

function is_connecting_group :: "state_group \<Rightarrow> bool" where
  "is_connecting_group g =
     (if g = GROUP_TOP then False
      else if g \<in> {GROUP_CONNECT, GROUP_CONNECT_TCP, GROUP_CONNECT_COMMAND, GROUP_MAGIC,
                   GROUP_OLDSTYLE, GROUP_NEWSTYLE} then True
      else is_connecting_group (nbd_internal_state_group_parent g))"
  by pat_completeness auto
termination
  by (relation "measure group_depth") (auto simp: group_depth_parent)

function is_processing_group :: "state_group \<Rightarrow> bool" where
  "is_processing_group g =
     (if g = GROUP_TOP then False
      else if g \<in> {GROUP_ISSUE_COMMAND, GROUP_REPLY} then True
      else is_processing_group (nbd_internal_state_group_parent g))"
  by pat_completeness auto
termination
  by (relation "measure group_depth") (auto simp: group_depth_parent)

declare is_connecting_group.simps [simp del] is_processing_group.simps [simp del]

definition nbd_internal_is_state_created :: "state \<Rightarrow> bool" where
  "nbd_internal_is_state_created s \<longleftrightarrow> s = START"

definition nbd_internal_is_state_connecting :: "state \<Rightarrow> bool" where
  "nbd_internal_is_state_connecting s \<longleftrightarrow> is_connecting_group (nbd_internal_state_group s)"

definition nbd_internal_is_state_negotiating :: "state \<Rightarrow> bool" where
  "nbd_internal_is_state_negotiating s \<longleftrightarrow> s = NEGOTIATING"

definition nbd_internal_is_state_ready :: "state \<Rightarrow> bool" where
  "nbd_internal_is_state_ready s \<longleftrightarrow> s = READY"

definition nbd_internal_is_state_processing :: "state \<Rightarrow> bool" where
  "nbd_internal_is_state_processing s \<longleftrightarrow> is_processing_group (nbd_internal_state_group s)"

definition nbd_internal_is_state_dead :: "state \<Rightarrow> bool" where
  "nbd_internal_is_state_dead s \<longleftrightarrow> s = DEAD"

definition nbd_internal_is_state_closed :: "state \<Rightarrow> bool" where
  "nbd_internal_is_state_closed s \<longleftrightarrow> s = CLOSED"

lemma is_processing_group_iff:
  "is_processing_group g \<longleftrightarrow>
     g \<in> {GROUP_ISSUE_COMMAND, GROUP_REPLY, GROUP_REPLY_SIMPLE_REPLY, GROUP_REPLY_CHUNK_REPLY}"
proof -
  have "is_processing_group g = (g \<noteq> GROUP_TOP \<and> (g \<in> {GROUP_ISSUE_COMMAND, GROUP_REPLY} \<or>
      is_processing_group (nbd_internal_state_group_parent g)))" for g
    by (subst is_processing_group.simps) simp
  note unfold = this
  have top: "\<not> is_processing_group GROUP_TOP" and new: "\<not> is_processing_group GROUP_NEWSTYLE"
    and rep: "is_processing_group GROUP_REPLY"
    by (subst unfold, simp, subst unfold, simp)+
  show ?thesis
    by (subst unfold, cases g) (simp_all add: top new rep)
qed

lemma is_connecting_group_iff:
  "is_connecting_group g \<longleftrightarrow>
     g \<notin> {GROUP_TOP, GROUP_CONNECT_SA, GROUP_ISSUE_COMMAND, GROUP_REPLY,
       GROUP_REPLY_SIMPLE_REPLY, GROUP_REPLY_CHUNK_REPLY}"
proof -
  have "is_connecting_group g = (g \<noteq> GROUP_TOP \<and>
      (g \<in> {GROUP_CONNECT, GROUP_CONNECT_TCP, GROUP_CONNECT_COMMAND, GROUP_MAGIC,
             GROUP_OLDSTYLE, GROUP_NEWSTYLE} \<or>
       is_connecting_group (nbd_internal_state_group_parent g)))" for g
    by (subst is_connecting_group.simps) simp
  note unfold = this
  have top: "\<not> is_connecting_group GROUP_TOP" and new: "is_connecting_group GROUP_NEWSTYLE"
    by (subst unfold, simp)+
  then have rep: "\<not> is_connecting_group GROUP_REPLY"
    by (subst unfold, simp)
  show ?thesis
    by (subst unfold, cases g) (simp_all add: top new rep)
qed

lemma is_state_processing_reply [simp]: "nbd_internal_is_state_processing (REPLY r)"
  by (cases r) (simp_all add: nbd_internal_is_state_processing_def is_processing_group_iff)

lemma is_state_processing_simps [simp]:
  "nbd_internal_is_state_processing (ISSUE_COMMAND i)"
  "\<not> nbd_internal_is_state_processing READY"
  "\<not> nbd_internal_is_state_processing START"
  "\<not> nbd_internal_is_state_processing NEGOTIATING"
  "\<not> nbd_internal_is_state_processing DEAD"
  "\<not> nbd_internal_is_state_processing CLOSED"
  by (simp_all add: nbd_internal_is_state_processing_def is_processing_group_iff)

end
