(* ===== verification/NBD_Engine.thy ===== *)
theory NBD_Engine
  imports NBD_Handle
begin

text \<open>
  The engine shared by every state (\<^verbatim>\<open>generator/states.c\<close>, \<^verbatim>\<open>lib/socket.c\<close>, \<^verbatim>\<open>lib/aio.c\<close>,
  \<^verbatim>\<open>lib/opt.c\<close>): the socket operations, buffered receive and send, freeing of callbacks,
  forced failure of options and commands, and the handlers of the states \<^verbatim>\<open>READY\<close>, \<^verbatim>\<open>DEAD\<close> and
  \<^verbatim>\<open>CLOSED\<close>. The transport contract is a locale, interpreted on the socket operations.
\<close>

section \<open>Transitions\<close>

text \<open>A handler answers with the handle and its return value, or stops the program.\<close>

type_synonym handler = "nbd_handle \<Rightarrow> (nbd_handle \<times> int) option"

definition SET_NEXT_STATE :: "state \<Rightarrow> nbd_handle \<Rightarrow> nbd_handle" where
  [engine_defs]: "SET_NEXT_STATE s h = h\<lparr>blocked := False, next_state := s\<rparr>"

definition SET_NEXT_STATE_AND_BLOCK :: "state \<Rightarrow> nbd_handle \<Rightarrow> nbd_handle" where
  [engine_defs]: "SET_NEXT_STATE_AND_BLOCK s h = h\<lparr>next_state := s\<rparr>"

definition return0 :: "nbd_handle \<Rightarrow> (nbd_handle \<times> int) option" where
  [engine_defs]: "return0 h = Some (h, 0)"

abbreviation goto :: "state \<Rightarrow> nbd_handle \<Rightarrow> (nbd_handle \<times> int) option" where
  "goto s h \<equiv> return0 (SET_NEXT_STATE s h)"

text \<open>The wrapper that enters a state: the next state defaults to the current one.\<close>

definition enter :: "handler \<Rightarrow> nbd_handle \<Rightarrow> (nbd_handle \<times> int) option" where
  "enter f h = map_option (\<lambda>(h', r). (h'\<lparr>state := next_state h'\<rparr>, r)) (f (h\<lparr>next_state := state h\<rparr>))"

section \<open>Socket operations\<close>

datatype sock_result = SockOk "u8 list" | SockAgain | SockErr u32

fun sock_recv :: "nat \<Rightarrow> socket \<Rightarrow> sock_result \<times> socket" where
  "sock_recv len s =
     (case rx s of
        [] \<Rightarrow> (SockAgain, s)
      | RxAgain # es \<Rightarrow> (SockAgain, s\<lparr>rx := es\<rparr>)
      | RxErr e # es \<Rightarrow> (SockErr e, s\<lparr>rx := es\<rparr>)
      | RxData bs # es \<Rightarrow>
          if length bs \<le> len then (SockOk bs, s\<lparr>rx := es\<rparr>)
          else (SockOk (take len bs), s\<lparr>rx := RxData (drop len bs) # es\<rparr>))"

fun sock_send :: "u8 list \<Rightarrow> socket \<Rightarrow> sock_result \<times> socket" where
  "sock_send bs s =
     (case tx s of
        [] \<Rightarrow> (SockAgain, s)
      | TxAgain # es \<Rightarrow> (SockAgain, s\<lparr>tx := es\<rparr>)
      | TxErr e # es \<Rightarrow> (SockErr e, s\<lparr>tx := es\<rparr>)
      | TxAccept n # es \<Rightarrow> (SockOk (take n bs), s\<lparr>tx := es, sent := sent s @ take n bs\<rparr>))"

fun sock_pending :: "socket \<Rightarrow> bool \<times> socket" where
  "sock_pending s = (case pending_answers s of [] \<Rightarrow> (False, s)
     | b # bs \<Rightarrow> (b, s\<lparr>pending_answers := bs\<rparr>))"

fun sock_shut_writes :: "socket \<Rightarrow> bool \<times> socket" where
  "sock_shut_writes s = (case shut_answers s of [] \<Rightarrow> (True, s)
     | b # bs \<Rightarrow> (b, s\<lparr>shut_answers := bs\<rparr>))"

declare sock_recv.simps [simp del] sock_send.simps [simp del]
  sock_pending.simps [simp del] sock_shut_writes.simps [simp del]

text \<open>
  What the state machine relies on: a receive returns at most the bytes asked for and takes
  exactly them off the incoming stream; a send takes a prefix of the bytes offered and appends
  exactly that to what was sent.
\<close>

fun rx_bytes :: "rx_event list \<Rightarrow> u8 list" where
  "rx_bytes [] = []"
| "rx_bytes (RxData bs # es) = bs @ rx_bytes es"
| "rx_bytes (_ # es) = rx_bytes es"

locale transport =
  fixes recv :: "nat \<Rightarrow> 's \<Rightarrow> sock_result \<times> 's"
    and send :: "u8 list \<Rightarrow> 's \<Rightarrow> sock_result \<times> 's"
    and incoming :: "'s \<Rightarrow> u8 list"
    and outgoing :: "'s \<Rightarrow> u8 list"
  assumes recv_len: "recv n s = (SockOk bs, s') \<Longrightarrow> length bs \<le> n"
    and recv_stream: "recv n s = (SockOk bs, s') \<Longrightarrow> incoming s = bs @ incoming s'"
    and recv_out: "recv n s = (r, s') \<Longrightarrow> outgoing s' = outgoing s"
    and send_prefix: "send bs s = (SockOk as, s') \<Longrightarrow> \<exists>n. as = take n bs"
    and send_stream: "send bs s = (SockOk as, s') \<Longrightarrow> outgoing s' = outgoing s @ as"
begin

lemma recv_short: "recv n s = (SockOk bs, s') \<Longrightarrow> n - length bs + length bs = n"
  using recv_len by fastforce

lemma send_rest: "send bs s = (SockOk as, s') \<Longrightarrow> as @ drop (length as) bs = bs"
proof -
  assume "send bs s = (SockOk as, s')"
  then obtain n where "as = take n bs"
    using send_prefix by blast
  then show ?thesis
    by (cases "n \<le> length bs") simp_all
qed

lemma send_then_rest:
  "send bs s = (SockOk as, s') \<Longrightarrow> outgoing s' @ drop (length as) bs = outgoing s @ bs"
  using send_stream send_rest by fastforce

end

interpretation sk: transport sock_recv sock_send "\<lambda>s. rx_bytes (rx s)" sent
  by unfold_locales
    (auto simp: sock_recv.simps sock_send.simps split: list.splits rx_event.splits tx_event.splits
      if_splits)

section \<open>Finding and updating commands\<close>

definition find_cmd :: "u64 \<Rightarrow> command list \<Rightarrow> command option" where
  "find_cmd k cs = find (\<lambda>c. c_cookie c = k) cs"

fun upd_cmd :: "u64 \<Rightarrow> (command \<Rightarrow> command) \<Rightarrow> command list \<Rightarrow> command list" where
  "upd_cmd k f [] = []"
| "upd_cmd k f (c # cs) = (if c_cookie c = k then f c # cs else c # upd_cmd k f cs)"

fun del_cmd :: "u64 \<Rightarrow> command list \<Rightarrow> command list" where
  "del_cmd k [] = []"
| "del_cmd k (c # cs) = (if c_cookie c = k then cs else c # del_cmd k cs)"

section \<open>Receiving and sending\<close>

abbreviation sizeof_sbuf :: nat where "sizeof_sbuf \<equiv> 8224"
abbreviation BUFSIZ :: nat where "BUFSIZ \<equiv> 8192"

text \<open>Bytes arrive where \<^verbatim>\<open>rbuf\<close> points, and \<^verbatim>\<open>rbuf\<close> moves past them.\<close>

fun store_rbuf :: "u8 list \<Rightarrow> nbd_handle \<Rightarrow> nbd_handle option" where
  "store_rbuf bs h =
     (case rbuf h of
        RNull \<Rightarrow> Some h
      | RSbuf off \<Rightarrow>
          if off + length bs \<le> sizeof_sbuf
          then Some (h\<lparr>sbuf := mem_write (sbuf h) off bs, rbuf := RSbuf (off + length bs)\<rparr>)
          else None
      | RData k off \<Rightarrow> do {
          cmd \<leftarrow> find_cmd k (cmds_in_flight h);
          buf \<leftarrow> c_data cmd;
          buf' \<leftarrow> buf_write buf off bs;
          Some (h\<lparr>cmds_in_flight := upd_cmd k (c_data_update (\<lambda>_. Some buf')) (cmds_in_flight h),
                  rbuf := RData k (off + length bs)\<rparr>) }
      | RBsRaw off \<Rightarrow> do {
          raw' \<leftarrow> buf_write (bs_raw h) off bs;
          Some (h\<lparr>bs_raw := raw', rbuf := RBsRaw (off + length bs)\<rparr>) })"

declare store_rbuf.simps [simp del]

definition recv_into_rbuf :: "nbd_handle \<Rightarrow> (nbd_handle \<times> int) option" where
  "recv_into_rbuf h =
     (if rlen h = 0 then Some (h, 0)
      else do {
        s \<leftarrow> sock h;
        let n = (if rbuf h = RNull then min (rlen h) BUFSIZ else rlen h);
        case sock_recv n s of
          (SockAgain, s') \<Rightarrow> Some (h\<lparr>sock := Some s'\<rparr>, 1)
        | (SockErr e, s') \<Rightarrow> Some (set_error e ''recv'' (h\<lparr>sock := Some s'\<rparr>), -1)
        | (SockOk bs, s') \<Rightarrow>
            if bs = [] then
              Some (set_error 0 ''recv: server disconnected unexpectedly'' (h\<lparr>sock := Some s'\<rparr>), -1)
            else do {
              h' \<leftarrow> store_rbuf bs (h\<lparr>sock := Some s'\<rparr>);
              let h'' = h'\<lparr>bytes_received := bytes_received h' + of_nat (length bs),
                           rlen := rlen h' - length bs\<rparr>;
              Some (h'', if rlen h'' = 0 then 0 else 1) } })"

definition send_from_wbuf :: "nbd_handle \<Rightarrow> (nbd_handle \<times> int) option" where
  "send_from_wbuf h =
     (if wlen h = 0 then Some (h\<lparr>wflags_more := False\<rparr>, 0)
      else do {
        asrt (wlen h \<le> length (wbuf h));
        s \<leftarrow> sock h;
        case sock_send (take (wlen h) (wbuf h)) s of
          (SockAgain, s') \<Rightarrow> Some (h\<lparr>sock := Some s'\<rparr>, 1)
        | (SockErr e, s') \<Rightarrow> Some (set_error e ''send'' (h\<lparr>sock := Some s'\<rparr>), -1)
        | (SockOk bs, s') \<Rightarrow>
            (let h' = h\<lparr>sock := Some s', bytes_sent := bytes_sent h + of_nat (length bs),
                        wbuf := drop (length bs) (wbuf h), wlen := wlen h - length bs\<rparr>
             in if wlen h' = 0 then Some (h'\<lparr>wflags_more := False\<rparr>, 0) else Some (h', 1)) })"

section \<open>Callbacks, options and commands given up\<close>

definition log_event :: "cb_event \<Rightarrow> nbd_handle \<Rightarrow> nbd_handle" where
  "log_event e h = h\<lparr>trace := trace h @ [e]\<rparr>"

definition call_completion ::
    "u64 \<Rightarrow> completion_fn cbk \<Rightarrow> u32 \<Rightarrow> nbd_handle \<Rightarrow> int \<times> u32 \<times> nbd_handle" where
  "call_completion k cb err h =
     (case cbk_fun cb of None \<Rightarrow> (0, err, h)
      | Some f \<Rightarrow> (fst (f err), snd (f err), log_event (CompletionCall k err) h))"

definition nbd_internal_retire_and_free_command :: "command \<Rightarrow> nbd_handle \<Rightarrow> nbd_handle" where
  "nbd_internal_retire_and_free_command cmd h =
     (let h1 = (if (c_type cmd = NBD_CMD_BLOCK_STATUS \<or> c_type cmd = NBD_CMD_READ) \<and>
                    fn_free (cb_fn (c_cb cmd))
                then log_event (FreeFn (c_cookie cmd)) h else h)
      in if cbk_free (cb_completion (c_cb cmd))
         then log_event (FreeCompletion (c_cookie cmd)) h1 else h1)"

definition nbd_internal_free_option :: "nbd_handle \<Rightarrow> nbd_handle" where
  "nbd_internal_free_option h =
     (let h1 = (if opt_current h \<in> {NBD_OPT_LIST, NBD_OPT_LIST_META_CONTEXT, NBD_OPT_SET_META_CONTEXT}
                then (if fn_free (cb_fn (opt_cb h)) then log_event OptFreeFn h else h)
                       \<lparr>opt_cb := (opt_cb h)\<lparr>cb_fn := FnNull\<rparr>\<rparr>
                else h);
          h2 = (if cbk_free (cb_completion (opt_cb h1)) then log_event OptFreeCompletion h1 else h1)
      in h2\<lparr>opt_cb := (opt_cb h2)\<lparr>cb_completion := null_cbk\<rparr>\<rparr>)"

definition call_opt_completion :: "u32 \<Rightarrow> nbd_handle \<Rightarrow> nbd_handle" where
  "call_opt_completion err h =
     (case cbk_fun (cb_completion (opt_cb h)) of None \<Rightarrow> h
      | Some f \<Rightarrow> log_event (OptCompletionCall err) h)"

definition abort_option :: "nbd_handle \<Rightarrow> nbd_handle" where
  "abort_option h =
     (let err = (if nbd_get_errno h \<noteq> 0 then nbd_get_errno h else ENOTCONN)
      in nbd_internal_free_option (call_opt_completion err h))"

text \<open>
  Appending to the list of completed commands goes through the tail pointer. Where that
  pointer is not the last element of the list the C code would write through a stale pointer.
\<close>

definition append_done :: "command \<Rightarrow> nbd_handle \<Rightarrow> nbd_handle option" where
  "append_done cmd h = do {
     (case cmds_done_tail h of
        None \<Rightarrow> asrt (cmds_done h = [])
      | Some k \<Rightarrow> asrt (cmds_done h \<noteq> [] \<and> c_cookie (last (cmds_done h)) = k));
     Some (h\<lparr>cmds_done := cmds_done h @ [cmd], cmds_done_tail := Some (c_cookie cmd)\<rparr>) }"

text \<open>
  The completion callback of a command that ends: its answer may replace the error (\<open>-1\<close>) or
  ask for the command to be retired at once (\<open>1\<close>).
\<close>

definition notify_completion ::
    "u32 \<Rightarrow> command \<Rightarrow> nbd_handle \<Rightarrow> (command \<times> bool \<times> nbd_handle) option" where
  "notify_completion err cmd h =
     (let retire = (c_type cmd = NBD_CMD_DISC)
      in if CALLBACK_IS_NULL (cb_completion (c_cb cmd)) then Some (cmd, retire, h)
         else do {
           asrt (c_type cmd \<noteq> NBD_CMD_DISC);
           let (r, err', h') = call_completion (c_cookie cmd) (cb_completion (c_cb cmd)) err h;
           Some (if r = -1 \<and> err' \<noteq> 0 then cmd\<lparr>c_error := err'\<rparr> else cmd,
                 if r = 1 then True else retire, h') })"

fun nbd_internal_abort_commands :: "command list \<Rightarrow> nbd_handle \<Rightarrow> nbd_handle option" where
  "nbd_internal_abort_commands [] h = Some h"
| "nbd_internal_abort_commands (cmd # next) h = do {
     (cmd, retire, h) \<leftarrow> notify_completion (if c_error cmd \<noteq> 0 then c_error cmd else ENOTCONN) cmd h;
     let cmd = (if c_error cmd = 0 then cmd\<lparr>c_error := ENOTCONN\<rparr> else cmd);
     h \<leftarrow> (if retire then Some (nbd_internal_retire_and_free_command cmd h)
          else append_done cmd h);
     nbd_internal_abort_commands next h }"

section \<open>The states READY, DEAD and CLOSED\<close>

definition enter_READY :: handler where
  "enter_READY h =
     (if cmds_to_issue h \<noteq> [] then goto (ISSUE_COMMAND ISSUE_START) h
      else do {
        s \<leftarrow> sock h;
        let (p, s') = sock_pending s;
        if p then goto (REPLY REPLY_START) (h\<lparr>sock := Some s'\<rparr>)
        else return0 (h\<lparr>sock := Some s'\<rparr>) })"

definition abort_all :: "nbd_handle \<Rightarrow> nbd_handle option" where
  "abort_all h0 = do {
     let h1 = abort_option h0;
     h2 \<leftarrow> nbd_internal_abort_commands (cmds_to_issue h1) (h1\<lparr>cmds_to_issue := []\<rparr>);
     h3 \<leftarrow> nbd_internal_abort_commands (cmds_in_flight h2) (h2\<lparr>cmds_in_flight := []\<rparr>);
     Some (h3\<lparr>in_flight := 0, sock := None\<rparr>) }"

definition enter_DEAD :: handler where
  "enter_DEAD h = do {
     asrt (last_error h \<noteq> None);
     h' \<leftarrow> abort_all h;
     Some (h', -1) }"

definition enter_CLOSED :: handler where
  "enter_CLOSED h = do {
     h' \<leftarrow> abort_all h;
     Some (h', 0) }"

end
