(* ===== verification/NBD_Issue.thy ===== *)
theory NBD_Issue
  imports NBD_Engine
begin

text \<open>
  The states that send a request (\<^verbatim>\<open>generator/states-issue-command.c\<close>), one definition per
  state, and what they put on the wire.
\<close>

section \<open>The handlers\<close>

text \<open>The stores into \<^verbatim>\<open>req\<close>: four fields shared by both layouts, then magic and count.\<close>

definition fill_header :: "bool \<Rightarrow> command \<Rightarrow> mem \<Rightarrow> mem" where
  "fill_header eh cmd r =
     (let r = mem_write r 4 (htobe16 (c_flags cmd));
          r = mem_write r 6 (htobe16 (c_type cmd));
          r = mem_write r 8 (htobe64 (c_cookie cmd));
          r = mem_write r 16 (htobe64 (c_offset cmd))
      in if eh
         then mem_write (mem_write r 0 (htobe32 NBD_EXTENDED_REQUEST_MAGIC)) 24 (htobe64 (c_count cmd))
         else mem_write (mem_write r 0 (htobe32 NBD_REQUEST_MAGIC)) 24 (htobe32 (ucast (c_count cmd))))"

definition fill_request :: "command \<Rightarrow> nbd_handle \<Rightarrow> nbd_handle option" where
  "fill_request cmd h =
     (if extended_headers h
      then Some (h\<lparr>req := fill_header True cmd (req h), wlen := sizeof_request_ext\<rparr>)
      else do {
        asrt (c_count cmd \<le> 0xFFFFFFFF);
        Some (h\<lparr>req := fill_header False cmd (req h), wlen := sizeof_request\<rparr>) })"

definition enter_ISSUE_COMMAND_START :: handler where
  "enter_ISSUE_COMMAND_START h =
     (case cmds_to_issue h of
        [] \<Rightarrow> None
      | cmd # next \<Rightarrow>
          if \<not> in_write_shutdown h \<and> wlen h \<noteq> 0 then
            (if in_write_payload h
             then return0 (SET_NEXT_STATE_AND_BLOCK (ISSUE_COMMAND SEND_WRITE_PAYLOAD) h)
             else return0 (SET_NEXT_STATE_AND_BLOCK (ISSUE_COMMAND SEND_REQUEST) h))
          else do {
            let h = (if in_write_shutdown h
                     then SET_NEXT_STATE_AND_BLOCK (ISSUE_COMMAND SEND_WRITE_SHUTDOWN) h else h);
            h \<leftarrow> fill_request cmd h;
            let h = h\<lparr>chunks_sent := chunks_sent h + 1, wbuf := rd_bytes (req h) 0 sizeof_request_ext\<rparr>;
            let h = (if c_type cmd = NBD_CMD_WRITE \<or> next \<noteq> [] then h\<lparr>wflags_more := True\<rparr> else h);
            goto (ISSUE_COMMAND SEND_REQUEST) h })"

definition enter_ISSUE_COMMAND_SEND_REQUEST :: handler where
  "enter_ISSUE_COMMAND_SEND_REQUEST h = do {
     (h, r) \<leftarrow> send_from_wbuf h;
     if r = -1 then goto DEAD h
     else if r = 0 then goto (ISSUE_COMMAND PREPARE_WRITE_PAYLOAD) h
     else return0 h }"

definition enter_ISSUE_COMMAND_PAUSE_SEND_REQUEST :: handler where
  "enter_ISSUE_COMMAND_PAUSE_SEND_REQUEST h = do {
     asrt (wlen h \<noteq> 0);
     asrt (cmds_to_issue h \<noteq> []);
     goto (REPLY REPLY_START) (h\<lparr>in_write_payload := False\<rparr>) }"

definition enter_ISSUE_COMMAND_PREPARE_WRITE_PAYLOAD :: handler where
  "enter_ISSUE_COMMAND_PREPARE_WRITE_PAYLOAD h =
     (case cmds_to_issue h of
        [] \<Rightarrow> None
      | cmd # next \<Rightarrow> do {
          asrt (c_cookie cmd = rd64 (req h) 8);
          if c_type cmd = NBD_CMD_WRITE \<or>
             (extended_headers h \<and> c_type cmd = NBD_CMD_BLOCK_STATUS \<and>
              c_flags cmd AND NBD_CMD_FLAG_PAYLOAD_LEN \<noteq> 0) then do {
            let h = h\<lparr>wbuf := (case c_data cmd of None \<Rightarrow> [] | Some d \<Rightarrow> d),
                      wlen := unat (c_count cmd)\<rparr>;
            let h = (if next \<noteq> [] \<and> c_count cmd < 64 * 1024 then h\<lparr>wflags_more := True\<rparr> else h);
            goto (ISSUE_COMMAND SEND_WRITE_PAYLOAD) h }
          else if c_type cmd = NBD_CMD_DISC then
            goto (ISSUE_COMMAND SEND_WRITE_SHUTDOWN) (h\<lparr>in_write_shutdown := True\<rparr>)
          else goto (ISSUE_COMMAND ISSUE_FINISH) h })"

definition enter_ISSUE_COMMAND_SEND_WRITE_PAYLOAD :: handler where
  "enter_ISSUE_COMMAND_SEND_WRITE_PAYLOAD h = do {
     (h, r) \<leftarrow> send_from_wbuf h;
     if r = -1 then goto DEAD h
     else if r = 0 then goto (ISSUE_COMMAND ISSUE_FINISH) h
     else return0 h }"

definition enter_ISSUE_COMMAND_PAUSE_WRITE_PAYLOAD :: handler where
  "enter_ISSUE_COMMAND_PAUSE_WRITE_PAYLOAD h = do {
     asrt (wlen h \<noteq> 0);
     asrt (cmds_to_issue h \<noteq> []);
     goto (REPLY REPLY_START) (h\<lparr>in_write_payload := True\<rparr>) }"

definition enter_ISSUE_COMMAND_SEND_WRITE_SHUTDOWN :: handler where
  "enter_ISSUE_COMMAND_SEND_WRITE_SHUTDOWN h = do {
     s \<leftarrow> sock h;
     let (done, s') = sock_shut_writes s;
     if done then goto (ISSUE_COMMAND ISSUE_FINISH) (h\<lparr>sock := Some s'\<rparr>)
     else return0 (h\<lparr>sock := Some s'\<rparr>) }"

definition enter_ISSUE_COMMAND_PAUSE_WRITE_SHUTDOWN :: handler where
  "enter_ISSUE_COMMAND_PAUSE_WRITE_SHUTDOWN h = do {
     asrt (in_write_shutdown h);
     goto (REPLY REPLY_START) h }"

definition enter_ISSUE_COMMAND_FINISH :: handler where
  "enter_ISSUE_COMMAND_FINISH h = do {
     asrt (wlen h = 0);
     case cmds_to_issue h of
       [] \<Rightarrow> None
     | cmd # next \<Rightarrow> do {
         asrt (c_cookie cmd = rd64 (req h) 8);
         let h = h\<lparr>cmds_to_issue := next\<rparr>;
         let h = (if cmds_to_issue_tail h = Some (c_cookie cmd)
                  then h\<lparr>cmds_to_issue_tail := None\<rparr> else h);
         goto READY (h\<lparr>cmds_in_flight := cmd # cmds_in_flight h\<rparr>) } }"

fun enter_ISSUE_COMMAND :: "issue_command_state \<Rightarrow> handler" where
  "enter_ISSUE_COMMAND ISSUE_START = enter_ISSUE_COMMAND_START"
| "enter_ISSUE_COMMAND SEND_REQUEST = enter_ISSUE_COMMAND_SEND_REQUEST"
| "enter_ISSUE_COMMAND PAUSE_SEND_REQUEST = enter_ISSUE_COMMAND_PAUSE_SEND_REQUEST"
| "enter_ISSUE_COMMAND PREPARE_WRITE_PAYLOAD = enter_ISSUE_COMMAND_PREPARE_WRITE_PAYLOAD"
| "enter_ISSUE_COMMAND SEND_WRITE_PAYLOAD = enter_ISSUE_COMMAND_SEND_WRITE_PAYLOAD"
| "enter_ISSUE_COMMAND PAUSE_WRITE_PAYLOAD = enter_ISSUE_COMMAND_PAUSE_WRITE_PAYLOAD"
| "enter_ISSUE_COMMAND SEND_WRITE_SHUTDOWN = enter_ISSUE_COMMAND_SEND_WRITE_SHUTDOWN"
| "enter_ISSUE_COMMAND PAUSE_WRITE_SHUTDOWN = enter_ISSUE_COMMAND_PAUSE_WRITE_SHUTDOWN"
| "enter_ISSUE_COMMAND ISSUE_FINISH = enter_ISSUE_COMMAND_FINISH"


section \<open>What is put on the wire\<close>

text \<open>The request header a command is sent with, as the wire format describes it.\<close>

definition request_header :: "bool \<Rightarrow> command \<Rightarrow> u8 list" where
  "request_header eh cmd =
     (if eh then nbd_request_ext_bytes \<lparr>rx_magic = NBD_EXTENDED_REQUEST_MAGIC, rx_flags = c_flags cmd,
         rx_type = c_type cmd, rx_cookie = c_cookie cmd, rx_offset = c_offset cmd, rx_count = c_count cmd\<rparr>
      else nbd_request_bytes \<lparr>rq_magic = NBD_REQUEST_MAGIC, rq_flags = c_flags cmd,
         rq_type = c_type cmd, rq_cookie = c_cookie cmd, rq_offset = c_offset cmd,
         rq_count = ucast (c_count cmd)\<rparr>)"

abbreviation request_size :: "bool \<Rightarrow> nat" where
  "request_size eh \<equiv> (if eh then sizeof_request_ext else sizeof_request)"

lemma length_request_header: "length (request_header eh cmd) = request_size eh"
  by (simp add: request_header_def)

lemma rd_bytes_split: "rd_bytes m p (a + b) = rd_bytes m p a @ rd_bytes m (p + a) b"
proof -
  have "[p ..< p + (a + b)] = [p ..< p + a] @ [p + a ..< p + a + b]"
    using upt_add_eq_append [of p "p + a" b] by (simp add: add.assoc)
  then show ?thesis by (simp add: rd_bytes_def)
qed

lemma rd_bytes_fields:
  "rd_bytes m 0 28 = rd_bytes m 0 4 @ rd_bytes m 4 2 @ rd_bytes m 6 2 @ rd_bytes m 8 8 @ rd_bytes m 16 8 @ rd_bytes m 24 4"
  "rd_bytes m 0 32 = rd_bytes m 0 4 @ rd_bytes m 4 2 @ rd_bytes m 6 2 @ rd_bytes m 8 8 @ rd_bytes m 16 8 @ rd_bytes m 24 8"
  using rd_bytes_split [of m 0 4 24] rd_bytes_split [of m 4 2 22] rd_bytes_split [of m 6 2 20]
    rd_bytes_split [of m 8 8 12] rd_bytes_split [of m 16 8 4] rd_bytes_split [of m 0 4 28]
    rd_bytes_split [of m 4 2 26] rd_bytes_split [of m 6 2 24] rd_bytes_split [of m 8 8 16]
    rd_bytes_split [of m 16 8 8]
  by simp_all

lemma fill_header_bytes: "rd_bytes (fill_header eh cmd r) 0 (request_size eh) = request_header eh cmd"
  by (simp add: fill_header_def rd_bytes_fields rd_bytes_other request_header_def
      nbd_request_ext_bytes_def nbd_request_bytes_def)

lemma fill_header_cookie [simp]: "rd64 (fill_header eh cmd r) 8 = c_cookie cmd"
  by (simp add: fill_header_def rd_bytes_other Let_def)

end
