(* ===== verification/NBD_Reply.thy ===== *)
theory NBD_Reply
  imports NBD_Engine
begin

text \<open>
  The states that receive a reply header, match it to a command, and finish the command
  (\<^verbatim>\<open>generator/states-reply.c\<close>), and the simple replies (\<^verbatim>\<open>generator/states-reply-simple.c\<close>).
\<close>

section \<open>Reply headers\<close>

definition save_reply_state :: "nbd_handle \<Rightarrow> nbd_handle option" where
  "save_reply_state h = do {
     asrt (rlen h \<noteq> 0);
     asrt (reply_state h = START);
     let h = h\<lparr>reply_state := state h\<rparr>;
     asrt (reply_state h \<noteq> START);
     Some h }"

text \<open>The three answers of a receive, in the states that save where they were interrupted.\<close>

definition recv_or_save ::
    "(nbd_handle \<Rightarrow> (nbd_handle \<times> int) option) \<Rightarrow> nbd_handle \<Rightarrow> (nbd_handle \<times> int) option" where
  "recv_or_save f h = do {
     (h, r) \<leftarrow> recv_into_rbuf h;
     if r = -1 then goto DEAD h
     else if r = 1 then do { h \<leftarrow> save_reply_state h; goto READY h }
     else f h }"

definition enter_REPLY_START :: handler where
  "enter_REPLY_START h =
     (if rlen h > 0 then
        (if reply_state h \<noteq> START then do {
           asrt (nbd_internal_is_state_processing (reply_state h));
           return0 ((SET_NEXT_STATE (reply_state h) h)\<lparr>reply_state := START\<rparr>) }
         else goto (REPLY RECV_REPLY) h)
      else do {
        asrt (reply_cmd h = None);
        let h = h\<lparr>rbuf := RSbuf 0,
                  rlen := (if extended_headers h then sizeof_extended_reply
                           else sizeof_simple_reply)\<rparr>;
        s \<leftarrow> sock h;
        case sock_recv (rlen h) s of
          (SockAgain, s') \<Rightarrow> return0 (h\<lparr>sock := Some s'\<rparr>)
        | (SockErr e, s') \<Rightarrow> goto DEAD (set_error e ''recv'' (h\<lparr>sock := Some s'\<rparr>))
        | (SockOk bs, s') \<Rightarrow>
            if bs = [] then goto CLOSED (h\<lparr>sock := Some s'\<rparr>)
            else do {
              h \<leftarrow> store_rbuf bs (h\<lparr>sock := Some s'\<rparr>);
              let h = h\<lparr>bytes_received := bytes_received h + of_nat (length bs),
                        rlen := rlen h - length bs\<rparr>;
              goto (REPLY RECV_REPLY) h } })"

text \<open>How much of the header has arrived is the offset \<^verbatim>\<open>rbuf\<close> points at.\<close>

definition rbuf_offset :: "nbd_handle \<Rightarrow> nat" where
  "rbuf_offset h = (case rbuf h of RSbuf off \<Rightarrow> off | _ \<Rightarrow> 0)"

definition enter_REPLY_RECV_REPLY :: handler where
  "enter_REPLY_RECV_REPLY h = do {
     (h, r) \<leftarrow> recv_into_rbuf h;
     if r = -1 then goto DEAD h
     else if r = 1 then do {
       let h = SET_NEXT_STATE READY h;
       if extended_headers h \<and> rbuf_offset h \<ge> 4 \<and>
          hdr_magic (sbuf h) \<noteq> NBD_EXTENDED_REPLY_MAGIC
       then return0 (set_error 0 ''invalid or unexpected reply magic'' (SET_NEXT_STATE DEAD h))
       else return0 h }
     else goto (REPLY CHECK_REPLY_MAGIC) h }"

definition invalid_magic :: handler where
  "invalid_magic h = return0 (set_error 0 ''invalid or unexpected reply magic'' (SET_NEXT_STATE DEAD h))"

text \<open>What the valid magics lead to, before the command is looked up.\<close>

definition enter_REPLY_CHECK_REPLY_MAGIC :: handler where
  "enter_REPLY_CHECK_REPLY_MAGIC h =
     (let magic = hdr_magic (sbuf h);
          found = (\<lambda>h. return0 (h\<lparr>chunks_received := chunks_received h + 1,
                     reply_cmd := map_option c_cookie
                       (find_cmd (hdr_cookie (sbuf h)) (cmds_in_flight h))\<rparr>))
      in if magic = NBD_SIMPLE_REPLY_MAGIC then
           (if extended_headers h then invalid_magic h
            else found (SET_NEXT_STATE (REPLY (SIMPLE_REPLY SIMPLE_START)) h))
         else if magic = NBD_STRUCTURED_REPLY_MAGIC then
           (if extended_headers h then invalid_magic h
            else do {
              asrt (rbuf h = RSbuf sizeof_simple_reply);
              found (SET_NEXT_STATE (REPLY RECV_STRUCTURED_REMAINING)
                (h\<lparr>rlen := sizeof_structured_reply - sizeof_simple_reply\<rparr>)) })
         else if magic = NBD_EXTENDED_REPLY_MAGIC then
           (if \<not> extended_headers h then invalid_magic h
            else found (SET_NEXT_STATE (REPLY (CHUNK_REPLY CHUNK_START)) h))
         else invalid_magic h)"

definition enter_REPLY_RECV_STRUCTURED_REMAINING :: handler where
  "enter_REPLY_RECV_STRUCTURED_REMAINING h =
     recv_or_save (goto (REPLY (CHUNK_REPLY CHUNK_START))) h"

section \<open>Finishing a command\<close>

definition enter_REPLY_FINISH_COMMAND :: handler where
  "enter_REPLY_FINISH_COMMAND h = do {
     let cookie = hdr_cookie (sbuf h);
     let found = find_cmd cookie (cmds_in_flight h);
     asrt (reply_cmd h = map_option c_cookie found);
     case found of
       None \<Rightarrow> goto READY h
     | Some cmd \<Rightarrow> do {
         let h = h\<lparr>reply_cmd := None\<rparr>;
         (cmd, retire, h) \<leftarrow> notify_completion (c_error cmd) cmd h;
         let h = h\<lparr>cmds_in_flight := del_cmd cookie (cmds_in_flight h)\<rparr>;
         h \<leftarrow> (if retire then Some (nbd_internal_retire_and_free_command cmd h)
              else append_done cmd h);
         let h = h\<lparr>in_flight := in_flight h - 1\<rparr>;
         asrt (in_flight h \<ge> 0);
         goto READY h } }"

section \<open>Simple replies\<close>

definition set_cmd :: "command \<Rightarrow> nbd_handle \<Rightarrow> nbd_handle" where
  "set_cmd cmd h = h\<lparr>cmds_in_flight := upd_cmd (c_cookie cmd) (\<lambda>_. cmd) (cmds_in_flight h)\<rparr>"

definition get_reply_cmd :: "nbd_handle \<Rightarrow> command option" where
  "get_reply_cmd h = (case reply_cmd h of None \<Rightarrow> None | Some k \<Rightarrow> find_cmd k (cmds_in_flight h))"

text \<open>\<^verbatim>\<open>if (cmd->error == 0) cmd->error = err\<close>: the first error is kept.\<close>

definition first_error :: "u32 \<Rightarrow> command \<Rightarrow> command" where
  "first_error err cmd = (if c_error cmd = 0 then cmd\<lparr>c_error := err\<rparr> else cmd)"

definition enter_REPLY_SIMPLE_REPLY_START :: handler where
  "enter_REPLY_SIMPLE_REPLY_START h =
     (let error = simple_error (sbuf h)
      in case get_reply_cmd h of
           None \<Rightarrow>
             if error \<noteq> 0 \<or> structured_replies h then goto (REPLY FINISH_COMMAND) h
             else return0 (set_error EPROTO ''no matching cookie found for server reply''
                    (SET_NEXT_STATE DEAD h))
         | Some cmd \<Rightarrow>
             (let cmd = (if c_type cmd = NBD_CMD_READ \<and> structured_replies h
                         then first_error EPROTO cmd else cmd);
                  error = nbd_internal_errno_of_nbd_error error;
                  cmd = first_error error cmd
              in if error = 0 \<and> c_type cmd = NBD_CMD_READ then
                   (let cmd = cmd\<lparr>c_data_seen := c_data_seen cmd + ucast (c_count cmd)\<rparr>
                    in goto (REPLY (SIMPLE_REPLY RECV_READ_PAYLOAD))
                         ((set_cmd cmd h)\<lparr>rbuf := RData (c_cookie cmd) 0,
                                          rlen := unat (c_count cmd)\<rparr>))
                 else goto (REPLY FINISH_COMMAND) (set_cmd cmd h)))"

text \<open>A chunk callback is told of the bytes at an offset of the buffer, with a status.\<close>

definition call_chunk ::
    "command \<Rightarrow> u8 list \<Rightarrow> u64 \<Rightarrow> u32 \<Rightarrow> u32 \<Rightarrow> nbd_handle \<Rightarrow> int \<times> u32 \<times> nbd_handle" where
  "call_chunk cmd bytes offset status err h =
     (case cb_fn (c_cb cmd) of
        FnChunk (Cbk (Some f) _) \<Rightarrow>
          (fst (f bytes offset status err), snd (f bytes offset status err),
           log_event (ChunkCall (c_cookie cmd) bytes offset status err) h)
      | _ \<Rightarrow> (0, err, h))"

abbreviation LIBNBD_READ_DATA :: u32 where "LIBNBD_READ_DATA \<equiv> 1"
abbreviation LIBNBD_READ_HOLE :: u32 where "LIBNBD_READ_HOLE \<equiv> 2"
abbreviation LIBNBD_READ_ERROR :: u32 where "LIBNBD_READ_ERROR \<equiv> 3"

definition enter_REPLY_SIMPLE_REPLY_RECV_READ_PAYLOAD :: handler where
  "enter_REPLY_SIMPLE_REPLY_RECV_READ_PAYLOAD h =
     recv_or_save (\<lambda>h. do {
       cmd \<leftarrow> get_reply_cmd h;
       if fn_is_null (cb_fn (c_cb cmd)) then goto (REPLY FINISH_COMMAND) h
       else do {
         buf \<leftarrow> c_data cmd;
         let (r, err, h) = call_chunk cmd buf (c_offset cmd) LIBNBD_READ_DATA (c_error cmd) h;
         let h = (if r = -1
                  then set_cmd (cmd\<lparr>c_error := (if err \<noteq> 0 then err else EPROTO)\<rparr>) h else h);
         goto (REPLY FINISH_COMMAND) h } }) h"

fun enter_REPLY_SIMPLE :: "simple_reply_state \<Rightarrow> handler" where
  "enter_REPLY_SIMPLE SIMPLE_START = enter_REPLY_SIMPLE_REPLY_START"
| "enter_REPLY_SIMPLE RECV_READ_PAYLOAD = enter_REPLY_SIMPLE_REPLY_RECV_READ_PAYLOAD"

end
