(* ===== verification/NBD_Chunk.thy ===== *)
theory NBD_Chunk
  imports NBD_Reply
begin

text \<open>
  The states that parse the chunks of structured and extended replies
  (\<^verbatim>\<open>generator/states-reply-chunk.c\<close>), one definition per state.
\<close>

section \<open>Length and range checks\<close>

definition structured_reply_in_bounds :: "u64 \<Rightarrow> u32 \<Rightarrow> command \<Rightarrow> bool" where
  "structured_reply_in_bounds offset len cmd \<longleftrightarrow>
     \<not> (offset < c_offset cmd \<or>
        offset \<ge> c_offset cmd + c_count cmd \<or>
        offset + ucast len > c_offset cmd + c_count cmd)"

abbreviation out_of_bounds_error :: "nbd_handle \<Rightarrow> nbd_handle" where
  "out_of_bounds_error \<equiv> set_error 0 ''range of structured reply is out of bounds''"

definition bs_reply_length_ok :: "u16 \<Rightarrow> u32 \<Rightarrow> bool option" where
  "bs_reply_length_ok type len =
     (let check = (\<lambda>prefix_len extent_len.
            \<not> unat len < prefix_len + extent_len \<and> (unat len - prefix_len) mod extent_len = 0)
      in if type = NBD_REPLY_TYPE_BLOCK_STATUS
         then Some (check sizeof_chunk_block_status_32 sizeof_block_descriptor_32)
         else do {
           asrt (type = NBD_REPLY_TYPE_BLOCK_STATUS_EXT);
           Some (check sizeof_chunk_block_status_64 sizeof_block_descriptor_64) })"

section \<open>Starting a chunk\<close>

text \<open>The label \<^verbatim>\<open>resync\<close>: what is left of the payload is skipped.\<close>

definition resync :: handler where
  "resync h = goto (REPLY (CHUNK_REPLY RESYNC))
     (h\<lparr>rbuf := RNull, rlen := payload_left h, payload_left := 0\<rparr>)"

definition chunk_length :: "nbd_handle \<Rightarrow> u64" where
  "chunk_length h = (if extended_headers h then extended_length (sbuf h)
                     else ucast (structured_length (sbuf h)))"

definition recv_payload :: "nat \<Rightarrow> nbd_handle \<Rightarrow> nbd_handle" where
  "recv_payload n h = h\<lparr>rbuf := RSbuf payload_off, rlen := n\<rparr>"

text \<open>The case of a block status chunk, and the switch over the types of chunks.\<close>

definition start_block_status :: "u16 \<Rightarrow> u64 \<Rightarrow> command \<Rightarrow> handler" where
  "start_block_status type len cmd h =
     (if c_type cmd \<noteq> NBD_CMD_BLOCK_STATUS \<or> \<not> meta_valid h \<or> meta_contexts h = [] then resync h
      else do {
        ok \<leftarrow> bs_reply_length_ok type (ucast len);
        if \<not> ok then resync h
        else do {
          asrt (\<not> fn_is_null (cb_fn (c_cb cmd)));
          let h = (if extended_headers h \<noteq> (type = NBD_REPLY_TYPE_BLOCK_STATUS_EXT)
                   then set_cmd (first_error EPROTO cmd) h else h);
          goto (REPLY (CHUNK_REPLY RECV_BS_HEADER))
            (recv_payload (if type = NBD_REPLY_TYPE_BLOCK_STATUS
               then sizeof_chunk_block_status_32 else sizeof_chunk_block_status_64) h) } })"

definition start_chunk :: "u16 \<Rightarrow> u16 \<Rightarrow> u64 \<Rightarrow> command \<Rightarrow> handler" where
  "start_chunk flags type len cmd h =
     (if type = NBD_REPLY_TYPE_NONE then
        (if len \<noteq> 0 \<or> flags AND NBD_REPLY_FLAG_DONE = 0 then resync h
         else goto (REPLY (CHUNK_REPLY CHUNK_FINISH)) h)
      else if type = NBD_REPLY_TYPE_OFFSET_DATA then
        (if c_type cmd \<noteq> NBD_CMD_READ \<or> unat len < sizeof_chunk_offset_data then resync h
         else goto (REPLY (CHUNK_REPLY RECV_OFFSET_DATA))
           (recv_payload sizeof_chunk_offset_data
             (h\<lparr>payload_left := payload_left h - sizeof_chunk_offset_data\<rparr>)))
      else if type = NBD_REPLY_TYPE_OFFSET_HOLE then
        (if c_type cmd \<noteq> NBD_CMD_READ \<or> unat len \<noteq> sizeof_chunk_offset_hole then resync h
         else goto (REPLY (CHUNK_REPLY RECV_OFFSET_HOLE))
           (recv_payload sizeof_chunk_offset_hole
             (h\<lparr>payload_left := payload_left h - sizeof_chunk_offset_hole\<rparr>)))
      else if type = NBD_REPLY_TYPE_BLOCK_STATUS \<or> type = NBD_REPLY_TYPE_BLOCK_STATUS_EXT then
        start_block_status type len cmd h
      else if NBD_REPLY_TYPE_IS_ERR type then
        (if unat len < 4 then resync h
         else goto (REPLY (CHUNK_REPLY RECV_ERROR))
           (recv_payload (min (unat len) sizeof_chunk_error) h))
      else resync h)"

definition enter_REPLY_CHUNK_REPLY_START :: handler where
  "enter_REPLY_CHUNK_REPLY_START h =
     (if unat (chunk_length h) > MAX_REQUEST_SIZE + sizeof_chunk_offset_data then
        goto DEAD (set_error 0 ''invalid server reply length'' h)
      else case get_reply_cmd h of
        None \<Rightarrow> resync h
      | Some cmd \<Rightarrow>
          if \<not> structured_replies h \<or>
             (extended_headers h \<and> extended_offset (sbuf h) \<noteq> c_offset cmd) then resync h
          else start_chunk (structured_flags (sbuf h)) (structured_type (sbuf h)) (chunk_length h) cmd
                 (h\<lparr>payload_left := unat (chunk_length h)\<rparr>))"

section \<open>Error chunks\<close>

definition enter_REPLY_CHUNK_REPLY_RECV_ERROR :: handler where
  "enter_REPLY_CHUNK_REPLY_RECV_ERROR =
     recv_or_save (\<lambda>h. do {
       let length = payload_left h;
       let h = h\<lparr>payload_left := payload_left h - min length sizeof_chunk_error\<rparr>;
       asrt (length \<ge> 4);
       cmd \<leftarrow> get_reply_cmd h;
       let msglen = unat (error_len (sbuf h));
       if length < sizeof_chunk_error \<or> msglen > payload_left h \<or> msglen > NBD_MAX_STRING then
         resync (set_cmd (first_error (nbd_internal_errno_of_nbd_error (error_error (sbuf h))) cmd) h)
       else
         goto (REPLY (CHUNK_REPLY RECV_ERROR_MESSAGE))
           (h\<lparr>rbuf := RSbuf (payload_off + sizeof_chunk_error), rlen := msglen,
              payload_left := payload_left h - msglen\<rparr>) })"

definition enter_REPLY_CHUNK_REPLY_RECV_ERROR_MESSAGE :: handler where
  "enter_REPLY_CHUNK_REPLY_RECV_ERROR_MESSAGE =
     recv_or_save (\<lambda>h.
       (let type = structured_type (sbuf h);
            ptr = (if type = NBD_REPLY_TYPE_ERROR_OFFSET \<and> payload_left h = 8
                   then RSbuf (payload_off + sizeof_chunk_error + NBD_MAX_STRING) else RNull)
        in goto (REPLY (CHUNK_REPLY RECV_ERROR_TAIL))
             (h\<lparr>rbuf := ptr, rlen := payload_left h, payload_left := 0\<rparr>)))"

definition enter_REPLY_CHUNK_REPLY_RECV_ERROR_TAIL :: handler where
  "enter_REPLY_CHUNK_REPLY_RECV_ERROR_TAIL =
     recv_or_save (\<lambda>h. do {
       let type = structured_type (sbuf h);
       cmd \<leftarrow> get_reply_cmd h;
       let error = nbd_internal_errno_of_nbd_error (error_error (sbuf h));
       let error = (if error = 0 then EPROTO else error);
       let (cmd, h) =
         (if type = NBD_REPLY_TYPE_ERROR_OFFSET \<and> rbuf h \<noteq> RNull then
            (let offset = error_offset (sbuf h)
             in if \<not> structured_reply_in_bounds offset 0 cmd then (cmd, out_of_bounds_error h)
                else if c_type cmd = NBD_CMD_READ \<and> \<not> fn_is_null (cb_fn (c_cb cmd)) then
                  (let (r, scratch, h) = call_chunk cmd [] offset LIBNBD_READ_ERROR error h
                   in (if r = -1 then first_error scratch cmd else cmd, h))
                else (cmd, h))
          else (cmd, h));
       goto (REPLY (CHUNK_REPLY CHUNK_FINISH)) (set_cmd (first_error error cmd) h) })"

section \<open>Data and holes\<close>

definition add_data_seen :: "u32 \<Rightarrow> command \<Rightarrow> command" where
  "add_data_seen n cmd = (if ucast (c_data_seen cmd) \<le> c_count cmd
     then cmd\<lparr>c_data_seen := c_data_seen cmd + n\<rparr> else cmd)"

definition enter_REPLY_CHUNK_REPLY_RECV_OFFSET_DATA :: handler where
  "enter_REPLY_CHUNK_REPLY_RECV_OFFSET_DATA =
     recv_or_save (\<lambda>h. do {
       let offset = offset_data_offset (sbuf h);
       cmd \<leftarrow> get_reply_cmd h;
       asrt (c_data cmd \<noteq> None \<and> c_type cmd = NBD_CMD_READ);
       if \<not> structured_reply_in_bounds offset (of_nat (payload_left h)) cmd then
         goto DEAD (out_of_bounds_error h)
       else do {
         let h = set_cmd (add_data_seen (of_nat (payload_left h)) cmd) h;
         let offset = offset - c_offset cmd;
         goto (REPLY (CHUNK_REPLY RECV_OFFSET_DATA_DATA))
           (h\<lparr>rbuf := RData (c_cookie cmd) (unat offset), rlen := payload_left h\<rparr>) } })"

text \<open>A chunk callback on a data chunk or hole: a failure is recorded unless one already was.\<close>

definition chunk_result :: "int \<Rightarrow> u32 \<Rightarrow> command \<Rightarrow> command" where
  "chunk_result r err cmd =
     (if r = -1 then first_error (if err \<noteq> 0 then err else EPROTO) cmd else cmd)"

definition enter_REPLY_CHUNK_REPLY_RECV_OFFSET_DATA_DATA :: handler where
  "enter_REPLY_CHUNK_REPLY_RECV_OFFSET_DATA_DATA =
     recv_or_save (\<lambda>h. do {
       let offset = offset_data_offset (sbuf h);
       cmd \<leftarrow> get_reply_cmd h;
       h \<leftarrow> (if fn_is_null (cb_fn (c_cb cmd)) then Some h
             else do {
               buf \<leftarrow> c_data cmd;
               let bytes = take (payload_left h) (drop (unat (offset - c_offset cmd)) buf);
               let (r, err, h) = call_chunk cmd bytes offset LIBNBD_READ_DATA (c_error cmd) h;
               Some (set_cmd (chunk_result r err cmd) h) });
       goto (REPLY (CHUNK_REPLY CHUNK_FINISH)) (h\<lparr>payload_left := 0\<rparr>) })"

definition enter_REPLY_CHUNK_REPLY_RECV_OFFSET_HOLE :: handler where
  "enter_REPLY_CHUNK_REPLY_RECV_OFFSET_HOLE =
     recv_or_save (\<lambda>h. do {
       let offset = offset_hole_offset (sbuf h);
       let length = offset_hole_length (sbuf h);
       cmd \<leftarrow> get_reply_cmd h;
       buf \<leftarrow> c_data cmd;
       asrt (c_type cmd = NBD_CMD_READ);
       if \<not> structured_reply_in_bounds offset length cmd then
         goto DEAD (out_of_bounds_error h)
       else do {
         let cmd = add_data_seen length cmd;
         let offset = offset - c_offset cmd;
         buf \<leftarrow> (if \<not> c_initialized cmd
                 then buf_write buf (unat offset) (replicate (unat length) 0) else Some buf);
         let cmd = cmd\<lparr>c_data := Some buf\<rparr>;
         let (cmd, h) =
           (if fn_is_null (cb_fn (c_cb cmd)) then (cmd, h)
            else (let bytes = take (unat length) (drop (unat offset) buf);
                      (r, err, h) = call_chunk cmd bytes (c_offset cmd + offset) LIBNBD_READ_HOLE
                        (c_error cmd) h
                  in (chunk_result r err cmd, h)));
         goto (REPLY (CHUNK_REPLY CHUNK_FINISH)) (set_cmd cmd h) } })"

section \<open>Block status\<close>

definition enter_REPLY_CHUNK_REPLY_RECV_BS_HEADER :: handler where
  "enter_REPLY_CHUNK_REPLY_RECV_BS_HEADER =
     recv_or_save (\<lambda>h. do {
       let type = structured_type (sbuf h);
       cmd \<leftarrow> get_reply_cmd h;
       asrt (c_type cmd = NBD_CMD_BLOCK_STATUS);
       ok \<leftarrow> bs_reply_length_ok type (of_nat (payload_left h));
       asrt ok;
       let narrow = (type = NBD_REPLY_TYPE_BLOCK_STATUS);
       let size = (if narrow then sizeof_block_descriptor_32 else sizeof_block_descriptor_64);
       let h = h\<lparr>payload_left := payload_left h -
         (if narrow then sizeof_chunk_block_status_32 else sizeof_chunk_block_status_64)\<rparr>;
       asrt (payload_left h mod size = 0);
       let h = h\<lparr>bs_count := payload_left h div size\<rparr>;
       if \<not> narrow \<and> bs_count h \<noteq> unat (bs_hdr_64_count (sbuf h)) then resync h
       else
         goto (REPLY (CHUNK_REPLY RECV_BS_ENTRIES))
           (h\<lparr>bs_raw := replicate (payload_left h) 0, rbuf := RBsRaw 0,
              rlen := payload_left h, payload_left := 0\<rparr>) })"

text \<open>The descriptors as they arrived, converted to host byte order.\<close>

definition raw_extent :: "bool \<Rightarrow> u8 list \<Rightarrow> nat \<Rightarrow> u64 \<times> u64" where
  "raw_extent narrow raw i =
     (if narrow then (ucast (be32toh (take 4 (drop (i * 8) raw))),
                      ucast (be32toh (take 4 (drop (i * 8 + 4) raw))))
      else (be64toh (take 8 (drop (i * 16) raw)), be64toh (take 8 (drop (i * 16 + 8) raw))))"

abbreviation INT64_MAX :: u64 where "INT64_MAX \<equiv> 0x7FFFFFFFFFFFFFFF"
abbreviation UINT32_MAX :: u64 where "UINT32_MAX \<equiv> 0xFFFFFFFF"

text \<open>
  The limits of a wide descriptor: \<open>clip\<close> answers with the length, and whether to stop after
  this extent.
\<close>

definition clip_length :: "bool \<Rightarrow> bool \<Rightarrow> u64 \<Rightarrow> u64 \<times> bool" where
  "clip_length narrow wide len =
     (if narrow then (len, False)
      else (let (len, stop) = (if len > INT64_MAX then (0x7FFFFFFFFC000000, True) else (len, False))
            in if len > UINT32_MAX \<and> \<not> wide then (0xFC000000, True) else (len, stop)))"

text \<open>
  One turn of the loop over the descriptors. \<open>out\<close> holds the extents stored so far and \<open>tot\<close> is
  the sum of their lengths. \<open>Inl\<close>: the loop ends with these extents and this error, by a
  \<^verbatim>\<open>break\<close> before the extent is stored or by \<^verbatim>\<open>stop\<close> after it; \<open>Inr\<close>: it goes on.
\<close>

type_synonym cooked = "(u64 \<times> u64) list \<times> u32"

definition cook_step ::
    "bool \<Rightarrow> bool \<Rightarrow> u64 \<Rightarrow> u64 \<times> u64 \<Rightarrow> u64 \<Rightarrow> u32 \<Rightarrow> (u64 \<times> u64) list
     \<Rightarrow> (cooked + u64 \<times> u32 \<times> (u64 \<times> u64) list) option" where
  "cook_step narrow wide cap ext tot err out = (
     let (len, stop) = clip_length narrow wide (fst ext);
         flags = snd ext;
         bad = (\<not> narrow \<and> flags > UINT32_MAX \<and> \<not> wide)
     in if bad \<and> out \<noteq> [] then Some (Inl (out, err))
        else do {
          let err = (if bad \<and> err = 0 then EOVERFLOW else err);
          let flags = (if bad then flags AND UINT32_MAX else flags);
          asrt (tot \<le> cap);
          let over = (len > cap - tot);
          let err = (if over \<and> err = 0 then EPROTO else err);
          let len = (if over then cap - tot else len);
          if len = 0 \<and> out \<noteq> [] then Some (Inl (out, err))
          else do {
            let err = (if len = 0 \<and> err = 0 then EPROTO else err);
            asrt (wide \<or> (len OR flags) \<le> UINT32_MAX);
            if stop \<or> bad \<or> over \<or> len = 0 then Some (Inl (out @ [(len, flags)], err))
            else Some (Inr (tot + len, err, out @ [(len, flags)])) } })"

fun cook_extents ::
    "bool \<Rightarrow> bool \<Rightarrow> u64 \<Rightarrow> (u64 \<times> u64) list \<Rightarrow> u64 \<Rightarrow> u32 \<Rightarrow> (u64 \<times> u64) list \<Rightarrow> cooked option" where
  "cook_extents narrow wide cap [] tot err out = Some (out, err)"
| "cook_extents narrow wide cap (ext # rest) tot err out =
     (case cook_step narrow wide cap ext tot err out of
        None \<Rightarrow> None
      | Some (Inl res) \<Rightarrow> Some res
      | Some (Inr (tot', err', out')) \<Rightarrow> cook_extents narrow wide cap rest tot' err' out')"

definition call_extent ::
    "command \<Rightarrow> cstr \<Rightarrow> (u64 \<times> u64) list \<Rightarrow> u32 \<Rightarrow> nbd_handle \<Rightarrow> int \<times> u32 \<times> nbd_handle" where
  "call_extent cmd name exts err h =
     (let h' = log_event (ExtentCall (c_cookie cmd) name (c_offset cmd) exts err) h
      in case cb_fn (c_cb cmd) of
           FnExtent64 (Cbk (Some f) _) \<Rightarrow>
             (let (r, err') = f name (c_offset cmd) exts err in (r, err', h'))
         | FnExtent32 (Cbk (Some f) _) \<Rightarrow>
             (let (r, err') = f name (c_offset cmd)
                    (concat (map (\<lambda>(len, flags). [ucast len, ucast flags]) exts)) err
              in (r, err', h'))
         | _ \<Rightarrow> (0, err, h))"

definition extent_cap :: "u64 \<Rightarrow> u64 \<Rightarrow> u64" where
  "extent_cap export_size offset = (if offset \<le> export_size then export_size - offset else 0)"

definition enter_REPLY_CHUNK_REPLY_RECV_BS_ENTRIES :: handler where
  "enter_REPLY_CHUNK_REPLY_RECV_BS_ENTRIES =
     recv_or_save (\<lambda>h. do {
       let type = structured_type (sbuf h);
       cmd \<leftarrow> get_reply_cmd h;
       asrt (c_type cmd = NBD_CMD_BLOCK_STATUS);
       asrt (\<not> fn_is_null (cb_fn (c_cb cmd)));
       asrt (bs_count h \<noteq> 0 \<and> bs_raw h \<noteq> []);
       asrt (meta_valid h);
       let context_id = bs_hdr_context_id (sbuf h);
       let h = SET_NEXT_STATE (REPLY (CHUNK_REPLY CHUNK_FINISH)) h;
       case find (\<lambda>m. mc_context_id m = context_id) (meta_contexts h) of
         None \<Rightarrow> return0 h
       | Some m \<Rightarrow> do {
           let narrow = (type = NBD_REPLY_TYPE_BLOCK_STATUS);
           let cap = extent_cap (exportsize h) (c_offset cmd);
           (exts, err) \<leftarrow> cook_extents narrow (cb_wide (c_cb cmd)) cap
             (map (raw_extent narrow (bs_raw h)) [0 ..< bs_count h]) 0 (c_error cmd) [];
           let cmd = cmd\<lparr>c_error := err\<rparr>;
           let (ret, err', h) = call_extent cmd (mc_name m) exts err h;
           return0 (set_cmd (chunk_result ret err' cmd) h) } })"

section \<open>Resynchronisation and the end of a chunk\<close>

definition enter_REPLY_CHUNK_REPLY_RESYNC :: handler where
  "enter_REPLY_CHUNK_REPLY_RESYNC h = do {
     asrt (rbuf h = RNull);
     recv_or_save (\<lambda>h.
       (case get_reply_cmd h of
          None \<Rightarrow> goto (REPLY FINISH_COMMAND) h
        | Some cmd \<Rightarrow> goto (REPLY (CHUNK_REPLY CHUNK_FINISH)) (set_cmd (first_error EPROTO cmd) h))) h }"

definition enter_REPLY_CHUNK_REPLY_FINISH :: handler where
  "enter_REPLY_CHUNK_REPLY_FINISH h = do {
     asrt (payload_left h = 0);
     if structured_flags (sbuf h) AND NBD_REPLY_FLAG_DONE \<noteq> 0 then goto (REPLY FINISH_COMMAND) h
     else goto READY (h\<lparr>reply_cmd := None\<rparr>) }"

fun enter_REPLY_CHUNK :: "chunk_reply_state \<Rightarrow> handler" where
  "enter_REPLY_CHUNK CHUNK_START = enter_REPLY_CHUNK_REPLY_START"
| "enter_REPLY_CHUNK RECV_ERROR = enter_REPLY_CHUNK_REPLY_RECV_ERROR"
| "enter_REPLY_CHUNK RECV_ERROR_MESSAGE = enter_REPLY_CHUNK_REPLY_RECV_ERROR_MESSAGE"
| "enter_REPLY_CHUNK RECV_ERROR_TAIL = enter_REPLY_CHUNK_REPLY_RECV_ERROR_TAIL"
| "enter_REPLY_CHUNK RECV_OFFSET_DATA = enter_REPLY_CHUNK_REPLY_RECV_OFFSET_DATA"
| "enter_REPLY_CHUNK RECV_OFFSET_DATA_DATA = enter_REPLY_CHUNK_REPLY_RECV_OFFSET_DATA_DATA"
| "enter_REPLY_CHUNK RECV_OFFSET_HOLE = enter_REPLY_CHUNK_REPLY_RECV_OFFSET_HOLE"
| "enter_REPLY_CHUNK RECV_BS_HEADER = enter_REPLY_CHUNK_REPLY_RECV_BS_HEADER"
| "enter_REPLY_CHUNK RECV_BS_ENTRIES = enter_REPLY_CHUNK_REPLY_RECV_BS_ENTRIES"
| "enter_REPLY_CHUNK RESYNC = enter_REPLY_CHUNK_REPLY_RESYNC"
| "enter_REPLY_CHUNK CHUNK_FINISH = enter_REPLY_CHUNK_REPLY_FINISH"

fun enter_REPLY :: "reply_state \<Rightarrow> handler" where
  "enter_REPLY REPLY_START = enter_REPLY_START"
| "enter_REPLY RECV_REPLY = enter_REPLY_RECV_REPLY"
| "enter_REPLY CHECK_REPLY_MAGIC = enter_REPLY_CHECK_REPLY_MAGIC"
| "enter_REPLY RECV_STRUCTURED_REMAINING = enter_REPLY_RECV_STRUCTURED_REMAINING"
| "enter_REPLY (SIMPLE_REPLY s) = enter_REPLY_SIMPLE s"
| "enter_REPLY (CHUNK_REPLY s) = enter_REPLY_CHUNK s"
| "enter_REPLY FINISH_COMMAND = enter_REPLY_FINISH_COMMAND"

end
