(* ===== verification/NBD_Flags.thy ===== *)
theory NBD_Flags
  imports NBD_Engine
begin

text \<open>
  What the server says about the export (\<^verbatim>\<open>lib/flags.c\<close>): size, per-export flags, block size
  constraints and the payload cap, with the public queries over them.
\<close>

section \<open>Recording what the server advertised\<close>

definition nbd_internal_reset_size_and_flags :: "nbd_handle \<Rightarrow> nbd_handle" where
  "nbd_internal_reset_size_and_flags h =
     h\<lparr>exportsize := 0, eflags := 0, block_minimum := 0, block_preferred := 0,
       block_maximum := 0, payload_maximum := 0, canonical_name := None, description := None\<rparr>"

text \<open>The flags that survive the cross checks.\<close>

definition filter_eflags :: "bool \<Rightarrow> bool \<Rightarrow> u16 \<Rightarrow> u16" where
  "filter_eflags sr eh fl0 = (
     let fl1 = (if fl0 AND NBD_FLAG_SEND_DF \<noteq> 0 \<and> \<not> sr then fl0 AND NOT NBD_FLAG_SEND_DF else fl0);
         fl2 = (if fl1 AND NBD_FLAG_BLOCK_STATUS_PAYLOAD \<noteq> 0 \<and> \<not> eh
                then fl1 AND NOT NBD_FLAG_BLOCK_STATUS_PAYLOAD else fl1);
         fl3 = (if fl2 AND NBD_FLAG_SEND_FAST_ZERO \<noteq> 0 \<and> fl2 AND NBD_FLAG_SEND_WRITE_ZEROES = 0
                then fl2 AND NOT NBD_FLAG_SEND_FAST_ZERO else fl2)
     in fl3)"

definition nbd_internal_set_size_and_flags ::
    "u64 \<Rightarrow> u16 \<Rightarrow> nbd_handle \<Rightarrow> (nbd_handle \<times> int) option" where
  "nbd_internal_set_size_and_flags esize fl h =
     (if fl = 0 then Some (set_error EINVAL ''handshake: invalid eflags == 0 from server'' h, -1)
      else do {
        let fl = filter_eflags (structured_replies h) (extended_headers h) fl;
        h \<leftarrow> (if request_meta h \<and> (\<not> structured_replies h \<or> request_meta_contexts h = [])
              then do { asrt (meta_contexts h = []); Some (h\<lparr>meta_valid := True\<rparr>) }
              else Some h);
        Some (h\<lparr>exportsize := esize, eflags := fl\<rparr>, 0) })"

definition block_size_ok :: "u32 \<Rightarrow> u32 \<Rightarrow> u32 \<Rightarrow> bool" where
  "block_size_ok bmin pref bmax \<longleftrightarrow>
     \<not> (bmin = 0 \<or> bmin > 64 * 1024 \<or> bmin > pref \<or> pref < 512 \<or> pref > bmax) \<and>
     \<not> (bmin AND (bmin - 1) \<noteq> 0 \<or> pref AND (pref - 1) \<noteq> 0) \<and>
     \<not> (bmax \<noteq> 0xffffffff \<and> bmax mod bmin \<noteq> 0)"

definition nbd_internal_set_block_size ::
    "u32 \<Rightarrow> u32 \<Rightarrow> u32 \<Rightarrow> nbd_handle \<Rightarrow> nbd_handle \<times> int" where
  "nbd_internal_set_block_size bmin pref bmax h =
     (if block_size_ok bmin pref bmax
      then (h\<lparr>block_minimum := bmin, block_preferred := pref, block_maximum := bmax\<rparr>, 0)
      else (h, 0))"

definition nbd_internal_set_payload :: "nbd_handle \<Rightarrow> nbd_handle" where
  "nbd_internal_set_payload h =
     h\<lparr>payload_maximum := (if block_maximum h \<noteq> 0
        then min (64 * 1024 * 1024) (max (1024 * 1024) (block_maximum h))
        else 32 * 1024 * 1024)\<rparr>"

section \<open>Queries\<close>

text \<open>A query answers with the handle, whose error may be set, and the C return value.\<close>

definition get_flag :: "u16 \<Rightarrow> nbd_handle \<Rightarrow> nbd_handle \<times> int" where
  "get_flag flag h =
     (if eflags h = 0
      then (set_error EINVAL ''server has not returned export flags, you need to connect to the server first'' h, -1)
      else (h, if eflags h AND flag \<noteq> 0 then 1 else 0))"

definition nbd_unlocked_is_read_only where
  "nbd_unlocked_is_read_only = get_flag NBD_FLAG_READ_ONLY"
definition nbd_unlocked_can_flush where
  "nbd_unlocked_can_flush = get_flag NBD_FLAG_SEND_FLUSH"
definition nbd_unlocked_can_fua where
  "nbd_unlocked_can_fua = get_flag NBD_FLAG_SEND_FUA"
definition nbd_unlocked_is_rotational where
  "nbd_unlocked_is_rotational = get_flag NBD_FLAG_ROTATIONAL"
definition nbd_unlocked_can_trim where
  "nbd_unlocked_can_trim = get_flag NBD_FLAG_SEND_TRIM"
definition nbd_unlocked_can_zero where
  "nbd_unlocked_can_zero = get_flag NBD_FLAG_SEND_WRITE_ZEROES"
definition nbd_unlocked_can_fast_zero where
  "nbd_unlocked_can_fast_zero = get_flag NBD_FLAG_SEND_FAST_ZERO"
definition nbd_unlocked_can_df where
  "nbd_unlocked_can_df = get_flag NBD_FLAG_SEND_DF"
definition nbd_unlocked_can_multi_conn where
  "nbd_unlocked_can_multi_conn = get_flag NBD_FLAG_CAN_MULTI_CONN"
definition nbd_unlocked_can_cache where
  "nbd_unlocked_can_cache = get_flag NBD_FLAG_SEND_CACHE"
definition nbd_unlocked_can_block_status_payload where
  "nbd_unlocked_can_block_status_payload = get_flag NBD_FLAG_BLOCK_STATUS_PAYLOAD"

lemmas can_defs = nbd_unlocked_is_read_only_def nbd_unlocked_can_flush_def nbd_unlocked_can_fua_def
  nbd_unlocked_is_rotational_def nbd_unlocked_can_trim_def nbd_unlocked_can_zero_def
  nbd_unlocked_can_fast_zero_def nbd_unlocked_can_df_def nbd_unlocked_can_multi_conn_def
  nbd_unlocked_can_cache_def nbd_unlocked_can_block_status_payload_def

definition nbd_unlocked_can_meta_context :: "cstr \<Rightarrow> nbd_handle \<Rightarrow> nbd_handle \<times> int" where
  "nbd_unlocked_can_meta_context name h =
     (if request_meta_contexts h \<noteq> [] \<and> \<not> meta_valid h
      then (set_error EINVAL ''need a successful server meta context request first'' h, -1)
      else if \<exists>m \<in> set (meta_contexts h). mc_name m = name then (h, 1) else (h, 0))"

definition nbd_unlocked_get_size :: "nbd_handle \<Rightarrow> nbd_handle \<times> int" where
  "nbd_unlocked_get_size h =
     (if eflags h = 0
      then (set_error EINVAL ''server has not returned export size, you need to connect to the server first'' h, -1)
      else if exportsize h > 0x7FFFFFFFFFFFFFFF
      then (set_error EOVERFLOW ''server claims size which does not fit in signed result'' h, -1)
      else (h, uint (exportsize h)))"

datatype size_type = LIBNBD_SIZE_MINIMUM | LIBNBD_SIZE_PREFERRED | LIBNBD_SIZE_MAXIMUM
  | LIBNBD_SIZE_PAYLOAD

definition nbd_unlocked_get_block_size :: "size_type \<Rightarrow> nbd_handle \<Rightarrow> nbd_handle \<times> int" where
  "nbd_unlocked_get_block_size t h =
     (if eflags h = 0
      then (set_error EINVAL ''server has not returned export flags, you need to connect to the server first'' h, -1)
      else (h, case t of LIBNBD_SIZE_MINIMUM \<Rightarrow> uint (block_minimum h)
                 | LIBNBD_SIZE_PREFERRED \<Rightarrow> uint (block_preferred h)
                 | LIBNBD_SIZE_MAXIMUM \<Rightarrow> uint (block_maximum h)
                 | LIBNBD_SIZE_PAYLOAD \<Rightarrow> uint (payload_maximum h)))"

end
