(* ===== verification/NBD_Newstyle.thy ===== *)
theory NBD_Newstyle
  imports NBD_Flags
begin

text \<open>
  The handshake up to the options: the magic number (\<^verbatim>\<open>generator/states-magic.c\<close>), the oldstyle
  handshake (\<^verbatim>\<open>generator/states-oldstyle.c\<close>) and the newstyle one
  (\<^verbatim>\<open>generator/states-newstyle.c\<close>), with the checks every option reply goes through.
\<close>

abbreviation LIBNBD_TLS_DISABLE :: nat where "LIBNBD_TLS_DISABLE \<equiv> 0"
abbreviation LIBNBD_TLS_ALLOW :: nat where "LIBNBD_TLS_ALLOW \<equiv> 1"
abbreviation LIBNBD_TLS_REQUIRE :: nat where "LIBNBD_TLS_REQUIRE \<equiv> 2"

section \<open>Receive and send in the handshake\<close>

text \<open>The handshake states block where they are when there is not enough data.\<close>

definition recv_then :: "handler \<Rightarrow> handler" where
  "recv_then f h = do {
     (h, r) \<leftarrow> recv_into_rbuf h;
     if r = -1 then goto DEAD h
     else if r = 0 then f h
     else return0 h }"

definition send_then :: "handler \<Rightarrow> handler" where
  "send_then f h = do {
     (h, r) \<leftarrow> send_from_wbuf h;
     if r = -1 then goto DEAD h
     else if r = 0 then f h
     else return0 h }"

text \<open>Sending the first bytes of \<^verbatim>\<open>sbuf\<close> after storing them there.\<close>

definition put_sbuf :: "u8 list \<Rightarrow> nbd_handle \<Rightarrow> nbd_handle" where
  "put_sbuf bs h = h\<lparr>sbuf := mem_write (sbuf h) 0 bs, wbuf := bs, wlen := length bs\<rparr>"

definition put_option :: "u32 \<Rightarrow> u32 \<Rightarrow> nbd_handle \<Rightarrow> nbd_handle" where
  "put_option opt optlen h =
     (put_sbuf (htobe64 NBD_NEW_VERSION @ htobe32 opt @ htobe32 optlen) h)
       \<lparr>chunks_sent := chunks_sent h + 1\<rparr>"

definition msg_more :: "nbd_handle \<Rightarrow> nbd_handle" where
  "msg_more h = h\<lparr>wflags_more := True\<rparr>"

definition await_option_reply :: "nbd_handle \<Rightarrow> nbd_handle" where
  "await_option_reply h = h\<lparr>rbuf := RSbuf 0, rlen := sizeof_option_reply\<rparr>"

section \<open>Option replies\<close>

text \<open>The payload follows the header of an option reply in \<^verbatim>\<open>sbuf.or\<close>.\<close>

abbreviation or_payload :: nat where "or_payload \<equiv> 20"
abbreviation sizeof_or_payload :: nat where "sizeof_or_payload \<equiv> 8197"
abbreviation sizeof_payload_context :: nat where "sizeof_payload_context \<equiv> 4100"

definition or_magic :: "mem \<Rightarrow> u64" where "or_magic m = rd64 m 0"
definition or_option :: "mem \<Rightarrow> u32" where "or_option m = rd32 m 8"
definition or_reply :: "mem \<Rightarrow> u32" where "or_reply m = rd32 m 12"
definition or_replylen :: "mem \<Rightarrow> u32" where "or_replylen m = rd32 m 16"

lemmas or_defs = or_magic_def or_option_def or_reply_def or_replylen_def

definition prepare_for_reply_payload :: "u32 \<Rightarrow> nbd_handle \<Rightarrow> nbd_handle \<times> int" where
  "prepare_for_reply_payload opt h =
     (let reply = or_reply (sbuf h); len = unat (or_replylen (sbuf h))
      in if or_magic (sbuf h) \<noteq> NBD_REP_MAGIC \<or> or_option (sbuf h) \<noteq> opt then
           (set_error 0 ''handshake: invalid option reply magic or option'' h, -1)
         else if reply = NBD_REP_ACK \<and> len \<noteq> 0 then
           (set_error 0 ''handshake: invalid NBD_REP_ACK option reply length'' h, -1)
         else if reply = NBD_REP_INFO \<and> len < 2 then
           (set_error 0 ''handshake: NBD_REP_INFO reply length too small'' h, -1)
         else if reply = NBD_REP_META_CONTEXT \<and> (len \<le> 4 \<or> len > sizeof_payload_context) then
           (set_error 0 ''handshake: invalid NBD_REP_META_CONTEXT reply length'' h, -1)
         else if len > MAX_REQUEST_SIZE then
           (set_error 0 ''handshake: invalid option reply length'' h, -1)
         else (h\<lparr>rbuf := (if len \<le> sizeof_or_payload then RSbuf or_payload else RNull),
                 rlen := len\<rparr>, 0))"

text \<open>A message from the server is quoted before it becomes part of an error.\<close>

definition ascii_isprint :: "u8 \<Rightarrow> bool" where
  "ascii_isprint c \<longleftrightarrow> 32 \<le> c \<and> c \<le> 126"

definition hex_digit :: "nat \<Rightarrow> char" where
  "hex_digit n = ''0123456789abcdef'' ! n"

definition quote_byte :: "u8 \<Rightarrow> string" where
  "quote_byte b =
     (if ascii_isprint b then [char_of (unat b)]
      else [CHR 0x5C, CHR ''x'', hex_digit (unat b div 16), hex_digit (unat b mod 16)])"

definition reply_error_errno :: "u32 \<Rightarrow> u32" where
  "reply_error_errno reply =
     (if reply = NBD_REP_ERR_UNSUP then ENOTSUP
      else if reply = NBD_REP_ERR_INVALID \<or> reply = NBD_REP_ERR_TOO_BIG \<or>
              reply = NBD_REP_ERR_BLOCK_SIZE_REQD then EINVAL
      else if reply = NBD_REP_ERR_TLS_REQD then ENOTSUP
      else if reply = NBD_REP_ERR_UNKNOWN then ENOENT
      else if reply = NBD_REP_ERR_SHUTDOWN then ESHUTDOWN
      else 0)"

definition reply_error_text :: "u32 \<Rightarrow> cstr \<Rightarrow> string" where
  "reply_error_text reply name =
     (if reply = NBD_REP_ERR_UNSUP then ''the operation is not supported by the server''
      else if reply = NBD_REP_ERR_POLICY then ''server policy prevents the operation''
      else if reply = NBD_REP_ERR_PLATFORM then
        ''the operation is not supported by the server platform''
      else if reply = NBD_REP_ERR_INVALID then ''the server rejected this operation as invalid''
      else if reply = NBD_REP_ERR_TOO_BIG then ''the operation is too large to process''
      else if reply = NBD_REP_ERR_TLS_REQD then ''the server requires TLS encryption first''
      else if reply = NBD_REP_ERR_UNKNOWN then
        ''the server has no export named '' @ [CHR 0x27] @ map (\<lambda>b. char_of (unat b)) name @ [CHR 0x27]
      else if reply = NBD_REP_ERR_SHUTDOWN then ''the server is shutting down''
      else if reply = NBD_REP_ERR_BLOCK_SIZE_REQD then ''the server requires specific block sizes''
      else ''handshake: unknown reply from the server'')"

definition handle_reply_error :: "nbd_handle \<Rightarrow> nbd_handle \<times> int" where
  "handle_reply_error h =
     (let reply = or_reply (sbuf h); replylen = unat (or_replylen (sbuf h))
      in if \<not> NBD_REP_IS_ERR reply then
           (set_error 0 ''handshake: unexpected option reply type'' h, -1)
         else if replylen > NBD_MAX_STRING then
           (set_error 0 ''handshake: option error string too long'' h, -1)
         else
           (let msg = rd_bytes (sbuf h) or_payload replylen;
                quoted = (if replylen > 0 then '': '' @ concat (map quote_byte msg) else '''')
            in (set_error (reply_error_errno reply)
                  (reply_error_text reply (export_name h) @ quoted) h, 0)))"

section \<open>Magic number and oldstyle handshake\<close>

definition enter_MAGIC_START :: handler where
  "enter_MAGIC_START h = goto (MAGIC RECV_MAGIC) (h\<lparr>rbuf := RSbuf 0, rlen := 16\<rparr>)"

definition enter_MAGIC_RECV_MAGIC :: handler where
  "enter_MAGIC_RECV_MAGIC = recv_then (goto (MAGIC CHECK_MAGIC))"

definition enter_MAGIC_CHECK_MAGIC :: handler where
  "enter_MAGIC_CHECK_MAGIC h =
     (if rd64 (sbuf h) 0 \<noteq> NBD_MAGIC then
        return0 (set_error 0 ''handshake: server did not send expected NBD magic'' (SET_NEXT_STATE DEAD h))
      else if rd64 (sbuf h) 8 = NBD_NEW_VERSION then do {
        asrt (opt_current h = 0);
        goto (NEWSTYLE NEWSTYLE_START) (h\<lparr>chunks_received := chunks_received h + 1\<rparr>) }
      else if rd64 (sbuf h) 8 = NBD_OLD_VERSION then
        goto (OLDSTYLE OLDSTYLE_START) (h\<lparr>chunks_received := chunks_received h + 1\<rparr>)
      else return0 (set_error 0 ''handshake: server is not either an oldstyle or fixed newstyle NBD server''
             (SET_NEXT_STATE DEAD h)))"

fun enter_MAGIC :: "magic_state \<Rightarrow> handler" where
  "enter_MAGIC MAGIC_START = enter_MAGIC_START"
| "enter_MAGIC RECV_MAGIC = enter_MAGIC_RECV_MAGIC"
| "enter_MAGIC CHECK_MAGIC = enter_MAGIC_CHECK_MAGIC"

definition enter_OLDSTYLE_START :: handler where
  "enter_OLDSTYLE_START h =
     goto (OLDSTYLE RECV_REMAINING) (h\<lparr>rbuf := RSbuf 16, rlen := sizeof_old_handshake - 16\<rparr>)"

definition enter_OLDSTYLE_RECV_REMAINING :: handler where
  "enter_OLDSTYLE_RECV_REMAINING = recv_then (goto (OLDSTYLE OLDSTYLE_CHECK))"

definition enter_OLDSTYLE_CHECK :: handler where
  "enter_OLDSTYLE_CHECK h =
     (let esize = rd64 (sbuf h) 16; gfl = rd16 (sbuf h) 24; fl = rd16 (sbuf h) 26
      in if tls h = LIBNBD_TLS_REQUIRE then
           return0 (set_error ENOTSUP ''handshake: server is oldstyle, but handle TLS setting is require (2)''
             (SET_NEXT_STATE DEAD h))
         else if gfl \<noteq> 0 then
           goto DEAD (set_error 0 ''handshake: oldstyle server should not set gflags'' (h\<lparr>gflags := gfl\<rparr>))
         else do {
           (h, r) \<leftarrow> nbd_internal_set_size_and_flags esize fl (h\<lparr>gflags := gfl\<rparr>);
           if r = -1 then goto DEAD h
           else goto READY ((nbd_internal_set_payload h)\<lparr>protocol := Some ''oldstyle''\<rparr>) })"

fun enter_OLDSTYLE :: "oldstyle_state \<Rightarrow> handler" where
  "enter_OLDSTYLE OLDSTYLE_START = enter_OLDSTYLE_START"
| "enter_OLDSTYLE RECV_REMAINING = enter_OLDSTYLE_RECV_REMAINING"
| "enter_OLDSTYLE OLDSTYLE_CHECK = enter_OLDSTYLE_CHECK"

section \<open>Newstyle handshake\<close>

definition fixed_newstyle :: "nbd_handle \<Rightarrow> bool" where
  "fixed_newstyle h \<longleftrightarrow> gflags h AND NBD_FLAG_FIXED_NEWSTYLE \<noteq> 0"

definition begin_newstyle :: handler where
  "begin_newstyle h = do {
     asrt (opt_current h = 0);
     goto (NEWSTYLE RECV_GFLAGS) (h\<lparr>rbuf := RSbuf 0, rlen := 2\<rparr>) }"

definition enter_NEWSTYLE_START :: handler where
  "enter_NEWSTYLE_START h =
     (let opt = opt_current h
      in if \<not> opt_mode h then begin_newstyle h
         else if opt = NBD_OPT_GO \<or> opt = NBD_OPT_INFO then
           (if \<not> fixed_newstyle h then goto (NEWSTYLE (OPT_EXPORT_NAME EXPORT_NAME_START)) h
            else goto (NEWSTYLE (OPT_META_CONTEXT META_START)) h)
         else if opt = NBD_OPT_LIST then goto (NEWSTYLE (OPT_LIST OPT_START)) h
         else if opt = NBD_OPT_ABORT then
           (if \<not> fixed_newstyle h then
              return0 (set_error ENOTSUP ''handshake: server is not using fixed newstyle'' (SET_NEXT_STATE DEAD h))
            else goto (NEWSTYLE PREPARE_OPT_ABORT) h)
         else if opt = NBD_OPT_LIST_META_CONTEXT \<or> opt = NBD_OPT_SET_META_CONTEXT then
           goto (NEWSTYLE (OPT_META_CONTEXT META_START)) h
         else if opt = NBD_OPT_STRUCTURED_REPLY then
           goto (NEWSTYLE (OPT_STRUCTURED_REPLY OPT_START)) h
         else if opt = NBD_OPT_EXTENDED_HEADERS then
           goto (NEWSTYLE (OPT_EXTENDED_HEADERS OPT_START)) h
         else if opt = NBD_OPT_STARTTLS then goto (NEWSTYLE (OPT_STARTTLS STARTTLS_START)) h
         else if opt = 0 then begin_newstyle h
         else None)"

definition enter_NEWSTYLE_RECV_GFLAGS :: handler where
  "enter_NEWSTYLE_RECV_GFLAGS = recv_then (goto (NEWSTYLE CHECK_GFLAGS))"

definition enter_NEWSTYLE_CHECK_GFLAGS :: handler where
  "enter_NEWSTYLE_CHECK_GFLAGS h =
     (let h = h\<lparr>gflags := gflags h AND rd16 (sbuf h) 0\<rparr>
      in if \<not> fixed_newstyle h \<and> tls h = LIBNBD_TLS_REQUIRE then
           return0 (set_error ENOTSUP
             ''handshake: server is not using fixed newstyle, but handle TLS setting is require (2)''
             (SET_NEXT_STATE DEAD h))
         else
           (let h = h\<lparr>protocol := Some (if \<not> fixed_newstyle h then ''newstyle'' else ''newstyle-fixed'')\<rparr>
            in goto (NEWSTYLE SEND_CFLAGS) (put_sbuf (htobe32 (ucast (gflags h))) h)))"

definition enter_NEWSTYLE_SEND_CFLAGS :: handler where
  "enter_NEWSTYLE_SEND_CFLAGS =
     send_then (\<lambda>h.
       if \<not> fixed_newstyle h then
         (if opt_mode h then goto NEGOTIATING h
          else goto (NEWSTYLE (OPT_EXPORT_NAME EXPORT_NAME_START)) h)
       else goto (NEWSTYLE (OPT_STARTTLS STARTTLS_START)) h)"

definition enter_NEWSTYLE_PREPARE_OPT_ABORT :: handler where
  "enter_NEWSTYLE_PREPARE_OPT_ABORT h = do {
     asrt (fixed_newstyle h);
     goto (NEWSTYLE SEND_OPT_ABORT) (put_option (ucast NBD_OPT_ABORT) 0 h) }"

definition enter_NEWSTYLE_SEND_OPT_ABORT :: handler where
  "enter_NEWSTYLE_SEND_OPT_ABORT = send_then (goto (NEWSTYLE SEND_OPTION_SHUTDOWN))"

definition enter_NEWSTYLE_SEND_OPTION_SHUTDOWN :: handler where
  "enter_NEWSTYLE_SEND_OPTION_SHUTDOWN h = do {
     s \<leftarrow> sock h;
     let (done, s') = sock_shut_writes s;
     let h = h\<lparr>sock := Some s'\<rparr>;
     if done then (if opt_mode h then goto CLOSED h else goto DEAD h)
     else return0 h }"

definition enter_NEWSTYLE_FINISHED :: handler where
  "enter_NEWSTYLE_FINISHED h = goto READY h"

end
