(* ===== verification/NBD_Options.thy ===== *)
theory NBD_Options
  imports NBD_Newstyle
begin

text \<open>
  The negotiation of options (\<^verbatim>\<open>generator/states-newstyle-opt-*.c\<close>), one definition per state. TLS
  itself is GnuTLS behind \<^verbatim>\<open>lib/crypto.c\<close>: its three entry points are arguments, in a record.
\<close>

record crypto =
  crypto_create_session :: "nbd_handle \<Rightarrow> nbd_handle \<times> socket option"
  crypto_is_reading :: "nbd_handle \<Rightarrow> bool"
  crypto_handshake :: "nbd_handle \<Rightarrow> nbd_handle \<times> int"

definition strndup :: "u8 list \<Rightarrow> nat \<Rightarrow> cstr" where
  "strndup bs n = takeWhile (\<lambda>b. b \<noteq> 0) (take n bs)"

text \<open>The end of an option: tell the user, free the callbacks.\<close>

definition finish_option :: "u32 \<Rightarrow> nbd_handle \<Rightarrow> nbd_handle" where
  "finish_option err h = nbd_internal_free_option (call_opt_completion err h)"

text \<open>Receiving the header of a reply, for the option it must answer.\<close>

definition recv_option_reply :: "(nbd_handle \<Rightarrow> u32) \<Rightarrow> state \<Rightarrow> handler" where
  "recv_option_reply opt next =
     recv_then (\<lambda>h. let (h', r) = prepare_for_reply_payload (opt h) h
                    in if r = -1 then goto DEAD h' else goto next h')"

text \<open>The branch every option has for an error reply: \<open>f\<close> goes on when the error is well formed.\<close>

definition on_reply_error :: "handler \<Rightarrow> handler" where
  "on_reply_error f h = (let (h', r) = handle_reply_error h in if r = -1 then goto DEAD h' else f h')"

section \<open>NBD_OPT_STARTTLS\<close>

definition enter_OPT_STARTTLS_START :: handler where
  "enter_OPT_STARTTLS_START h = do {
     asrt (fixed_newstyle h);
     if opt_current h = NBD_OPT_STARTTLS then do {
       asrt (opt_mode h);
       goto (NEWSTYLE (OPT_STARTTLS STARTTLS_SEND)) (put_option (ucast NBD_OPT_STARTTLS) 0 h) }
     else if tls h = LIBNBD_TLS_DISABLE then goto (NEWSTYLE (OPT_EXTENDED_HEADERS OPT_START)) h
     else do {
       asrt (CALLBACK_IS_NULL (cb_completion (opt_cb h)));
       goto (NEWSTYLE (OPT_STARTTLS STARTTLS_SEND)) (put_option (ucast NBD_OPT_STARTTLS) 0 h) } }"

definition enter_OPT_STARTTLS_SEND :: handler where
  "enter_OPT_STARTTLS_SEND =
     send_then (\<lambda>h. goto (NEWSTYLE (OPT_STARTTLS STARTTLS_RECV_REPLY)) (await_option_reply h))"

definition enter_OPT_STARTTLS_RECV_REPLY :: handler where
  "enter_OPT_STARTTLS_RECV_REPLY = recv_option_reply (\<lambda>_. ucast NBD_OPT_STARTTLS)
     (NEWSTYLE (OPT_STARTTLS STARTTLS_RECV_REPLY_PAYLOAD))"

definition enter_OPT_STARTTLS_RECV_REPLY_PAYLOAD :: handler where
  "enter_OPT_STARTTLS_RECV_REPLY_PAYLOAD =
     recv_then (goto (NEWSTYLE (OPT_STARTTLS STARTTLS_CHECK_REPLY)))"

definition tls_direction :: "crypto \<Rightarrow> handler" where
  "tls_direction c h = goto (NEWSTYLE (OPT_STARTTLS
     (if crypto_is_reading c h then TLS_HANDSHAKE_READ else TLS_HANDSHAKE_WRITE))) h"

definition enter_OPT_STARTTLS_CHECK_REPLY :: "crypto \<Rightarrow> handler" where
  "enter_OPT_STARTTLS_CHECK_REPLY c h =
     (let reply = or_reply (sbuf h)
      in if reply = NBD_REP_ACK then
           (if tls_negotiated h then
              goto DEAD (set_error EPROTO ''handshake: unable to support server accepting TLS twice'' h)
            else
              (let h = (nbd_internal_reset_size_and_flags h)
                         \<lparr>structured_replies := False, extended_headers := False, meta_valid := False\<rparr>;
                   (h, new_sock) = crypto_create_session c h
               in case new_sock of None \<Rightarrow> goto DEAD h
                  | Some s \<Rightarrow> tls_direction c (h\<lparr>sock := Some s\<rparr>)))
         else on_reply_error (\<lambda>h.
           if tls h = LIBNBD_TLS_REQUIRE then
             return0 (set_error ENOTSUP ''handshake: server refused TLS, but handle TLS setting is require (2)''
               (SET_NEXT_STATE (NEWSTYLE PREPARE_OPT_ABORT) h))
           else
             (let h = finish_option (if reply = NBD_REP_ERR_INVALID then EINVAL else ENOTSUP) h
              in if opt_current h = NBD_OPT_STARTTLS then goto NEGOTIATING h
                 else goto (NEWSTYLE (OPT_EXTENDED_HEADERS OPT_START)) h)) h)"

definition enter_TLS_HANDSHAKE :: "crypto \<Rightarrow> handler" where
  "enter_TLS_HANDSHAKE c h =
     (let (h, r) = crypto_handshake c h
      in if r = -1 then goto DEAD h
         else if r = 0 then goto (NEWSTYLE (OPT_STARTTLS TLS_HANDSHAKE_DONE)) h
         else tls_direction c h)"

definition enter_TLS_HANDSHAKE_DONE :: handler where
  "enter_TLS_HANDSHAKE_DONE h =
     (let h = finish_option 0 (h\<lparr>tls_negotiated := True\<rparr>)
      in if opt_current h = NBD_OPT_STARTTLS then goto NEGOTIATING h
         else goto (NEWSTYLE (OPT_EXTENDED_HEADERS OPT_START)) h)"

section \<open>NBD_OPT_EXTENDED_HEADERS\<close>

definition enter_OPT_EXTENDED_HEADERS_START :: handler where
  "enter_OPT_EXTENDED_HEADERS_START h =
     (let send = goto (NEWSTYLE (OPT_EXTENDED_HEADERS OPT_SEND))
            (put_option (ucast NBD_OPT_EXTENDED_HEADERS) 0 h)
      in do {
        asrt (fixed_newstyle h);
        if opt_current h = NBD_OPT_EXTENDED_HEADERS then do { asrt (opt_mode h); send }
        else do {
          asrt (CALLBACK_IS_NULL (cb_completion (opt_cb h)));
          if \<not> request_eh h \<or> \<not> request_sr h
          then goto (NEWSTYLE (OPT_STRUCTURED_REPLY OPT_START)) h else send } })"

definition enter_OPT_EXTENDED_HEADERS_SEND :: handler where
  "enter_OPT_EXTENDED_HEADERS_SEND =
     send_then (\<lambda>h. goto (NEWSTYLE (OPT_EXTENDED_HEADERS OPT_RECV_REPLY)) (await_option_reply h))"

definition enter_OPT_EXTENDED_HEADERS_RECV_REPLY :: handler where
  "enter_OPT_EXTENDED_HEADERS_RECV_REPLY = recv_option_reply (\<lambda>_. ucast NBD_OPT_EXTENDED_HEADERS)
     (NEWSTYLE (OPT_EXTENDED_HEADERS OPT_RECV_REPLY_PAYLOAD))"

definition enter_OPT_EXTENDED_HEADERS_RECV_REPLY_PAYLOAD :: handler where
  "enter_OPT_EXTENDED_HEADERS_RECV_REPLY_PAYLOAD =
     recv_then (goto (NEWSTYLE (OPT_EXTENDED_HEADERS OPT_CHECK_REPLY)))"

definition enter_OPT_EXTENDED_HEADERS_CHECK_REPLY :: handler where
  "enter_OPT_EXTENDED_HEADERS_CHECK_REPLY h =
     (let reply = or_reply (sbuf h);
          next = (\<lambda>err h. return0 (finish_option err
            (SET_NEXT_STATE (if opt_current h = NBD_OPT_EXTENDED_HEADERS then NEGOTIATING
                             else NEWSTYLE (OPT_STRUCTURED_REPLY OPT_START)) h)))
      in if reply = NBD_REP_ACK then
           next 0 (h\<lparr>extended_headers := True, structured_replies := True\<rparr>)
         else on_reply_error (next (if reply = NBD_REP_ERR_INVALID then EINVAL else ENOTSUP)) h)"

section \<open>NBD_OPT_STRUCTURED_REPLY\<close>

definition enter_OPT_STRUCTURED_REPLY_START :: handler where
  "enter_OPT_STRUCTURED_REPLY_START h =
     (let send = goto (NEWSTYLE (OPT_STRUCTURED_REPLY OPT_SEND))
            (put_option (ucast NBD_OPT_STRUCTURED_REPLY) 0 h)
      in do {
        asrt (fixed_newstyle h);
        if opt_current h = NBD_OPT_STRUCTURED_REPLY then do { asrt (opt_mode h); send }
        else do {
          asrt (CALLBACK_IS_NULL (cb_completion (opt_cb h)));
          if \<not> request_sr h \<or> structured_replies h
          then (if opt_mode h then goto NEGOTIATING h
                else goto (NEWSTYLE (OPT_META_CONTEXT META_START)) h)
          else send } })"

definition enter_OPT_STRUCTURED_REPLY_SEND :: handler where
  "enter_OPT_STRUCTURED_REPLY_SEND =
     send_then (\<lambda>h. goto (NEWSTYLE (OPT_STRUCTURED_REPLY OPT_RECV_REPLY)) (await_option_reply h))"

definition enter_OPT_STRUCTURED_REPLY_RECV_REPLY :: handler where
  "enter_OPT_STRUCTURED_REPLY_RECV_REPLY = recv_option_reply (\<lambda>_. ucast NBD_OPT_STRUCTURED_REPLY)
     (NEWSTYLE (OPT_STRUCTURED_REPLY OPT_RECV_REPLY_PAYLOAD))"

definition enter_OPT_STRUCTURED_REPLY_RECV_REPLY_PAYLOAD :: handler where
  "enter_OPT_STRUCTURED_REPLY_RECV_REPLY_PAYLOAD =
     recv_then (goto (NEWSTYLE (OPT_STRUCTURED_REPLY OPT_CHECK_REPLY)))"

definition enter_OPT_STRUCTURED_REPLY_CHECK_REPLY :: handler where
  "enter_OPT_STRUCTURED_REPLY_CHECK_REPLY h =
     (let reply = or_reply (sbuf h);
          next = (\<lambda>err h. return0 (finish_option err
            (SET_NEXT_STATE (if opt_mode h then NEGOTIATING
                             else NEWSTYLE (OPT_META_CONTEXT META_START)) h)))
      in if reply = NBD_REP_ACK then next 0 (h\<lparr>structured_replies := True\<rparr>)
         else on_reply_error
           (next (if reply = NBD_REP_ERR_INVALID \<or> reply = NBD_REP_ERR_EXT_HEADER_REQD
                  then EINVAL else ENOTSUP)) h)"

end
