(* ===== verification/NBD_Export.thy ===== *)
theory NBD_Export
  imports NBD_Options
begin

text \<open>
  The options that select and describe an export: \<^verbatim>\<open>NBD_OPT_SET_META_CONTEXT\<close> and
  \<^verbatim>\<open>NBD_OPT_LIST_META_CONTEXT\<close>, \<^verbatim>\<open>NBD_OPT_GO\<close> and \<^verbatim>\<open>NBD_OPT_INFO\<close>, \<^verbatim>\<open>NBD_OPT_EXPORT_NAME\<close>,
  and \<^verbatim>\<open>NBD_OPT_LIST\<close>; then the dispatch over the newstyle states.
\<close>

section \<open>Metadata contexts\<close>

definition nbd_internal_set_querylist :: "cstr list option \<Rightarrow> nbd_handle \<Rightarrow> nbd_handle" where
  "nbd_internal_set_querylist queries h =
     h\<lparr>querylist := (case queries of Some qs \<Rightarrow> qs | None \<Rightarrow> request_meta_contexts h)\<rparr>"

definition meta_request_len :: "nbd_handle \<Rightarrow> u32" where
  "meta_request_len h =
     of_nat (4 + length (export_name h) + 4 + sum_list (map (\<lambda>q. 4 + length q) (querylist h)))"

definition send_meta_request :: "u8 \<Rightarrow> handler" where
  "send_meta_request opt h = goto (NEWSTYLE (OPT_META_CONTEXT META_SEND))
     (msg_more (put_option (ucast opt) (meta_request_len h) h))"

definition enter_OPT_META_CONTEXT_START :: handler where
  "enter_OPT_META_CONTEXT_START h = do {
     asrt (fixed_newstyle h);
     if opt_current h = NBD_OPT_LIST_META_CONTEXT then do {
       asrt (opt_mode h);
       asrt (\<not> fn_is_null (cb_fn (opt_cb h)));
       send_meta_request NBD_OPT_LIST_META_CONTEXT h }
     else do {
       asrt (fn_is_null (cb_fn (opt_cb h)) \<longleftrightarrow> opt_current h \<noteq> NBD_OPT_SET_META_CONTEXT);
       let h = (if request_meta h \<or> opt_current h = NBD_OPT_SET_META_CONTEXT
                then h\<lparr>meta_contexts := [], meta_valid := False\<rparr> else h);
       if opt_current h \<noteq> NBD_OPT_SET_META_CONTEXT then
         (if \<not> request_meta h \<or> \<not> structured_replies h \<or> request_meta_contexts h = []
          then goto (NEWSTYLE (OPT_GO GO_START)) h
          else send_meta_request NBD_OPT_SET_META_CONTEXT (nbd_internal_set_querylist None h))
       else send_meta_request NBD_OPT_SET_META_CONTEXT h } }"

definition enter_OPT_META_CONTEXT_SEND :: handler where
  "enter_OPT_META_CONTEXT_SEND =
     send_then (\<lambda>h. goto (NEWSTYLE (OPT_META_CONTEXT META_SEND_EXPORTNAMELEN))
       (msg_more (put_sbuf (htobe32 (of_nat (length (export_name h)))) h)))"

definition put_string :: "cstr \<Rightarrow> nbd_handle \<Rightarrow> nbd_handle" where
  "put_string s h = h\<lparr>wbuf := s, wlen := length s\<rparr>"

definition enter_OPT_META_CONTEXT_SEND_EXPORTNAMELEN :: handler where
  "enter_OPT_META_CONTEXT_SEND_EXPORTNAMELEN =
     send_then (\<lambda>h. goto (NEWSTYLE (OPT_META_CONTEXT META_SEND_EXPORTNAME))
       (msg_more (put_string (export_name h) h)))"

definition enter_OPT_META_CONTEXT_SEND_EXPORTNAME :: handler where
  "enter_OPT_META_CONTEXT_SEND_EXPORTNAME =
     send_then (\<lambda>h. goto (NEWSTYLE (OPT_META_CONTEXT META_SEND_NRQUERIES))
       (msg_more (put_sbuf (htobe32 (of_nat (length (querylist h)))) h)))"

definition enter_OPT_META_CONTEXT_SEND_NRQUERIES :: handler where
  "enter_OPT_META_CONTEXT_SEND_NRQUERIES =
     send_then (\<lambda>h. goto (NEWSTYLE (OPT_META_CONTEXT META_PREPARE_NEXT_QUERY)) (h\<lparr>querynum := 0\<rparr>))"

definition enter_OPT_META_CONTEXT_PREPARE_NEXT_QUERY :: handler where
  "enter_OPT_META_CONTEXT_PREPARE_NEXT_QUERY h =
     (if querynum h \<ge> length (querylist h)
      then goto (NEWSTYLE (OPT_META_CONTEXT META_PREPARE_FOR_REPLY)) h
      else goto (NEWSTYLE (OPT_META_CONTEXT META_SEND_QUERYLEN))
        (msg_more (put_sbuf (htobe32 (of_nat (length (querylist h ! querynum h)))) h)))"

definition enter_OPT_META_CONTEXT_SEND_QUERYLEN :: handler where
  "enter_OPT_META_CONTEXT_SEND_QUERYLEN h = do {
     asrt (querynum h < length (querylist h));
     send_then (\<lambda>h. goto (NEWSTYLE (OPT_META_CONTEXT META_SEND_QUERY))
       (put_string (querylist h ! querynum h) h)) h }"

definition enter_OPT_META_CONTEXT_SEND_QUERY :: handler where
  "enter_OPT_META_CONTEXT_SEND_QUERY =
     send_then (\<lambda>h. goto (NEWSTYLE (OPT_META_CONTEXT META_PREPARE_NEXT_QUERY))
       (h\<lparr>querynum := querynum h + 1\<rparr>))"

definition enter_OPT_META_CONTEXT_PREPARE_FOR_REPLY :: handler where
  "enter_OPT_META_CONTEXT_PREPARE_FOR_REPLY h =
     goto (NEWSTYLE (OPT_META_CONTEXT META_RECV_REPLY)) (await_option_reply h)"

definition meta_opt :: "nbd_handle \<Rightarrow> u8" where
  "meta_opt h = (if opt_current h = NBD_OPT_LIST_META_CONTEXT then opt_current h
                 else NBD_OPT_SET_META_CONTEXT)"

definition enter_OPT_META_CONTEXT_RECV_REPLY :: handler where
  "enter_OPT_META_CONTEXT_RECV_REPLY = recv_option_reply (\<lambda>h. ucast (meta_opt h))
     (NEWSTYLE (OPT_META_CONTEXT META_RECV_REPLY_PAYLOAD))"

definition enter_OPT_META_CONTEXT_RECV_REPLY_PAYLOAD :: handler where
  "enter_OPT_META_CONTEXT_RECV_REPLY_PAYLOAD =
     recv_then (goto (NEWSTYLE (OPT_META_CONTEXT META_CHECK_REPLY)))"

definition call_context :: "cstr \<Rightarrow> nbd_handle \<Rightarrow> nbd_handle" where
  "call_context name h =
     (case cb_fn (opt_cb h) of FnContext (Cbk (Some f) _) \<Rightarrow> log_event (ContextCall name) h | _ \<Rightarrow> h)"

definition enter_OPT_META_CONTEXT_CHECK_REPLY :: handler where
  "enter_OPT_META_CONTEXT_CHECK_REPLY h =
     (let opt = meta_opt h; reply = or_reply (sbuf h); len = unat (or_replylen (sbuf h))
      in if reply = NBD_REP_ACK then
           (let h = (if opt = NBD_OPT_SET_META_CONTEXT then h\<lparr>meta_valid := True\<rparr> else h)
            in if opt = opt_current h then return0 (finish_option 0 (SET_NEXT_STATE NEGOTIATING h))
               else goto (NEWSTYLE (OPT_GO GO_START)) h)
         else if reply = NBD_REP_META_CONTEXT then
           (if len > sizeof_payload_context then
              goto (NEWSTYLE (OPT_META_CONTEXT META_PREPARE_FOR_REPLY)) h
            else do {
              asrt (len > 4);
              let mc = \<lparr>mc_name = strndup (rd_bytes (sbuf h) (or_payload + 4) (len - 4)) (len - 4),
                        mc_context_id = rd32 (sbuf h) or_payload\<rparr>;
              let h = call_context (mc_name mc) h;
              let h = (if opt = NBD_OPT_LIST_META_CONTEXT then h
                       else h\<lparr>meta_contexts := meta_contexts h @ [mc]\<rparr>);
              goto (NEWSTYLE (OPT_META_CONTEXT META_PREPARE_FOR_REPLY)) h })
         else on_reply_error (\<lambda>h.
           if opt = opt_current h then goto NEGOTIATING (finish_option ENOTSUP h)
           else goto (NEWSTYLE (OPT_GO GO_START))
             (if opt = NBD_OPT_SET_META_CONTEXT then h\<lparr>meta_valid := (meta_contexts h = [])\<rparr> else h)) h)"

fun enter_OPT_META_CONTEXT :: "meta_context_state \<Rightarrow> handler" where
  "enter_OPT_META_CONTEXT META_START = enter_OPT_META_CONTEXT_START"
| "enter_OPT_META_CONTEXT META_SEND = enter_OPT_META_CONTEXT_SEND"
| "enter_OPT_META_CONTEXT META_SEND_EXPORTNAMELEN = enter_OPT_META_CONTEXT_SEND_EXPORTNAMELEN"
| "enter_OPT_META_CONTEXT META_SEND_EXPORTNAME = enter_OPT_META_CONTEXT_SEND_EXPORTNAME"
| "enter_OPT_META_CONTEXT META_SEND_NRQUERIES = enter_OPT_META_CONTEXT_SEND_NRQUERIES"
| "enter_OPT_META_CONTEXT META_PREPARE_NEXT_QUERY = enter_OPT_META_CONTEXT_PREPARE_NEXT_QUERY"
| "enter_OPT_META_CONTEXT META_SEND_QUERYLEN = enter_OPT_META_CONTEXT_SEND_QUERYLEN"
| "enter_OPT_META_CONTEXT META_SEND_QUERY = enter_OPT_META_CONTEXT_SEND_QUERY"
| "enter_OPT_META_CONTEXT META_PREPARE_FOR_REPLY = enter_OPT_META_CONTEXT_PREPARE_FOR_REPLY"
| "enter_OPT_META_CONTEXT META_RECV_REPLY = enter_OPT_META_CONTEXT_RECV_REPLY"
| "enter_OPT_META_CONTEXT META_RECV_REPLY_PAYLOAD = enter_OPT_META_CONTEXT_RECV_REPLY_PAYLOAD"
| "enter_OPT_META_CONTEXT META_CHECK_REPLY = enter_OPT_META_CONTEXT_CHECK_REPLY"

section \<open>NBD_OPT_GO and NBD_OPT_INFO\<close>

definition go_nrinfos :: "nbd_handle \<Rightarrow> nat" where
  "go_nrinfos h = (if request_block_size h then 1 else 0) + (if full_info h then 2 else 0)"

definition enter_OPT_GO_START :: handler where
  "enter_OPT_GO_START h = do {
     let h = nbd_internal_reset_size_and_flags h;
     let nrinfos = go_nrinfos h;
     asrt (fixed_newstyle h);
     asrt (opt_current h = NBD_OPT_INFO \<longrightarrow> opt_mode h);
     asrt (opt_current h = 0 \<longrightarrow> \<not> opt_mode h \<and> CALLBACK_IS_NULL (cb_completion (opt_cb h)));
     let h = (if opt_current h = 0 then h\<lparr>opt_current := NBD_OPT_GO\<rparr> else h);
     goto (NEWSTYLE (OPT_GO GO_SEND))
       (msg_more (put_option (ucast (opt_current h))
          (of_nat (4 + length (export_name h) + 2 + 2 * nrinfos)) h)) }"

definition enter_OPT_GO_SEND :: handler where
  "enter_OPT_GO_SEND =
     send_then (\<lambda>h. goto (NEWSTYLE (OPT_GO GO_SEND_EXPORTNAMELEN))
       (msg_more (put_sbuf (htobe32 (of_nat (length (export_name h)))) h)))"

definition enter_OPT_GO_SEND_EXPORTNAMELEN :: handler where
  "enter_OPT_GO_SEND_EXPORTNAMELEN =
     send_then (\<lambda>h. goto (NEWSTYLE (OPT_GO GO_SEND_EXPORT)) (msg_more (put_string (export_name h) h)))"

definition enter_OPT_GO_SEND_EXPORT :: handler where
  "enter_OPT_GO_SEND_EXPORT =
     send_then (\<lambda>h. goto (NEWSTYLE (OPT_GO GO_SEND_NRINFOS)) (put_sbuf (htobe16 (of_nat (go_nrinfos h))) h))"

definition go_infos :: "nbd_handle \<Rightarrow> u8 list" where
  "go_infos h = (if request_block_size h then htobe16 NBD_INFO_BLOCK_SIZE else []) @
     (if full_info h then htobe16 NBD_INFO_NAME @ htobe16 NBD_INFO_DESCRIPTION else [])"

definition enter_OPT_GO_SEND_NRINFOS :: handler where
  "enter_OPT_GO_SEND_NRINFOS =
     send_then (\<lambda>h. goto (NEWSTYLE (OPT_GO GO_SEND_INFO)) (put_sbuf (go_infos h) h))"

definition enter_OPT_GO_SEND_INFO :: handler where
  "enter_OPT_GO_SEND_INFO =
     send_then (\<lambda>h. goto (NEWSTYLE (OPT_GO GO_RECV_REPLY)) (await_option_reply h))"

definition enter_OPT_GO_RECV_REPLY :: handler where
  "enter_OPT_GO_RECV_REPLY = recv_option_reply (\<lambda>h. ucast (opt_current h))
     (NEWSTYLE (OPT_GO GO_RECV_REPLY_PAYLOAD))"

definition enter_OPT_GO_RECV_REPLY_PAYLOAD :: handler where
  "enter_OPT_GO_RECV_REPLY_PAYLOAD = recv_then (goto (NEWSTYLE (OPT_GO GO_CHECK_REPLY)))"

text \<open>One \<^verbatim>\<open>NBD_REP_INFO\<close> reply: \<open>-1\<close> is an error that has been set.\<close>

definition go_info_reply :: "nat \<Rightarrow> nbd_handle \<Rightarrow> (nbd_handle \<times> int) option" where
  "go_info_reply len h = do {
     asrt (len \<ge> 2);
     let info = rd16 (sbuf h) or_payload;
     let name = strndup (rd_bytes (sbuf h) (or_payload + 2) (len - 2)) (len - 2);
     if info = NBD_INFO_EXPORT then
       (if len \<noteq> 12 then
          Some (set_error 0 ''handshake: incorrect NBD_INFO_EXPORT option reply length'' h, -1)
        else nbd_internal_set_size_and_flags (rd64 (sbuf h) (or_payload + 2))
               (rd16 (sbuf h) (or_payload + 10)) h)
     else if info = NBD_INFO_BLOCK_SIZE then
       (if len \<noteq> 14 then
          Some (set_error 0 ''handshake: incorrect NBD_INFO_BLOCK_SIZE option reply length'' h, -1)
        else Some (nbd_internal_set_block_size (rd32 (sbuf h) (or_payload + 2))
               (rd32 (sbuf h) (or_payload + 6)) (rd32 (sbuf h) (or_payload + 10)) h))
     else if info = NBD_INFO_NAME then
       (if len > 2 + NBD_MAX_STRING \<or> len < 2 then
          Some (set_error 0 ''handshake: incorrect NBD_INFO_NAME option reply length'' h, -1)
        else Some (h\<lparr>canonical_name := Some name\<rparr>, 0))
     else if info = NBD_INFO_DESCRIPTION then
       (if len > 2 + NBD_MAX_STRING \<or> len < 2 then
          Some (set_error 0 ''handshake: incorrect NBD_INFO_DESCRIPTION option reply length'' h, -1)
        else Some (h\<lparr>description := Some name\<rparr>, 0))
     else Some (h, 0) }"

definition go_finish :: "u32 \<Rightarrow> handler" where
  "go_finish err h = return0 (finish_option err
     (SET_NEXT_STATE (if err = 0 \<and> opt_current h = NBD_OPT_GO then NEWSTYLE FINISHED
                      else if opt_mode h then NEGOTIATING
                      else NEWSTYLE PREPARE_OPT_ABORT) h))"

definition enter_OPT_GO_CHECK_REPLY :: handler where
  "enter_OPT_GO_CHECK_REPLY h =
     (let reply = or_reply (sbuf h); len = unat (or_replylen (sbuf h))
      in if reply = NBD_REP_INFO then
           (if len > sizeof_or_payload then do {
              asrt (rbuf h = RNull);
              goto (NEWSTYLE (OPT_GO GO_RECV_REPLY)) (await_option_reply h) }
            else do {
              (h, r) \<leftarrow> go_info_reply len h;
              if r = -1 then goto DEAD h
              else goto (NEWSTYLE (OPT_GO GO_RECV_REPLY)) (await_option_reply h) })
         else if reply = NBD_REP_ERR_UNSUP \<and> opt_current h = NBD_OPT_GO then
           goto (NEWSTYLE (OPT_EXPORT_NAME EXPORT_NAME_START)) h
         else if reply = NBD_REP_ACK then go_finish 0 (nbd_internal_set_payload h)
         else on_reply_error (\<lambda>h. do {
           asrt (reply = NBD_REP_ERR_UNSUP \<longrightarrow> opt_current h = NBD_OPT_INFO);
           let h = (nbd_internal_reset_size_and_flags h)\<lparr>meta_valid := False\<rparr>;
           go_finish (if nbd_get_errno h \<noteq> 0 then nbd_get_errno h else ENOTSUP) h }) h)"

fun enter_OPT_GO :: "opt_go_state \<Rightarrow> handler" where
  "enter_OPT_GO GO_START = enter_OPT_GO_START"
| "enter_OPT_GO GO_SEND = enter_OPT_GO_SEND"
| "enter_OPT_GO GO_SEND_EXPORTNAMELEN = enter_OPT_GO_SEND_EXPORTNAMELEN"
| "enter_OPT_GO GO_SEND_EXPORT = enter_OPT_GO_SEND_EXPORT"
| "enter_OPT_GO GO_SEND_NRINFOS = enter_OPT_GO_SEND_NRINFOS"
| "enter_OPT_GO GO_SEND_INFO = enter_OPT_GO_SEND_INFO"
| "enter_OPT_GO GO_RECV_REPLY = enter_OPT_GO_RECV_REPLY"
| "enter_OPT_GO GO_RECV_REPLY_PAYLOAD = enter_OPT_GO_RECV_REPLY_PAYLOAD"
| "enter_OPT_GO GO_CHECK_REPLY = enter_OPT_GO_CHECK_REPLY"

section \<open>NBD_OPT_EXPORT_NAME\<close>

definition enter_OPT_EXPORT_NAME_START :: handler where
  "enter_OPT_EXPORT_NAME_START h = goto (NEWSTYLE (OPT_EXPORT_NAME EXPORT_NAME_SEND))
     (msg_more (put_option (ucast NBD_OPT_EXPORT_NAME) (of_nat (length (export_name h))) h))"

definition enter_OPT_EXPORT_NAME_SEND :: handler where
  "enter_OPT_EXPORT_NAME_SEND =
     send_then (\<lambda>h. goto (NEWSTYLE (OPT_EXPORT_NAME EXPORT_NAME_SEND_EXPORT)) (put_string (export_name h) h))"

definition enter_OPT_EXPORT_NAME_SEND_EXPORT :: handler where
  "enter_OPT_EXPORT_NAME_SEND_EXPORT =
     send_then (\<lambda>h. goto (NEWSTYLE (OPT_EXPORT_NAME EXPORT_NAME_RECV_REPLY))
       (h\<lparr>rbuf := RSbuf 0, rlen := sizeof_export_name_option_reply -
            (if gflags h AND NBD_FLAG_NO_ZEROES \<noteq> 0 then 124 else 0)\<rparr>))"

definition enter_OPT_EXPORT_NAME_RECV_REPLY :: handler where
  "enter_OPT_EXPORT_NAME_RECV_REPLY =
     recv_then (goto (NEWSTYLE (OPT_EXPORT_NAME EXPORT_NAME_CHECK_REPLY)))"

definition enter_OPT_EXPORT_NAME_CHECK_REPLY :: handler where
  "enter_OPT_EXPORT_NAME_CHECK_REPLY h = do {
     (h, r) \<leftarrow> nbd_internal_set_size_and_flags (rd64 (sbuf h) 0) (rd16 (sbuf h) 8) h;
     if r = -1 then goto DEAD h
     else return0 (finish_option 0 (SET_NEXT_STATE (NEWSTYLE FINISHED) (nbd_internal_set_payload h))) }"

fun enter_OPT_EXPORT_NAME :: "export_name_state \<Rightarrow> handler" where
  "enter_OPT_EXPORT_NAME EXPORT_NAME_START = enter_OPT_EXPORT_NAME_START"
| "enter_OPT_EXPORT_NAME EXPORT_NAME_SEND = enter_OPT_EXPORT_NAME_SEND"
| "enter_OPT_EXPORT_NAME EXPORT_NAME_SEND_EXPORT = enter_OPT_EXPORT_NAME_SEND_EXPORT"
| "enter_OPT_EXPORT_NAME EXPORT_NAME_RECV_REPLY = enter_OPT_EXPORT_NAME_RECV_REPLY"
| "enter_OPT_EXPORT_NAME EXPORT_NAME_CHECK_REPLY = enter_OPT_EXPORT_NAME_CHECK_REPLY"

section \<open>NBD_OPT_LIST\<close>

definition enter_OPT_LIST_START :: handler where
  "enter_OPT_LIST_START h = do {
     asrt (fixed_newstyle h);
     asrt (opt_mode h \<and> opt_current h = NBD_OPT_LIST);
     asrt (\<not> fn_is_null (cb_fn (opt_cb h)));
     goto (NEWSTYLE (OPT_LIST OPT_SEND)) (put_option (ucast NBD_OPT_LIST) 0 h) }"

definition enter_OPT_LIST_SEND :: handler where
  "enter_OPT_LIST_SEND =
     send_then (\<lambda>h. goto (NEWSTYLE (OPT_LIST OPT_RECV_REPLY)) (await_option_reply h))"

definition enter_OPT_LIST_RECV_REPLY :: handler where
  "enter_OPT_LIST_RECV_REPLY = recv_option_reply (\<lambda>_. ucast NBD_OPT_LIST)
     (NEWSTYLE (OPT_LIST OPT_RECV_REPLY_PAYLOAD))"

definition enter_OPT_LIST_RECV_REPLY_PAYLOAD :: handler where
  "enter_OPT_LIST_RECV_REPLY_PAYLOAD = recv_then (goto (NEWSTYLE (OPT_LIST OPT_CHECK_REPLY)))"

definition call_list :: "cstr \<Rightarrow> cstr \<Rightarrow> nbd_handle \<Rightarrow> nbd_handle" where
  "call_list name desc h =
     (case cb_fn (opt_cb h) of FnList (Cbk (Some f) _) \<Rightarrow> log_event (ListCall name desc) h | _ \<Rightarrow> h)"

text \<open>
  One export in an \<^verbatim>\<open>NBD_REP_SERVER\<close> reply. \<^verbatim>\<open>server.str\<close> has room for 8193 bytes; the
  arithmetic on the length is that of \<^verbatim>\<open>uint32_t\<close>.
\<close>

abbreviation server_str :: nat where "server_str \<equiv> or_payload + 4"

definition list_server_reply :: "u32 \<Rightarrow> nbd_handle \<Rightarrow> (nbd_handle \<times> int) option" where
  "list_server_reply len h = do {
     asrt (unat (len - 4) < 2 * NBD_MAX_STRING + 1);
     let h = h\<lparr>sbuf := mem_write (sbuf h) (server_str + unat (len - 4)) [0]\<rparr>;
     let elen = rd32 (sbuf h) or_payload;
     let str = rd_bytes (sbuf h) server_str (unat (len - 4));
     if elen > len - 4 \<or> elen > of_nat NBD_MAX_STRING \<or> len - 4 - elen > of_nat NBD_MAX_STRING then
       Some (set_error 0 ''invalid export length'' h, -1)
     else if elen = len + 4 then Some (call_list (strndup str (length str)) [] h, 0)
     else Some (call_list (strndup str (unat elen))
            (strndup (drop (unat elen) str) (length str)) h, 0) }"

definition enter_OPT_LIST_CHECK_REPLY :: handler where
  "enter_OPT_LIST_CHECK_REPLY h =
     (let reply = or_reply (sbuf h); len = or_replylen (sbuf h);
          next = (\<lambda>err h. goto NEGOTIATING (finish_option err h))
      in if reply = NBD_REP_SERVER then
           (if unat len \<ge> sizeof_or_payload then
              goto (NEWSTYLE (OPT_LIST OPT_RECV_REPLY)) (await_option_reply h)
            else do {
              (h, r) \<leftarrow> list_server_reply len h;
              if r = -1 then goto DEAD h
              else goto (NEWSTYLE (OPT_LIST OPT_RECV_REPLY)) (await_option_reply h) })
         else if reply = NBD_REP_ACK then next 0 h
         else on_reply_error (next ENOTSUP) h)"

section \<open>Dispatch\<close>

fun enter_OPT_STARTTLS :: "crypto \<Rightarrow> starttls_state \<Rightarrow> handler" where
  "enter_OPT_STARTTLS c STARTTLS_START = enter_OPT_STARTTLS_START"
| "enter_OPT_STARTTLS c STARTTLS_SEND = enter_OPT_STARTTLS_SEND"
| "enter_OPT_STARTTLS c STARTTLS_RECV_REPLY = enter_OPT_STARTTLS_RECV_REPLY"
| "enter_OPT_STARTTLS c STARTTLS_RECV_REPLY_PAYLOAD = enter_OPT_STARTTLS_RECV_REPLY_PAYLOAD"
| "enter_OPT_STARTTLS c STARTTLS_CHECK_REPLY = enter_OPT_STARTTLS_CHECK_REPLY c"
| "enter_OPT_STARTTLS c TLS_HANDSHAKE_READ = enter_TLS_HANDSHAKE c"
| "enter_OPT_STARTTLS c TLS_HANDSHAKE_WRITE = enter_TLS_HANDSHAKE c"
| "enter_OPT_STARTTLS c TLS_HANDSHAKE_DONE = enter_TLS_HANDSHAKE_DONE"

fun enter_OPT_EXTENDED_HEADERS :: "simple_opt_state \<Rightarrow> handler" where
  "enter_OPT_EXTENDED_HEADERS OPT_START = enter_OPT_EXTENDED_HEADERS_START"
| "enter_OPT_EXTENDED_HEADERS OPT_SEND = enter_OPT_EXTENDED_HEADERS_SEND"
| "enter_OPT_EXTENDED_HEADERS OPT_RECV_REPLY = enter_OPT_EXTENDED_HEADERS_RECV_REPLY"
| "enter_OPT_EXTENDED_HEADERS OPT_RECV_REPLY_PAYLOAD = enter_OPT_EXTENDED_HEADERS_RECV_REPLY_PAYLOAD"
| "enter_OPT_EXTENDED_HEADERS OPT_CHECK_REPLY = enter_OPT_EXTENDED_HEADERS_CHECK_REPLY"

fun enter_OPT_STRUCTURED_REPLY :: "simple_opt_state \<Rightarrow> handler" where
  "enter_OPT_STRUCTURED_REPLY OPT_START = enter_OPT_STRUCTURED_REPLY_START"
| "enter_OPT_STRUCTURED_REPLY OPT_SEND = enter_OPT_STRUCTURED_REPLY_SEND"
| "enter_OPT_STRUCTURED_REPLY OPT_RECV_REPLY = enter_OPT_STRUCTURED_REPLY_RECV_REPLY"
| "enter_OPT_STRUCTURED_REPLY OPT_RECV_REPLY_PAYLOAD = enter_OPT_STRUCTURED_REPLY_RECV_REPLY_PAYLOAD"
| "enter_OPT_STRUCTURED_REPLY OPT_CHECK_REPLY = enter_OPT_STRUCTURED_REPLY_CHECK_REPLY"

fun enter_OPT_LIST :: "simple_opt_state \<Rightarrow> handler" where
  "enter_OPT_LIST OPT_START = enter_OPT_LIST_START"
| "enter_OPT_LIST OPT_SEND = enter_OPT_LIST_SEND"
| "enter_OPT_LIST OPT_RECV_REPLY = enter_OPT_LIST_RECV_REPLY"
| "enter_OPT_LIST OPT_RECV_REPLY_PAYLOAD = enter_OPT_LIST_RECV_REPLY_PAYLOAD"
| "enter_OPT_LIST OPT_CHECK_REPLY = enter_OPT_LIST_CHECK_REPLY"

fun enter_NEWSTYLE :: "crypto \<Rightarrow> newstyle_state \<Rightarrow> handler" where
  "enter_NEWSTYLE c NEWSTYLE_START = enter_NEWSTYLE_START"
| "enter_NEWSTYLE c RECV_GFLAGS = enter_NEWSTYLE_RECV_GFLAGS"
| "enter_NEWSTYLE c CHECK_GFLAGS = enter_NEWSTYLE_CHECK_GFLAGS"
| "enter_NEWSTYLE c SEND_CFLAGS = enter_NEWSTYLE_SEND_CFLAGS"
| "enter_NEWSTYLE c (OPT_STARTTLS s) = enter_OPT_STARTTLS c s"
| "enter_NEWSTYLE c (OPT_EXTENDED_HEADERS s) = enter_OPT_EXTENDED_HEADERS s"
| "enter_NEWSTYLE c (OPT_STRUCTURED_REPLY s) = enter_OPT_STRUCTURED_REPLY s"
| "enter_NEWSTYLE c (OPT_META_CONTEXT s) = enter_OPT_META_CONTEXT s"
| "enter_NEWSTYLE c (OPT_GO s) = enter_OPT_GO s"
| "enter_NEWSTYLE c (OPT_EXPORT_NAME s) = enter_OPT_EXPORT_NAME s"
| "enter_NEWSTYLE c (OPT_LIST s) = enter_OPT_LIST s"
| "enter_NEWSTYLE c PREPARE_OPT_ABORT = enter_NEWSTYLE_PREPARE_OPT_ABORT"
| "enter_NEWSTYLE c SEND_OPT_ABORT = enter_NEWSTYLE_SEND_OPT_ABORT"
| "enter_NEWSTYLE c SEND_OPTION_SHUTDOWN = enter_NEWSTYLE_SEND_OPTION_SHUTDOWN"
| "enter_NEWSTYLE c FINISHED = enter_NEWSTYLE_FINISHED"

end
