(* ===== verification/NBD_Run.thy ===== *)
theory NBD_Run
  imports NBD_Issue NBD_Chunk NBD_Export
begin

text \<open>
  The loop that runs the state machine (\<^verbatim>\<open>nbd_internal_run\<close> in \<^verbatim>\<open>lib/states-run.c\<close>): which
  external event each state accepts, the dispatch on the state, and the loop until a state
  blocks. The states that open the connection call the operating system: their handlers are
  an argument, as are the TLS entry points.
\<close>

section \<open>External events\<close>

text \<open>\<^const>\<open>None\<close>: the event is refused in that state.\<close>

fun start_event :: "external_event \<Rightarrow> state option" where
  "start_event cmd_create = Some START"
| "start_event cmd_connect_sockaddr = Some (CONNECT CONNECT_START)"
| "start_event cmd_connect_tcp = Some (CONNECT_TCP TCP_START)"
| "start_event cmd_connect_command = Some CONNECT_COMMAND_START"
| "start_event cmd_connect_sa = Some CONNECT_SA_START"
| "start_event cmd_connect_socket = Some (MAGIC MAGIC_START)"
| "start_event _ = None"

fun starttls_waits :: "starttls_state \<Rightarrow> external_event option" where
  "starttls_waits STARTTLS_SEND = Some notify_write"
| "starttls_waits STARTTLS_RECV_REPLY = Some notify_read"
| "starttls_waits STARTTLS_RECV_REPLY_PAYLOAD = Some notify_read"
| "starttls_waits TLS_HANDSHAKE_READ = Some notify_read"
| "starttls_waits TLS_HANDSHAKE_WRITE = Some notify_write"
| "starttls_waits _ = None"

fun simple_opt_waits :: "simple_opt_state \<Rightarrow> external_event option" where
  "simple_opt_waits OPT_SEND = Some notify_write"
| "simple_opt_waits OPT_RECV_REPLY = Some notify_read"
| "simple_opt_waits OPT_RECV_REPLY_PAYLOAD = Some notify_read"
| "simple_opt_waits _ = None"

fun meta_context_waits :: "meta_context_state \<Rightarrow> external_event option" where
  "meta_context_waits META_SEND = Some notify_write"
| "meta_context_waits META_SEND_EXPORTNAMELEN = Some notify_write"
| "meta_context_waits META_SEND_EXPORTNAME = Some notify_write"
| "meta_context_waits META_SEND_NRQUERIES = Some notify_write"
| "meta_context_waits META_SEND_QUERYLEN = Some notify_write"
| "meta_context_waits META_SEND_QUERY = Some notify_write"
| "meta_context_waits META_RECV_REPLY = Some notify_read"
| "meta_context_waits META_RECV_REPLY_PAYLOAD = Some notify_read"
| "meta_context_waits _ = None"

fun opt_go_waits :: "opt_go_state \<Rightarrow> external_event option" where
  "opt_go_waits GO_SEND = Some notify_write"
| "opt_go_waits GO_SEND_EXPORTNAMELEN = Some notify_write"
| "opt_go_waits GO_SEND_EXPORT = Some notify_write"
| "opt_go_waits GO_SEND_NRINFOS = Some notify_write"
| "opt_go_waits GO_SEND_INFO = Some notify_write"
| "opt_go_waits GO_RECV_REPLY = Some notify_read"
| "opt_go_waits GO_RECV_REPLY_PAYLOAD = Some notify_read"
| "opt_go_waits _ = None"

fun export_name_waits :: "export_name_state \<Rightarrow> external_event option" where
  "export_name_waits EXPORT_NAME_SEND = Some notify_write"
| "export_name_waits EXPORT_NAME_SEND_EXPORT = Some notify_write"
| "export_name_waits EXPORT_NAME_RECV_REPLY = Some notify_read"
| "export_name_waits _ = None"

text \<open>A state of the handshake that waits does so for one event, and stays where it is.\<close>

fun newstyle_waits :: "newstyle_state \<Rightarrow> external_event option" where
  "newstyle_waits RECV_GFLAGS = Some notify_read"
| "newstyle_waits SEND_CFLAGS = Some notify_write"
| "newstyle_waits (OPT_STARTTLS s) = starttls_waits s"
| "newstyle_waits (OPT_EXTENDED_HEADERS s) = simple_opt_waits s"
| "newstyle_waits (OPT_STRUCTURED_REPLY s) = simple_opt_waits s"
| "newstyle_waits (OPT_META_CONTEXT s) = meta_context_waits s"
| "newstyle_waits (OPT_GO s) = opt_go_waits s"
| "newstyle_waits (OPT_EXPORT_NAME s) = export_name_waits s"
| "newstyle_waits (OPT_LIST s) = simple_opt_waits s"
| "newstyle_waits SEND_OPT_ABORT = Some notify_write"
| "newstyle_waits SEND_OPTION_SHUTDOWN = Some notify_write"
| "newstyle_waits _ = None"

fun issue_event :: "issue_command_state \<Rightarrow> external_event \<Rightarrow> issue_command_state option" where
  "issue_event SEND_REQUEST notify_write = Some SEND_REQUEST"
| "issue_event SEND_REQUEST notify_read = Some PAUSE_SEND_REQUEST"
| "issue_event SEND_WRITE_PAYLOAD notify_write = Some SEND_WRITE_PAYLOAD"
| "issue_event SEND_WRITE_PAYLOAD notify_read = Some PAUSE_WRITE_PAYLOAD"
| "issue_event SEND_WRITE_SHUTDOWN notify_write = Some SEND_WRITE_SHUTDOWN"
| "issue_event SEND_WRITE_SHUTDOWN notify_read = Some PAUSE_WRITE_SHUTDOWN"
| "issue_event _ _ = None"

fun external_transition :: "state \<Rightarrow> external_event \<Rightarrow> state option" where
  "external_transition START ev = start_event ev"
| "external_transition (CONNECT c) ev =
     (if ev = notify_write then Some (CONNECT CONNECT_CONNECTING) else None)"
| "external_transition (CONNECT_TCP c) ev =
     (if ev = notify_write \<and> (c = TCP_CONNECT \<or> c = TCP_CONNECTING)
      then Some (CONNECT_TCP TCP_CONNECTING) else None)"
| "external_transition CONNECT_COMMAND_START ev = None"
| "external_transition CONNECT_SA_START ev = None"
| "external_transition (MAGIC m) ev =
     (if m = RECV_MAGIC \<and> ev = notify_read then Some (MAGIC RECV_MAGIC) else None)"
| "external_transition (OLDSTYLE m) ev =
     (if m = RECV_REMAINING \<and> ev = notify_read then Some (OLDSTYLE RECV_REMAINING) else None)"
| "external_transition (NEWSTYLE s) ev =
     (if newstyle_waits s = Some ev then Some (NEWSTYLE s) else None)"
| "external_transition NEGOTIATING ev =
     (if ev = cmd_issue then Some (NEWSTYLE NEWSTYLE_START) else None)"
| "external_transition READY ev =
     (if ev = cmd_issue then Some (ISSUE_COMMAND ISSUE_START)
      else if ev = notify_read then Some (REPLY REPLY_START) else None)"
| "external_transition (ISSUE_COMMAND i) ev = map_option ISSUE_COMMAND (issue_event i ev)"
| "external_transition (REPLY r) ev =
     (if r = REPLY_START \<and> ev = notify_read then Some (REPLY REPLY_START) else None)"
| "external_transition DEAD ev = None"
| "external_transition CLOSED ev = None"

section \<open>The direction a state waits for\<close>

abbreviation LIBNBD_AIO_DIRECTION_READ :: nat where "LIBNBD_AIO_DIRECTION_READ \<equiv> 1"
abbreviation LIBNBD_AIO_DIRECTION_WRITE :: nat where "LIBNBD_AIO_DIRECTION_WRITE \<equiv> 2"

fun waits_direction :: "external_event option \<Rightarrow> nat" where
  "waits_direction (Some notify_read) = LIBNBD_AIO_DIRECTION_READ"
| "waits_direction (Some notify_write) = LIBNBD_AIO_DIRECTION_WRITE"
| "waits_direction _ = 0"

fun nbd_internal_aio_get_direction :: "state \<Rightarrow> nat" where
  "nbd_internal_aio_get_direction (CONNECT c) = LIBNBD_AIO_DIRECTION_WRITE"
| "nbd_internal_aio_get_direction (CONNECT_TCP c) =
     (if c = TCP_CONNECT \<or> c = TCP_CONNECTING then LIBNBD_AIO_DIRECTION_WRITE else 0)"
| "nbd_internal_aio_get_direction (MAGIC m) =
     (if m = RECV_MAGIC then LIBNBD_AIO_DIRECTION_READ else 0)"
| "nbd_internal_aio_get_direction (OLDSTYLE m) =
     (if m = RECV_REMAINING then LIBNBD_AIO_DIRECTION_READ else 0)"
| "nbd_internal_aio_get_direction (NEWSTYLE s) = waits_direction (newstyle_waits s)"
| "nbd_internal_aio_get_direction READY = LIBNBD_AIO_DIRECTION_READ"
| "nbd_internal_aio_get_direction (ISSUE_COMMAND i) =
     (if i = SEND_REQUEST \<or> i = SEND_WRITE_PAYLOAD \<or> i = SEND_WRITE_SHUTDOWN
      then LIBNBD_AIO_DIRECTION_READ + LIBNBD_AIO_DIRECTION_WRITE else 0)"
| "nbd_internal_aio_get_direction (REPLY r) =
     (if r = REPLY_START then LIBNBD_AIO_DIRECTION_READ else 0)"
| "nbd_internal_aio_get_direction _ = 0"

section \<open>The loop\<close>

record env =
  env_crypto :: crypto
  env_connect :: "state \<Rightarrow> handler"

fun enter_state :: "env \<Rightarrow> state \<Rightarrow> handler" where
  "enter_state e START = return0"
| "enter_state e (CONNECT c) = env_connect e (CONNECT c)"
| "enter_state e (CONNECT_TCP c) = env_connect e (CONNECT_TCP c)"
| "enter_state e CONNECT_COMMAND_START = env_connect e CONNECT_COMMAND_START"
| "enter_state e CONNECT_SA_START = env_connect e CONNECT_SA_START"
| "enter_state e (MAGIC m) = enter_MAGIC m"
| "enter_state e (OLDSTYLE m) = enter_OLDSTYLE m"
| "enter_state e (NEWSTYLE s) = enter_NEWSTYLE (env_crypto e) s"
| "enter_state e NEGOTIATING = return0"
| "enter_state e READY = enter_READY"
| "enter_state e (ISSUE_COMMAND i) = enter_ISSUE_COMMAND i"
| "enter_state e (REPLY r) = enter_REPLY r"
| "enter_state e DEAD = enter_DEAD"
| "enter_state e CLOSED = enter_CLOSED"

text \<open>One turn of the loop.\<close>

definition step :: "env \<Rightarrow> nbd_handle \<Rightarrow> (nbd_handle \<times> int) option" where
  "step e h = enter (enter_state e (state h)) (h\<lparr>blocked := True\<rparr>)"

text \<open>
  The loop ends when a state blocks or fails. Fuel bounds the number of turns; running out of
  it is told apart from a failed assertion.
\<close>

datatype outcome = Returned nbd_handle int | Aborted | Out_of_fuel

fun run_loop :: "env \<Rightarrow> nat \<Rightarrow> nbd_handle \<Rightarrow> outcome" where
  "run_loop e 0 h = Out_of_fuel"
| "run_loop e (Suc n) h =
     (case step e h of
        None \<Rightarrow> Aborted
      | Some (h', r) \<Rightarrow>
          if r = -1 then (if last_error h' \<noteq> None then Returned h' (-1) else Aborted)
          else if blocked h' then Returned h' 0
          else run_loop e n h')"

definition nbd_internal_run :: "env \<Rightarrow> nat \<Rightarrow> external_event \<Rightarrow> nbd_handle \<Rightarrow> outcome" where
  "nbd_internal_run e fuel ev h =
     (case external_transition (state h) ev of
        None \<Rightarrow> Returned (set_error EINVAL ''external event is invalid in state'' h) (-1)
      | Some s \<Rightarrow> run_loop e fuel (h\<lparr>state := s\<rparr>))"

definition nbd_unlocked_aio_notify_read :: "env \<Rightarrow> nat \<Rightarrow> nbd_handle \<Rightarrow> outcome" where
  "nbd_unlocked_aio_notify_read e fuel h = nbd_internal_run e fuel notify_read h"

definition nbd_unlocked_aio_notify_write :: "env \<Rightarrow> nat \<Rightarrow> nbd_handle \<Rightarrow> outcome" where
  "nbd_unlocked_aio_notify_write e fuel h = nbd_internal_run e fuel notify_write h"

end
