(* ===== verification/NBD_Commands.thy ===== *)
theory NBD_Commands
  imports NBD_Run
begin

text \<open>
  The public commands: submission with its checks (\<^verbatim>\<open>lib/rw.c\<close>), completion (\<^verbatim>\<open>lib/aio.c\<close>) and
  disconnection (\<^verbatim>\<open>lib/disconnect.c\<close>).
\<close>

abbreviation LIBNBD_STRICT_COMMANDS :: u32 where "LIBNBD_STRICT_COMMANDS \<equiv> 0x01"
abbreviation LIBNBD_STRICT_FLAGS :: u32 where "LIBNBD_STRICT_FLAGS \<equiv> 0x02"
abbreviation LIBNBD_STRICT_BOUNDS :: u32 where "LIBNBD_STRICT_BOUNDS \<equiv> 0x04"
abbreviation LIBNBD_STRICT_ZERO_SIZE :: u32 where "LIBNBD_STRICT_ZERO_SIZE \<equiv> 0x08"
abbreviation LIBNBD_STRICT_ALIGN :: u32 where "LIBNBD_STRICT_ALIGN \<equiv> 0x10"
abbreviation LIBNBD_STRICT_PAYLOAD :: u32 where "LIBNBD_STRICT_PAYLOAD \<equiv> 0x20"
abbreviation LIBNBD_STRICT_AUTO_FLAG :: u32 where "LIBNBD_STRICT_AUTO_FLAG \<equiv> 0x40"
abbreviation LIBNBD_STRICT_MASK :: u32 where "LIBNBD_STRICT_MASK \<equiv> 0x7f"

abbreviation LIBNBD_CMD_FLAG_FUA :: u32 where "LIBNBD_CMD_FLAG_FUA \<equiv> 0x01"
abbreviation LIBNBD_CMD_FLAG_DF :: u32 where "LIBNBD_CMD_FLAG_DF \<equiv> 0x04"
abbreviation LIBNBD_CMD_FLAG_FAST_ZERO :: u32 where "LIBNBD_CMD_FLAG_FAST_ZERO \<equiv> 0x10"
abbreviation LIBNBD_CMD_FLAG_PAYLOAD_LEN :: u32 where "LIBNBD_CMD_FLAG_PAYLOAD_LEN \<equiv> 0x20"

abbreviation LIBNBD_SHUTDOWN_ABANDON_PENDING :: u32
  where "LIBNBD_SHUTDOWN_ABANDON_PENDING \<equiv> 0x10000"

abbreviation INT_MAX :: int where "INT_MAX \<equiv> 2147483647"

definition is_strict :: "nbd_handle \<Rightarrow> u32 \<Rightarrow> bool" where
  "is_strict h flag \<longleftrightarrow> strict h AND flag \<noteq> 0"

section \<open>Submission\<close>

text \<open>What a command carries: nothing, a user buffer, or the identifiers of a filter.\<close>

datatype cmd_data = NoData | Buf "u8 list" | Ids "u32 list"

text \<open>The checks, in order: the error of the first that fails.\<close>

definition check_command ::
    "u16 \<Rightarrow> u64 \<Rightarrow> u64 \<Rightarrow> u32 \<Rightarrow> cmd_data \<Rightarrow> nbd_handle \<Rightarrow> (u32 \<times> string) option" where
  "check_command type offset count count_err data h =
     (if disconnect_request h then Some (EINVAL, ''cannot request more commands after NBD_CMD_DISC'')
      else if in_flight h = INT_MAX then Some (ENOMEM, ''too many commands already in flight'')
      else if count_err \<noteq> 0 \<and> is_strict h LIBNBD_STRICT_ZERO_SIZE \<and> count = 0 then
        Some (EINVAL, ''count cannot be 0'')
      else if count_err \<noteq> 0 \<and> is_strict h LIBNBD_STRICT_BOUNDS \<and>
              (offset > exportsize h \<or> count > exportsize h - offset) then
        Some (count_err, ''request out of bounds'')
      else if count_err \<noteq> 0 \<and> block_minimum h \<noteq> 0 \<and> is_strict h LIBNBD_STRICT_ALIGN \<and>
              (offset OR count) AND ucast (block_minimum h - 1) \<noteq> 0 then
        Some (EINVAL, ''request is unaligned'')
      else if type = NBD_CMD_WRITE \<and> is_strict h LIBNBD_STRICT_PAYLOAD \<and>
              count > ucast (payload_maximum h) then
        Some (ERANGE, ''request too large: maximum payload size'')
      else if (type = NBD_CMD_WRITE \<or> type = NBD_CMD_READ) \<and> count > of_nat MAX_REQUEST_SIZE then
        Some (ERANGE, ''request too large: maximum request size'')
      else if type = NBD_CMD_WRITE \<or> type = NBD_CMD_READ then None
      else case (type = NBD_CMD_BLOCK_STATUS, data) of
        (True, Ids ids) \<Rightarrow>
          if 4 * length ids > MAX_REQUEST_SIZE \<or>
             (is_strict h LIBNBD_STRICT_PAYLOAD \<and> 4 * length ids > unat (payload_maximum h))
          then Some (ERANGE, ''filter set too large'') else None
      | _ \<Rightarrow>
          if \<not> extended_headers h \<and> count > UINT32_MAX
          then Some (ERANGE, ''request too large: maximum request size'') else None)"

text \<open>The command as it is queued.\<close>

definition null_cb :: command_cb where
  "null_cb = \<lparr>cb_fn = FnNull, cb_completion = null_cbk, cb_wide = False\<rparr>"

definition new_command ::
    "u16 \<Rightarrow> u16 \<Rightarrow> u64 \<Rightarrow> u64 \<Rightarrow> cmd_data \<Rightarrow> command_cb option \<Rightarrow> nbd_handle \<Rightarrow> command" where
  "new_command flags type offset count data cb h =
     \<lparr>c_flags = flags, c_type = type, c_cookie = unique h, c_offset = offset,
      c_count = (case data of Ids ids \<Rightarrow> of_nat (4 * length ids) | _ \<Rightarrow> count),
      c_data = (case data of NoData \<Rightarrow> None | Buf b \<Rightarrow> Some b
                | Ids ids \<Rightarrow> Some (concat (map htobe32 ids))),
      c_ids = (case data of Ids ids \<Rightarrow> Some ids | _ \<Rightarrow> None),
      c_cb = (case cb of None \<Rightarrow> null_cb | Some cb \<Rightarrow> cb),
      c_initialized = pread_initialize h, c_data_seen = 0, c_error = 0\<rparr>"

text \<open>On failure the callbacks are freed, since the command is not queued.\<close>

definition free_callbacks :: "u16 \<Rightarrow> command_cb option \<Rightarrow> nbd_handle \<Rightarrow> nbd_handle" where
  "free_callbacks type cb h =
     (case cb of None \<Rightarrow> h
      | Some cb \<Rightarrow>
          (let h1 = (if (type = NBD_CMD_BLOCK_STATUS \<or> type = NBD_CMD_READ) \<and> fn_free (cb_fn cb)
                     then log_event (FreeFn 0) h else h)
           in if cbk_free (cb_completion cb) then log_event (FreeCompletion 0) h1 else h1))"

text \<open>The end of the queue is reached through its tail pointer.\<close>

definition enqueue :: "command \<Rightarrow> nbd_handle \<Rightarrow> nbd_handle option" where
  "enqueue cmd h =
     (if cmds_to_issue h \<noteq> [] then do {
        asrt (nbd_internal_is_state_processing (state h));
        asrt (cmds_to_issue_tail h = Some (c_cookie (last (cmds_to_issue h))));
        Some (h\<lparr>cmds_to_issue := cmds_to_issue h @ [cmd], cmds_to_issue_tail := Some (c_cookie cmd)\<rparr>) }
      else do {
        asrt (cmds_to_issue_tail h = None);
        Some (h\<lparr>cmds_to_issue := [cmd], cmds_to_issue_tail := Some (c_cookie cmd)\<rparr>) })"

definition nbd_internal_command_common ::
    "env \<Rightarrow> nat \<Rightarrow> u16 \<Rightarrow> u16 \<Rightarrow> u64 \<Rightarrow> u64 \<Rightarrow> u32 \<Rightarrow> cmd_data \<Rightarrow> command_cb option
     \<Rightarrow> nbd_handle \<Rightarrow> outcome" where
  "nbd_internal_command_common e fuel flags type offset count count_err data cb h =
     (case check_command type offset count count_err data h of
        Some (err, msg) \<Rightarrow> Returned (free_callbacks type cb (set_error err msg h)) (-1)
      | None \<Rightarrow>
          (let cmd = new_command flags type offset count data cb h;
               kick = (cmds_to_issue h = [])
           in case enqueue cmd (h\<lparr>unique := unique h + 1, in_flight := in_flight h + 1\<rparr>) of
                None \<Rightarrow> Aborted
              | Some h \<Rightarrow>
                  if kick \<and> nbd_internal_is_state_ready (state h) then
                    (case nbd_internal_run e fuel cmd_issue h of
                       Returned h r \<Rightarrow> Returned h (uint (c_cookie cmd))
                     | Aborted \<Rightarrow> Aborted
                     | Out_of_fuel \<Rightarrow> Out_of_fuel)
                  else Returned h (uint (c_cookie cmd))))"

section \<open>The commands\<close>

definition fail :: "u32 \<Rightarrow> string \<Rightarrow> nbd_handle \<Rightarrow> outcome" where
  "fail err msg h = Returned (set_error err msg h) (-1)"

text \<open>
  The commands of the caller take its callbacks over (\<^verbatim>\<open>SET_CALLBACK_TO_NULL\<close>) when they hand them on,
  and leave them with the caller when they refuse before that. They answer whether they did.
\<close>

type_synonym submission = "bool \<times> outcome"

definition refuse :: "u32 \<Rightarrow> string \<Rightarrow> nbd_handle \<Rightarrow> submission" where
  "refuse err msg h = (False, fail err msg h)"

definition submit_command ::
    "env \<Rightarrow> nat \<Rightarrow> u16 \<Rightarrow> u16 \<Rightarrow> u64 \<Rightarrow> u64 \<Rightarrow> u32 \<Rightarrow> cmd_data \<Rightarrow> command_cb option \<Rightarrow> nbd_handle
     \<Rightarrow> submission" where
  "submit_command e fuel flags type offset count count_err data cb h =
     (True, nbd_internal_command_common e fuel flags type offset count count_err data cb h)"

text \<open>A query of the export flags whose answer refuses the command.\<close>

definition guard ::
    "bool \<Rightarrow> (nbd_handle \<Rightarrow> nbd_handle \<times> int) \<Rightarrow> (int \<Rightarrow> bool) \<Rightarrow> u32 \<Rightarrow> string
     \<Rightarrow> (nbd_handle \<Rightarrow> submission) \<Rightarrow> nbd_handle \<Rightarrow> submission" where
  "guard on query bad err msg k h =
     (if on then (let (h, r) = query h in if bad r then refuse err msg h else k h) else k h)"

abbreviation not_yes :: "int \<Rightarrow> bool" where "not_yes r \<equiv> r \<noteq> 1"
abbreviation yes :: "int \<Rightarrow> bool" where "yes r \<equiv> r = 1"

definition completion_cb :: "completion_fn cbk \<Rightarrow> command_cb" where
  "completion_cb c = \<lparr>cb_fn = FnNull, cb_completion = c, cb_wide = False\<rparr>"

definition nbd_unlocked_aio_pread where
  "nbd_unlocked_aio_pread e fuel buf count offset completion (flags :: u32) h =
     submit_command e fuel (ucast flags) NBD_CMD_READ offset count EINVAL (Buf buf)
       (Some (completion_cb completion)) h"

definition nbd_unlocked_aio_pread_structured where
  "nbd_unlocked_aio_pread_structured e fuel buf count offset chunk completion (flags :: u32) h =
     guard (is_strict h LIBNBD_STRICT_COMMANDS \<and> flags AND LIBNBD_CMD_FLAG_DF \<noteq> 0)
       nbd_unlocked_can_df not_yes EINVAL ''server does not support the DF flag''
       (submit_command e fuel (ucast flags) NBD_CMD_READ offset count EINVAL (Buf buf)
         (Some \<lparr>cb_fn = FnChunk chunk, cb_completion = completion, cb_wide = False\<rparr>)) h"

definition pwrite_flags :: "u32 \<Rightarrow> nbd_handle \<Rightarrow> u32" where
  "pwrite_flags flags h =
     (if is_strict h LIBNBD_STRICT_AUTO_FLAG then
        (if extended_headers h then flags OR LIBNBD_CMD_FLAG_PAYLOAD_LEN
         else flags AND NOT LIBNBD_CMD_FLAG_PAYLOAD_LEN)
      else flags)"

definition nbd_unlocked_aio_pwrite where
  "nbd_unlocked_aio_pwrite e fuel buf count offset completion (flags :: u32) h =
     (let flags = pwrite_flags flags h; on = is_strict h LIBNBD_STRICT_COMMANDS
      in guard on nbd_unlocked_is_read_only yes EPERM ''server does not support write operations''
        (guard (on \<and> flags AND LIBNBD_CMD_FLAG_FUA \<noteq> 0) nbd_unlocked_can_fua not_yes EINVAL
           ''server does not support the FUA flag''
        (\<lambda>h. if on \<and> (flags AND LIBNBD_CMD_FLAG_PAYLOAD_LEN \<noteq> 0) \<noteq> extended_headers h
             then refuse EINVAL ''incorrect setting for PAYLOAD_LEN flag'' h
             else submit_command e fuel (ucast flags) NBD_CMD_WRITE offset count ENOSPC
                    (Buf buf) (Some (completion_cb completion)) h)) h)"

definition nbd_unlocked_aio_flush where
  "nbd_unlocked_aio_flush e fuel completion (flags :: u32) h =
     guard (is_strict h LIBNBD_STRICT_COMMANDS) nbd_unlocked_can_flush not_yes EINVAL
       ''server does not support flush operations''
       (submit_command e fuel (ucast flags) NBD_CMD_FLUSH 0 0 0 NoData
         (Some (completion_cb completion))) h"

definition nbd_unlocked_aio_trim where
  "nbd_unlocked_aio_trim e fuel count offset completion (flags :: u32) h =
     (let on = is_strict h LIBNBD_STRICT_COMMANDS
      in guard on nbd_unlocked_can_trim not_yes EINVAL ''server does not support trim operations''
        (guard on nbd_unlocked_is_read_only yes EPERM ''server does not support write operations''
        (guard (on \<and> flags AND LIBNBD_CMD_FLAG_FUA \<noteq> 0) nbd_unlocked_can_fua not_yes EINVAL
           ''server does not support the FUA flag''
        (submit_command e fuel (ucast flags) NBD_CMD_TRIM offset count ENOSPC NoData
           (Some (completion_cb completion))))) h)"

definition nbd_unlocked_aio_cache where
  "nbd_unlocked_aio_cache e fuel count offset completion (flags :: u32) h =
     guard (is_strict h LIBNBD_STRICT_COMMANDS) nbd_unlocked_can_cache not_yes EINVAL
       ''server does not support cache operations''
       (submit_command e fuel (ucast flags) NBD_CMD_CACHE offset count EINVAL NoData
         (Some (completion_cb completion))) h"

definition nbd_unlocked_aio_zero where
  "nbd_unlocked_aio_zero e fuel count offset completion (flags :: u32) h =
     (let on = is_strict h LIBNBD_STRICT_COMMANDS
      in guard on nbd_unlocked_can_zero not_yes EINVAL ''server does not support zero operations''
        (guard on nbd_unlocked_is_read_only yes EPERM ''server does not support write operations''
        (guard (on \<and> flags AND LIBNBD_CMD_FLAG_FUA \<noteq> 0) nbd_unlocked_can_fua not_yes EINVAL
           ''server does not support the FUA flag''
        (guard (on \<and> flags AND LIBNBD_CMD_FLAG_FAST_ZERO \<noteq> 0) nbd_unlocked_can_fast_zero not_yes
           EINVAL ''server does not support the fast zero flag''
        (submit_command e fuel (ucast flags) NBD_CMD_WRITE_ZEROES offset count ENOSPC
           NoData (Some (completion_cb completion)))))) h)"

definition check_aio_block_status :: "nbd_handle \<Rightarrow> nbd_handle \<times> int" where
  "check_aio_block_status h =
     (if is_strict h LIBNBD_STRICT_COMMANDS \<and> \<not> structured_replies h then
        (set_error ENOTSUP ''server does not support structured replies'' h, -1)
      else if is_strict h LIBNBD_STRICT_COMMANDS \<and> (\<not> meta_valid h \<or> meta_contexts h = []) then
        (set_error ENOTSUP ''did not negotiate any metadata contexts'' h, -1)
      else (h, 0))"

definition nbd_unlocked_aio_block_status where
  "nbd_unlocked_aio_block_status e fuel count offset extent completion (flags :: u32) h =
     (let (h, r) = check_aio_block_status h
      in if r = -1 then (False, Returned h (-1))
         else submit_command e fuel (ucast flags) NBD_CMD_BLOCK_STATUS offset count
                EINVAL NoData
                (Some \<lparr>cb_fn = FnExtent32 extent, cb_completion = completion, cb_wide = False\<rparr>) h)"

definition nbd_unlocked_aio_block_status_64 where
  "nbd_unlocked_aio_block_status_64 e fuel count offset extent completion (flags :: u32) h =
     (let (h, r) = check_aio_block_status h
      in if r = -1 then (False, Returned h (-1))
         else submit_command e fuel (ucast flags) NBD_CMD_BLOCK_STATUS offset count
                EINVAL NoData
                (Some \<lparr>cb_fn = FnExtent64 extent, cb_completion = completion, cb_wide = True\<rparr>) h)"

text \<open>The identifiers of the contexts a filter names; \<^const>\<open>None\<close> when one was not negotiated.\<close>

fun filter_ids :: "meta_context list \<Rightarrow> cstr list \<Rightarrow> u32 list option" where
  "filter_ids mcs [] = Some []"
| "filter_ids mcs (name # names) = do {
     m \<leftarrow> find (\<lambda>m. mc_name m = name) mcs;
     ids \<leftarrow> filter_ids mcs names;
     Some (mc_context_id m # ids) }"

definition nbd_unlocked_aio_block_status_filter where
  "nbd_unlocked_aio_block_status_filter e fuel (count :: u64) offset filters extent completion
       (flags :: u32) h =
     (let (h, r) = check_aio_block_status h;
          auto = is_strict h LIBNBD_STRICT_AUTO_FLAG;
          on = is_strict h LIBNBD_STRICT_COMMANDS;
          flags = (if auto then flags OR LIBNBD_CMD_FLAG_PAYLOAD_LEN else flags)
      in if r = -1 then (False, Returned h (-1))
         else if auto \<and> \<not> extended_headers h then
           refuse ENOTSUP ''server does not support extended headers'' h
         else guard on nbd_unlocked_can_block_status_payload not_yes EINVAL
           ''server does not support the block status payload flag''
           (\<lambda>h. if on \<and> flags AND LIBNBD_CMD_FLAG_PAYLOAD_LEN = 0
                then refuse EINVAL ''incorrect setting for PAYLOAD_LEN flag'' h
                else if filters \<noteq> [] \<and> \<not> meta_valid h then
                  refuse EINVAL ''context not negotiated'' h
                else case filter_ids (meta_contexts h) filters of
                  None \<Rightarrow> refuse EINVAL ''context not negotiated'' h
                | Some ids \<Rightarrow>
                    submit_command e fuel (ucast flags) NBD_CMD_BLOCK_STATUS offset count
                      EINVAL (Ids (ucast (drop_bit 32 count) # ucast count # ids))
                      (Some \<lparr>cb_fn = FnExtent64 extent, cb_completion = completion, cb_wide = True\<rparr>) h) h)"

section \<open>Completion\<close>

definition nbd_unlocked_aio_command_completed :: "u64 \<Rightarrow> nbd_handle \<Rightarrow> (nbd_handle \<times> int) option" where
  "nbd_unlocked_aio_command_completed cookie h =
     (if cookie < 1 then Some (set_error EINVAL ''invalid aio cookie'' h, -1)
      else case find_cmd cookie (cmds_done h) of
        None \<Rightarrow> Some (h, 0)
      | Some cmd \<Rightarrow> do {
          asrt (c_type cmd \<noteq> NBD_CMD_DISC);
          let error = (if c_type cmd = NBD_CMD_READ \<and> ucast (c_data_seen cmd) \<noteq> c_count cmd \<and>
                          c_error cmd = 0 then EPROTO else c_error cmd);
          let rest = del_cmd cookie (cmds_done h);
          h \<leftarrow> (if cmds_done_tail h = Some cookie then do {
                 asrt (c_cookie (last (cmds_done h)) = cookie);
                 Some (h\<lparr>cmds_done_tail := (if rest = [] then None else Some (c_cookie (last rest)))\<rparr>) }
               else Some h);
          let h = nbd_internal_retire_and_free_command cmd (h\<lparr>cmds_done := rest\<rparr>);
          if error = 0 then Some (h, 1)
          else Some (set_error error (nbd_internal_name_of_nbd_cmd (c_type cmd) @ '': command failed'') h, -1) })"

definition nbd_unlocked_aio_peek_command_completed :: "nbd_handle \<Rightarrow> (nbd_handle \<times> int) option" where
  "nbd_unlocked_aio_peek_command_completed h =
     (case cmds_done h of
        cmd # _ \<Rightarrow> do { asrt (c_type cmd \<noteq> NBD_CMD_DISC); Some (h, uint (c_cookie cmd)) }
      | [] \<Rightarrow>
          if cmds_in_flight h \<noteq> [] \<or> cmds_to_issue h \<noteq> []
          then Some (set_error 0 ''no in-flight command has completed yet'' h, 0)
          else Some (set_error EINVAL ''no commands are in flight'' h, -1))"

definition nbd_unlocked_aio_in_flight :: "nbd_handle \<Rightarrow> int" where
  "nbd_unlocked_aio_in_flight h = in_flight h"

section \<open>Disconnection\<close>

definition nbd_unlocked_aio_disconnect :: "env \<Rightarrow> nat \<Rightarrow> u32 \<Rightarrow> nbd_handle \<Rightarrow> outcome" where
  "nbd_unlocked_aio_disconnect e fuel flags h =
     (case nbd_internal_command_common e fuel (ucast flags) NBD_CMD_DISC 0 0 0 NoData None h of
        Returned h r \<Rightarrow> if r = -1 then Returned h (-1) else Returned (h\<lparr>disconnect_request := True\<rparr>) 0
      | out \<Rightarrow> out)"

text \<open>
  The part of \<^verbatim>\<open>nbd_shutdown\<close> that gives up the commands of which nothing was sent: all of
  them in state \<^verbatim>\<open>READY\<close>, otherwise all but the first.
\<close>

definition abandon_pending :: "nbd_handle \<Rightarrow> nbd_handle option" where
  "abandon_pending h =
     (if nbd_internal_is_state_ready (state h)
      then nbd_internal_abort_commands (cmds_to_issue h) (h\<lparr>cmds_to_issue := []\<rparr>)
      else case cmds_to_issue h of
        [] \<Rightarrow> None
      | cmd # rest \<Rightarrow> nbd_internal_abort_commands rest
          (h\<lparr>cmds_to_issue := [cmd], cmds_to_issue_tail := Some (c_cookie cmd)\<rparr>))"

end
