(* ===== verification/NBD_Invariant.thy ===== *)
theory NBD_Invariant
  imports NBD_Commands
begin

text \<open>
  The invariant of a connected handle and the proof that every state of the request and reply
  engine keeps it: no assertion of the C code fails and nothing is written outside a buffer,
  whatever bytes the server sends and however they are cut into pieces.
\<close>

section \<open>Commands\<close>

text \<open>
  What submission guarantees of a command. The range of a read stays clear of the end of the
  64-bit offset space, which is what the range check on structured replies relies on.
\<close>

definition has_data :: "command \<Rightarrow> bool" where
  "has_data c \<longleftrightarrow> (case c_data c of None \<Rightarrow> False | Some d \<Rightarrow> length d = unat (c_count c))"

definition cmd_ok :: "bool \<Rightarrow> command \<Rightarrow> bool" where
  "cmd_ok eh c \<longleftrightarrow>
     (\<not> eh \<longrightarrow> c_count c \<le> 0xFFFFFFFF) \<and>
     (c_type c = NBD_CMD_READ \<longrightarrow> has_data c \<and> unat (c_count c) \<le> MAX_REQUEST_SIZE \<and>
        unat (c_offset c) + unat (c_count c) \<le> 2 ^ 63) \<and>
     (c_type c = NBD_CMD_WRITE \<longrightarrow> has_data c) \<and>
     (c_type c = NBD_CMD_BLOCK_STATUS \<longrightarrow> \<not> fn_is_null (cb_fn (c_cb c)) \<and>
        (eh \<and> c_flags c AND NBD_CMD_FLAG_PAYLOAD_LEN \<noteq> 0 \<longrightarrow> has_data c)) \<and>
     (c_type c = NBD_CMD_DISC \<longrightarrow> CALLBACK_IS_NULL (cb_completion (c_cb c)))"

text \<open>
  What a reply may change of a command in flight: the contents of its buffer, the bytes seen
  and the error.
\<close>

definition cmd_sim :: "command \<Rightarrow> command \<Rightarrow> bool" where
  "cmd_sim c c' \<longleftrightarrow> c_cookie c' = c_cookie c \<and> c_type c' = c_type c \<and> c_flags c' = c_flags c \<and>
     c_offset c' = c_offset c \<and> c_count c' = c_count c \<and> c_cb c' = c_cb c \<and>
     map_option length (c_data c') = map_option length (c_data c)"

lemma cmd_sim_refl [simp]: "cmd_sim c c"
  by (simp add: cmd_sim_def)

lemma cmd_sim_trans: "cmd_sim a b \<Longrightarrow> cmd_sim b c \<Longrightarrow> cmd_sim a c"
  by (simp add: cmd_sim_def)

lemma has_data_sim: "cmd_sim c c' \<Longrightarrow> has_data c' = has_data c"
  by (auto simp: has_data_def cmd_sim_def split: option.splits)

lemma cmd_ok_sim: "cmd_sim c c' \<Longrightarrow> cmd_ok eh c' = cmd_ok eh c"
  using has_data_sim [of c c'] by (simp add: cmd_ok_def cmd_sim_def)

lemma cmd_sim_first_error [simp]: "cmd_sim c (first_error e d) = cmd_sim c d"
  by (simp add: cmd_sim_def first_error_def)

lemma cmd_sim_chunk_result [simp]: "cmd_sim c (chunk_result r e d) = cmd_sim c d"
  by (simp add: chunk_result_def)

lemma cmd_sim_add_data_seen [simp]: "cmd_sim c (add_data_seen n d) = cmd_sim c d"
  by (simp add: cmd_sim_def add_data_seen_def)

lemma cmd_sim_updates [simp]:
  "cmd_sim c (d\<lparr>c_error := e\<rparr>) = cmd_sim c d"
  "cmd_sim c (d\<lparr>c_data_seen := n\<rparr>) = cmd_sim c d"
  by (simp_all add: cmd_sim_def)

section \<open>Finding and updating\<close>

lemma find_cmd_simps [simp]:
  "find_cmd k [] = None"
  "find_cmd k (c # cs) = (if c_cookie c = k then Some c else find_cmd k cs)"
  by (simp_all add: find_cmd_def)

lemma find_cmd_SomeD: "find_cmd k cs = Some c \<Longrightarrow> c \<in> set cs \<and> c_cookie c = k"
  by (induction cs) (auto split: if_splits)

lemma find_cmd_None: "find_cmd k cs = None \<longleftrightarrow> k \<notin> c_cookie ` set cs"
  by (induction cs) auto

lemma find_cmd_in_set:
  "c \<in> set cs \<Longrightarrow> distinct (map c_cookie cs) \<Longrightarrow> find_cmd (c_cookie c) cs = Some c"
  by (induction cs) auto

lemma find_cmd_cookie: "find_cmd k cs = Some c \<Longrightarrow> c_cookie c = k"
  using find_cmd_SomeD by blast

lemma length_upd_cmd [simp]: "length (upd_cmd k f cs) = length cs"
  by (induction cs) auto

lemma cookies_upd_cmd:
  "(\<And>c. c_cookie c = k \<Longrightarrow> c_cookie (f c) = k) \<Longrightarrow> map c_cookie (upd_cmd k f cs) = map c_cookie cs"
  by (induction cs) auto

lemma set_upd_cmd: "set (upd_cmd k f cs) \<subseteq> set cs \<union> {f c |c. find_cmd k cs = Some c}"
  by (induction cs) auto

lemma find_upd_cmd:
  "(\<And>c. c_cookie c = k \<Longrightarrow> c_cookie (f c) = k) \<Longrightarrow>
     find_cmd j (upd_cmd k f cs) = (if j = k then map_option f (find_cmd k cs) else find_cmd j cs)"
  by (induction cs) auto

lemma find_del_cmd: "find_cmd j (del_cmd k cs) = find_cmd j cs" if "j \<noteq> k"
  using that by (induction cs) auto

lemma set_del_cmd: "set (del_cmd k cs) \<subseteq> set cs"
  by (induction cs) auto

lemma length_del_cmd: "find_cmd k cs = Some c \<Longrightarrow> Suc (length (del_cmd k cs)) = length cs"
  by (induction cs) (auto split: if_splits)

lemma cookies_del_cmd: "c_cookie ` set (del_cmd k cs) \<subseteq> c_cookie ` set cs"
  using set_del_cmd by fastforce

lemma distinct_del_cmd: "distinct (map c_cookie cs) \<Longrightarrow> distinct (map c_cookie (del_cmd k cs))"
proof (induction cs)
  case (Cons c cs)
  then show ?case using set_del_cmd [of k cs] by auto
qed simp

lemma del_cmd_gone:
  "distinct (map c_cookie cs) \<Longrightarrow> k \<notin> c_cookie ` set (del_cmd k cs)"
proof (induction cs)
  case (Cons c cs)
  then show ?case using set_del_cmd [of k cs] by auto
qed simp

lemma sims_cookies: "list_all2 cmd_sim fl fl' \<Longrightarrow> map c_cookie fl' = map c_cookie fl"
  by (induction rule: list_all2_induct) (auto simp: cmd_sim_def)

lemma sims_cookie_set: "list_all2 cmd_sim fl fl' \<Longrightarrow> c_cookie ` set fl' = c_cookie ` set fl"
  using sims_cookies by (metis set_map)

lemma sims_find:
  "list_all2 cmd_sim fl fl' \<Longrightarrow>
     (case find_cmd k fl of None \<Rightarrow> find_cmd k fl' = None
      | Some c \<Rightarrow> \<exists>c'. find_cmd k fl' = Some c' \<and> cmd_sim c c')"
  by (induction rule: list_all2_induct) (auto simp: cmd_sim_def split: option.splits)

lemma sims_find_Some:
  "list_all2 cmd_sim fl fl' \<Longrightarrow> find_cmd k fl = Some c \<Longrightarrow> \<exists>c'. find_cmd k fl' = Some c' \<and> cmd_sim c c'"
  using sims_find [of fl fl' k] by simp

lemma sims_find_cookie:
  "list_all2 cmd_sim fl fl' \<Longrightarrow> map_option c_cookie (find_cmd k fl') = map_option c_cookie (find_cmd k fl)"
  using sims_find [of fl fl' k] by (auto simp: cmd_sim_def split: option.splits)

lemma sims_all_ok:
  "list_all2 cmd_sim fl fl' \<Longrightarrow> (\<forall>c \<in> set fl'. cmd_ok eh c) = (\<forall>c \<in> set fl. cmd_ok eh c)"
  by (induction rule: list_all2_induct) (auto simp: cmd_ok_sim)

lemma sims_refl [simp]: "list_all2 cmd_sim fl fl"
  by (rule list.rel_refl) simp

lemma sims_upd:
  "find_cmd k fl = Some c \<Longrightarrow> cmd_sim c (f c) \<Longrightarrow> list_all2 cmd_sim fl (upd_cmd k f fl)"
  by (induction fl) (auto split: if_splits)

section \<open>The invariant\<close>

text \<open>The three queues of commands.\<close>

definition last_cookie :: "command list \<Rightarrow> u64 option" where
  "last_cookie cs = (if cs = [] then None else Some (c_cookie (last cs)))"

definition qinv :: "nbd_handle \<Rightarrow> bool" where
  "qinv h \<longleftrightarrow>
     in_flight h = int (length (cmds_to_issue h) + length (cmds_in_flight h)) \<and>
     distinct (map c_cookie (cmds_to_issue h) @ map c_cookie (cmds_in_flight h) @ map c_cookie (cmds_done h)) \<and>
     (\<forall>k \<in> c_cookie ` set (cmds_to_issue h) \<union> c_cookie ` set (cmds_in_flight h) \<union>
            c_cookie ` set (cmds_done h). k < unique h) \<and>
     (\<forall>c \<in> set (cmds_to_issue h). cmd_ok (extended_headers h) c) \<and>
     (\<forall>c \<in> set (cmds_in_flight h). cmd_ok (extended_headers h) c) \<and>
     (\<forall>c \<in> set (cmds_done h). c_type c \<noteq> NBD_CMD_DISC) \<and>
     cmds_done_tail h = last_cookie (cmds_done h)"

text \<open>
  What holds while there is a connection: a socket, the tail pointer of the queue of commands
  to issue, and the disconnect request last in that queue.
\<close>

definition conn :: "nbd_handle \<Rightarrow> bool" where
  "conn h \<longleftrightarrow> sock h \<noteq> None \<and>
     cmds_to_issue_tail h = last_cookie (cmds_to_issue h) \<and>
     (\<forall>c \<in> set (butlast (cmds_to_issue h)). c_type c \<noteq> NBD_CMD_DISC)"

text \<open>
  The request being sent. \<open>ihead\<close>: the request header in \<^verbatim>\<open>req\<close> belongs to the first command in
  the queue; \<open>ipend\<close>: outside the states that issue a command, a request may be half sent.
\<close>

definition ihead :: "nbd_handle \<Rightarrow> bool" where
  "ihead h \<longleftrightarrow> cmds_to_issue h \<noteq> [] \<and> rd64 (req h) 8 = c_cookie (hd (cmds_to_issue h)) \<and>
     wlen h \<le> length (wbuf h)"

definition shut_ok :: "nbd_handle \<Rightarrow> bool" where
  "shut_ok h \<longleftrightarrow> (in_write_shutdown h \<longrightarrow> length (cmds_to_issue h) \<le> 1 \<and>
     (\<forall>c \<in> set (cmds_to_issue h). c_type c = NBD_CMD_DISC))"

definition ipend :: "nbd_handle \<Rightarrow> bool" where
  "ipend h \<longleftrightarrow> shut_ok h \<and> (wlen h \<noteq> 0 \<longrightarrow> ihead h)"

fun iinv :: "issue_command_state \<Rightarrow> nbd_handle \<Rightarrow> bool" where
  "iinv ISSUE_START h = (cmds_to_issue h \<noteq> [] \<and> ipend h)"
| "iinv SEND_REQUEST h = (ihead h \<and> shut_ok h \<and> wlen h \<noteq> 0)"
| "iinv PAUSE_SEND_REQUEST h = (ihead h \<and> shut_ok h \<and> wlen h \<noteq> 0)"
| "iinv PREPARE_WRITE_PAYLOAD h = (ihead h \<and> shut_ok h \<and> wlen h = 0)"
| "iinv SEND_WRITE_PAYLOAD h = (ihead h \<and> shut_ok h)"
| "iinv PAUSE_WRITE_PAYLOAD h = (ihead h \<and> shut_ok h \<and> wlen h \<noteq> 0)"
| "iinv SEND_WRITE_SHUTDOWN h = (ihead h \<and> shut_ok h \<and> wlen h = 0 \<and> in_write_shutdown h)"
| "iinv PAUSE_WRITE_SHUTDOWN h = (ihead h \<and> shut_ok h \<and> wlen h = 0 \<and> in_write_shutdown h)"
| "iinv ISSUE_FINISH h = (ihead h \<and> shut_ok h \<and> wlen h = 0)"

text \<open>The reply being received.\<close>

definition hdr_size :: "nbd_handle \<Rightarrow> nat" where
  "hdr_size h = (if extended_headers h then sizeof_extended_reply else sizeof_simple_reply)"

definition cookie_ok :: "nbd_handle \<Rightarrow> bool" where
  "cookie_ok h \<longleftrightarrow>
     reply_cmd h = map_option c_cookie (find_cmd (hdr_cookie (sbuf h)) (cmds_in_flight h))"

text \<open>A reply to no command in flight names a command that is past, never one still to come.\<close>

definition past_cookie :: "nbd_handle \<Rightarrow> bool" where
  "past_cookie h \<longleftrightarrow> (reply_cmd h = None \<longrightarrow>
     hdr_cookie (sbuf h) < unique h \<and> hdr_cookie (sbuf h) \<notin> c_cookie ` set (cmds_to_issue h))"

text \<open>The bytes still to come fill \<^verbatim>\<open>sbuf\<close> up to \<open>hi\<close>, starting no lower than \<open>lo\<close>.\<close>

definition sbuf_upto :: "nat \<Rightarrow> nat \<Rightarrow> nbd_handle \<Rightarrow> bool" where
  "sbuf_upto lo hi h \<longleftrightarrow> (case rbuf h of RSbuf off \<Rightarrow> lo \<le> off \<and> off + rlen h = hi | _ \<Rightarrow> False)"

definition with_reply_cmd :: "(command \<Rightarrow> bool) \<Rightarrow> nbd_handle \<Rightarrow> bool" where
  "with_reply_cmd P h \<longleftrightarrow> (case get_reply_cmd h of None \<Rightarrow> False | Some c \<Rightarrow> P c)"

text \<open>The bytes still to come fit into the buffer of the command being replied to.\<close>

definition room :: "nat \<Rightarrow> command \<Rightarrow> bool" where
  "room n c \<longleftrightarrow> (case c_data c of None \<Rightarrow> False | Some d \<Rightarrow> n \<le> length d)"

definition data_fits :: "nbd_handle \<Rightarrow> bool" where
  "data_fits h \<longleftrightarrow> (case rbuf h of
       RData k off \<Rightarrow> reply_cmd h = Some k \<and>
         with_reply_cmd (\<lambda>c. c_type c = NBD_CMD_READ \<and> room (off + rlen h) c) h
     | _ \<Rightarrow> False)"

lemma room_sim: "cmd_sim c c' \<Longrightarrow> room n c' = room n c"
  by (auto simp: room_def cmd_sim_def split: option.splits)

definition desc_size :: "nbd_handle \<Rightarrow> nat" where
  "desc_size h = (if structured_type (sbuf h) = NBD_REPLY_TYPE_BLOCK_STATUS
     then sizeof_block_descriptor_32 else sizeof_block_descriptor_64)"

definition bs_hdr_size :: "nbd_handle \<Rightarrow> nat" where
  "bs_hdr_size h = (if structured_type (sbuf h) = NBD_REPLY_TYPE_BLOCK_STATUS
     then sizeof_chunk_block_status_32 else sizeof_chunk_block_status_64)"

definition bs_cmd :: "nbd_handle \<Rightarrow> bool" where
  "bs_cmd h \<longleftrightarrow> with_reply_cmd (\<lambda>c. c_type c = NBD_CMD_BLOCK_STATUS) h \<and> meta_valid h"

fun chunk_data :: "chunk_reply_state \<Rightarrow> nbd_handle \<Rightarrow> bool" where
  "chunk_data CHUNK_START h = (rlen h = 0 \<and> payload_left h = 0)"
| "chunk_data RECV_ERROR h = (with_reply_cmd (\<lambda>_. True) h \<and> payload_left h \<ge> 4 \<and>
     sbuf_upto payload_off (payload_off + min (payload_left h) sizeof_chunk_error) h)"
| "chunk_data RECV_ERROR_MESSAGE h = (with_reply_cmd (\<lambda>_. True) h \<and>
     (case rbuf h of RSbuf off \<Rightarrow> payload_off \<le> off \<and>
        off + rlen h \<le> payload_off + sizeof_chunk_error + NBD_MAX_STRING | _ \<Rightarrow> False))"
| "chunk_data RECV_ERROR_TAIL h = (with_reply_cmd (\<lambda>_. True) h \<and> payload_left h = 0 \<and>
     (rbuf h = RNull \<or> sbuf_upto payload_off (payload_off + sizeof_chunk_error + NBD_MAX_STRING + 8) h))"
| "chunk_data RECV_OFFSET_DATA h = (with_reply_cmd (\<lambda>c. c_type c = NBD_CMD_READ) h \<and>
     payload_left h \<le> MAX_REQUEST_SIZE \<and>
     sbuf_upto payload_off (payload_off + sizeof_chunk_offset_data) h)"
| "chunk_data RECV_OFFSET_DATA_DATA h = data_fits h"
| "chunk_data RECV_OFFSET_HOLE h = (with_reply_cmd (\<lambda>c. c_type c = NBD_CMD_READ) h \<and>
     payload_left h = 0 \<and> sbuf_upto payload_off (payload_off + sizeof_chunk_offset_hole) h)"
| "chunk_data RECV_BS_HEADER h = (bs_cmd h \<and>
     payload_left h \<le> MAX_REQUEST_SIZE + sizeof_chunk_offset_data \<and>
     bs_reply_length_ok (structured_type (sbuf h)) (of_nat (payload_left h)) = Some True \<and>
     sbuf_upto payload_off (payload_off + bs_hdr_size h) h)"
| "chunk_data RECV_BS_ENTRIES h = (bs_cmd h \<and> payload_left h = 0 \<and> bs_count h \<noteq> 0 \<and>
     length (bs_raw h) = bs_count h * desc_size h \<and>
     (case rbuf h of RBsRaw off \<Rightarrow> off + rlen h = length (bs_raw h) | _ \<Rightarrow> False))"
| "chunk_data RESYNC h = (rbuf h = RNull \<and> payload_left h = 0 \<and> (reply_cmd h = None \<longrightarrow> rlen h = 0))"
| "chunk_data CHUNK_FINISH h = (rlen h = 0 \<and> payload_left h = 0)"

fun reply_data :: "reply_state \<Rightarrow> nbd_handle \<Rightarrow> bool" where
  "reply_data REPLY_START h = False"
| "reply_data RECV_REPLY h =
     (sbuf_upto 0 (hdr_size h) h \<and> reply_cmd h = None \<and> payload_left h = 0)"
| "reply_data CHECK_REPLY_MAGIC h =
     (rbuf h = RSbuf (hdr_size h) \<and> rlen h = 0 \<and> reply_cmd h = None \<and> payload_left h = 0)"
| "reply_data RECV_STRUCTURED_REMAINING h = (\<not> extended_headers h \<and> cookie_ok h \<and> past_cookie h \<and>
     payload_left h = 0 \<and> sbuf_upto sizeof_simple_reply sizeof_structured_reply h)"
| "reply_data (SIMPLE_REPLY SIMPLE_START) h = (rlen h = 0 \<and> cookie_ok h \<and> payload_left h = 0)"
| "reply_data (SIMPLE_REPLY RECV_READ_PAYLOAD) h = (data_fits h \<and> cookie_ok h \<and> payload_left h = 0)"
| "reply_data (CHUNK_REPLY c) h = (cookie_ok h \<and> chunk_data c h)"
| "reply_data FINISH_COMMAND h = (rlen h = 0 \<and> cookie_ok h \<and> payload_left h = 0)"

text \<open>
  Between replies, and while a reply is put aside to send a request: nothing received, part of
  a header received, or the state saved in \<^verbatim>\<open>reply_state\<close> to be resumed.
\<close>

definition ridle :: "nbd_handle \<Rightarrow> bool" where
  "ridle h \<longleftrightarrow>
     (if rlen h = 0 then reply_state h = START \<and> reply_cmd h = None \<and> payload_left h = 0
      else case reply_state h of
        START \<Rightarrow> reply_data RECV_REPLY h
      | REPLY r \<Rightarrow> r \<noteq> RECV_REPLY \<and> reply_data r h
      | _ \<Rightarrow> False)"

definition rinv :: "reply_state \<Rightarrow> nbd_handle \<Rightarrow> bool" where
  "rinv r h \<longleftrightarrow> (if r = REPLY_START then ridle h else reply_state h = START \<and> reply_data r h)"

fun inv_at :: "state \<Rightarrow> nbd_handle \<Rightarrow> bool" where
  "inv_at READY h = (qinv h \<and> conn h \<and> ipend h \<and> ridle h)"
| "inv_at (ISSUE_COMMAND i) h = (qinv h \<and> conn h \<and> iinv i h \<and> ridle h)"
| "inv_at (REPLY r) h = (qinv h \<and> conn h \<and> ipend h \<and> rinv r h)"
| "inv_at DEAD h = (qinv h \<and> last_error h \<noteq> None)"
| "inv_at CLOSED h = qinv h"
| "inv_at _ h = False"

definition inv :: "nbd_handle \<Rightarrow> bool" where
  "inv h \<longleftrightarrow> inv_at (state h) h \<and>
     (blocked h \<and> state h = ISSUE_COMMAND SEND_WRITE_PAYLOAD \<longrightarrow> wlen h \<noteq> 0)"

lemmas inv_defs = qinv_def conn_def ihead_def shut_ok_def ipend_def

end
