(* ===== verification/NBD_Safety.thy ===== *)
theory NBD_Safety
  imports NBD_Invariant
begin

text \<open>
  What the invariant depends on, what a receive into \<^verbatim>\<open>rbuf\<close> keeps of it, and the rule for the states
  that receive and may be interrupted.
\<close>

section \<open>Fields the invariant does not depend on\<close>

lemmas reply_preds = sbuf_upto_def hdr_size_def cookie_ok_def past_cookie_def data_fits_def
  with_reply_cmd_def get_reply_cmd_def bs_cmd_def desc_size_def bs_hdr_size_def

lemma chunk_data_frame:
  assumes "rlen h' = rlen h" "payload_left h' = payload_left h" "rbuf h' = rbuf h" "reply_cmd h' = reply_cmd h"
    "cmds_in_flight h' = cmds_in_flight h" "sbuf h' = sbuf h" "bs_count h' = bs_count h"
    "bs_raw h' = bs_raw h" "meta_valid h' = meta_valid h"
  shows "chunk_data c h' = chunk_data c h"
  by (cases c) (auto simp: reply_preds assms split: option.split rptr.split)

lemma reply_data_frame:
  assumes "rlen h' = rlen h" "payload_left h' = payload_left h" "rbuf h' = rbuf h" "reply_cmd h' = reply_cmd h"
    "cmds_in_flight h' = cmds_in_flight h" "cmds_to_issue h' = cmds_to_issue h" "unique h' = unique h"
    "extended_headers h' = extended_headers h" "sbuf h' = sbuf h" "bs_count h' = bs_count h"
    "bs_raw h' = bs_raw h" "meta_valid h' = meta_valid h"
  shows "reply_data r h' = reply_data r h"
proof -
  have c: "chunk_data c h' = chunk_data c h" for c
    by (rule chunk_data_frame) (simp_all add: assms)
  show ?thesis
  proof (cases r)
    case (SIMPLE_REPLY x)
    then show ?thesis by (cases x) (simp_all add: reply_preds assms split: option.split rptr.split)
  qed (simp_all add: reply_preds assms c split: option.split rptr.split)
qed

lemma inv_at_frame:
  assumes "rlen h' = rlen h" "payload_left h' = payload_left h" "rbuf h' = rbuf h" "reply_cmd h' = reply_cmd h"
    "cmds_in_flight h' = cmds_in_flight h" "cmds_to_issue h' = cmds_to_issue h" "unique h' = unique h"
    "extended_headers h' = extended_headers h" "sbuf h' = sbuf h" "bs_count h' = bs_count h"
    "bs_raw h' = bs_raw h" "meta_valid h' = meta_valid h" "in_flight h' = in_flight h"
    "cmds_done h' = cmds_done h" "cmds_done_tail h' = cmds_done_tail h" "sock h' = None \<longleftrightarrow> sock h = None"
    "cmds_to_issue_tail h' = cmds_to_issue_tail h" "wlen h' = wlen h" "wbuf h' = wbuf h" "req h' = req h"
    "in_write_shutdown h' = in_write_shutdown h" "reply_state h' = reply_state h"
    "last_error h' = None \<longleftrightarrow> last_error h = None"
  shows "inv_at s h' = inv_at s h"
proof -
  have r: "reply_data r h' = reply_data r h" for r
    by (rule reply_data_frame) (simp_all add: assms)
  have idle: "ridle h' = ridle h"
    by (simp add: ridle_def r assms split: state.split)
  have pre: "qinv h' = qinv h" "conn h' = conn h" "ipend h' = ipend h" "rinv x h' = rinv x h" for x
    by (simp_all add: inv_defs rinv_def idle r assms)
  have i: "iinv i h' = iinv i h" for i
    by (cases i) (simp_all add: inv_defs assms)
  show ?thesis
    by (cases s) (simp_all add: pre i idle assms)
qed

lemma inv_at_updates [simp]:
  "inv_at s (h\<lparr>state := a\<rparr>) = inv_at s h"
  "inv_at s (h\<lparr>next_state := a\<rparr>) = inv_at s h"
  "inv_at s (h\<lparr>blocked := b\<rparr>) = inv_at s h"
  "inv_at s (h\<lparr>wflags_more := b\<rparr>) = inv_at s h"
  "inv_at s (h\<lparr>in_write_payload := b\<rparr>) = inv_at s h"
  "inv_at s (h\<lparr>chunks_sent := n\<rparr>) = inv_at s h"
  "inv_at s (h\<lparr>chunks_received := n\<rparr>) = inv_at s h"
  "inv_at s (log_event ev h) = inv_at s h"
  by (rule inv_at_frame; simp add: log_event_def)+

section \<open>Results of a handler\<close>

text \<open>A handler succeeds when it neither stops nor leaves the invariant for the state it chose.\<close>

definition ok_result :: "(nbd_handle \<times> int) option \<Rightarrow> bool" where
  "ok_result x \<longleftrightarrow> (case x of None \<Rightarrow> False | Some (h, r) \<Rightarrow>
     inv_at (next_state h) h \<and>
     (blocked h \<and> next_state h = ISSUE_COMMAND SEND_WRITE_PAYLOAD \<longrightarrow> wlen h \<noteq> 0) \<and>
     (r = -1 \<longrightarrow> last_error h \<noteq> None))"

lemma ok_goto [simp]: "ok_result (goto s h) = inv_at s h"
  by (simp add: ok_result_def return0_def SET_NEXT_STATE_def)

lemma ok_stay:
  "inv_at (next_state h) h \<Longrightarrow>
     (blocked h \<and> next_state h = ISSUE_COMMAND SEND_WRITE_PAYLOAD \<longrightarrow> wlen h \<noteq> 0) \<Longrightarrow>
     ok_result (return0 h)"
  by (simp add: ok_result_def return0_def)

lemma ok_enter:
  assumes "ok_result (f (h\<lparr>next_state := state h\<rparr>))"
  shows "\<exists>h' r. enter f h = Some (h', r) \<and> inv h' \<and> (r = -1 \<longrightarrow> last_error h' \<noteq> None)"
  using assms by (auto simp: ok_result_def enter_def inv_def split: option.splits)

section \<open>Receiving\<close>

text \<open>The bytes asked for fit where they go.\<close>

definition target_ok :: "nbd_handle \<Rightarrow> bool" where
  "target_ok h \<longleftrightarrow> (case rbuf h of
       RNull \<Rightarrow> True
     | RSbuf off \<Rightarrow> off + rlen h \<le> sizeof_sbuf
     | RData k off \<Rightarrow>
         (case find_cmd k (cmds_in_flight h) of None \<Rightarrow> False | Some c \<Rightarrow> room (off + rlen h) c)
     | RBsRaw off \<Rightarrow> off + rlen h \<le> length (bs_raw h))"

text \<open>What a receive of \<open>n\<close> bytes changes.\<close>

fun advance :: "nat \<Rightarrow> rptr \<Rightarrow> rptr" where
  "advance n RNull = RNull"
| "advance n (RSbuf off) = RSbuf (off + n)"
| "advance n (RData k off) = RData k (off + n)"
| "advance n (RBsRaw off) = RBsRaw (off + n)"

definition below :: "rptr \<Rightarrow> nat \<Rightarrow> bool" where
  "below p i \<longleftrightarrow> (case p of RSbuf off \<Rightarrow> i < off | _ \<Rightarrow> True)"

definition stored :: "nat \<Rightarrow> nbd_handle \<Rightarrow> nbd_handle \<Rightarrow> bool" where
  "stored n h h' \<longleftrightarrow> (\<exists>m fl raw.
     h' = h\<lparr>sbuf := m, rbuf := advance n (rbuf h), cmds_in_flight := fl, bs_raw := raw\<rparr> \<and>
     (\<forall>i. below (rbuf h) i \<longrightarrow> m i = sbuf h i) \<and>
     list_all2 cmd_sim (cmds_in_flight h) fl \<and> length raw = length (bs_raw h))"

definition recvd :: "nbd_handle \<Rightarrow> nbd_handle \<Rightarrow> bool" where
  "recvd h h' \<longleftrightarrow> (\<exists>n s m fl raw b le.
     h' = h\<lparr>sock := Some s, sbuf := m, rbuf := advance n (rbuf h), cmds_in_flight := fl, bs_raw := raw,
            bytes_received := b, rlen := rlen h - n, last_error := le\<rparr> \<and>
     n \<le> rlen h \<and> (\<forall>i. below (rbuf h) i \<longrightarrow> m i = sbuf h i) \<and>
     list_all2 cmd_sim (cmds_in_flight h) fl \<and> length raw = length (bs_raw h) \<and>
     (last_error h \<noteq> None \<longrightarrow> le \<noteq> None))"

lemma stored_rbuf:
  assumes "target_ok h" and "length bs \<le> rlen h"
  shows "\<exists>h'. store_rbuf bs h = Some h' \<and> stored (length bs) h h'"
proof (cases "rbuf h")
  case RNull
  then show ?thesis
    by (auto simp: store_rbuf.simps stored_def intro!: exI [of _ "sbuf h"] exI [of _ "cmds_in_flight h"]
        exI [of _ "bs_raw h"])
next
  case (RSbuf off)
  then show ?thesis using assms
    by (auto simp: store_rbuf.simps stored_def target_ok_def below_def mem_write_def
        intro!: exI [of _ "cmds_in_flight h"] exI [of _ "bs_raw h"])
next
  case (RData k off)
  with assms obtain c d where c: "find_cmd k (cmds_in_flight h) = Some c" "c_data c = Some d"
    "off + length bs \<le> length d"
    by (auto simp: target_ok_def room_def split: option.splits)
  then obtain d' where d: "buf_write d off bs = Some d'" "length d' = length d"
    using buf_write_in_bounds buf_write_length by blast
  have "cmd_sim c (c\<lparr>c_data := Some d'\<rparr>)"
    by (simp add: cmd_sim_def c d)
  with c(1) have "list_all2 cmd_sim (cmds_in_flight h)
      (upd_cmd k (c_data_update (\<lambda>_. Some d')) (cmds_in_flight h))"
    by (intro sims_upd) auto
  with RData c d show ?thesis
    by (auto simp: store_rbuf.simps stored_def intro!: exI [of _ "sbuf h"] exI [of _ "bs_raw h"]
        exI [of _ "upd_cmd k (c_data_update (\<lambda>_. Some d')) (cmds_in_flight h)"])
next
  case (RBsRaw off)
  with assms obtain raw where "buf_write (bs_raw h) off bs = Some raw" "length raw = length (bs_raw h)"
    using buf_write_in_bounds [of off bs "bs_raw h"] buf_write_length by (auto simp: target_ok_def)
  with RBsRaw show ?thesis
    by (auto simp: store_rbuf.simps stored_def intro!: exI [of _ "sbuf h"] exI [of _ "cmds_in_flight h"]
        exI [of _ raw])
qed

lemma recvd_nothing:
  assumes "last_error h \<noteq> None \<longrightarrow> le \<noteq> None"
  shows "recvd h (h\<lparr>sock := Some s, last_error := le\<rparr>)"
  unfolding recvd_def using assms
  by (intro exI [of _ 0] exI [of _ s] exI [of _ "sbuf h"] exI [of _ "cmds_in_flight h"] exI [of _ "bs_raw h"]
      exI [of _ "bytes_received h"] exI [of _ le]) (cases "rbuf h", simp_all)

lemma recvd_refl: "sock h \<noteq> None \<Longrightarrow> recvd h h"
  using recvd_nothing [of h "last_error h" "the (sock h)"] by simp

lemma recvd_stored:
  assumes "stored n (h\<lparr>sock := Some s\<rparr>) h'" and "n \<le> rlen h"
  shows "recvd h (h'\<lparr>bytes_received := b, rlen := rlen h' - n\<rparr>)"
proof -
  obtain m fl raw where "h' = h\<lparr>sock := Some s, sbuf := m, rbuf := advance n (rbuf h), cmds_in_flight := fl,
      bs_raw := raw\<rparr>" "\<forall>i. below (rbuf h) i \<longrightarrow> m i = sbuf h i"
    "list_all2 cmd_sim (cmds_in_flight h) fl" "length raw = length (bs_raw h)"
    using assms(1) by (auto simp: stored_def)
  then show ?thesis
    unfolding recvd_def using assms(2)
    by (intro exI [of _ n] exI [of _ s] exI [of _ m] exI [of _ fl] exI [of _ raw] exI [of _ b]
        exI [of _ "last_error h"]) simp
qed

lemma recv_into_rbuf_ok:
  assumes "target_ok h" and "sock h \<noteq> None"
  shows "\<exists>h' r. recv_into_rbuf h = Some (h', r) \<and> recvd h h' \<and>
    (r = -1 \<and> last_error h' \<noteq> None \<or> r = 0 \<and> rlen h' = 0 \<or> r = 1 \<and> rlen h' \<noteq> 0)"
proof (cases "rlen h = 0")
  case True
  then show ?thesis using recvd_refl [OF assms(2)] by (simp add: recv_into_rbuf_def)
next
  case False
  obtain s where s: "sock h = Some s" using assms(2) by blast
  define n where "n = (if rbuf h = RNull then min (rlen h) BUFSIZ else rlen h)"
  obtain res s' where rv: "sock_recv n s = (res, s')" by fastforce
  let ?g = "h\<lparr>sock := Some s'\<rparr>"
  have none: "recvd h (?g\<lparr>last_error := le\<rparr>)" if "last_error h \<noteq> None \<longrightarrow> le \<noteq> None" for le
    using recvd_nothing [OF that, of s'] by simp
  show ?thesis
  proof (cases res)
    case SockAgain
    then show ?thesis using s rv False none [of "last_error h"]
      by (simp add: recv_into_rbuf_def n_def)
  next
    case (SockErr e)
    then show ?thesis using s rv False none [of "Some (e, ''recv'')"]
      by (simp add: recv_into_rbuf_def n_def set_error_def)
  next
    case (SockOk bs)
    show ?thesis
    proof (cases "bs = []")
      case True
      then show ?thesis using s rv False SockOk none
        by (simp add: recv_into_rbuf_def n_def set_error_def)
    next
      case ne: False
      have len: "length bs \<le> rlen h"
        using sk.recv_len [of n s bs s'] rv SockOk by (auto simp: n_def split: if_splits)
      have "target_ok ?g" using assms(1) by (auto simp: target_ok_def split: rptr.splits option.splits)
      then obtain h' where st: "store_rbuf bs ?g = Some h'" "stored (length bs) ?g h'"
        using stored_rbuf [of ?g bs] len by auto
      let ?h = "h'\<lparr>bytes_received := bytes_received h' + of_nat (length bs), rlen := rlen h' - length bs\<rparr>"
      have "recvd h ?h"
        using st(2) len by (rule recvd_stored)
      then show ?thesis using s rv False SockOk ne st
        by (simp add: recv_into_rbuf_def n_def Let_def)
    qed
  qed
qed


lemma rd_bytes_cong: "(\<And>i. p \<le> i \<Longrightarrow> i < p + n \<Longrightarrow> m i = m' i) \<Longrightarrow> rd_bytes m p n = rd_bytes m' p n"
  by (simp add: rd_bytes_def)

text \<open>A header in \<^verbatim>\<open>sbuf\<close> stays as it is while what follows it arrives.\<close>

lemma hdr_cookie_keep: "(\<And>i. i < 16 \<Longrightarrow> m i = m' i) \<Longrightarrow> hdr_cookie m = hdr_cookie m'"
  unfolding hdr_cookie_def by (rule arg_cong [where f = be64toh], rule rd_bytes_cong) simp

lemma structured_type_keep: "(\<And>i. i < 16 \<Longrightarrow> m i = m' i) \<Longrightarrow> structured_type m = structured_type m'"
  unfolding structured_type_def by (rule arg_cong [where f = be16toh], rule rd_bytes_cong) simp

lemma reply_cmd_sims:
  "list_all2 cmd_sim fl fl' \<Longrightarrow> cmds_in_flight h' = fl' \<Longrightarrow> cmds_in_flight h = fl \<Longrightarrow>
     reply_cmd h' = reply_cmd h \<Longrightarrow> (\<And>c c'. cmd_sim c c' \<Longrightarrow> P c \<Longrightarrow> Q c') \<Longrightarrow>
     with_reply_cmd P h \<Longrightarrow> with_reply_cmd Q h'"
  using sims_find [of fl fl'] by (fastforce simp: with_reply_cmd_def get_reply_cmd_def split: option.splits)

text \<open>The states that receive, and may be interrupted.\<close>

definition receiving :: "reply_state \<Rightarrow> bool" where
  "receiving r \<longleftrightarrow> r \<notin> {REPLY_START, CHECK_REPLY_MAGIC, FINISH_COMMAND, SIMPLE_REPLY SIMPLE_START,
     CHUNK_REPLY CHUNK_START, CHUNK_REPLY CHUNK_FINISH}"

lemma recvd_reply_data:
  assumes "recvd h h'" and r: "reply_data r h" and "receiving r"
  shows "reply_data r h'"
proof -
  obtain n s m fl raw b le where h': "h' = h\<lparr>sock := Some s, sbuf := m, rbuf := advance n (rbuf h),
      cmds_in_flight := fl, bs_raw := raw, bytes_received := b, rlen := rlen h - n, last_error := le\<rparr>"
    and n: "n \<le> rlen h" and m: "\<forall>i. below (rbuf h) i \<longrightarrow> m i = sbuf h i"
    and fl: "list_all2 cmd_sim (cmds_in_flight h) fl" and raw: "length raw = length (bs_raw h)"
    using assms(1) by (auto simp: recvd_def)
  have P: "with_reply_cmd P h \<Longrightarrow> with_reply_cmd Q h'" if "\<And>c c'. cmd_sim c c' \<Longrightarrow> P c \<Longrightarrow> Q c'" for P Q
    by (rule reply_cmd_sims [OF fl _ _ _ that]) (simp_all add: h')
  have up: "sbuf_upto lo hi h \<Longrightarrow> sbuf_upto lo hi h'" for lo hi
    using n by (auto simp: sbuf_upto_def h' split: rptr.splits)
  have keep: "hdr_cookie m = hdr_cookie (sbuf h) \<and> structured_type m = structured_type (sbuf h)"
    if "\<And>i. i < 16 \<Longrightarrow> below (rbuf h) i"
    using that m by (auto intro!: hdr_cookie_keep structured_type_keep)
  have "r \<noteq> RECV_REPLY \<Longrightarrow> i < 16 \<Longrightarrow> below (rbuf h) i" for i
    using r \<open>receiving r\<close>
    by (induction r h rule: reply_data.induct)
      (auto simp: receiving_def below_def sbuf_upto_def data_fits_def elim!: chunk_data.elims split: rptr.splits)
  with keep have keep: "r \<noteq> RECV_REPLY \<Longrightarrow>
      hdr_cookie m = hdr_cookie (sbuf h) \<and> structured_type m = structured_type (sbuf h)"
    by blast
  have cok: "r \<noteq> RECV_REPLY \<Longrightarrow> cookie_ok h \<Longrightarrow> cookie_ok h'"
    using keep sims_find_cookie [OF fl] by (simp add: cookie_ok_def h')
  have fits: "data_fits h'" if d: "data_fits h"
  proof -
    obtain k off where k: "rbuf h = RData k off" "reply_cmd h = Some k"
      using d by (auto simp: data_fits_def split: rptr.splits)
    with d have "with_reply_cmd (\<lambda>c. c_type c = NBD_CMD_READ \<and> room (off + rlen h) c) h"
      by (simp add: data_fits_def)
    then have "with_reply_cmd (\<lambda>c. c_type c = NBD_CMD_READ \<and> room (off + rlen h) c) h'"
      by (rule P [rotated]) (metis cmd_sim_def room_sim)
    moreover have "rbuf h' = RData k (off + n)" "reply_cmd h' = Some k" "rlen h = n + rlen h'"
      using k n by (simp_all add: h')
    ultimately show ?thesis by (simp add: data_fits_def add.assoc)
  qed
  show ?thesis
  proof (cases r)
    case (SIMPLE_REPLY x)
    then show ?thesis using r cok fits assms(3) by (cases x) (auto simp: receiving_def h')
  next
    case (CHUNK_REPLY x)
    have "chunk_data x h \<Longrightarrow> chunk_data x h'"
    proof (cases x)
      case RECV_ERROR_TAIL
      then show "chunk_data x h \<Longrightarrow> chunk_data x h'"
        using P [of "\<lambda>_. True" "\<lambda>_. True"] up by (auto simp: h')
    qed (use CHUNK_REPLY assms(3) n raw keep fits up
          P [of "\<lambda>_. True" "\<lambda>_. True"]
          P [of "\<lambda>c. c_type c = NBD_CMD_READ" "\<lambda>c. c_type c = NBD_CMD_READ"]
          P [of "\<lambda>c. c_type c = NBD_CMD_BLOCK_STATUS" "\<lambda>c. c_type c = NBD_CMD_BLOCK_STATUS"]
        in \<open>auto simp: receiving_def bs_cmd_def bs_hdr_size_def desc_size_def cmd_sim_def h' split: rptr.splits\<close>)
    with CHUNK_REPLY show ?thesis using r cok by simp
  qed (use r assms(3) cok up keep in \<open>auto simp: receiving_def hdr_size_def past_cookie_def h'\<close>)
qed


text \<open>What a receive leaves alone.\<close>

lemma recvd_frame:
  assumes "recvd h h'"
  shows "cmds_to_issue h' = cmds_to_issue h" "unique h' = unique h" "cmds_done h' = cmds_done h"
    "extended_headers h' = extended_headers h" "meta_valid h' = meta_valid h"
    "meta_contexts h' = meta_contexts h" "exportsize h' = exportsize h"
    "structured_replies h' = structured_replies h" "in_flight h' = in_flight h"
    "cmds_done_tail h' = cmds_done_tail h" "cmds_to_issue_tail h' = cmds_to_issue_tail h"
    "wlen h' = wlen h" "wbuf h' = wbuf h" "req h' = req h" "in_write_shutdown h' = in_write_shutdown h"
    "reply_state h' = reply_state h" "reply_cmd h' = reply_cmd h" "payload_left h' = payload_left h"
    "bs_count h' = bs_count h" "state h' = state h" "next_state h' = next_state h" "blocked h' = blocked h"
    "sock h' \<noteq> None" "list_all2 cmd_sim (cmds_in_flight h) (cmds_in_flight h')"
    "rbuf h' = RNull \<longleftrightarrow> rbuf h = RNull" "length (bs_raw h') = length (bs_raw h)"
    "last_error h \<noteq> None \<longrightarrow> last_error h' \<noteq> None"
  using assms by (auto simp: recvd_def elim: advance.elims)

lemma qinv_sims:
  assumes "list_all2 cmd_sim (cmds_in_flight h) (cmds_in_flight h')"
    and "cmds_to_issue h' = cmds_to_issue h" "unique h' = unique h" "cmds_done h' = cmds_done h"
    "extended_headers h' = extended_headers h" "in_flight h' = in_flight h" "cmds_done_tail h' = cmds_done_tail h"
  shows "qinv h' = qinv h"
  unfolding qinv_def
  using sims_cookies [OF assms(1)] sims_cookie_set [OF assms(1)] sims_all_ok [OF assms(1)]
    list_all2_lengthD [OF assms(1)]
  by (simp add: assms(2-))

lemma recvd_inv:
  assumes "recvd h h'"
  shows "qinv h' = qinv h" "conn h \<Longrightarrow> conn h'" "ipend h' = ipend h"
  using recvd_frame [OF assms] qinv_sims [of h h'] by (simp_all add: conn_def ipend_def ihead_def shut_ok_def)

lemma reply_data_target: "receiving r \<Longrightarrow> reply_data r h \<Longrightarrow> target_ok h"
  by (induction r h rule: reply_data.induct)
    (auto simp: receiving_def target_ok_def sbuf_upto_def data_fits_def with_reply_cmd_def get_reply_cmd_def
      hdr_size_def bs_hdr_size_def elim!: chunk_data.elims split: rptr.splits option.splits if_splits)


subsection \<open>Frame rules\<close>

lemma qinv_frame [simp]:
  "qinv (h\<lparr>rbuf := v_rbuf\<rparr>) = qinv h"
  "qinv (h\<lparr>rlen := v_rlen\<rparr>) = qinv h"
  "qinv (h\<lparr>payload_left := v_payload_left\<rparr>) = qinv h"
  "qinv (h\<lparr>reply_state := v_reply_state\<rparr>) = qinv h"
  "qinv (h\<lparr>reply_cmd := v_reply_cmd\<rparr>) = qinv h"
  "qinv (h\<lparr>bs_raw := v_bs_raw\<rparr>) = qinv h"
  "qinv (h\<lparr>bs_count := v_bs_count\<rparr>) = qinv h"
  "qinv (h\<lparr>chunks_received := v_chunks_received\<rparr>) = qinv h"
  "qinv (h\<lparr>state := v_state\<rparr>) = qinv h"
  "qinv (h\<lparr>next_state := v_next_state\<rparr>) = qinv h"
  "qinv (h\<lparr>blocked := v_blocked\<rparr>) = qinv h"
  "qinv (h\<lparr>last_error := v_last_error\<rparr>) = qinv h"
  "qinv (h\<lparr>trace := v_trace\<rparr>) = qinv h"
  "qinv (h\<lparr>wlen := v_wlen\<rparr>) = qinv h"
  "qinv (h\<lparr>wbuf := v_wbuf\<rparr>) = qinv h"
  "qinv (h\<lparr>req := v_req\<rparr>) = qinv h"
  "qinv (h\<lparr>wflags_more := v_wflags_more\<rparr>) = qinv h"
  "qinv (h\<lparr>in_write_payload := v_in_write_payload\<rparr>) = qinv h"
  "qinv (h\<lparr>in_write_shutdown := v_in_write_shutdown\<rparr>) = qinv h"
  "qinv (h\<lparr>chunks_sent := v_chunks_sent\<rparr>) = qinv h"
  "qinv (h\<lparr>sock := v_sock\<rparr>) = qinv h"
  "qinv (h\<lparr>sbuf := v_sbuf\<rparr>) = qinv h"
  "qinv (h\<lparr>cmds_to_issue_tail := v_cmds_to_issue_tail\<rparr>) = qinv h"
  by (simp_all add: qinv_def)

lemma conn_frame [simp]:
  "conn (h\<lparr>rbuf := v_rbuf\<rparr>) = conn h"
  "conn (h\<lparr>rlen := v_rlen\<rparr>) = conn h"
  "conn (h\<lparr>payload_left := v_payload_left\<rparr>) = conn h"
  "conn (h\<lparr>reply_state := v_reply_state\<rparr>) = conn h"
  "conn (h\<lparr>reply_cmd := v_reply_cmd\<rparr>) = conn h"
  "conn (h\<lparr>bs_raw := v_bs_raw\<rparr>) = conn h"
  "conn (h\<lparr>bs_count := v_bs_count\<rparr>) = conn h"
  "conn (h\<lparr>chunks_received := v_chunks_received\<rparr>) = conn h"
  "conn (h\<lparr>state := v_state\<rparr>) = conn h"
  "conn (h\<lparr>next_state := v_next_state\<rparr>) = conn h"
  "conn (h\<lparr>blocked := v_blocked\<rparr>) = conn h"
  "conn (h\<lparr>last_error := v_last_error\<rparr>) = conn h"
  "conn (h\<lparr>trace := v_trace\<rparr>) = conn h"
  "conn (h\<lparr>wlen := v_wlen\<rparr>) = conn h"
  "conn (h\<lparr>wbuf := v_wbuf\<rparr>) = conn h"
  "conn (h\<lparr>req := v_req\<rparr>) = conn h"
  "conn (h\<lparr>wflags_more := v_wflags_more\<rparr>) = conn h"
  "conn (h\<lparr>in_write_payload := v_in_write_payload\<rparr>) = conn h"
  "conn (h\<lparr>in_write_shutdown := v_in_write_shutdown\<rparr>) = conn h"
  "conn (h\<lparr>chunks_sent := v_chunks_sent\<rparr>) = conn h"
  "conn (h\<lparr>sbuf := v_sbuf\<rparr>) = conn h"
  "conn (h\<lparr>cmds_in_flight := v_cmds_in_flight\<rparr>) = conn h"
  "conn (h\<lparr>in_flight := v_in_flight\<rparr>) = conn h"
  "conn (h\<lparr>cmds_done := v_cmds_done\<rparr>) = conn h"
  "conn (h\<lparr>cmds_done_tail := v_cmds_done_tail\<rparr>) = conn h"
  by (simp_all add: conn_def)

lemma ipend_frame [simp]:
  "ipend (h\<lparr>rbuf := v_rbuf\<rparr>) = ipend h"
  "ipend (h\<lparr>rlen := v_rlen\<rparr>) = ipend h"
  "ipend (h\<lparr>payload_left := v_payload_left\<rparr>) = ipend h"
  "ipend (h\<lparr>reply_state := v_reply_state\<rparr>) = ipend h"
  "ipend (h\<lparr>reply_cmd := v_reply_cmd\<rparr>) = ipend h"
  "ipend (h\<lparr>bs_raw := v_bs_raw\<rparr>) = ipend h"
  "ipend (h\<lparr>bs_count := v_bs_count\<rparr>) = ipend h"
  "ipend (h\<lparr>chunks_received := v_chunks_received\<rparr>) = ipend h"
  "ipend (h\<lparr>state := v_state\<rparr>) = ipend h"
  "ipend (h\<lparr>next_state := v_next_state\<rparr>) = ipend h"
  "ipend (h\<lparr>blocked := v_blocked\<rparr>) = ipend h"
  "ipend (h\<lparr>last_error := v_last_error\<rparr>) = ipend h"
  "ipend (h\<lparr>trace := v_trace\<rparr>) = ipend h"
  "ipend (h\<lparr>wflags_more := v_wflags_more\<rparr>) = ipend h"
  "ipend (h\<lparr>in_write_payload := v_in_write_payload\<rparr>) = ipend h"
  "ipend (h\<lparr>chunks_sent := v_chunks_sent\<rparr>) = ipend h"
  "ipend (h\<lparr>sock := v_sock\<rparr>) = ipend h"
  "ipend (h\<lparr>sbuf := v_sbuf\<rparr>) = ipend h"
  "ipend (h\<lparr>cmds_in_flight := v_cmds_in_flight\<rparr>) = ipend h"
  "ipend (h\<lparr>in_flight := v_in_flight\<rparr>) = ipend h"
  "ipend (h\<lparr>cmds_done := v_cmds_done\<rparr>) = ipend h"
  "ipend (h\<lparr>cmds_done_tail := v_cmds_done_tail\<rparr>) = ipend h"
  by (simp_all add: ipend_def ihead_def shut_ok_def)

lemma cookie_ok_frame [simp]:
  "cookie_ok (h\<lparr>rbuf := v_rbuf\<rparr>) = cookie_ok h"
  "cookie_ok (h\<lparr>rlen := v_rlen\<rparr>) = cookie_ok h"
  "cookie_ok (h\<lparr>payload_left := v_payload_left\<rparr>) = cookie_ok h"
  "cookie_ok (h\<lparr>reply_state := v_reply_state\<rparr>) = cookie_ok h"
  "cookie_ok (h\<lparr>bs_raw := v_bs_raw\<rparr>) = cookie_ok h"
  "cookie_ok (h\<lparr>bs_count := v_bs_count\<rparr>) = cookie_ok h"
  "cookie_ok (h\<lparr>last_error := v_last_error\<rparr>) = cookie_ok h"
  "cookie_ok (h\<lparr>trace := v_trace\<rparr>) = cookie_ok h"
  "cookie_ok (h\<lparr>next_state := v_next_state\<rparr>) = cookie_ok h"
  "cookie_ok (h\<lparr>blocked := v_blocked\<rparr>) = cookie_ok h"
  by (simp_all add: cookie_ok_def)

lemma get_reply_cmd_frame [simp]:
  "get_reply_cmd (h\<lparr>rbuf := v_rbuf\<rparr>) = get_reply_cmd h"
  "get_reply_cmd (h\<lparr>rlen := v_rlen\<rparr>) = get_reply_cmd h"
  "get_reply_cmd (h\<lparr>payload_left := v_payload_left\<rparr>) = get_reply_cmd h"
  "get_reply_cmd (h\<lparr>reply_state := v_reply_state\<rparr>) = get_reply_cmd h"
  "get_reply_cmd (h\<lparr>bs_raw := v_bs_raw\<rparr>) = get_reply_cmd h"
  "get_reply_cmd (h\<lparr>bs_count := v_bs_count\<rparr>) = get_reply_cmd h"
  "get_reply_cmd (h\<lparr>last_error := v_last_error\<rparr>) = get_reply_cmd h"
  "get_reply_cmd (h\<lparr>trace := v_trace\<rparr>) = get_reply_cmd h"
  "get_reply_cmd (h\<lparr>next_state := v_next_state\<rparr>) = get_reply_cmd h"
  "get_reply_cmd (h\<lparr>blocked := v_blocked\<rparr>) = get_reply_cmd h"
  "get_reply_cmd (h\<lparr>sbuf := v_sbuf\<rparr>) = get_reply_cmd h"
  by (simp_all add: get_reply_cmd_def split: option.split)

lemma with_reply_cmd_frame [simp]:
  "with_reply_cmd P (h\<lparr>rbuf := v_rbuf\<rparr>) = with_reply_cmd P h"
  "with_reply_cmd P (h\<lparr>rlen := v_rlen\<rparr>) = with_reply_cmd P h"
  "with_reply_cmd P (h\<lparr>payload_left := v_payload_left\<rparr>) = with_reply_cmd P h"
  "with_reply_cmd P (h\<lparr>reply_state := v_reply_state\<rparr>) = with_reply_cmd P h"
  "with_reply_cmd P (h\<lparr>bs_raw := v_bs_raw\<rparr>) = with_reply_cmd P h"
  "with_reply_cmd P (h\<lparr>bs_count := v_bs_count\<rparr>) = with_reply_cmd P h"
  "with_reply_cmd P (h\<lparr>last_error := v_last_error\<rparr>) = with_reply_cmd P h"
  "with_reply_cmd P (h\<lparr>trace := v_trace\<rparr>) = with_reply_cmd P h"
  "with_reply_cmd P (h\<lparr>next_state := v_next_state\<rparr>) = with_reply_cmd P h"
  "with_reply_cmd P (h\<lparr>blocked := v_blocked\<rparr>) = with_reply_cmd P h"
  "with_reply_cmd P (h\<lparr>sbuf := v_sbuf\<rparr>) = with_reply_cmd P h"
  by (simp_all add: with_reply_cmd_def)

lemma inv_frame_log [simp]:
  "qinv (log_event ev h) = qinv h" "conn (log_event ev h) = conn h" "ipend (log_event ev h) = ipend h"
  "cookie_ok (log_event ev h) = cookie_ok h" "get_reply_cmd (log_event ev h) = get_reply_cmd h"
  by (simp_all add: log_event_def)

lemma recv_or_save_ok:
  assumes "inv_at (REPLY r) h" and r: "receiving r" "r \<noteq> RECV_REPLY" and "state h = REPLY r"
    and f: "\<And>h'. recvd h h' \<Longrightarrow> rlen h' = 0 \<Longrightarrow> qinv h' \<Longrightarrow> conn h' \<Longrightarrow> ipend h' \<Longrightarrow> reply_state h' = START \<Longrightarrow>
      reply_data r h' \<Longrightarrow> next_state h' = next_state h \<Longrightarrow> ok_result (f h')"
  shows "ok_result (recv_or_save f h)"
proof -
  have ne: "r \<noteq> REPLY_START" using r by (auto simp: receiving_def)
  with assms(1) have h: "qinv h" "conn h" "ipend h" "reply_state h = START" "reply_data r h"
    by (simp_all add: rinv_def)
  obtain h' q where h': "recv_into_rbuf h = Some (h', q)" "recvd h h'"
    and q: "q = -1 \<and> last_error h' \<noteq> None \<or> q = 0 \<and> rlen h' = 0 \<or> q = 1 \<and> rlen h' \<noteq> 0"
    using recv_into_rbuf_ok [of h] reply_data_target [OF r(1) h(5)] h(2) by (auto simp: conn_def)
  have inv': "qinv h'" "conn h'" "ipend h'" "reply_state h' = START" "reply_data r h'"
    using recvd_inv [OF h'(2)] recvd_frame [OF h'(2)] recvd_reply_data [OF h'(2) h(5) r(1)] h by auto
  consider "q = -1" "last_error h' \<noteq> None" | "q = 0" "rlen h' = 0" | "q = 1" "rlen h' \<noteq> 0"
    using q by argo
  then show ?thesis
  proof cases
    case 1
    then show ?thesis using h' inv' by (simp add: recv_or_save_def)
  next
    case 2
    then show ?thesis using h' inv' f recvd_frame [OF h'(2)] by (simp add: recv_or_save_def)
  next
    case 3
    have "reply_data r (h'\<lparr>reply_state := REPLY r\<rparr>)"
      using inv'(5) by (subst reply_data_frame [of _ h']) simp_all
    then have "inv_at READY (h'\<lparr>reply_state := REPLY r\<rparr>)"
      using inv' 3 r by (simp add: ridle_def)
    then show ?thesis
      using h' 3 inv' recvd_frame [OF h'(2)] \<open>state h = REPLY r\<close>
      by (simp add: recv_or_save_def save_reply_state_def)
  qed
qed

end
