(* ===== verification/NBD_Issue_Safe.thy ===== *)
theory NBD_Issue_Safe
  imports NBD_Safety
begin

text \<open>
  The states that issue a command keep the invariant.
\<close>

section \<open>Sending a request\<close>

definition sentd :: "nbd_handle \<Rightarrow> nbd_handle \<Rightarrow> bool" where
  "sentd h h' \<longleftrightarrow> (\<exists>n s b wm le.
     h' = h\<lparr>sock := Some s, bytes_sent := b, wbuf := drop n (wbuf h), wlen := wlen h - n, wflags_more := wm,
            last_error := le\<rparr> \<and> n \<le> wlen h \<and> (last_error h \<noteq> None \<longrightarrow> le \<noteq> None))"

lemma sentd_intro:
  "n \<le> wlen h \<Longrightarrow> (last_error h \<noteq> None \<longrightarrow> le \<noteq> None) \<Longrightarrow>
     sentd h (h\<lparr>sock := Some s, bytes_sent := b, wbuf := drop n (wbuf h), wlen := wlen h - n, wflags_more := wm,
       last_error := le\<rparr>)"
  unfolding sentd_def by blast

lemma send_from_wbuf_ok:
  assumes "sock h \<noteq> None" and "wlen h \<le> length (wbuf h)"
  shows "\<exists>h' r. send_from_wbuf h = Some (h', r) \<and> sentd h h' \<and>
    (r = -1 \<and> last_error h' \<noteq> None \<or> r = 0 \<and> wlen h' = 0 \<or> r = 1 \<and> wlen h' \<noteq> 0)"
proof (cases "wlen h = 0")
  case True
  have "sentd h (h\<lparr>wflags_more := False\<rparr>)"
    using sentd_intro [of 0 h "last_error h" False "bytes_sent h" "the (sock h)"] assms(1) by simp
  with True show ?thesis by (simp add: send_from_wbuf_def)
next
  case False
  obtain s where s: "sock h = Some s" using assms(1) by blast
  obtain res s' where rv: "sock_send (take (wlen h) (wbuf h)) s = (res, s')" by fastforce
  show ?thesis
  proof (cases res)
    case SockAgain
    then show ?thesis
      using s rv False assms(2) sentd_intro [of 0 h "last_error h" "wflags_more h" "bytes_sent h" s']
      by (simp add: send_from_wbuf_def)
  next
    case (SockErr e)
    then show ?thesis
      using s rv False assms(2) sentd_intro [of 0 h "Some (e, ''send'')" "wflags_more h" "bytes_sent h" s']
      by (simp add: send_from_wbuf_def set_error_def)
  next
    case (SockOk bs)
    then obtain n where "bs = take n (take (wlen h) (wbuf h))"
      using sk.send_prefix rv by blast
    then have "length bs \<le> wlen h" using assms(2) by simp
    then show ?thesis
      using s rv False assms(2) SockOk
        sentd_intro [of "length bs" h "last_error h" "wflags_more h" "bytes_sent h + of_nat (length bs)" s']
        sentd_intro [of "length bs" h "last_error h" False "bytes_sent h + of_nat (length bs)" s']
      by (auto simp: send_from_wbuf_def Let_def)
  qed
qed

lemma ridle_frame_eq:
  assumes "rlen h' = rlen h" "payload_left h' = payload_left h" "rbuf h' = rbuf h" "reply_cmd h' = reply_cmd h"
    "cmds_in_flight h' = cmds_in_flight h" "cmds_to_issue h' = cmds_to_issue h" "unique h' = unique h"
    "extended_headers h' = extended_headers h" "sbuf h' = sbuf h" "bs_count h' = bs_count h"
    "bs_raw h' = bs_raw h" "meta_valid h' = meta_valid h" "reply_state h' = reply_state h"
  shows "ridle h' = ridle h"
proof -
  have r: "reply_data r h' = reply_data r h" for r
    by (rule reply_data_frame) (simp_all add: assms)
  show ?thesis by (simp add: ridle_def r assms split: state.split)
qed

lemma ridle_frame [simp]:
  "ridle (h\<lparr>wlen := v\<rparr>) = ridle h"
  "ridle (h\<lparr>wbuf := b\<rparr>) = ridle h"
  "ridle (h\<lparr>req := q\<rparr>) = ridle h"
  "ridle (h\<lparr>wflags_more := w\<rparr>) = ridle h"
  "ridle (h\<lparr>in_write_payload := w\<rparr>) = ridle h"
  "ridle (h\<lparr>in_write_shutdown := w\<rparr>) = ridle h"
  "ridle (h\<lparr>chunks_sent := n\<rparr>) = ridle h"
  "ridle (h\<lparr>sock := s\<rparr>) = ridle h"
  "ridle (h\<lparr>cmds_to_issue_tail := t\<rparr>) = ridle h"
  "ridle (h\<lparr>next_state := st\<rparr>) = ridle h"
  "ridle (h\<lparr>blocked := w\<rparr>) = ridle h"
  by (rule ridle_frame_eq; simp)+

lemma sentd_inv:
  assumes "sentd h h'"
  shows "qinv h' = qinv h" "conn h \<Longrightarrow> conn h'" "shut_ok h' = shut_ok h" "ridle h' = ridle h"
    "ihead h \<Longrightarrow> ihead h'" "next_state h' = next_state h" "blocked h' = blocked h"
    "in_write_shutdown h' = in_write_shutdown h"
proof -
  obtain n s b wm le where h': "h' = h\<lparr>sock := Some s, bytes_sent := b, wbuf := drop n (wbuf h),
      wlen := wlen h - n, wflags_more := wm, last_error := le\<rparr>" and "n \<le> wlen h"
    using assms by (auto simp: sentd_def)
  then show "qinv h' = qinv h" "conn h \<Longrightarrow> conn h'" "shut_ok h' = shut_ok h"
    "ihead h \<Longrightarrow> ihead h'" "next_state h' = next_state h" "blocked h' = blocked h"
    "in_write_shutdown h' = in_write_shutdown h"
    by (auto simp: qinv_def conn_def shut_ok_def ihead_def)
  show "ridle h' = ridle h"
    by (rule ridle_frame_eq) (simp_all add: h')
qed

text \<open>A state that sends and then goes on.\<close>

lemma send_ok:
  assumes "inv_at (ISSUE_COMMAND i) h" and "ihead h" "shut_ok h" and "next_state h = ISSUE_COMMAND i"
    and go: "\<And>h'. qinv h' \<Longrightarrow> conn h' \<Longrightarrow> shut_ok h' \<Longrightarrow> ihead h' \<Longrightarrow> ridle h' \<Longrightarrow> wlen h' = 0 \<Longrightarrow> inv_at s h'"
    and stay: "\<And>h'. ihead h' \<Longrightarrow> shut_ok h' \<Longrightarrow> wlen h' \<noteq> 0 \<Longrightarrow> iinv i h'"
  shows "ok_result (do { (h, r) \<leftarrow> send_from_wbuf h;
           if r = -1 then goto DEAD h else if r = 0 then goto s h else return0 h })"
proof -
  have h: "qinv h" "conn h" "ridle h" using assms(1) by simp_all
  obtain h' q where h': "send_from_wbuf h = Some (h', q)" "sentd h h'"
    and q: "q = -1 \<and> last_error h' \<noteq> None \<or> q = 0 \<and> wlen h' = 0 \<or> q = 1 \<and> wlen h' \<noteq> 0"
    using send_from_wbuf_ok [of h] h(2) assms(2) by (auto simp: conn_def ihead_def)
  have inv': "qinv h'" "conn h'" "shut_ok h'" "ihead h'" "ridle h'" "next_state h' = ISSUE_COMMAND i"
    using sentd_inv [OF h'(2)] h assms by auto
  consider "q = -1" "last_error h' \<noteq> None" | "q = 0" "wlen h' = 0" | "q = 1" "wlen h' \<noteq> 0"
    using q by argo
  then show ?thesis
  proof cases
    case 1
    then show ?thesis using h' inv' by simp
  next
    case 2
    then show ?thesis using h' inv' go [of h'] by simp
  next
    case 3
    then show ?thesis using h' inv' stay [of h'] by (simp add: ok_result_def return0_def)
  qed
qed


section \<open>The states that issue a command\<close>

lemma fill_request_ok:
  "cmd_ok (extended_headers h) cmd \<Longrightarrow>
     fill_request cmd h = Some (h\<lparr>req := fill_header (extended_headers h) cmd (req h),
       wlen := request_size (extended_headers h)\<rparr>)"
  by (simp add: fill_request_def cmd_ok_def)

lemma ISSUE_START_ok:
  assumes "inv_at (ISSUE_COMMAND ISSUE_START) h"
  shows "ok_result (enter_ISSUE_COMMAND_START h)"
proof -
  obtain cmd cs where q: "cmds_to_issue h = cmd # cs" and h: "qinv h" "conn h" "ipend h" "ridle h"
    using assms by (cases "cmds_to_issue h") auto
  show ?thesis
  proof (cases "\<not> in_write_shutdown h \<and> wlen h \<noteq> 0")
    case True
    then show ?thesis using q h
      by (auto simp: enter_ISSUE_COMMAND_START_def ok_result_def return0_def SET_NEXT_STATE_AND_BLOCK_def
          ipend_def)
  next
    case False
    have "cmd_ok (extended_headers h) cmd" using h(1) q by (simp add: qinv_def)
    then show ?thesis using False q h
      by (auto simp: enter_ISSUE_COMMAND_START_def fill_request_ok SET_NEXT_STATE_AND_BLOCK_def ihead_def
          shut_ok_def ipend_def Let_def)
  qed
qed

text \<open>
  A command that joins those in flight, or the queue, does not disturb the reply that was put
  aside: that reply belongs to a command already in flight, or to a past one.
\<close>

lemma with_reply_cmd_mono:
  "(\<And>k c. find_cmd k (cmds_in_flight h) = Some c \<Longrightarrow> find_cmd k (cmds_in_flight h') = Some c) \<Longrightarrow>
     reply_cmd h' = reply_cmd h \<Longrightarrow> with_reply_cmd P h \<Longrightarrow> with_reply_cmd P h'"
  by (auto simp: with_reply_cmd_def get_reply_cmd_def split: option.splits)

lemma reply_data_more:
  assumes r: "reply_data r h" "rlen h \<noteq> 0" "r \<noteq> RECV_REPLY"
    and eq: "rlen h' = rlen h" "payload_left h' = payload_left h" "rbuf h' = rbuf h" "reply_cmd h' = reply_cmd h"
    "extended_headers h' = extended_headers h" "sbuf h' = sbuf h" "bs_count h' = bs_count h"
    "bs_raw h' = bs_raw h" "meta_valid h' = meta_valid h"
    and mono: "\<And>k c. find_cmd k (cmds_in_flight h) = Some c \<Longrightarrow> find_cmd k (cmds_in_flight h') = Some c"
    and past: "cookie_ok h \<Longrightarrow> past_cookie h \<Longrightarrow> cookie_ok h' \<and> past_cookie h'"
  shows "reply_data r h'"
proof -
  note wm = with_reply_cmd_mono [OF mono eq(4)]
  have some: "with_reply_cmd P h \<Longrightarrow> reply_cmd h \<noteq> None" for P
    by (cases "reply_cmd h") (simp_all add: with_reply_cmd_def get_reply_cmd_def)
  have cok: "cookie_ok h'" if "cookie_ok h" "reply_cmd h \<noteq> None"
    using that mono eq by (auto simp: cookie_ok_def)
  have fits: "data_fits h' \<and> reply_cmd h \<noteq> None" if "data_fits h"
    using that wm eq by (auto simp: data_fits_def split: rptr.splits)
  show ?thesis
  proof (cases r)
    case (SIMPLE_REPLY x)
    then show ?thesis using r eq cok fits by (cases x) auto
  next
    case (CHUNK_REPLY x)
    have up: "sbuf_upto lo hi h' = sbuf_upto lo hi h" for lo hi
      using eq by (simp add: sbuf_upto_def split: rptr.split)
    have "chunk_data x h" "cookie_ok h" using CHUNK_REPLY r by auto
    moreover have "chunk_data x h' \<and> reply_cmd h \<noteq> None"
      using \<open>chunk_data x h\<close> r(2) eq up wm fits some
      by (cases x) (auto simp: bs_cmd_def bs_hdr_size_def desc_size_def split: rptr.splits)
    ultimately show ?thesis using CHUNK_REPLY cok by simp
  next
    case RECV_STRUCTURED_REMAINING
    then show ?thesis using r eq past by (auto simp: sbuf_upto_def split: rptr.splits)
  qed (use r in auto)
qed

lemma ridle_more:
  assumes "ridle h"
    and eq: "rlen h' = rlen h" "payload_left h' = payload_left h" "rbuf h' = rbuf h" "reply_cmd h' = reply_cmd h"
    "extended_headers h' = extended_headers h" "sbuf h' = sbuf h" "bs_count h' = bs_count h"
    "bs_raw h' = bs_raw h" "meta_valid h' = meta_valid h" "reply_state h' = reply_state h"
    and mono: "\<And>k c. find_cmd k (cmds_in_flight h) = Some c \<Longrightarrow> find_cmd k (cmds_in_flight h') = Some c"
    and past: "cookie_ok h \<Longrightarrow> past_cookie h \<Longrightarrow> cookie_ok h' \<and> past_cookie h'"
  shows "ridle h'"
proof (cases "rlen h = 0")
  case True
  then show ?thesis using assms(1) eq by (simp add: ridle_def)
next
  case False
  have "reply_data r h'" if "reply_data r h" for r
  proof (cases "r = RECV_REPLY")
    case True
    then show ?thesis using that eq by (simp add: sbuf_upto_def hdr_size_def split: rptr.splits)
  next
    case r: False
    show ?thesis by (rule reply_data_more [OF that False r eq(1-9) mono past])
  qed
  then show ?thesis using assms(1) False eq
    by (auto simp: ridle_def simp del: reply_data.simps split: state.splits)
qed

lemma ISSUE_FINISH_ok:
  assumes "inv_at (ISSUE_COMMAND ISSUE_FINISH) h"
  shows "ok_result (enter_ISSUE_COMMAND_FINISH h)"
proof -
  obtain cmd cs where q: "cmds_to_issue h = cmd # cs"
    and h: "qinv h" "conn h" "ridle h" "ihead h" "shut_ok h" "wlen h = 0"
    using assms by (cases "cmds_to_issue h") (auto simp: ihead_def)
  let ?h = "h\<lparr>cmds_to_issue := cs, cmds_to_issue_tail := last_cookie cs, cmds_in_flight := cmd # cmds_in_flight h\<rparr>"
  have d: "c_cookie cmd \<notin> c_cookie ` set cs" "c_cookie cmd \<notin> c_cookie ` set (cmds_in_flight h)"
    using h(1) q by (auto simp: qinv_def)
  have tail: "(if cmds_to_issue_tail h = Some (c_cookie cmd) then None else cmds_to_issue_tail h) = last_cookie cs"
    using h(2) q d(1) by (auto simp: conn_def last_cookie_def image_iff split: if_splits)
      (metis last_in_set)
  have body: "enter_ISSUE_COMMAND_FINISH h = goto READY
      ((if cmds_to_issue_tail h = Some (c_cookie cmd) then h\<lparr>cmds_to_issue := cs, cmds_to_issue_tail := None\<rparr>
        else h\<lparr>cmds_to_issue := cs\<rparr>)\<lparr>cmds_in_flight := cmd # cmds_in_flight h\<rparr>)"
    using h(4,6) q by (simp add: enter_ISSUE_COMMAND_FINISH_def ihead_def Let_def)
  have eq: "enter_ISSUE_COMMAND_FINISH h = goto READY ?h"
  proof (cases "cmds_to_issue_tail h = Some (c_cookie cmd)")
    case True
    with tail show ?thesis by (simp add: body)
  next
    case False
    with tail have "last_cookie cs = cmds_to_issue_tail h" by simp
    with False show ?thesis by (simp add: body)
  qed
  have "ridle ?h"
    using h(3)
  proof (rule ridle_more)
    fix k c
    assume "find_cmd k (cmds_in_flight h) = Some c"
    with d(2) show "find_cmd k (cmds_in_flight ?h) = Some c"
      using find_cmd_SomeD by fastforce
  next
    assume "cookie_ok h" "past_cookie h"
    then show "cookie_ok ?h \<and> past_cookie ?h"
      using d(2) q find_cmd_SomeD by (fastforce simp: cookie_ok_def past_cookie_def)
  qed simp_all
  moreover have "qinv ?h" using h(1) q by (auto simp: qinv_def)
  moreover have "conn ?h" using h(2) q by (auto simp: conn_def split: if_splits)
  moreover have "ipend ?h" using h q by (auto simp: ipend_def shut_ok_def)
  ultimately show ?thesis using eq by simp
qed

lemma ISSUE_states_ok:
  assumes "inv_at (ISSUE_COMMAND i) h" and "next_state h = ISSUE_COMMAND i"
  shows "ok_result (enter_ISSUE_COMMAND i h)"
proof (cases i)
  case ISSUE_START
  then show ?thesis using ISSUE_START_ok assms by simp
next
  case SEND_REQUEST
  then show ?thesis using assms
    by (auto simp: enter_ISSUE_COMMAND_SEND_REQUEST_def intro!: send_ok)
next
  case SEND_WRITE_PAYLOAD
  then show ?thesis using assms
    by (auto simp: enter_ISSUE_COMMAND_SEND_WRITE_PAYLOAD_def intro!: send_ok)
next
  case PAUSE_SEND_REQUEST
  then show ?thesis using assms
    by (auto simp: enter_ISSUE_COMMAND_PAUSE_SEND_REQUEST_def ihead_def ipend_def rinv_def)
next
  case PAUSE_WRITE_PAYLOAD
  then show ?thesis using assms
    by (auto simp: enter_ISSUE_COMMAND_PAUSE_WRITE_PAYLOAD_def ihead_def ipend_def rinv_def)
next
  case PAUSE_WRITE_SHUTDOWN
  then show ?thesis using assms
    by (auto simp: enter_ISSUE_COMMAND_PAUSE_WRITE_SHUTDOWN_def ipend_def rinv_def)
next
  case PREPARE_WRITE_PAYLOAD
  then obtain cmd cs where q: "cmds_to_issue h = cmd # cs"
    and h: "qinv h" "conn h" "ridle h" "ihead h" "shut_ok h" "wlen h = 0"
    using assms by (cases "cmds_to_issue h") (auto simp: ihead_def)
  have c: "cmd_ok (extended_headers h) cmd" using h(1) q by (simp add: qinv_def)
  then have d: "has_data cmd \<Longrightarrow> unat (c_count cmd) \<le> length (case c_data cmd of None \<Rightarrow> [] | Some d \<Rightarrow> d)"
    by (auto simp: has_data_def split: option.splits)
  have "c_type cmd = NBD_CMD_DISC \<Longrightarrow> cs = []"
    using h(2) q by (auto simp: conn_def split: if_splits)
  with c d show ?thesis using PREPARE_WRITE_PAYLOAD q h
    by (auto simp: enter_ISSUE_COMMAND_PREPARE_WRITE_PAYLOAD_def ihead_def shut_ok_def cmd_ok_def Let_def)
next
  case SEND_WRITE_SHUTDOWN
  obtain s d s' where "sock h = Some s" "sock_shut_writes s = (d, s')"
    using assms SEND_WRITE_SHUTDOWN by (cases "sock_shut_writes (the (sock h))") (auto simp: conn_def)
  then show ?thesis using assms SEND_WRITE_SHUTDOWN
    by (auto simp: enter_ISSUE_COMMAND_SEND_WRITE_SHUTDOWN_def ihead_def shut_ok_def conn_def ok_result_def
        return0_def SET_NEXT_STATE_def)
next
  case ISSUE_FINISH
  then show ?thesis using ISSUE_FINISH_ok assms by simp
qed

end
