(* ===== verification/NBD_Reply_Safe.thy ===== *)
theory NBD_Reply_Safe
  imports NBD_Issue_Safe
begin

text \<open>
  The states that receive a reply keep the invariant.
\<close>

section \<open>Updating the command being replied to\<close>

lemma set_cmd_fields [simp]:
  "rlen (set_cmd c h) = rlen h" "rbuf (set_cmd c h) = rbuf h" "payload_left (set_cmd c h) = payload_left h"
  "reply_state (set_cmd c h) = reply_state h" "reply_cmd (set_cmd c h) = reply_cmd h"
  "sbuf (set_cmd c h) = sbuf h" "meta_valid (set_cmd c h) = meta_valid h" "bs_count (set_cmd c h) = bs_count h"
  "bs_raw (set_cmd c h) = bs_raw h" "next_state (set_cmd c h) = next_state h" "conn (set_cmd c h) = conn h"
  "ipend (set_cmd c h) = ipend h" "extended_headers (set_cmd c h) = extended_headers h"
  "last_error (set_cmd c h) = last_error h" "blocked (set_cmd c h) = blocked h"
  by (simp_all add: set_cmd_def)

lemma first_error_fields [simp]:
  "c_type (first_error e c) = c_type c"
  "c_cookie (first_error e c) = c_cookie c"
  "c_count (first_error e c) = c_count c"
  "c_offset (first_error e c) = c_offset c"
  "c_cb (first_error e c) = c_cb c"
  "c_data (first_error e c) = c_data c"
  "c_flags (first_error e c) = c_flags c"
  "c_initialized (first_error e c) = c_initialized c"
  by (simp_all add: first_error_def)

lemma add_data_seen_fields [simp]:
  "c_type (add_data_seen n c) = c_type c"
  "c_cookie (add_data_seen n c) = c_cookie c"
  "c_count (add_data_seen n c) = c_count c"
  "c_offset (add_data_seen n c) = c_offset c"
  "c_cb (add_data_seen n c) = c_cb c"
  "c_data (add_data_seen n c) = c_data c"
  "c_flags (add_data_seen n c) = c_flags c"
  "c_initialized (add_data_seen n c) = c_initialized c"
  by (simp_all add: add_data_seen_def)

lemma chunk_result_fields [simp]:
  "c_type (chunk_result r e c) = c_type c"
  "c_cookie (chunk_result r e c) = c_cookie c"
  "c_count (chunk_result r e c) = c_count c"
  "c_offset (chunk_result r e c) = c_offset c"
  "c_cb (chunk_result r e c) = c_cb c"
  "c_data (chunk_result r e c) = c_data c"
  "c_flags (chunk_result r e c) = c_flags c"
  "c_initialized (chunk_result r e c) = c_initialized c"
  by (simp_all add: chunk_result_def)

lemma get_reply_cmd_Some:
  "get_reply_cmd h = Some c \<longleftrightarrow> (\<exists>k. reply_cmd h = Some k \<and> find_cmd k (cmds_in_flight h) = Some c)"
  by (simp add: get_reply_cmd_def split: option.splits)

lemma set_cmd_keep:
  assumes "get_reply_cmd h = Some c" and "cmd_sim c c'"
  shows "list_all2 cmd_sim (cmds_in_flight h) (cmds_in_flight (set_cmd c' h))"
    and "qinv (set_cmd c' h) = qinv h" and "cookie_ok (set_cmd c' h) = cookie_ok h"
    and "get_reply_cmd (set_cmd c' h) = Some c'"
proof -
  obtain k where k: "reply_cmd h = Some k" "find_cmd k (cmds_in_flight h) = Some c"
    using assms(1) by (auto simp: get_reply_cmd_Some)
  have ck: "c_cookie c' = k"
    using k find_cmd_cookie assms(2) by (auto simp: cmd_sim_def)
  show l: "list_all2 cmd_sim (cmds_in_flight h) (cmds_in_flight (set_cmd c' h))"
    using sims_upd [of k "cmds_in_flight h" c "\<lambda>_. c'"] k ck assms(2) by (simp add: set_cmd_def)
  then show "qinv (set_cmd c' h) = qinv h"
    by (rule qinv_sims) (simp_all add: set_cmd_def)
  show "cookie_ok (set_cmd c' h) = cookie_ok h"
    using sims_find_cookie [OF l] by (simp add: cookie_ok_def)
  show "get_reply_cmd (set_cmd c' h) = Some c'"
    using k ck by (simp add: get_reply_cmd_def set_cmd_def find_upd_cmd)
qed

lemma reply_cmd_ok:
  "qinv h \<Longrightarrow> get_reply_cmd h = Some c \<Longrightarrow> cmd_ok (extended_headers h) c"
  using find_cmd_SomeD by (fastforce simp: get_reply_cmd_Some qinv_def)

lemma with_reply_cmdE:
  assumes "with_reply_cmd P h"
  obtains c where "get_reply_cmd h = Some c" "P c"
  using assms by (auto simp: with_reply_cmd_def split: option.splits)

lemma reply_data_simps [simp]:
  "reply_data r (h\<lparr>reply_state := v\<rparr>) = reply_data r h"
  "reply_data r (h\<lparr>next_state := v\<rparr>) = reply_data r h"
  "reply_data r (h\<lparr>blocked := b\<rparr>) = reply_data r h"
  "reply_data r (h\<lparr>last_error := e\<rparr>) = reply_data r h"
  "reply_data r (h\<lparr>chunks_received := n\<rparr>) = reply_data r h"
  "reply_data r (h\<lparr>sock := s\<rparr>) = reply_data r h"
  by (rule reply_data_frame; simp)+

section \<open>Between replies\<close>

lemma READY_ok:
  assumes "inv_at READY h" and "next_state h = READY"
  shows "ok_result (enter_READY h)"
proof -
  obtain s p s' where "sock h = Some s" "sock_pending s = (p, s')"
    using assms by (cases "sock_pending (the (sock h))") (auto simp: conn_def)
  then show ?thesis using assms
    by (auto simp: enter_READY_def rinv_def conn_def ok_result_def return0_def SET_NEXT_STATE_def)
qed

lemma REPLY_START_resume:
  assumes "inv_at (REPLY REPLY_START) h" and "rlen h \<noteq> 0"
  shows "ok_result (enter_REPLY_START h)"
proof -
  have h: "qinv h" "conn h" "ipend h" "ridle h" using assms by (simp_all add: rinv_def)
  consider "reply_state h = START" "reply_data RECV_REPLY h"
    | r where "reply_state h = REPLY r" "reply_data r h"
    using h(4) assms(2) by (auto simp: ridle_def split: state.splits simp del: reply_data.simps)
  then show ?thesis
  proof cases
    case 1
    then show ?thesis using h assms by (simp add: enter_REPLY_START_def rinv_def)
  next
    case 2
    then have "r \<noteq> REPLY_START" by auto
    then show ?thesis using 2 h assms
      by (simp add: enter_REPLY_START_def ok_result_def return0_def SET_NEXT_STATE_def rinv_def)
  qed
qed

lemma REPLY_START_begin:
  assumes "inv_at (REPLY REPLY_START) h" and "next_state h = REPLY REPLY_START" and "rlen h = 0"
  shows "ok_result (enter_REPLY_START h)"
proof -
  have h: "qinv h" "conn h" "ipend h" "reply_state h = START" "reply_cmd h = None" "payload_left h = 0"
    using assms by (simp_all add: rinv_def ridle_def)
  obtain s where s: "sock h = Some s" using h(2) by (auto simp: conn_def)
  let ?g = "h\<lparr>rbuf := RSbuf 0, rlen := hdr_size h\<rparr>"
  obtain res s' where rv: "sock_recv (hdr_size h) s = (res, s')" by fastforce
  note def = enter_REPLY_START_def hdr_size_def [symmetric]
  show ?thesis
  proof (cases res)
    case SockAgain
    then show ?thesis using h s rv assms
      by (simp add: def ok_result_def return0_def rinv_def ridle_def sbuf_upto_def conn_def)
        (simp add: hdr_size_def)
  next
    case (SockErr e)
    then show ?thesis using h s rv assms by (simp add: def set_error_def)
  next
    case (SockOk bs)
    have "target_ok (?g\<lparr>sock := Some s'\<rparr>)" by (simp add: target_ok_def hdr_size_def)
    moreover have len: "length bs \<le> hdr_size h"
      using sk.recv_len rv SockOk by blast
    ultimately obtain h' where st: "store_rbuf bs (?g\<lparr>sock := Some s'\<rparr>) = Some h'"
        "stored (length bs) (?g\<lparr>sock := Some s'\<rparr>) h'"
      using stored_rbuf [of "?g\<lparr>sock := Some s'\<rparr>" bs] by auto
    let ?h = "h'\<lparr>bytes_received := bytes_received h' + of_nat (length bs), rlen := rlen h' - length bs\<rparr>"
    have rc: "recvd ?g ?h" using st(2) len by (auto intro: recvd_stored)
    have "reply_data RECV_REPLY ?g" using h by (simp add: sbuf_upto_def hdr_size_def)
    then have "reply_data RECV_REPLY ?h"
      using recvd_reply_data [OF rc] by (simp add: receiving_def del: reply_data.simps)
    then have "inv_at (REPLY RECV_REPLY) ?h"
      using recvd_inv [OF rc] recvd_frame [OF rc] h by (simp add: rinv_def del: reply_data.simps)
    then show ?thesis using h s rv assms SockOk st
      by (auto simp: def Let_def simp del: inv_at.simps(3))
  qed
qed

lemma REPLY_START_ok:
  "inv_at (REPLY REPLY_START) h \<Longrightarrow> next_state h = REPLY REPLY_START \<Longrightarrow> ok_result (enter_REPLY_START h)"
  using REPLY_START_resume REPLY_START_begin by blast

section \<open>The header of a reply\<close>

lemma RECV_REPLY_ok:
  assumes "inv_at (REPLY RECV_REPLY) h"
  shows "ok_result (enter_REPLY_RECV_REPLY h)"
proof -
  have h: "qinv h" "conn h" "ipend h" "reply_state h = START" "reply_data RECV_REPLY h"
    using assms by (simp_all add: rinv_def)
  obtain h' q where h': "recv_into_rbuf h = Some (h', q)" "recvd h h'"
    and q: "q = -1 \<and> last_error h' \<noteq> None \<or> q = 0 \<and> rlen h' = 0 \<or> q = 1 \<and> rlen h' \<noteq> 0"
    using recv_into_rbuf_ok [of h] reply_data_target [of RECV_REPLY h] h(2,5)
    by (auto simp: conn_def receiving_def)
  have inv': "qinv h'" "conn h'" "ipend h'" "reply_state h' = START" "reply_data RECV_REPLY h'"
    using recvd_inv [OF h'(2)] recvd_frame [OF h'(2)] recvd_reply_data [OF h'(2) h(5)] h
    by (auto simp: receiving_def)
  consider "q = -1" "last_error h' \<noteq> None" | "q = 0" "rlen h' = 0" | "q = 1" "rlen h' \<noteq> 0"
    using q by argo
  then show ?thesis
  proof cases
    case 1
    then show ?thesis using h' inv' by (simp add: enter_REPLY_RECV_REPLY_def)
  next
    case 2
    then show ?thesis using h' inv'
      by (auto simp: enter_REPLY_RECV_REPLY_def rinv_def sbuf_upto_def hdr_size_def split: rptr.splits)
  next
    case 3
    then show ?thesis using h' inv'
      by (auto simp: enter_REPLY_RECV_REPLY_def ok_result_def return0_def SET_NEXT_STATE_def set_error_def
          ridle_def Let_def simp del: reply_data.simps)
  qed
qed


text \<open>
  The one thing the server can do that the assertions of the code do not survive: start a
  structured reply to a command before that command has been sent.
\<close>

definition early_reply :: "nbd_handle \<Rightarrow> bool" where
  "early_reply h \<longleftrightarrow> state h = REPLY CHECK_REPLY_MAGIC \<and> \<not> extended_headers h \<and>
     hdr_magic (sbuf h) = NBD_STRUCTURED_REPLY_MAGIC \<and>
     find_cmd (hdr_cookie (sbuf h)) (cmds_in_flight h) = None \<and>
     (hdr_cookie (sbuf h) \<ge> unique h \<or> hdr_cookie (sbuf h) \<in> c_cookie ` set (cmds_to_issue h))"

lemma CHECK_REPLY_MAGIC_ok:
  assumes "inv_at (REPLY CHECK_REPLY_MAGIC) h" and "\<not> early_reply h" and "state h = REPLY CHECK_REPLY_MAGIC"
  shows "ok_result (enter_REPLY_CHECK_REPLY_MAGIC h)"
  using assms
  by (auto simp: enter_REPLY_CHECK_REPLY_MAGIC_def Let_def invalid_magic_def return0_def ok_result_def
      SET_NEXT_STATE_def set_error_def rinv_def cookie_ok_def past_cookie_def sbuf_upto_def hdr_size_def
      early_reply_def not_le)

lemma RECV_STRUCTURED_REMAINING_ok:
  assumes "inv_at (REPLY RECV_STRUCTURED_REMAINING) h" and "state h = REPLY RECV_STRUCTURED_REMAINING"
  shows "ok_result (enter_REPLY_RECV_STRUCTURED_REMAINING h)"
  unfolding enter_REPLY_RECV_STRUCTURED_REMAINING_def
  by (rule recv_or_save_ok [OF assms(1) _ _ assms(2)]) (simp_all add: receiving_def rinv_def)

section \<open>Simple replies\<close>

lemma call_chunk_handle:
  "call_chunk c b off st e h = (r, err, h') \<Longrightarrow> h' = h \<or> h' = log_event (ChunkCall (c_cookie c) b off st e) h"
  by (auto simp: call_chunk_def split: cb_fn.splits cbk.splits option.splits)

lemma SIMPLE_START_ok:
  assumes "inv_at (REPLY (SIMPLE_REPLY SIMPLE_START)) h"
  shows "ok_result (enter_REPLY_SIMPLE_REPLY_START h)"
proof -
  have h: "qinv h" "conn h" "ipend h" "reply_state h = START" "rlen h = 0" "cookie_ok h" "payload_left h = 0"
    using assms by (simp_all add: rinv_def)
  show ?thesis
  proof (cases "get_reply_cmd h")
    case None
    then show ?thesis using h
      by (simp add: enter_REPLY_SIMPLE_REPLY_START_def Let_def ok_result_def return0_def SET_NEXT_STATE_def
          set_error_def rinv_def)
  next
    case (Some c)
    let ?e = "simple_error (sbuf h)"
    define c' where "c' = first_error (nbd_internal_errno_of_nbd_error ?e)
      (if c_type c = NBD_CMD_READ \<and> structured_replies h then first_error EPROTO c else c)"
    have sim: "cmd_sim c c'" by (simp add: c'_def)
    let ?seen = "c'\<lparr>c_data_seen := c_data_seen c' + ucast (c_count c')\<rparr>"
    have body: "enter_REPLY_SIMPLE_REPLY_START h = (if ?e = 0 \<and> c_type c' = NBD_CMD_READ
        then goto (REPLY (SIMPLE_REPLY RECV_READ_PAYLOAD))
          ((set_cmd ?seen h)\<lparr>rbuf := RData (c_cookie c') 0, rlen := unat (c_count c')\<rparr>)
        else goto (REPLY FINISH_COMMAND) (set_cmd c' h))"
      using Some by (simp add: enter_REPLY_SIMPLE_REPLY_START_def Let_def c'_def)
    have ct: "c_type c' = c_type c" using sim by (simp add: cmd_sim_def)
    show ?thesis
    proof (cases "?e = 0 \<and> c_type c = NBD_CMD_READ")
      case True
      have "has_data c" using reply_cmd_ok [OF h(1) Some] True by (simp add: cmd_ok_def)
      then have "has_data c'" using has_data_sim [OF sim] by simp
      then have room: "room (unat (c_count c')) ?seen"
        by (auto simp: has_data_def room_def split: option.splits)
      have sim2: "cmd_sim c ?seen" using sim by simp
      note k = set_cmd_keep [OF Some sim2]
      have rc: "reply_cmd h = Some (c_cookie c')" "c_type c' = NBD_CMD_READ"
        using Some find_cmd_cookie sim True by (auto simp: get_reply_cmd_Some cmd_sim_def)
      have "inv_at (REPLY (SIMPLE_REPLY RECV_READ_PAYLOAD))
          ((set_cmd ?seen h)\<lparr>rbuf := RData (c_cookie c') 0, rlen := unat (c_count c')\<rparr>)"
        using h k room rc by (simp add: rinv_def data_fits_def with_reply_cmd_def)
      then show ?thesis using True ct by (simp add: body del: inv_at.simps)
    next
      case False
      note k = set_cmd_keep [OF Some sim]
      show ?thesis using False ct h k by (auto simp: body rinv_def)
    qed
  qed
qed

lemma RECV_READ_PAYLOAD_ok:
  assumes "inv_at (REPLY (SIMPLE_REPLY RECV_READ_PAYLOAD)) h"
    and "state h = REPLY (SIMPLE_REPLY RECV_READ_PAYLOAD)"
  shows "ok_result (enter_REPLY_SIMPLE_REPLY_RECV_READ_PAYLOAD h)"
  unfolding enter_REPLY_SIMPLE_REPLY_RECV_READ_PAYLOAD_def
proof (rule recv_or_save_ok [OF assms(1) _ _ assms(2)])
  fix h' assume inv': "rlen h' = 0" "qinv h'" "conn h'" "ipend h'" "reply_state h' = START"
    and d: "reply_data (SIMPLE_REPLY RECV_READ_PAYLOAD) h'"
  obtain c buf where c: "get_reply_cmd h' = Some c" "c_data c = Some buf"
    using d by (auto simp: data_fits_def room_def elim!: with_reply_cmdE split: rptr.splits option.splits)
  show "ok_result (do {
       cmd \<leftarrow> get_reply_cmd h';
       if fn_is_null (cb_fn (c_cb cmd)) then goto (REPLY FINISH_COMMAND) h'
       else do {
         buf \<leftarrow> c_data cmd;
         let (r, err, h) = call_chunk cmd buf (c_offset cmd) LIBNBD_READ_DATA (c_error cmd) h';
         let h = (if r = -1
                  then set_cmd (cmd\<lparr>c_error := (if err \<noteq> 0 then err else EPROTO)\<rparr>) h else h);
         goto (REPLY FINISH_COMMAND) h } })"
  proof (cases "fn_is_null (cb_fn (c_cb c))")
    case True
    then show ?thesis using c inv' d by (simp add: rinv_def)
  next
    case False
    obtain r err g where g: "call_chunk c buf (c_offset c) LIBNBD_READ_DATA (c_error c) h' = (r, err, g)"
      by (metis prod_cases3)
    have gk: "qinv g" "conn g" "ipend g" "get_reply_cmd g = Some c" "cookie_ok g" "rlen g = 0"
      "reply_state g = START" "payload_left g = 0"
      using call_chunk_handle [OF g] inv' c d by (auto simp: log_event_def)
    let ?c = "c\<lparr>c_error := (if err \<noteq> 0 then err else EPROTO)\<rparr>"
    have "cmd_sim c ?c" by simp
    note k = set_cmd_keep [OF gk(4) this]
    show ?thesis using False c g gk k by (auto simp: rinv_def)
  qed
qed (simp_all add: receiving_def)


section \<open>The end of a command\<close>

lemma call_completion_trace: "\<exists>tr. snd (snd (call_completion k cb e h)) = h\<lparr>trace := tr\<rparr>"
  by (cases "cbk_fun cb") (auto simp: call_completion_def log_event_def intro: exI [of _ "trace h"])

lemma notify_completion_ok:
  assumes "cmd_ok eh cmd"
  shows "\<exists>cmd' retire tr. notify_completion err cmd h = Some (cmd', retire, h\<lparr>trace := tr\<rparr>) \<and>
    cmd_sim cmd cmd' \<and> (\<not> retire \<longrightarrow> c_type cmd \<noteq> NBD_CMD_DISC)"
proof (cases "CALLBACK_IS_NULL (cb_completion (c_cb cmd))")
  case True
  then have "notify_completion err cmd h = Some (cmd, c_type cmd = NBD_CMD_DISC, h\<lparr>trace := trace h\<rparr>)"
    by (simp add: notify_completion_def)
  then show ?thesis using cmd_sim_refl by blast
next
  case False
  then have "c_type cmd \<noteq> NBD_CMD_DISC" using assms by (auto simp: cmd_ok_def)
  moreover obtain r e g where g: "call_completion (c_cookie cmd) (cb_completion (c_cb cmd)) err h = (r, e, g)"
    by (metis prod_cases3)
  moreover obtain tr where "g = h\<lparr>trace := tr\<rparr>"
    using call_completion_trace [of "c_cookie cmd" "cb_completion (c_cb cmd)" err h] g by auto
  ultimately have "notify_completion err cmd h =
      Some (if r = -1 \<and> e \<noteq> 0 then cmd\<lparr>c_error := e\<rparr> else cmd, r = 1, h\<lparr>trace := tr\<rparr>)"
    using False by (simp add: notify_completion_def)
  moreover have "cmd_sim cmd (if r = -1 \<and> e \<noteq> 0 then cmd\<lparr>c_error := e\<rparr> else cmd)" by simp
  ultimately show ?thesis using \<open>c_type cmd \<noteq> NBD_CMD_DISC\<close> by blast
qed

lemma retire_trace: "\<exists>tr. nbd_internal_retire_and_free_command cmd h = h\<lparr>trace := tr\<rparr>"
  by (auto simp: nbd_internal_retire_and_free_command_def log_event_def Let_def intro: exI [of _ "trace h"])

lemma append_done_ok:
  "cmds_done_tail h = last_cookie (cmds_done h) \<Longrightarrow>
     append_done cmd h = Some (h\<lparr>cmds_done := cmds_done h @ [cmd],
       cmds_done_tail := last_cookie (cmds_done h @ [cmd])\<rparr>)"
  by (simp add: append_done_def last_cookie_def)

text \<open>A command that ends is retired or joins the completed ones.\<close>

definition finished :: "command \<Rightarrow> nbd_handle \<Rightarrow> nbd_handle \<Rightarrow> bool" where
  "finished cmd h h' \<longleftrightarrow> (\<exists>tr dn.
     h' = h\<lparr>trace := tr, cmds_done := dn, cmds_done_tail := last_cookie dn\<rparr> \<and>
     (dn = cmds_done h \<or> c_type cmd \<noteq> NBD_CMD_DISC \<and> (\<exists>c. cmd_sim cmd c \<and> dn = cmds_done h @ [c])))"

lemma end_command_ok:
  assumes "c_type cmd = NBD_CMD_DISC \<longrightarrow> retire" and "cmd_sim cmd c"
    and "cmds_done_tail h = last_cookie (cmds_done h)"
  shows "\<exists>h'. (if retire then Some (nbd_internal_retire_and_free_command c h) else append_done c h) = Some h' \<and>
    finished cmd h h'"
proof (cases retire)
  case True
  obtain tr where "nbd_internal_retire_and_free_command c h = h\<lparr>trace := tr\<rparr>"
    using retire_trace by blast
  with True assms(3) show ?thesis
    by (auto simp: finished_def intro!: exI [of _ tr] exI [of _ "cmds_done h"])
next
  case False
  with assms show ?thesis
    by (auto simp: finished_def append_done_ok intro!: exI [of _ "trace h"] exI [of _ "cmds_done h @ [c]"])
qed


lemma finished_cookies:
  assumes "finished cmd h h'"
  shows "set (map c_cookie (cmds_done h')) \<subseteq> insert (c_cookie cmd) (c_cookie ` set (cmds_done h))"
    and "c_cookie cmd \<notin> c_cookie ` set (cmds_done h) \<Longrightarrow> distinct (map c_cookie (cmds_done h)) \<Longrightarrow>
      distinct (map c_cookie (cmds_done h'))"
    and "\<forall>c \<in> set (cmds_done h). c_type c \<noteq> NBD_CMD_DISC \<Longrightarrow> \<forall>c \<in> set (cmds_done h'). c_type c \<noteq> NBD_CMD_DISC"
  using assms by (auto simp: finished_def cmd_sim_def)

lemma distinct_move:
  "distinct (A @ F @ D) \<Longrightarrow> k \<in> set F \<Longrightarrow> k \<notin> set F' \<Longrightarrow> set F' \<subseteq> set F \<Longrightarrow> distinct F' \<Longrightarrow>
     set D' \<subseteq> insert k (set D) \<Longrightarrow> distinct D' \<Longrightarrow> distinct (A @ F' @ D')"
  by auto

lemma distinct_outer: "distinct (A @ F @ D) \<Longrightarrow> distinct (A @ D)"
  by auto

lemma distinct_collect:
  "distinct (A @ F @ D) \<Longrightarrow> distinct D' \<Longrightarrow> set D' \<subseteq> set A \<union> set D \<Longrightarrow> distinct (F @ D')"
  by auto

lemma subset_chain: "D2 \<subseteq> A \<union> D1 \<Longrightarrow> D1 \<subseteq> B \<union> C \<Longrightarrow> D2 \<subseteq> A \<union> B \<union> C"
  by blast

lemma distinct_shift:
  "distinct ((k # A) @ D) \<Longrightarrow> set D' \<subseteq> insert k (set D) \<Longrightarrow> distinct D' \<Longrightarrow> distinct (A @ D')"
  by auto

lemma FINISH_COMMAND_ok:
  assumes "inv_at (REPLY FINISH_COMMAND) h"
  shows "ok_result (enter_REPLY_FINISH_COMMAND h)"
proof -
  have h: "qinv h" "conn h" "ipend h" "reply_state h = START" "rlen h = 0" "cookie_ok h" "payload_left h = 0"
    using assms by (simp_all add: rinv_def)
  let ?k = "hdr_cookie (sbuf h)" and ?fl = "cmds_in_flight h"
  show ?thesis
  proof (cases "find_cmd ?k ?fl")
    case None
    then show ?thesis using h by (simp add: enter_REPLY_FINISH_COMMAND_def cookie_ok_def ridle_def)
  next
    case (Some cmd)
    have cmd: "cmd \<in> set ?fl" "c_cookie cmd = ?k" using find_cmd_SomeD [OF Some] by auto
    have "cmd_ok (extended_headers h) cmd" using h(1) cmd by (auto simp: qinv_def)
    from notify_completion_ok [OF this, of "c_error cmd" "h\<lparr>reply_cmd := None\<rparr>"]
    obtain c retire tr where n: "notify_completion (c_error cmd) cmd (h\<lparr>reply_cmd := None\<rparr>) =
        Some (c, retire, h\<lparr>reply_cmd := None, trace := tr\<rparr>)"
      and c: "cmd_sim cmd c" "c_type cmd = NBD_CMD_DISC \<longrightarrow> retire"
      by auto
    let ?g = "h\<lparr>reply_cmd := None, trace := tr, cmds_in_flight := del_cmd ?k ?fl\<rparr>"
    have "cmds_done_tail ?g = last_cookie (cmds_done ?g)" using h(1) by (simp add: qinv_def)
    from end_command_ok [OF c(2,1) this]
    obtain h' where e: "(if retire then Some (nbd_internal_retire_and_free_command c ?g)
        else append_done c ?g) = Some h'" and f: "finished cmd ?g h'" by auto
    from f obtain tr' dn where h': "h' = ?g\<lparr>trace := tr', cmds_done := dn, cmds_done_tail := last_cookie dn\<rparr>"
      by (auto simp: finished_def)
    have len: "int (length (del_cmd ?k ?fl)) = int (length ?fl) - 1"
      using length_del_cmd [OF Some] by linarith
    have fl: "distinct (map c_cookie ?fl)" using h(1) by (simp add: qinv_def)
    note gone = del_cmd_gone [OF fl, of ?k] and sub = cookies_del_cmd [of ?k ?fl]
      and dist = distinct_del_cmd [OF fl, of ?k] and sset = set_del_cmd [of ?k ?fl]
      and fin = finished_cookies [OF f]
    let ?r = "h'\<lparr>in_flight := in_flight h' - 1\<rparr>"
    have k: "?k \<in> set (map c_cookie ?fl)" using cmd by force
    have old: "distinct (map c_cookie (cmds_to_issue h) @ map c_cookie ?fl @ map c_cookie (cmds_done h))"
      using h(1) by (simp add: qinv_def)
    have "?k \<notin> c_cookie ` set (cmds_done h)" using old k by auto
    then have "distinct (map c_cookie (cmds_done h'))" using fin(2) old cmd(2) by simp
    then have
      "distinct (map c_cookie (cmds_to_issue h) @ map c_cookie (del_cmd ?k ?fl) @ map c_cookie (cmds_done h'))"
      by (rule distinct_move [OF old k, rotated 4]) (use gone sub dist fin(1) cmd(2) in simp_all)
    moreover have "?k < unique h" "\<forall>k \<in> c_cookie ` set (cmds_done h). k < unique h"
      using h(1) k by (simp_all add: qinv_def)
    then have "\<forall>k \<in> c_cookie ` set (cmds_done h'). k < unique h"
      using fin(1) cmd(2) by auto
    moreover have "\<forall>k \<in> c_cookie ` set (cmds_to_issue h) \<union> c_cookie ` set (del_cmd ?k ?fl). k < unique h"
    proof -
      have "\<forall>k \<in> c_cookie ` set (cmds_to_issue h) \<union> c_cookie ` set ?fl. k < unique h"
        using h(1) by (simp add: qinv_def ball_Un)
      then show ?thesis using sub by blast
    qed
    ultimately have "qinv ?r"
      using h(1) h' len sset sub fin(3) unfolding qinv_def by (simp add: subset_iff ball_Un)
    moreover have "in_flight h' - 1 \<ge> 0" using len h(1) h' by (simp add: qinv_def)
    moreover have "conn ?r" "ipend ?r" using h h' by (simp_all add: conn_def ipend_def ihead_def shut_ok_def)
    moreover have "ridle ?r" using h h' by (simp add: ridle_def)
    moreover have "enter_REPLY_FINISH_COMMAND h = (if in_flight h' - 1 \<ge> 0 then goto READY ?r else None)"
      using h(6) Some n e
      by (cases retire) (simp_all add: enter_REPLY_FINISH_COMMAND_def cookie_ok_def Let_def)
    ultimately show ?thesis by simp
  qed
qed


section \<open>Giving up\<close>

lemma qinv_done:
  "qinv h \<Longrightarrow> cmds_done_tail h = last_cookie (cmds_done h) \<and> (\<forall>c \<in> set (cmds_done h). c_type c \<noteq> NBD_CMD_DISC)"
  by (simp add: qinv_def)

lemma abort_commands_ok:
  assumes "\<forall>c \<in> set cs. cmd_ok eh c" and "cmds_done_tail h = last_cookie (cmds_done h)"
    and "distinct (map c_cookie cs @ map c_cookie (cmds_done h))"
    and "\<forall>c \<in> set (cmds_done h). c_type c \<noteq> NBD_CMD_DISC"
  shows "\<exists>tr dn. nbd_internal_abort_commands cs h =
      Some (h\<lparr>trace := tr, cmds_done := dn, cmds_done_tail := last_cookie dn\<rparr>) \<and>
    distinct (map c_cookie dn) \<and> c_cookie ` set dn \<subseteq> c_cookie ` set cs \<union> c_cookie ` set (cmds_done h) \<and>
    (\<forall>c \<in> set dn. c_type c \<noteq> NBD_CMD_DISC)"
  using assms
proof (induction cs arbitrary: h)
  case Nil
  then have "nbd_internal_abort_commands [] h =
      Some (h\<lparr>trace := trace h, cmds_done := cmds_done h, cmds_done_tail := last_cookie (cmds_done h)\<rparr>)"
    by (simp flip: Nil(2))
  with Nil show ?case by (intro exI conjI) (assumption, simp_all)
next
  case (Cons cmd cs)
  let ?e = "if c_error cmd \<noteq> 0 then c_error cmd else ENOTCONN"
  obtain c retire tr where n: "notify_completion ?e cmd h = Some (c, retire, h\<lparr>trace := tr\<rparr>)"
    and c: "cmd_sim cmd c" "c_type cmd = NBD_CMD_DISC \<longrightarrow> retire"
    using notify_completion_ok [of eh cmd ?e h] Cons.prems by auto
  let ?c = "if c_error c = 0 then c\<lparr>c_error := ENOTCONN\<rparr> else c"
  have "cmd_sim cmd ?c" using c by simp
  moreover have "cmds_done_tail (h\<lparr>trace := tr\<rparr>) = last_cookie (cmds_done (h\<lparr>trace := tr\<rparr>))"
    using Cons.prems by simp
  ultimately obtain h1 where e: "(if retire then Some (nbd_internal_retire_and_free_command ?c (h\<lparr>trace := tr\<rparr>))
      else append_done ?c (h\<lparr>trace := tr\<rparr>)) = Some h1" and f: "finished cmd (h\<lparr>trace := tr\<rparr>) h1"
    using end_command_ok [OF c(2)] by blast
  note fin = finished_cookies [OF f]
  obtain tr1 where h1: "h1 = h\<lparr>trace := tr1, cmds_done := cmds_done h1, cmds_done_tail := last_cookie (cmds_done h1)\<rparr>"
    using f by (auto simp: finished_def)
  then have tail: "cmds_done_tail h1 = last_cookie (cmds_done h1)"
    using f by (auto simp: finished_def)
  have ck: "c_cookie cmd \<notin> c_cookie ` set (cmds_done h)" using Cons.prems(3) by auto
  have "distinct (map c_cookie (cmds_done h1))" "set (map c_cookie (cmds_done h1)) \<subseteq>
      insert (c_cookie cmd) (c_cookie ` set (cmds_done h))" "\<forall>c \<in> set (cmds_done h1). c_type c \<noteq> NBD_CMD_DISC"
    using fin ck Cons.prems by simp_all
  moreover have "distinct ((c_cookie cmd # map c_cookie cs) @ map c_cookie (cmds_done h))"
    using Cons.prems(3) by simp
  then have "distinct (map c_cookie cs @ map c_cookie (cmds_done h1))"
    by (rule distinct_shift) (use calculation in simp_all)
  ultimately obtain tr2 dn where ab: "nbd_internal_abort_commands cs h1 =
      Some (h1\<lparr>trace := tr2, cmds_done := dn, cmds_done_tail := last_cookie dn\<rparr>)"
    "distinct (map c_cookie dn)" "c_cookie ` set dn \<subseteq> c_cookie ` set cs \<union> c_cookie ` set (cmds_done h1)"
    "\<forall>c \<in> set dn. c_type c \<noteq> NBD_CMD_DISC"
    using Cons.IH [of h1] Cons.prems(1) tail by auto
  have "h1\<lparr>trace := tr2, cmds_done := dn, cmds_done_tail := last_cookie dn\<rparr> =
      h\<lparr>trace := tr2, cmds_done := dn, cmds_done_tail := last_cookie dn\<rparr>"
    by (subst h1) simp
  moreover have "nbd_internal_abort_commands (cmd # cs) h = nbd_internal_abort_commands cs h1"
    using n e by (simp add: Let_def)
  moreover have "c_cookie ` set dn \<subseteq> c_cookie ` set (cmd # cs) \<union> c_cookie ` set (cmds_done h)"
    using ab(3) fin(1) by auto
  ultimately show ?case using ab by metis
qed


lemma abort_option_frame:
  "abort_option h = h\<lparr>trace := trace (abort_option h), opt_cb := opt_cb (abort_option h)\<rparr>"
  by (simp add: abort_option_def call_opt_completion_def nbd_internal_free_option_def log_event_def Let_def
      split: option.split)

lemma abort_all_ok:
  assumes "qinv h"
  shows "\<exists>h'. abort_all h = Some h' \<and> qinv h' \<and> last_error h' = last_error h \<and> next_state h' = next_state h"
proof -
  define g where "g = abort_option h"
  have g: "g = h\<lparr>trace := trace g, opt_cb := opt_cb g\<rparr>"
    unfolding g_def by (rule abort_option_frame)
  let ?g = "g\<lparr>cmds_to_issue := []\<rparr>"
  have q: "qinv g" by (subst g) (use assms in \<open>simp add: qinv_def\<close>)
  have dist: "distinct (map c_cookie (cmds_to_issue g) @ map c_cookie (cmds_in_flight g) @ map c_cookie (cmds_done g))"
    using q by (simp add: qinv_def)
  obtain tr1 d1 where a1: "nbd_internal_abort_commands (cmds_to_issue g) ?g =
      Some (?g\<lparr>trace := tr1, cmds_done := d1, cmds_done_tail := last_cookie d1\<rparr>)"
    and d1: "distinct (map c_cookie d1)" "c_cookie ` set d1 \<subseteq> c_cookie ` set (cmds_to_issue g) \<union> c_cookie ` set (cmds_done g)"
      "\<forall>c \<in> set d1. c_type c \<noteq> NBD_CMD_DISC"
    using abort_commands_ok [of "cmds_to_issue g" "extended_headers g" ?g] q
      distinct_outer [OF dist] by (simp add: qinv_def) metis
  let ?h = "?g\<lparr>trace := tr1, cmds_done := d1, cmds_done_tail := last_cookie d1, cmds_in_flight := []\<rparr>"
  have "distinct (map c_cookie (cmds_in_flight g) @ map c_cookie d1)"
    using dist d1(1) by (rule distinct_collect) (use d1(2) in simp)
  then obtain tr2 d2 where a2: "nbd_internal_abort_commands (cmds_in_flight g) ?h =
      Some (?h\<lparr>trace := tr2, cmds_done := d2, cmds_done_tail := last_cookie d2\<rparr>)"
    and d2: "distinct (map c_cookie d2)" "c_cookie ` set d2 \<subseteq> c_cookie ` set (cmds_in_flight g) \<union> c_cookie ` set d1"
      "\<forall>c \<in> set d2. c_type c \<noteq> NBD_CMD_DISC"
    using abort_commands_ok [of "cmds_in_flight g" "extended_headers g" ?h] q d1(3) by (simp add: qinv_def) metis
  let ?r = "?h\<lparr>trace := tr2, cmds_done := d2, cmds_done_tail := last_cookie d2, in_flight := 0, sock := None\<rparr>"
  have "c_cookie ` set d2 \<subseteq> c_cookie ` set (cmds_in_flight g) \<union> c_cookie ` set (cmds_to_issue g) \<union>
      c_cookie ` set (cmds_done g)"
    using d2(2) d1(2) by (rule subset_chain)
  moreover have "\<forall>k \<in> c_cookie ` set (cmds_in_flight g) \<union> c_cookie ` set (cmds_to_issue g) \<union>
      c_cookie ` set (cmds_done g). k < unique g"
    using q by (simp add: qinv_def ball_Un)
  ultimately have "\<forall>k \<in> c_cookie ` set d2. k < unique g" by (meson subsetD)
  then have "qinv ?r" using d2 by (simp add: qinv_def)
  moreover have "abort_all h = Some ?r"
    using a1 a2 by (simp add: abort_all_def g_def [symmetric] Let_def)
  moreover have "last_error ?r = last_error h" "next_state ?r = next_state h"
    by (subst g; simp)+
  ultimately show ?thesis by blast
qed

lemma DEAD_ok: "inv_at DEAD h \<Longrightarrow> next_state h = DEAD \<Longrightarrow> ok_result (enter_DEAD h)"
  using abort_all_ok [of h] by (auto simp: enter_DEAD_def ok_result_def)

lemma CLOSED_ok: "inv_at CLOSED h \<Longrightarrow> next_state h = CLOSED \<Longrightarrow> ok_result (enter_CLOSED h)"
  using abort_all_ok [of h] by (auto simp: enter_CLOSED_def ok_result_def)

end
