(* ===== verification/NBD_Extents.thy ===== *)
theory NBD_Extents
  imports NBD_Chunk
begin

text \<open>
  Block status extents: what \<^verbatim>\<open>REPLY.CHUNK_REPLY.RECV_BS_ENTRIES\<close> hands to the user after cutting the
  descriptors of the server down to the size of the export and the width of the callback.
\<close>

section \<open>Limits of one extent\<close>

definition narrow_ok :: "u64 \<times> u64 \<Rightarrow> bool" where
  "narrow_ok e \<longleftrightarrow> fst e \<le> UINT32_MAX \<and> snd e \<le> UINT32_MAX"

lemma le_uint32_iff: "w \<le> UINT32_MAX \<longleftrightarrow> take_bit 32 w = w" for w :: u64
proof -
  have "take_bit 32 w = w \<longleftrightarrow> take_bit 32 (unat w) = unat w"
    by (simp add: word_unat_eq_iff unsigned_take_bit_eq)
  also have "\<dots> \<longleftrightarrow> unat w < 2 ^ 32"
    by (rule take_bit_nat_eq_self_iff)
  also have "\<dots> \<longleftrightarrow> w \<le> UINT32_MAX"
    by (auto simp: word_le_nat_alt)
  finally show ?thesis by blast
qed

lemma or_le_uint32: "a \<le> UINT32_MAX \<Longrightarrow> b \<le> UINT32_MAX \<Longrightarrow> a OR b \<le> UINT32_MAX" for a b :: u64
  unfolding le_uint32_iff by simp

lemma and_uint32_le: "a AND UINT32_MAX \<le> UINT32_MAX" for a :: u64
  by (simp add: word_and_le1)

lemma unat_ucast_u32 [simp]: "unat (ucast (w :: u32) :: u64) = unat w"
proof -
  have "unat w < 2 ^ LENGTH(32)" by (rule unsigned_less)
  then show ?thesis by (simp add: unsigned_ucast_eq unsigned_take_bit_eq take_bit_nat_eq_self)
qed

lemma ucast_u32_le: "(ucast (w :: u32) :: u64) \<le> UINT32_MAX"
proof -
  have "unat w < 2 ^ LENGTH(32)" by (rule unsigned_less)
  then show ?thesis by (simp add: word_le_nat_alt)
qed

lemma raw_extent_narrow: "narrow_ok (raw_extent True raw i)"
  by (simp add: narrow_ok_def raw_extent_def ucast_u32_le)

lemma clip_length_le:
  "clip_length narrow wide len = (len', stop) \<Longrightarrow> len' \<le> len \<and>
     (\<not> narrow \<longrightarrow> len' \<le> INT64_MAX \<and> (\<not> wide \<longrightarrow> len' \<le> UINT32_MAX)) \<and> (len' = 0 \<longleftrightarrow> len = 0) \<and>
     (\<not> stop \<longrightarrow> len' = len)"
  by (auto simp: clip_length_def Let_def not_less not_le word_le_def word_less_def split: if_splits)


section \<open>One turn of the loop\<close>

text \<open>
  An extent that is stored stays within what is left of the export, fits the callback, and has
  an error recorded when it is empty.
\<close>

definition stored_ok :: "bool \<Rightarrow> u64 \<Rightarrow> u64 \<Rightarrow> u32 \<Rightarrow> u64 \<times> u64 \<Rightarrow> bool" where
  "stored_ok wide cap tot err e \<longleftrightarrow>
     unat tot + unat (fst e) \<le> unat cap \<and> (\<not> wide \<longrightarrow> narrow_ok e) \<and> (fst e = 0 \<longrightarrow> err \<noteq> 0)"

lemma unat_room: "tot \<le> cap \<Longrightarrow> l \<le> cap - tot \<Longrightarrow> unat tot + unat l \<le> unat cap" for tot :: u64
  by (simp add: word_le_nat_alt unat_sub)

lemma cook_step_cases:
  assumes "tot \<le> cap" and "narrow \<longrightarrow> narrow_ok ext"
  obtains (break) err' where "cook_step narrow wide cap ext tot err out = Some (Inl (out, err'))" "out \<noteq> []"
      "err \<noteq> 0 \<longrightarrow> err' = err"
  | (last) e err' where "cook_step narrow wide cap ext tot err out = Some (Inl (out @ [e], err'))"
      "stored_ok wide cap tot err' e" "err \<noteq> 0 \<longrightarrow> err' = err" "fst e = 0 \<longrightarrow> out = []"
  | (more) e where "cook_step narrow wide cap ext tot err out = Some (Inr (tot + fst e, err, out @ [e]))"
      "stored_ok wide cap tot err e" "fst e \<noteq> 0" "e = ext"
proof -
  obtain len stop where clip: "clip_length narrow wide (fst ext) = (len, stop)" by fastforce
  note cl = clip_length_le [OF clip]
  define bad where "bad = (\<not> narrow \<and> snd ext > UINT32_MAX \<and> \<not> wide)"
  define fl where "fl = (if bad then snd ext AND UINT32_MAX else snd ext)"
  define over where "over = (len > cap - tot)"
  define l where "l = (if over then cap - tot else len)"
  define e1 where "e1 = (if bad \<and> err = 0 then EOVERFLOW else err)"
  define e2 where "e2 = (if over \<and> e1 = 0 then EPROTO else e1)"
  define e3 where "e3 = (if l = 0 \<and> e2 = 0 then EPROTO else e2)"
  have l: "l \<le> cap - tot" "l \<le> len" by (auto simp: l_def over_def not_less)
  have small: "\<not> wide \<Longrightarrow> l \<le> UINT32_MAX \<and> fl \<le> UINT32_MAX"
    using cl l(2) assms(2) and_uint32_le [of "snd ext"]
    by (auto simp: narrow_ok_def fl_def bad_def not_less intro: order_trans)
  then have fits: "wide \<or> (l OR fl) \<le> UINT32_MAX" using or_le_uint32 by blast
  have st: "stored_ok wide cap tot e3 (l, fl)"
    using unat_room [OF assms(1) l(1)] small by (simp add: stored_ok_def narrow_ok_def e3_def)
  have step: "cook_step narrow wide cap ext tot err out =
      (if bad \<and> out \<noteq> [] then Some (Inl (out, err))
       else if l = 0 \<and> out \<noteq> [] then Some (Inl (out, e2))
       else if stop \<or> bad \<or> over \<or> l = 0 then Some (Inl (out @ [(l, fl)], e3))
       else Some (Inr (tot + l, e3, out @ [(l, fl)])))"
    unfolding cook_step_def clip Let_def split_conv asrt_bind bad_def [symmetric] fl_def [symmetric]
      e1_def [symmetric] over_def [symmetric] l_def [symmetric] e2_def [symmetric] e3_def [symmetric]
    using assms(1) fits by (simp only: if_True)
  have err: "err \<noteq> 0 \<longrightarrow> e2 = err" "err \<noteq> 0 \<longrightarrow> e3 = err" by (simp_all add: e1_def e2_def e3_def)
  show thesis
  proof (cases "bad \<and> out \<noteq> [] \<or> l = 0 \<and> out \<noteq> []")
    case True
    then show thesis using step err break by (auto split: if_splits)
  next
    case no: False
    show thesis
    proof (cases "stop \<or> bad \<or> over \<or> l = 0")
      case True
      with no step st err show thesis by (intro last [of "(l, fl)" e3]) auto
    next
      case False
      then have "e3 = err" "(l, fl) = ext"
        using cl by (auto simp: e1_def e2_def e3_def l_def fl_def prod_eq_iff)
      with no step st False show thesis by (intro more [of "(l, fl)"]) auto
    qed
  qed
qed


section \<open>The loop\<close>

definition total_length :: "(u64 \<times> u64) list \<Rightarrow> nat" where
  "total_length exts = sum_list (map (\<lambda>e. unat (fst e)) exts)"

lemma total_length_simps [simp]:
  "total_length [] = 0" "total_length (e # es) = unat (fst e) + total_length es"
  "total_length (as @ bs) = total_length as + total_length bs"
  by (simp_all add: total_length_def)

text \<open>What the user is told: never beyond the export, never an empty extent without an error.\<close>

definition cooked_ok :: "bool \<Rightarrow> u64 \<Rightarrow> (u64 \<times> u64) list \<Rightarrow> u32 \<Rightarrow> bool" where
  "cooked_ok wide cap out err \<longleftrightarrow>
     total_length out \<le> unat cap \<and> (\<forall>e \<in> set out. \<not> wide \<longrightarrow> narrow_ok e) \<and>
     ((\<exists>e \<in> set out. fst e = 0) \<longrightarrow> length out = 1 \<and> err \<noteq> 0)"

lemma unat_add_room:
  fixes a b c :: u64
  assumes "unat a + unat b \<le> unat c"
  shows "unat (a + b) = unat a + unat b"
proof -
  have "unat c < 2 ^ LENGTH(64)" by (rule unsigned_less)
  with assms show ?thesis by (simp add: unat_word_ariths)
qed

lemma cook_extents_ok:
  assumes "tot \<le> cap" and "\<forall>e \<in> set exts. narrow \<longrightarrow> narrow_ok e" and "total_length out = unat tot"
    and "\<forall>e \<in> set out. (\<not> wide \<longrightarrow> narrow_ok e) \<and> fst e \<noteq> 0"
  shows "\<exists>out' err'. cook_extents narrow wide cap exts tot err out = Some (out', err') \<and>
    cooked_ok wide cap out' err' \<and> (out' = [] \<longrightarrow> out = [] \<and> exts = []) \<and>
    length out' \<le> length out + length exts \<and> (err \<noteq> 0 \<longrightarrow> err' = err)"
  using assms
proof (induction exts arbitrary: tot err out)
  case Nil
  then show ?case by (auto simp: cooked_ok_def word_le_nat_alt)
next
  case (Cons ext exts)
  have nar: "narrow \<longrightarrow> narrow_ok ext" using Cons.prems by simp
  show ?case
    using Cons.prems(1) nar
  proof (cases rule: cook_step_cases [where err = err and out = out and wide = wide])
    case (break err')
    then show ?thesis using Cons.prems by (auto simp: cooked_ok_def word_le_nat_alt)
  next
    case (last e err')
    then show ?thesis using Cons.prems by (auto simp: cooked_ok_def stored_ok_def)
  next
    case (more e)
    have tot: "unat (tot + fst e) = unat tot + unat (fst e)"
      using more(2) by (intro unat_add_room [of _ _ cap]) (simp add: stored_ok_def)
    have "tot + fst e \<le> cap" "total_length (out @ [e]) = unat (tot + fst e)"
      using more(2) tot Cons.prems by (simp_all add: stored_ok_def word_le_nat_alt)
    with more Cons.IH [of "tot + fst e" "out @ [e]" err] Cons.prems show ?thesis
      by (fastforce simp: stored_ok_def)
  qed
qed

text \<open>A server that keeps to the protocol is passed on unchanged.\<close>

definition conforming :: "bool \<Rightarrow> bool \<Rightarrow> u64 \<times> u64 \<Rightarrow> bool" where
  "conforming narrow wide e \<longleftrightarrow> fst e \<noteq> 0 \<and> (\<not> wide \<longrightarrow> narrow_ok e) \<and> (\<not> narrow \<longrightarrow> fst e \<le> INT64_MAX)"

lemma cook_extents_conforming:
  assumes "\<forall>e \<in> set exts. conforming narrow wide e" and "unat tot + total_length exts \<le> unat cap"
  shows "cook_extents narrow wide cap exts tot err out = Some (out @ exts, err)"
  using assms
proof (induction exts arbitrary: tot out)
  case Nil
  then show ?case by simp
next
  case (Cons e exts)
  obtain len flags where e: "e = (len, flags)" by fastforce
  have c: "len \<noteq> 0" "\<not> wide \<longrightarrow> len \<le> UINT32_MAX \<and> flags \<le> UINT32_MAX" "\<not> narrow \<longrightarrow> len \<le> INT64_MAX"
    using Cons.prems(1) by (auto simp: conforming_def narrow_ok_def e)
  have tot: "tot \<le> cap" "len \<le> cap - tot" "unat (tot + len) = unat tot + unat len"
    using Cons.prems(2) unat_add_room [of tot len cap] by (auto simp: e word_le_nat_alt unat_sub)
  have clip: "clip_length narrow wide len = (len, False)"
    using c by (auto simp: clip_length_def not_less)
  have fits: "wide \<or> (len OR flags) \<le> UINT32_MAX" using c(2) or_le_uint32 by blast
  have no: "(\<not> narrow \<and> flags > UINT32_MAX \<and> \<not> wide) = False" "(len > cap - tot) = False" "(len = 0) = False"
    using c tot by (auto simp: not_less)
  have "cook_step narrow wide cap e tot err out = Some (Inr (tot + len, err, out @ [e]))"
    unfolding cook_step_def e fst_conv snd_conv clip Let_def split_conv asrt_bind no
    using tot(1) fits c(1) by simp
  with Cons tot e show ?case by simp
qed

end
