(* ===== verification/NBD_Chunk_Safe.thy ===== *)
theory NBD_Chunk_Safe
  imports NBD_Reply_Safe NBD_Extents
begin

text \<open>
  The states that parse a chunk keep the invariant: in particular the bytes of a data chunk and
  the zeroes of a hole land inside the buffer of the command, and the assertions of the block
  status code hold.
\<close>

section \<open>Ranges and lengths\<close>

lemma no_wrap: "unat a + unat b < 2 ^ 64 \<Longrightarrow> unat (a + b) = unat a + unat b" for a b :: u64
  by (simp add: unat_word_ariths)

text \<open>The range check is exact as long as the command stays clear of the end of the offset space.\<close>

lemma in_bounds_exact:
  assumes "unat (c_offset cmd) + unat (c_count cmd) \<le> 2 ^ 63"
  shows "structured_reply_in_bounds off len cmd \<longleftrightarrow>
    unat (c_offset cmd) \<le> unat off \<and> unat off < unat (c_offset cmd) + unat (c_count cmd) \<and>
    unat off + unat len \<le> unat (c_offset cmd) + unat (c_count cmd)"
proof -
  have e: "unat (c_offset cmd + c_count cmd) = unat (c_offset cmd) + unat (c_count cmd)"
    using assms by (intro no_wrap) simp
  have "unat len < 2 ^ LENGTH(32)" by (rule unsigned_less)
  then have "unat off + unat len = unat (off + ucast len)" if "unat off < 2 ^ 63"
    using that no_wrap [of off "ucast len"] by simp
  then show ?thesis using assms
    by (auto simp: structured_reply_in_bounds_def word_less_nat_alt word_le_nat_alt e not_less not_le)
qed

lemma in_bounds_room:
  assumes "cmd_ok eh cmd" "c_type cmd = NBD_CMD_READ" and "structured_reply_in_bounds off len cmd"
  shows "room (unat (off - c_offset cmd) + unat len) cmd"
proof -
  have c: "has_data cmd" "unat (c_offset cmd) + unat (c_count cmd) \<le> 2 ^ 63"
    using assms by (simp_all add: cmd_ok_def)
  then have "unat (c_offset cmd) \<le> unat off" "unat off + unat len \<le> unat (c_offset cmd) + unat (c_count cmd)"
    using assms(3) in_bounds_exact by simp_all
  then have "unat (off - c_offset cmd) + unat len \<le> unat (c_count cmd)"
    by (simp add: unat_sub word_le_nat_alt)
  then show ?thesis using c(1) by (auto simp: has_data_def room_def split: option.splits)
qed

lemma unat_of_small: "n \<le> MAX_REQUEST_SIZE + sizeof_chunk_offset_data \<Longrightarrow> unat (of_nat n :: u32) = n"
  by (simp add: unat_of_nat)

lemma of_nat_unat_u64: "(of_nat (unat (w :: u64)) :: u32) = ucast w"
  by (simp add: unsigned_of_nat)


section \<open>The start of a chunk\<close>

text \<open>The invariant inside a reply, apart from what depends on the state.\<close>

definition base :: "nbd_handle \<Rightarrow> bool" where
  "base h \<longleftrightarrow> qinv h \<and> conn h \<and> ipend h \<and> reply_state h = START \<and> cookie_ok h"

lemma inv_at_chunk: "inv_at (REPLY (CHUNK_REPLY x)) h \<longleftrightarrow> base h \<and> chunk_data x h"
  by (auto simp: base_def rinv_def)

lemma base_frame [simp]:
  "base (h\<lparr>rbuf := p\<rparr>) = base h" "base (h\<lparr>rlen := n\<rparr>) = base h" "base (h\<lparr>payload_left := n\<rparr>) = base h"
  "base (h\<lparr>bs_raw := b\<rparr>) = base h" "base (h\<lparr>bs_count := n\<rparr>) = base h" "base (h\<lparr>last_error := e\<rparr>) = base h"
  "base (log_event ev h) = base h" "base (h\<lparr>next_state := st\<rparr>) = base h" "base (h\<lparr>blocked := w\<rparr>) = base h"
  "base (h\<lparr>trace := tr\<rparr>) = base h"
  by (simp_all add: base_def log_event_def)

text \<open>What a callback leaves alone.\<close>

lemma base_callback:
  assumes "h' = h \<or> h' = log_event ev h"
  shows "base h' = base h" "get_reply_cmd h' = get_reply_cmd h" "rlen h' = rlen h"
    "payload_left h' = payload_left h" "next_state h' = next_state h" "blocked h' = blocked h"
  using assms by (auto simp: log_event_def)

lemma base_set_cmd: "get_reply_cmd h = Some c \<Longrightarrow> cmd_sim c c' \<Longrightarrow> base (set_cmd c' h) = base h"
  by (simp add: base_def set_cmd_keep)

lemma resync_ok: "base h \<Longrightarrow> (reply_cmd h = None \<longrightarrow> payload_left h = 0) \<Longrightarrow> ok_result (resync h)"
  by (simp add: resync_def inv_at_chunk del: inv_at.simps)

lemma reply_cmd_not_None: "get_reply_cmd h = Some c \<Longrightarrow> reply_cmd h \<noteq> None"
  by (auto simp: get_reply_cmd_Some)

lemma start_block_status_ok:
  assumes "base h" and c: "get_reply_cmd h = Some c" and pl: "payload_left h = unat len"
    and len: "unat len \<le> MAX_REQUEST_SIZE + sizeof_chunk_offset_data"
    and type: "type = structured_type (sbuf h)" "type = NBD_REPLY_TYPE_BLOCK_STATUS \<or> type = NBD_REPLY_TYPE_BLOCK_STATUS_EXT"
  shows "ok_result (start_block_status type len c h)"
proof -
  have rs: "ok_result (resync h)"
    using assms(1) reply_cmd_not_None [OF c] by (auto intro!: resync_ok)
  have fn: "c_type c = NBD_CMD_BLOCK_STATUS \<Longrightarrow> \<not> fn_is_null (cb_fn (c_cb c))"
    using reply_cmd_ok [OF _ c] assms(1) by (simp add: base_def cmd_ok_def)
  obtain ok where ok: "bs_reply_length_ok type (ucast len) = Some ok"
    using type(2) by (auto simp: bs_reply_length_ok_def Let_def)
  define g where "g = (if extended_headers h \<noteq> (type = NBD_REPLY_TYPE_BLOCK_STATUS_EXT)
      then set_cmd (first_error EPROTO c) h else h)"
  have sim: "cmd_sim c (first_error EPROTO c)" by simp
  have g: "base g" "sbuf g = sbuf h" "payload_left g = payload_left h" "meta_valid g = meta_valid h"
    "get_reply_cmd g = Some (first_error EPROTO c) \<or> get_reply_cmd g = Some c"
    using base_set_cmd [OF c sim] set_cmd_keep(4) [OF c sim] c assms(1) by (simp_all add: g_def)
  have "inv_at (REPLY (CHUNK_REPLY RECV_BS_HEADER)) (recv_payload (if type = NBD_REPLY_TYPE_BLOCK_STATUS
        then sizeof_chunk_block_status_32 else sizeof_chunk_block_status_64) g)"
    if "c_type c = NBD_CMD_BLOCK_STATUS" "meta_valid h" ok
    using g that ok pl len type
    by (auto simp: inv_at_chunk recv_payload_def bs_cmd_def with_reply_cmd_def sbuf_upto_def bs_hdr_size_def
        of_nat_unat_u64 simp del: inv_at.simps)
  then show ?thesis
    using rs fn unfolding start_block_status_def ok Option.bind.bind_lunit Let_def g_def [symmetric]
    by (simp del: inv_at.simps)
qed

lemma start_chunk_ok:
  assumes "base h" and c: "get_reply_cmd h = Some c" and pl: "payload_left h = unat len" "rlen h = 0"
    and len: "unat len \<le> MAX_REQUEST_SIZE + sizeof_chunk_offset_data" and type: "type = structured_type (sbuf h)"
  shows "ok_result (start_chunk flags type len c h)"
proof -
  have rs: "ok_result (resync h)"
    using assms(1) reply_cmd_not_None [OF c] by (auto intro!: resync_ok)
  note bs = start_block_status_ok [OF assms(1) c pl(1) len type]
  have wc: "with_reply_cmd P h = P c" for P using c by (simp add: with_reply_cmd_def)
  have fin: "len = 0 \<Longrightarrow> inv_at (REPLY (CHUNK_REPLY CHUNK_FINISH)) h"
    using assms(1) pl by (simp add: inv_at_chunk del: inv_at.simps)
  have data: "c_type c = NBD_CMD_READ \<Longrightarrow> inv_at (REPLY (CHUNK_REPLY RECV_OFFSET_DATA))
      (recv_payload sizeof_chunk_offset_data (h\<lparr>payload_left := payload_left h - sizeof_chunk_offset_data\<rparr>))"
    using assms(1) pl len by (simp add: inv_at_chunk recv_payload_def sbuf_upto_def wc del: inv_at.simps)
  have hole: "c_type c = NBD_CMD_READ \<Longrightarrow> unat len = sizeof_chunk_offset_hole \<Longrightarrow>
      inv_at (REPLY (CHUNK_REPLY RECV_OFFSET_HOLE))
        (recv_payload sizeof_chunk_offset_hole (h\<lparr>payload_left := payload_left h - sizeof_chunk_offset_hole\<rparr>))"
    using assms(1) pl by (simp add: inv_at_chunk recv_payload_def sbuf_upto_def wc del: inv_at.simps)
  define m where "m = min (unat len) sizeof_chunk_error"
  have err: "\<not> unat len < 4 \<Longrightarrow> inv_at (REPLY (CHUNK_REPLY RECV_ERROR)) (recv_payload m h)"
    using assms(1) pl by (simp add: m_def inv_at_chunk recv_payload_def sbuf_upto_def wc del: inv_at.simps)
  show ?thesis
    using rs bs fin data hole err unfolding start_chunk_def m_def [symmetric] by (simp del: inv_at.simps)
qed

lemma CHUNK_START_ok:
  assumes "inv_at (REPLY (CHUNK_REPLY CHUNK_START)) h"
  shows "ok_result (enter_REPLY_CHUNK_REPLY_START h)"
proof -
  have h: "base h" "rlen h = 0" "payload_left h = 0" using assms by (simp_all add: inv_at_chunk del: inv_at.simps)
  have rs: "ok_result (resync h)" using h by (auto intro!: resync_ok)
  have q: "qinv h" using h by (simp add: base_def)
  have "ok_result (start_chunk (structured_flags (sbuf h)) (structured_type (sbuf h)) (chunk_length h) c
      (h\<lparr>payload_left := unat (chunk_length h)\<rparr>))"
    if "get_reply_cmd h = Some c" "unat (chunk_length h) \<le> MAX_REQUEST_SIZE + sizeof_chunk_offset_data" for c
    using h that by (intro start_chunk_ok) simp_all
  with rs q show ?thesis
    by (auto simp: enter_REPLY_CHUNK_REPLY_START_def set_error_def not_less split: option.split)
qed


section \<open>Error chunks\<close>

text \<open>The rule for the states of a chunk that receive.\<close>

lemma recv_chunk_ok:
  assumes "inv_at (REPLY (CHUNK_REPLY x)) h" and "x \<noteq> CHUNK_START" "x \<noteq> CHUNK_FINISH"
    and "state h = REPLY (CHUNK_REPLY x)"
    and "\<And>h'. base h' \<Longrightarrow> chunk_data x h' \<Longrightarrow> rlen h' = 0 \<Longrightarrow> next_state h' = next_state h \<Longrightarrow> ok_result (f h')"
  shows "ok_result (recv_or_save f h)"
  by (rule recv_or_save_ok [OF assms(1)]) (use assms in \<open>auto simp: receiving_def base_def\<close>)

lemma RECV_ERROR_ok:
  assumes "inv_at (REPLY (CHUNK_REPLY RECV_ERROR)) h" and "state h = REPLY (CHUNK_REPLY RECV_ERROR)"
  shows "ok_result (enter_REPLY_CHUNK_REPLY_RECV_ERROR h)"
  unfolding enter_REPLY_CHUNK_REPLY_RECV_ERROR_def
proof (rule recv_chunk_ok [OF assms(1) _ _ assms(2)], goal_cases)
  case (3 h')
  obtain c where c: "get_reply_cmd h' = Some c" using 3 by (auto elim: with_reply_cmdE)
  let ?e = "nbd_internal_errno_of_nbd_error (error_error (sbuf h'))"
  let ?g = "h'\<lparr>payload_left := payload_left h' - min (payload_left h') sizeof_chunk_error\<rparr>"
  have gc: "get_reply_cmd ?g = Some c" using c by simp
  have sim: "cmd_sim c (first_error ?e c)" by simp
  have "ok_result (resync (set_cmd (first_error ?e c) ?g))"
    using 3 base_set_cmd [OF gc sim] reply_cmd_not_None [OF c] by (intro resync_ok) auto
  then show ?case
    using c 3 by (auto simp: Let_def inv_at_chunk with_reply_cmd_def simp del: inv_at.simps)
qed simp_all

lemma RECV_ERROR_MESSAGE_ok:
  assumes "inv_at (REPLY (CHUNK_REPLY RECV_ERROR_MESSAGE)) h"
    and "state h = REPLY (CHUNK_REPLY RECV_ERROR_MESSAGE)"
  shows "ok_result (enter_REPLY_CHUNK_REPLY_RECV_ERROR_MESSAGE h)"
  unfolding enter_REPLY_CHUNK_REPLY_RECV_ERROR_MESSAGE_def
proof (rule recv_chunk_ok [OF assms(1) _ _ assms(2)], goal_cases)
  case (3 h')
  then show ?case by (auto simp: Let_def inv_at_chunk sbuf_upto_def simp del: inv_at.simps)
qed simp_all

lemma RECV_ERROR_TAIL_ok:
  assumes "inv_at (REPLY (CHUNK_REPLY RECV_ERROR_TAIL)) h"
    and "state h = REPLY (CHUNK_REPLY RECV_ERROR_TAIL)"
  shows "ok_result (enter_REPLY_CHUNK_REPLY_RECV_ERROR_TAIL h)"
  unfolding enter_REPLY_CHUNK_REPLY_RECV_ERROR_TAIL_def
proof (rule recv_chunk_ok [OF assms(1) _ _ assms(2)], goal_cases)
  case (3 h')
  obtain c where c: "get_reply_cmd h' = Some c" using 3 by (auto elim: with_reply_cmdE)
  have fin: "inv_at (REPLY (CHUNK_REPLY CHUNK_FINISH)) (set_cmd (first_error e c') g)"
    if "get_reply_cmd g = Some c" "cmd_sim c c'" "base g" "rlen g = 0" "payload_left g = 0" for e c' g
    using that base_set_cmd [of g c "first_error e c'"] by (simp add: inv_at_chunk del: inv_at.simps)
  obtain r err g where g: "call_chunk c [] (error_offset (sbuf h')) LIBNBD_READ_ERROR
      (if error_error (sbuf h') = 0 then EPROTO else nbd_internal_errno_of_nbd_error (error_error (sbuf h'))) h' = (r, err, g)"
    by (metis prod_cases3)
  have gk: "get_reply_cmd g = Some c" "base g" "rlen g = 0" "payload_left g = 0"
    using base_callback [OF call_chunk_handle [OF g]] 3 c by simp_all
  show ?case
    using c 3 fin g gk by (simp add: Let_def set_error_def del: inv_at.simps)
qed simp_all

section \<open>Data and holes\<close>

lemma RECV_OFFSET_DATA_ok:
  assumes "inv_at (REPLY (CHUNK_REPLY RECV_OFFSET_DATA)) h"
    and "state h = REPLY (CHUNK_REPLY RECV_OFFSET_DATA)"
  shows "ok_result (enter_REPLY_CHUNK_REPLY_RECV_OFFSET_DATA h)"
  unfolding enter_REPLY_CHUNK_REPLY_RECV_OFFSET_DATA_def
proof (rule recv_chunk_ok [OF assms(1) _ _ assms(2)], goal_cases)
  case (3 h')
  obtain c where c: "get_reply_cmd h' = Some c" "c_type c = NBD_CMD_READ"
    using 3 by (auto elim: with_reply_cmdE)
  have ok: "cmd_ok (extended_headers h') c" using reply_cmd_ok [OF _ c(1)] 3 by (simp add: base_def)
  then have data: "c_data c \<noteq> None" using c(2) by (auto simp: cmd_ok_def has_data_def split: option.splits)
  let ?len = "of_nat (payload_left h') :: u32" and ?off = "offset_data_offset (sbuf h')"
  let ?c = "add_data_seen ?len c"
  have len: "unat ?len = payload_left h'" using 3 by (intro unat_of_small) simp
  have sim: "cmd_sim c ?c" by simp
  have rc: "reply_cmd h' = Some (c_cookie c)"
    using c(1) find_cmd_cookie by (auto simp: get_reply_cmd_Some)
  have "inv_at (REPLY (CHUNK_REPLY RECV_OFFSET_DATA_DATA))
      ((set_cmd ?c h')\<lparr>rbuf := RData (c_cookie c) (unat (?off - c_offset c)), rlen := payload_left h'\<rparr>)"
    if "structured_reply_in_bounds ?off ?len c"
    using in_bounds_room [OF ok c(2) that] 3 c rc base_set_cmd [OF c(1) sim] set_cmd_keep(4) [OF c(1) sim]
    by (simp add: inv_at_chunk data_fits_def with_reply_cmd_def room_def len del: inv_at.simps)
  moreover have "qinv h'" using 3 by (simp add: base_def)
  ultimately show ?case using c data by (simp add: Let_def set_error_def)
qed simp_all


lemma call_then_finish:
  assumes "get_reply_cmd h = Some c" "base h" "rlen h = 0"
    and "h' = h \<or> h' = log_event ev h" and "cmd_sim c c'"
  shows "inv_at (REPLY (CHUNK_REPLY CHUNK_FINISH)) ((set_cmd c' h')\<lparr>payload_left := 0\<rparr>)"
  using assms base_callback [OF assms(4)] base_set_cmd [of h' c c']
  by (simp add: inv_at_chunk del: inv_at.simps)

lemma RECV_OFFSET_DATA_DATA_ok:
  assumes "inv_at (REPLY (CHUNK_REPLY RECV_OFFSET_DATA_DATA)) h"
    and "state h = REPLY (CHUNK_REPLY RECV_OFFSET_DATA_DATA)"
  shows "ok_result (enter_REPLY_CHUNK_REPLY_RECV_OFFSET_DATA_DATA h)"
  unfolding enter_REPLY_CHUNK_REPLY_RECV_OFFSET_DATA_DATA_def
proof (rule recv_chunk_ok [OF assms(1) _ _ assms(2)], goal_cases)
  case (3 h')
  obtain c d where c: "get_reply_cmd h' = Some c" "c_data c = Some d"
    using 3 by (auto simp: data_fits_def room_def elim!: with_reply_cmdE split: rptr.splits option.splits)
  let ?off = "offset_data_offset (sbuf h')"
  obtain r err g where g: "call_chunk c (take (payload_left h') (drop (unat (?off - c_offset c)) d)) ?off
      LIBNBD_READ_DATA (c_error c) h' = (r, err, g)"
    by (metis prod_cases3)
  have sim: "cmd_sim c (chunk_result r err c)" by simp
  note fin = call_then_finish [OF c(1) _ _ call_chunk_handle [OF g] sim]
  show ?case
    using 3 c g fin by (auto simp: Let_def inv_at_chunk simp del: inv_at.simps)
qed simp_all

lemma zero_fill_ok:
  assumes "cmd_ok eh c" "c_type c = NBD_CMD_READ" "structured_reply_in_bounds off len c" "c_data c = Some d"
  shows "\<exists>d'. (if \<not> init then buf_write d (unat (off - c_offset c)) (replicate (unat len) 0) else Some d) = Some d' \<and>
    length d' = length d"
  using in_bounds_room [OF assms(1-3)] assms(4) by (auto simp: room_def buf_write_def)

lemma RECV_OFFSET_HOLE_ok:
  assumes "inv_at (REPLY (CHUNK_REPLY RECV_OFFSET_HOLE)) h"
    and "state h = REPLY (CHUNK_REPLY RECV_OFFSET_HOLE)"
  shows "ok_result (enter_REPLY_CHUNK_REPLY_RECV_OFFSET_HOLE h)"
  unfolding enter_REPLY_CHUNK_REPLY_RECV_OFFSET_HOLE_def
proof (rule recv_chunk_ok [OF assms(1) _ _ assms(2)], goal_cases)
  case (3 h')
  obtain c where c: "get_reply_cmd h' = Some c" "c_type c = NBD_CMD_READ"
    using 3 by (auto elim: with_reply_cmdE)
  have ok: "cmd_ok (extended_headers h') c" using reply_cmd_ok [OF _ c(1)] 3 by (simp add: base_def)
  then obtain d where d: "c_data c = Some d" using c(2) by (auto simp: cmd_ok_def has_data_def split: option.splits)
  let ?len = "offset_hole_length (sbuf h')" and ?off = "offset_hole_offset (sbuf h')"
  let ?rel = "?off - c_offset c" and ?c1 = "add_data_seen ?len c"
  have q: "qinv h'" "payload_left h' = 0" using 3 by (simp_all add: base_def)
  show ?case
  proof (cases "structured_reply_in_bounds ?off ?len c")
    case False
    then show ?thesis using c d q by (simp add: Let_def set_error_def)
  next
    case True
    obtain d' where d': "(if \<not> c_initialized c then buf_write d (unat ?rel) (replicate (unat ?len) 0) else Some d) = Some d'"
      "length d' = length d"
      using zero_fill_ok [OF ok c(2) True d] by blast
    let ?c2 = "?c1\<lparr>c_data := Some d'\<rparr>"
    have s2: "cmd_sim c ?c2" using d d'(2) by (simp add: cmd_sim_def add_data_seen_def)
    obtain r err g where g: "call_chunk ?c2 (take (unat ?len) (drop (unat ?rel) d'))
        (c_offset c + ?rel) LIBNBD_READ_HOLE (c_error ?c2) h' = (r, err, g)"
      by (metis prod_cases3)
    have fin: "inv_at (REPLY (CHUNK_REPLY CHUNK_FINISH)) (set_cmd (chunk_result r err ?c2) g)"
      "inv_at (REPLY (CHUNK_REPLY CHUNK_FINISH)) (set_cmd ?c2 h')"
      using base_callback [OF call_chunk_handle [OF g]] base_set_cmd [of g c "chunk_result r err ?c2"]
        base_set_cmd [of h' c ?c2] s2 3 c by (simp_all add: inv_at_chunk del: inv_at.simps)
    show ?thesis
      using c d d'(1) True fin g unfolding Let_def
      by (cases "fn_is_null (cb_fn (c_cb c))"; cases "c_initialized c") (simp_all del: inv_at.simps)
  qed
qed simp_all

section \<open>Block status\<close>

lemma bs_length_split:
  assumes "bs_reply_length_ok type (of_nat n) = Some True" and "n \<le> MAX_REQUEST_SIZE + sizeof_chunk_offset_data"
  shows "(if type = NBD_REPLY_TYPE_BLOCK_STATUS then (n - sizeof_chunk_block_status_32) mod sizeof_block_descriptor_32
      else (n - sizeof_chunk_block_status_64) mod sizeof_block_descriptor_64) = 0"
    and "(if type = NBD_REPLY_TYPE_BLOCK_STATUS then (n - sizeof_chunk_block_status_32) div sizeof_block_descriptor_32
      else (n - sizeof_chunk_block_status_64) div sizeof_block_descriptor_64) \<noteq> 0"
  using assms unat_of_small [OF assms(2)]
  by (auto simp: bs_reply_length_ok_def Let_def asrt_def div_eq_0_iff split: if_splits)

lemma RECV_BS_HEADER_ok:
  assumes "inv_at (REPLY (CHUNK_REPLY RECV_BS_HEADER)) h"
    and "state h = REPLY (CHUNK_REPLY RECV_BS_HEADER)"
  shows "ok_result (enter_REPLY_CHUNK_REPLY_RECV_BS_HEADER h)"
  unfolding enter_REPLY_CHUNK_REPLY_RECV_BS_HEADER_def
proof (rule recv_chunk_ok [OF assms(1) _ _ assms(2)], goal_cases)
  case (3 h')
  obtain c where c: "get_reply_cmd h' = Some c" "c_type c = NBD_CMD_BLOCK_STATUS"
    using 3 by (auto simp: bs_cmd_def elim: with_reply_cmdE)
  have n: "bs_reply_length_ok (structured_type (sbuf h')) (of_nat (payload_left h')) = Some True"
    "payload_left h' \<le> MAX_REQUEST_SIZE + sizeof_chunk_offset_data"
    using 3 by simp_all
  note sp = bs_length_split [OF n]
  have wc: "with_reply_cmd (\<lambda>c. c_type c = NBD_CMD_BLOCK_STATUS) h'" "meta_valid h'"
    using 3 by (simp_all add: bs_cmd_def)
  have rs: "ok_result (resync (h'\<lparr>payload_left := m, bs_count := k\<rparr>))" for m k
    using 3 reply_cmd_not_None [OF c(1)] by (intro resync_ok) auto
  show ?case
    using 3 c n(1) sp rs wc
    by (auto simp: Let_def inv_at_chunk bs_cmd_def desc_size_def simp del: inv_at.simps)
qed simp_all

lemma call_extent_handle:
  "call_extent c n ex e h = (r, err, h') \<Longrightarrow>
     h' = h \<or> h' = log_event (ExtentCall (c_cookie c) n (c_offset c) ex e) h"
  by (auto simp: call_extent_def Let_def split: cb_fn.splits cbk.splits option.splits prod.splits)

lemma cook_raw_ok:
  "\<exists>out err'. cook_extents narrow wide cap (map (raw_extent narrow raw) is) 0 err [] = Some (out, err') \<and>
    cooked_ok wide cap out err'"
proof -
  have "\<forall>e \<in> set (map (raw_extent narrow raw) is). narrow \<longrightarrow> narrow_ok e"
    by (auto simp: raw_extent_narrow)
  then show ?thesis
    using cook_extents_ok [of 0 cap "map (raw_extent narrow raw) is" narrow "[]" wide err]
    by (auto simp: total_length_def)
qed

lemma RECV_BS_ENTRIES_ok:
  assumes "inv_at (REPLY (CHUNK_REPLY RECV_BS_ENTRIES)) h"
    and "state h = REPLY (CHUNK_REPLY RECV_BS_ENTRIES)"
  shows "ok_result (enter_REPLY_CHUNK_REPLY_RECV_BS_ENTRIES h)"
  unfolding enter_REPLY_CHUNK_REPLY_RECV_BS_ENTRIES_def
proof (rule recv_chunk_ok [OF assms(1) _ _ assms(2)], goal_cases)
  case (3 h')
  obtain c where c: "get_reply_cmd h' = Some c" "c_type c = NBD_CMD_BLOCK_STATUS"
    using 3 by (auto simp: bs_cmd_def elim: with_reply_cmdE)
  have fn: "\<not> fn_is_null (cb_fn (c_cb c))"
    using reply_cmd_ok [OF _ c(1)] 3 c(2) by (simp add: base_def cmd_ok_def)
  have raw: "bs_count h' \<noteq> 0" "bs_raw h' \<noteq> []" "meta_valid h'"
    using 3 by (auto simp: bs_cmd_def desc_size_def split: if_splits)
  let ?narrow = "structured_type (sbuf h') = NBD_REPLY_TYPE_BLOCK_STATUS"
  let ?cap = "extent_cap (exportsize h') (c_offset c)"
  obtain out err where k: "cook_extents ?narrow (cb_wide (c_cb c)) ?cap
      (map (raw_extent ?narrow (bs_raw h')) [0 ..< bs_count h']) 0 (c_error c) [] = Some (out, err)"
    using cook_raw_ok by blast
  let ?h = "SET_NEXT_STATE (REPLY (CHUNK_REPLY CHUNK_FINISH)) h'"
  have h: "base ?h" "get_reply_cmd ?h = Some c" "rlen ?h = 0" "payload_left ?h = 0" "blocked ?h = False"
    "next_state ?h = REPLY (CHUNK_REPLY CHUNK_FINISH)"
    using 3 c by (simp_all add: SET_NEXT_STATE_def)
  show ?case
  proof (cases "find (\<lambda>m. mc_context_id m = bs_hdr_context_id (sbuf h')) (meta_contexts ?h)")
    case None
    have "ok_result (return0 ?h)" using h by (intro ok_stay) (simp_all add: inv_at_chunk del: inv_at.simps)
    then show ?thesis using c fn raw None by (simp add: Let_def)
  next
    case (Some m)
    let ?c = "c\<lparr>c_error := err\<rparr>"
    obtain r e g where g: "call_extent ?c (mc_name m) out err ?h = (r, e, g)"
      by (metis prod_cases3)
    note cb = base_callback [OF call_extent_handle [OF g]]
    have "ok_result (return0 (set_cmd (chunk_result r e ?c) g))"
      using h cb base_set_cmd [of g c "chunk_result r e ?c"]
      by (intro ok_stay) (simp_all add: inv_at_chunk del: inv_at.simps)
    then show ?thesis using c fn raw Some k g by (simp add: Let_def SET_NEXT_STATE_def)
  qed
qed simp_all

section \<open>Resynchronisation and the end of a chunk\<close>

lemma RESYNC_ok:
  assumes "inv_at (REPLY (CHUNK_REPLY RESYNC)) h" and "state h = REPLY (CHUNK_REPLY RESYNC)"
  shows "ok_result (enter_REPLY_CHUNK_REPLY_RESYNC h)"
proof -
  have null: "rbuf h = RNull" using assms(1) by (simp add: inv_at_chunk del: inv_at.simps)
  have "ok_result (recv_or_save (\<lambda>h. case get_reply_cmd h of
      None \<Rightarrow> goto (REPLY FINISH_COMMAND) h
    | Some cmd \<Rightarrow> goto (REPLY (CHUNK_REPLY CHUNK_FINISH)) (set_cmd (first_error EPROTO cmd) h)) h)"
  proof (rule recv_chunk_ok [OF assms(1) _ _ assms(2)], goal_cases)
    case (3 h')
    show ?case
    proof (cases "get_reply_cmd h'")
      case None
      then show ?thesis using 3 by (simp add: base_def rinv_def)
    next
      case (Some c)
      then show ?thesis using 3 base_set_cmd [OF Some, of "first_error EPROTO c"]
        by (simp add: inv_at_chunk del: inv_at.simps)
    qed
  qed simp_all
  with null show ?thesis by (simp add: enter_REPLY_CHUNK_REPLY_RESYNC_def)
qed

lemma CHUNK_FINISH_ok:
  assumes "inv_at (REPLY (CHUNK_REPLY CHUNK_FINISH)) h"
  shows "ok_result (enter_REPLY_CHUNK_REPLY_FINISH h)"
proof -
  have h: "base h" "rlen h = 0" "payload_left h = 0" using assms by (simp_all add: inv_at_chunk del: inv_at.simps)
  then show ?thesis
    by (simp add: enter_REPLY_CHUNK_REPLY_FINISH_def base_def rinv_def ridle_def)
qed

theorem CHUNK_states_ok:
  assumes "inv_at (REPLY (CHUNK_REPLY x)) h" and "state h = REPLY (CHUNK_REPLY x)"
  shows "ok_result (enter_REPLY_CHUNK x h)"
  using assms CHUNK_START_ok RECV_ERROR_ok RECV_ERROR_MESSAGE_ok RECV_ERROR_TAIL_ok RECV_OFFSET_DATA_ok
    RECV_OFFSET_DATA_DATA_ok RECV_OFFSET_HOLE_ok RECV_BS_HEADER_ok RECV_BS_ENTRIES_ok RESYNC_ok CHUNK_FINISH_ok
  by (cases x) (simp_all del: inv_at.simps)

end
