(* ===== verification/NBD_Run_Safe.thy ===== *)
theory NBD_Run_Safe
  imports NBD_Chunk_Safe "HOL-Library.Sublist"
begin

text \<open>
  The state machine as a whole: one turn of the loop keeps the invariant, the loop ends, and so
  every event the program delivers to a connected handle returns with the invariant intact.
\<close>

section \<open>One turn of the loop\<close>

lemma step_handler_ok:
  assumes "inv_at (state h) h" and "\<not> early_reply h" and "next_state h = state h"
  shows "ok_result (enter_state e (state h) h)"
proof (cases "state h")
  case (REPLY r)
  then show ?thesis
  proof (cases r)
    case (SIMPLE_REPLY x)
    then show ?thesis using assms REPLY SIMPLE_START_ok RECV_READ_PAYLOAD_ok
      by (cases x) (simp_all del: inv_at.simps)
  qed (use assms REPLY REPLY_START_ok RECV_REPLY_ok CHECK_REPLY_MAGIC_ok RECV_STRUCTURED_REMAINING_ok
      CHUNK_states_ok FINISH_COMMAND_ok in \<open>simp_all del: inv_at.simps\<close>)
qed (use assms READY_ok ISSUE_states_ok DEAD_ok CLOSED_ok in auto)

theorem step_keeps_inv:
  assumes "inv h" and "\<not> early_reply h"
  shows "\<exists>h' r. step e h = Some (h', r) \<and> inv h' \<and> (r = -1 \<longrightarrow> last_error h' \<noteq> None)"
proof -
  let ?h = "h\<lparr>blocked := True\<rparr>"
  have "inv_at (state h) (?h\<lparr>next_state := state h\<rparr>)" using assms(1) by (simp add: inv_def)
  then have "ok_result (enter_state e (state h) (?h\<lparr>next_state := state h\<rparr>))"
    using step_handler_ok [of "?h\<lparr>next_state := state h\<rparr>" e] assms(2) by (simp add: early_reply_def)
  then show ?thesis using ok_enter [of "enter_state e (state h)" ?h] by (simp add: step_def)
qed


section \<open>Progress\<close>

text \<open>
  What the loop does not touch: the settings of the connection, the numbering of commands, and,
  outside the states that issue a command, the queue of commands to issue. Only \<^verbatim>\<open>READY\<close> asks the
  transport whether bytes are pending.
\<close>

definition pending_left :: "nbd_handle \<Rightarrow> nat" where
  "pending_left h = (case sock h of None \<Rightarrow> 0 | Some s \<Rightarrow> length (pending_answers s))"

definition view where
  "view h = (pending_left h, cmds_to_issue h, in_write_shutdown h, disconnect_request h, unique h,
     extended_headers h, strict h, exportsize h)"

text \<open>The states in the order in which a run visits them.\<close>

fun chunk_rank :: "chunk_reply_state \<Rightarrow> nat" where
  "chunk_rank CHUNK_START = 35"
| "chunk_rank RECV_ERROR = 34"
| "chunk_rank RECV_ERROR_MESSAGE = 33"
| "chunk_rank RECV_ERROR_TAIL = 32"
| "chunk_rank RECV_OFFSET_DATA = 34"
| "chunk_rank RECV_OFFSET_DATA_DATA = 33"
| "chunk_rank RECV_OFFSET_HOLE = 34"
| "chunk_rank RECV_BS_HEADER = 34"
| "chunk_rank RECV_BS_ENTRIES = 33"
| "chunk_rank RESYNC = 30"
| "chunk_rank CHUNK_FINISH = 25"

fun reply_rank :: "reply_state \<Rightarrow> nat" where
  "reply_rank REPLY_START = 39"
| "reply_rank RECV_REPLY = 38"
| "reply_rank CHECK_REPLY_MAGIC = 37"
| "reply_rank RECV_STRUCTURED_REMAINING = 36"
| "reply_rank (SIMPLE_REPLY SIMPLE_START) = 36"
| "reply_rank (SIMPLE_REPLY RECV_READ_PAYLOAD) = 35"
| "reply_rank (CHUNK_REPLY c) = chunk_rank c"
| "reply_rank FINISH_COMMAND = 20"

fun issue_rank :: "issue_command_state \<Rightarrow> nat" where
  "issue_rank ISSUE_START = 9"
| "issue_rank SEND_REQUEST = 8"
| "issue_rank PREPARE_WRITE_PAYLOAD = 7"
| "issue_rank SEND_WRITE_PAYLOAD = 6"
| "issue_rank SEND_WRITE_SHUTDOWN = 6"
| "issue_rank ISSUE_FINISH = 5"
| "issue_rank _ = 40"

fun rank :: "state \<Rightarrow> nat" where
  "rank READY = 10"
| "rank (ISSUE_COMMAND i) = issue_rank i"
| "rank (REPLY r) = reply_rank r"
| "rank _ = 0"

text \<open>The states in which the loop may stop.\<close>

fun waiting :: "state \<Rightarrow> bool" where
  "waiting READY = True"
| "waiting (ISSUE_COMMAND i) = (i = SEND_REQUEST \<or> i = SEND_WRITE_PAYLOAD \<or> i = SEND_WRITE_SHUTDOWN)"
| "waiting (REPLY r) = (r = REPLY_START)"
| "waiting DEAD = True"
| "waiting CLOSED = True"
| "waiting _ = False"

text \<open>A handler settles when it blocks outside \<^verbatim>\<open>READY\<close> or moves to a state below \<open>n\<close>.\<close>

definition settles :: "nat \<Rightarrow> nbd_handle \<Rightarrow> (nbd_handle \<times> int) option \<Rightarrow> bool" where
  "settles n h x \<longleftrightarrow> (\<forall>h' r. x = Some (h', r) \<longrightarrow> view h' = view h \<and> r = 0 \<and>
     (if blocked h' then waiting (next_state h') \<and> next_state h' \<noteq> READY else rank (next_state h') < n))"

lemma settles_simps [simp]:
  "settles n h None"
  "settles n h (goto s g) \<longleftrightarrow> view g = view h \<and> rank s < n"
  by (auto simp: settles_def return0_def SET_NEXT_STATE_def view_def pending_left_def)

lemma settles_return0:
  "settles n h (return0 g) \<longleftrightarrow> view g = view h \<and>
     (if blocked g then waiting (next_state g) \<and> next_state g \<noteq> READY else rank (next_state g) < n)"
  by (simp add: settles_def return0_def)

lemma settles_bind: "(\<And>y. x = Some y \<Longrightarrow> settles n h (f y)) \<Longrightarrow> settles n h (x \<bind> f)"
  by (cases x) simp_all

lemma view_frame [simp]:
  "view (h\<lparr>rbuf := v1\<rparr>) = view h" "view (h\<lparr>rlen := v2\<rparr>) = view h" "view (h\<lparr>payload_left := v3\<rparr>) = view h"
  "view (h\<lparr>bs_raw := v4\<rparr>) = view h" "view (h\<lparr>bs_count := v5\<rparr>) = view h" "view (h\<lparr>last_error := v6\<rparr>) = view h"
  "view (h\<lparr>trace := v7\<rparr>) = view h" "view (h\<lparr>next_state := v8\<rparr>) = view h" "view (h\<lparr>blocked := v9\<rparr>) = view h"
  "view (h\<lparr>reply_state := v10\<rparr>) = view h" "view (h\<lparr>reply_cmd := v11\<rparr>) = view h"
  "view (h\<lparr>chunks_received := v12\<rparr>) = view h" "view (h\<lparr>cmds_in_flight := v13\<rparr>) = view h"
  "view (h\<lparr>sbuf := v14\<rparr>) = view h" "view (h\<lparr>bytes_received := v15\<rparr>) = view h"
  "view (h\<lparr>cmds_done := v16\<rparr>) = view h" "view (h\<lparr>cmds_done_tail := v17\<rparr>) = view h"
  "view (h\<lparr>in_flight := v18\<rparr>) = view h" "view (h\<lparr>wbuf := v19\<rparr>) = view h" "view (h\<lparr>wlen := v20\<rparr>) = view h"
  "view (h\<lparr>wflags_more := v21\<rparr>) = view h" "view (h\<lparr>bytes_sent := v22\<rparr>) = view h"
  "view (h\<lparr>state := v23\<rparr>) = view h" "view (h\<lparr>in_write_payload := v24\<rparr>) = view h"
  "view (h\<lparr>req := v25\<rparr>) = view h" "view (h\<lparr>chunks_sent := v26\<rparr>) = view h"
  "view (h\<lparr>cmds_to_issue_tail := v27\<rparr>) = view h"
  "view (set_cmd c h) = view h" "view (log_event ev h) = view h" "view (set_error e m h) = view h"
  "view (SET_NEXT_STATE s h) = view h"
  by (simp_all add: view_def pending_left_def set_cmd_def log_event_def set_error_def SET_NEXT_STATE_def)

lemma pending_sock:
  "sock_recv n s = (r, s') \<Longrightarrow> pending_answers s' = pending_answers s"
  "sock_send bs s = (r, s') \<Longrightarrow> pending_answers s' = pending_answers s"
  "sock_shut_writes s = (d, s') \<Longrightarrow> pending_answers s' = pending_answers s"
  by (auto simp: sock_recv.simps sock_send.simps sock_shut_writes.simps
      split: list.splits rx_event.splits tx_event.splits if_splits)

lemma view_sock:
  "sock h = Some s \<Longrightarrow> pending_answers s' = pending_answers s \<Longrightarrow> view (h\<lparr>sock := Some s'\<rparr>) = view h"
  by (simp add: view_def pending_left_def)

lemma view_store: "store_rbuf bs h = Some h' \<Longrightarrow> view h' = view h"
  by (auto simp: store_rbuf.simps split: rptr.splits if_splits Option.bind_splits)

lemma view_recv: "recv_into_rbuf h = Some (h', r) \<Longrightarrow> view h' = view h"
  by (auto simp: recv_into_rbuf_def Let_def view_sock [OF _ pending_sock(1)] dest!: view_store
      split: if_splits Option.bind_splits prod.splits sock_result.splits)

lemma view_send: "send_from_wbuf h = Some (h', r) \<Longrightarrow> view h' = view h"
  by (auto simp: send_from_wbuf_def Let_def view_sock [OF _ pending_sock(2)]
      split: if_splits Option.bind_splits prod.splits sock_result.splits)

lemma send_from_wbuf_blocked:
  "send_from_wbuf h = Some (h', r) \<Longrightarrow> blocked h' = blocked h \<and> next_state h' = next_state h"
  by (auto simp: send_from_wbuf_def Let_def set_error_def
      split: if_splits Option.bind_splits prod.splits sock_result.splits)

lemma settles_recv:
  assumes "10 < n" and "\<And>h'. view h' = view h \<Longrightarrow> settles n h (f h')"
  shows "settles n h (recv_or_save f h)"
  unfolding recv_or_save_def
  using assms view_recv by (auto intro!: settles_bind simp: save_reply_state_def)


lemma view_callback:
  "call_chunk c b off st e h = (r, err, h') \<Longrightarrow> view h' = view h"
  "call_extent c n ex e h = (r, err, h') \<Longrightarrow> view h' = view h"
  using call_chunk_handle call_extent_handle by fastforce+

lemma next_SET [simp]: "next_state (SET_NEXT_STATE s h) = s" "blocked (SET_NEXT_STATE s h) = False"
  by (simp_all add: SET_NEXT_STATE_def)

lemma extent_next:
  "call_extent c n ex e h = (r, err, h') \<Longrightarrow> next_state h' = next_state h \<and> blocked h' = blocked h"
  using base_callback(5,6) [OF call_extent_handle] by blast

lemma view_notify: "notify_completion e c h = Some (c', retire, h') \<Longrightarrow> view h' = view h"
  by (auto simp: notify_completion_def Let_def call_completion_def split: if_splits option.splits Option.bind_splits)

lemma view_end:
  "append_done c h = Some h' \<Longrightarrow> view h' = view h"
  "view (nbd_internal_retire_and_free_command c h) = view h"
  by (auto simp: append_done_def nbd_internal_retire_and_free_command_def Let_def
      split: if_splits option.splits Option.bind_splits)

lemma settles_resync: "30 < n \<Longrightarrow> view g = view h \<Longrightarrow> settles n h (resync g)"
  by (simp add: resync_def)

lemma CHUNK_settles:
  "settles (chunk_rank x) h (enter_REPLY_CHUNK x h)"
proof (cases x)
  case CHUNK_START
  have "settles 35 h (start_block_status type len c g)" if "view g = view h" for type len c g
    unfolding start_block_status_def recv_payload_def using that
    by (auto intro!: settles_bind simp: Let_def settles_resync split: if_splits)
  then have "settles 35 h (start_chunk flags type len c g)" if "view g = view h" for flags type len c g
    unfolding start_chunk_def recv_payload_def using that by (auto simp: settles_resync)
  with CHUNK_START show ?thesis
    by (auto simp: enter_REPLY_CHUNK_REPLY_START_def settles_resync split: option.split)
next
  case RECV_ERROR
  then show ?thesis
    by (auto simp: enter_REPLY_CHUNK_REPLY_RECV_ERROR_def Let_def settles_resync intro!: settles_recv settles_bind)
next
  case RECV_ERROR_MESSAGE
  then show ?thesis
    by (auto simp: enter_REPLY_CHUNK_REPLY_RECV_ERROR_MESSAGE_def Let_def intro!: settles_recv)
next
  case RECV_ERROR_TAIL
  then show ?thesis
    by (auto simp: enter_REPLY_CHUNK_REPLY_RECV_ERROR_TAIL_def Let_def view_callback
        intro!: settles_recv settles_bind split: prod.split)
next
  case RECV_OFFSET_DATA
  then show ?thesis
    by (auto simp: enter_REPLY_CHUNK_REPLY_RECV_OFFSET_DATA_def Let_def intro!: settles_recv settles_bind)
next
  case RECV_OFFSET_DATA_DATA
  then show ?thesis
    by (auto simp: enter_REPLY_CHUNK_REPLY_RECV_OFFSET_DATA_DATA_def Let_def view_callback
        intro!: settles_recv settles_bind split: prod.splits if_splits Option.bind_splits)
next
  case RECV_OFFSET_HOLE
  then show ?thesis
    by (auto simp: enter_REPLY_CHUNK_REPLY_RECV_OFFSET_HOLE_def Let_def view_callback
        intro!: settles_recv settles_bind split: prod.splits)
next
  case RECV_BS_HEADER
  then show ?thesis
    by (auto simp: enter_REPLY_CHUNK_REPLY_RECV_BS_HEADER_def Let_def settles_resync intro!: settles_recv settles_bind)
next
  case RECV_BS_ENTRIES
  then show ?thesis
    by (auto simp: enter_REPLY_CHUNK_REPLY_RECV_BS_ENTRIES_def Let_def view_callback extent_next settles_return0
        intro!: settles_recv settles_bind split: prod.splits option.splits)
next
  case RESYNC
  then show ?thesis
    by (auto simp: enter_REPLY_CHUNK_REPLY_RESYNC_def intro!: settles_recv settles_bind split: option.splits)
next
  case CHUNK_FINISH
  then show ?thesis
    by (auto simp: enter_REPLY_CHUNK_REPLY_FINISH_def intro!: settles_bind)
qed


lemma chunk_rank_le: "chunk_rank c \<le> 35"
  by (cases c) simp_all

lemma REPLY_START_settles:
  assumes "inv_at (REPLY REPLY_START) h" and "blocked h" "next_state h = REPLY REPLY_START"
  shows "settles 39 h (enter_REPLY_START h)"
proof (cases "rlen h = 0")
  case True
  then show ?thesis using assms(2,3)
    by (auto simp: enter_REPLY_START_def Let_def settles_return0 SET_NEXT_STATE_def set_error_def
        view_sock [OF _ pending_sock(1)] intro!: settles_bind dest!: view_store
        split: prod.splits sock_result.splits)
next
  case False
  then consider "reply_state h = START" | r where "reply_state h = REPLY r" "r \<noteq> REPLY_START"
    using assms(1) reply_data.simps(1)
    by (auto simp: rinv_def ridle_def simp del: reply_data.simps split: state.splits)
  moreover have "reply_rank r < 39" if "r \<noteq> REPLY_START" for r
    using that chunk_rank_le [of "case r of CHUNK_REPLY c \<Rightarrow> c | _ \<Rightarrow> RESYNC"]
    by (cases r rule: reply_rank.cases) simp_all
  ultimately show ?thesis
    using False by cases (auto simp: enter_REPLY_START_def settles_return0 SET_NEXT_STATE_def)
qed

lemma REPLY_settles:
  assumes "inv_at (REPLY r) h" and "blocked h" "next_state h = REPLY r"
  shows "settles (reply_rank r) h (enter_REPLY r h)"
proof (cases r rule: reply_rank.cases)
  case 1
  then show ?thesis using REPLY_START_settles assms by simp
next
  case 2
  then show ?thesis
    by (auto simp: enter_REPLY_RECV_REPLY_def Let_def settles_return0 SET_NEXT_STATE_def
        set_error_def view_recv intro!: settles_bind)
next
  case 3
  then show ?thesis
    by (auto simp: enter_REPLY_CHECK_REPLY_MAGIC_def invalid_magic_def Let_def settles_return0
        SET_NEXT_STATE_def set_error_def intro!: settles_bind)
next
  case 4
  then show ?thesis by (auto simp: enter_REPLY_RECV_STRUCTURED_REMAINING_def intro!: settles_recv)
next
  case 5
  then show ?thesis
    by (auto simp: enter_REPLY_SIMPLE_REPLY_START_def Let_def settles_return0
        SET_NEXT_STATE_def set_error_def split: option.split)
next
  case 6
  then show ?thesis
    by (auto simp: enter_REPLY_SIMPLE_REPLY_RECV_READ_PAYLOAD_def Let_def view_callback
        intro!: settles_recv settles_bind split: prod.splits)
next
  case (7 c)
  then show ?thesis using CHUNK_settles by simp
next
  case 8
  then show ?thesis
    by (auto simp: enter_REPLY_FINISH_COMMAND_def Let_def view_notify
        intro!: settles_bind split: option.splits if_splits) (auto dest!: view_notify view_end(1) simp: view_end)
qed


text \<open>
  What a turn of the loop may change: it takes commands off the front of the queue, and starts
  to shut down the sending side only for a disconnect request.
\<close>

definition calm :: "nbd_handle \<Rightarrow> nbd_handle \<Rightarrow> bool" where
  "calm h h' \<longleftrightarrow> pending_left h' \<le> pending_left h \<and> suffix (cmds_to_issue h') (cmds_to_issue h) \<and>
     (in_write_shutdown h' \<longrightarrow> in_write_shutdown h \<or> (\<exists>c \<in> set (cmds_to_issue h). c_type c = NBD_CMD_DISC)) \<and>
     disconnect_request h' = disconnect_request h \<and> unique h' = unique h \<and>
     extended_headers h' = extended_headers h \<and> strict h' = strict h \<and> exportsize h' = exportsize h"

lemma calm_view: "view h' = view h \<Longrightarrow> calm h h'"
  by (simp add: view_def calm_def)

lemma calm_trans: "calm a b \<Longrightarrow> calm b c \<Longrightarrow> calm a c"
  using set_mono_suffix by (fastforce simp: calm_def intro: suffix_order.trans)

definition work :: "nbd_handle \<Rightarrow> nat" where
  "work h = 64 * (pending_left h + length (cmds_to_issue h))"

lemma view_work: "view h' = view h \<Longrightarrow> work h' = work h"
  by (simp add: view_def work_def)

definition moves :: "nbd_handle \<Rightarrow> (nbd_handle \<times> int) option \<Rightarrow> bool" where
  "moves h x \<longleftrightarrow> (\<forall>h' r. x = Some (h', r) \<longrightarrow> calm h h' \<and> (r = 0 \<or> r = -1 \<and> next_state h' = DEAD) \<and>
     (blocked h' \<longrightarrow> waiting (next_state h') \<and> (next_state h' = READY \<longrightarrow> cmds_to_issue h' = [])) \<and>
     (r = 0 \<longrightarrow> \<not> blocked h' \<longrightarrow> work h' + rank (next_state h') < work h + rank (next_state h)))"

lemma moves_settles: "settles (rank (next_state h)) h x \<Longrightarrow> moves h x"
  unfolding moves_def settles_def by (metis calm_view view_work add_less_cancel_left)

lemma moves_goto:
  "calm h g \<Longrightarrow> work g + rank s < work h + rank (next_state h) \<Longrightarrow> moves h (goto s g)"
  by (simp add: moves_def return0_def SET_NEXT_STATE_def calm_def work_def pending_left_def)

lemma READY_moves:
  assumes "next_state h = READY" "blocked h"
  shows "moves h (enter_READY h)"
proof (cases "cmds_to_issue h")
  case Nil
  show ?thesis
  proof (cases "sock h")
    case (Some s)
    obtain p s' where p: "sock_pending s = (p, s')" by fastforce
    then have "if p then length (pending_answers s') < length (pending_answers s)
        else length (pending_answers s') \<le> length (pending_answers s)"
      by (auto simp: sock_pending.simps split: list.splits)
    then show ?thesis using Nil Some p assms
      by (auto simp: enter_READY_def moves_def return0_def SET_NEXT_STATE_def calm_def pending_left_def work_def
          split: if_splits)
  qed (simp add: Nil enter_READY_def moves_def)
next
  case (Cons c cs)
  then show ?thesis using assms
    by (auto simp: enter_READY_def intro!: moves_goto calm_view)
qed

lemma view_fill: "fill_request c h = Some h' \<Longrightarrow> view h' = view h"
  by (auto simp: fill_request_def split: if_splits Option.bind_splits)

lemma ISSUE_moves:
  assumes "next_state h = ISSUE_COMMAND i" "blocked h"
  shows "moves h (enter_ISSUE_COMMAND i h)"
proof (cases i)
  case ISSUE_START
  have "settles 9 h (enter_ISSUE_COMMAND_START h)" using assms ISSUE_START
    by (auto simp: enter_ISSUE_COMMAND_START_def settles_return0 SET_NEXT_STATE_AND_BLOCK_def Let_def
        dest!: view_fill intro!: settles_bind split: list.split)
  then show ?thesis using assms ISSUE_START by (intro moves_settles) simp
next
  case SEND_REQUEST
  have "settles 8 h (enter_ISSUE_COMMAND_SEND_REQUEST h)"
    using assms SEND_REQUEST send_from_wbuf_blocked
    by (auto simp: enter_ISSUE_COMMAND_SEND_REQUEST_def settles_return0 view_send intro!: settles_bind)
  then show ?thesis using assms SEND_REQUEST by (intro moves_settles) simp
next
  case SEND_WRITE_PAYLOAD
  have "settles 6 h (enter_ISSUE_COMMAND_SEND_WRITE_PAYLOAD h)"
    using assms SEND_WRITE_PAYLOAD send_from_wbuf_blocked
    by (auto simp: enter_ISSUE_COMMAND_SEND_WRITE_PAYLOAD_def settles_return0 view_send intro!: settles_bind)
  then show ?thesis using assms SEND_WRITE_PAYLOAD by (intro moves_settles) simp
next
  case SEND_WRITE_SHUTDOWN
  have "settles 6 h (enter_ISSUE_COMMAND_SEND_WRITE_SHUTDOWN h)"
    using assms SEND_WRITE_SHUTDOWN
    by (auto simp: enter_ISSUE_COMMAND_SEND_WRITE_SHUTDOWN_def settles_return0 view_sock [OF _ pending_sock(3)]
        intro!: settles_bind split: prod.split)
  then show ?thesis using assms SEND_WRITE_SHUTDOWN by (intro moves_settles) simp
next
  case PREPARE_WRITE_PAYLOAD
  then show ?thesis using assms
    by (auto simp: enter_ISSUE_COMMAND_PREPARE_WRITE_PAYLOAD_def moves_def return0_def SET_NEXT_STATE_def calm_def
        work_def pending_left_def Let_def asrt_def split: list.splits if_splits)
next
  case ISSUE_FINISH
  then show ?thesis using assms
    by (auto simp: enter_ISSUE_COMMAND_FINISH_def moves_def return0_def SET_NEXT_STATE_def calm_def
        work_def pending_left_def Let_def asrt_def suffix_def split: list.splits if_splits)
next
  case PAUSE_SEND_REQUEST
  then show ?thesis using assms
    by (auto simp: enter_ISSUE_COMMAND_PAUSE_SEND_REQUEST_def intro!: moves_settles settles_bind)
next
  case PAUSE_WRITE_PAYLOAD
  then show ?thesis using assms
    by (auto simp: enter_ISSUE_COMMAND_PAUSE_WRITE_PAYLOAD_def intro!: moves_settles settles_bind)
next
  case PAUSE_WRITE_SHUTDOWN
  then show ?thesis using assms
    by (auto simp: enter_ISSUE_COMMAND_PAUSE_WRITE_SHUTDOWN_def intro!: moves_settles settles_bind)
qed


lemma blocked_end:
  "notify_completion e c h = Some (c', retire, h') \<Longrightarrow> blocked h' = blocked h \<and> next_state h' = next_state h"
  "append_done c h = Some h' \<Longrightarrow> blocked h' = blocked h \<and> next_state h' = next_state h"
  "blocked (nbd_internal_retire_and_free_command c h) = blocked h"
  "next_state (nbd_internal_retire_and_free_command c h) = next_state h"
  by (auto simp: notify_completion_def call_completion_def append_done_def log_event_def Let_def
      nbd_internal_retire_and_free_command_def split: if_splits option.splits Option.bind_splits)

lemma abort_commands_view:
  "nbd_internal_abort_commands cs h = Some h' \<Longrightarrow>
     view h' = view h \<and> blocked h' = blocked h \<and> next_state h' = next_state h"
proof (induction cs arbitrary: h)
  case (Cons c cs)
  then obtain c1 retire h1 h2 where 1: "notify_completion (if c_error c \<noteq> 0 then c_error c else ENOTCONN) c h = Some (c1, retire, h1)"
    and 2: "(if retire then Some (nbd_internal_retire_and_free_command (if c_error c1 = 0 then c1\<lparr>c_error := ENOTCONN\<rparr> else c1) h1)
        else append_done (if c_error c1 = 0 then c1\<lparr>c_error := ENOTCONN\<rparr> else c1) h1) = Some h2"
    and 3: "nbd_internal_abort_commands cs h2 = Some h'"
    by (auto simp: Let_def split: Option.bind_splits)
  from 2 have "view h2 = view h1 \<and> blocked h2 = blocked h1 \<and> next_state h2 = next_state h1"
    using view_end blocked_end(2-4) by (cases retire) force+
  with Cons.IH [OF 3] view_notify [OF 1] blocked_end(1) [OF 1] show ?case by simp
qed simp

lemma abort_all_calm:
  assumes "abort_all h = Some h'"
  shows "calm h h' \<and> blocked h' = blocked h \<and> next_state h' = next_state h"
proof -
  let ?g = "abort_option h"
  have g: "view ?g = view h" "blocked ?g = blocked h" "next_state ?g = next_state h"
    by (subst abort_option_frame, simp add: view_def pending_left_def)+
  obtain h2 h3 where 2: "nbd_internal_abort_commands (cmds_to_issue ?g) (?g\<lparr>cmds_to_issue := []\<rparr>) = Some h2"
    and 3: "nbd_internal_abort_commands (cmds_in_flight h2) (h2\<lparr>cmds_in_flight := []\<rparr>) = Some h3"
    and h': "h' = h3\<lparr>in_flight := 0, sock := None\<rparr>"
    using assms by (auto simp: abort_all_def Let_def split: Option.bind_splits)
  have "view h3 = view (?g\<lparr>cmds_to_issue := []\<rparr>)" "blocked h3 = blocked h" "next_state h3 = next_state h"
    using abort_commands_view [OF 2] abort_commands_view [OF 3] g by simp_all
  then show ?thesis using g(1) by (simp add: h' calm_def view_def pending_left_def)
qed

lemma step_moves:
  assumes "inv h" and "step e h = Some (h', r)"
  shows "calm h h' \<and> (r = 0 \<or> r = -1 \<and> state h' = DEAD) \<and>
    (blocked h' \<longrightarrow> waiting (state h') \<and> (state h' = READY \<longrightarrow> cmds_to_issue h' = [])) \<and>
    (r = 0 \<longrightarrow> \<not> blocked h' \<longrightarrow> work h' + rank (state h') < work h + rank (state h))"
proof -
  let ?h = "h\<lparr>blocked := True, next_state := state h\<rparr>"
  have i: "inv_at (state h) ?h" using assms(1) by (simp add: inv_def)
  have m: "moves ?h (enter_state e (state h) ?h)"
  proof (cases "state h")
    case DEAD
    then show ?thesis using abort_all_calm
      by (auto simp: moves_def enter_DEAD_def split: Option.bind_splits)
  next
    case CLOSED
    then show ?thesis using abort_all_calm
      by (fastforce simp: moves_def enter_CLOSED_def split: Option.bind_splits)
  next
    case (REPLY x)
    then have "settles (reply_rank x) ?h (enter_REPLY x ?h)"
      using i REPLY_settles [of x ?h] by (simp del: inv_at.simps)
    then show ?thesis using REPLY moves_settles [of ?h] by simp
  qed (use i READY_moves [of ?h] ISSUE_moves [of ?h] in auto)
  obtain g where g: "enter_state e (state h) ?h = Some (g, r)" "h' = g\<lparr>state := next_state g\<rparr>"
    using assms(2) by (auto simp: step_def enter_def)
  with m show ?thesis
    by (auto simp: moves_def g(2) calm_def work_def pending_left_def)
qed

section \<open>The loop\<close>

text \<open>The server does not reply, in the turns of a run, to a command that was not sent.\<close>

fun honest_run :: "env \<Rightarrow> nat \<Rightarrow> nbd_handle \<Rightarrow> bool" where
  "honest_run e 0 h = True"
| "honest_run e (Suc n) h = (\<not> early_reply h \<and>
     (case step e h of None \<Rightarrow> True | Some (h', r) \<Rightarrow> r \<noteq> -1 \<and> \<not> blocked h' \<longrightarrow> honest_run e n h'))"

text \<open>With extended headers there is nothing to assume of the server.\<close>

lemma honest_extended: "inv h \<Longrightarrow> extended_headers h \<Longrightarrow> honest_run e n h"
proof (induction n arbitrary: h)
  case (Suc n)
  then have ne: "\<not> early_reply h" by (simp add: early_reply_def)
  obtain h' r where s: "step e h = Some (h', r)" "inv h'" using step_keeps_inv [OF Suc.prems(1) ne] by blast
  with step_moves [OF Suc.prems(1) s(1)] Suc have "honest_run e n h'" by (simp add: calm_def)
  with s ne show ?case by simp
qed simp

text \<open>
  A handle between two calls: the loop has stopped, so nothing waits to be sent in \<^verbatim>\<open>READY\<close> and
  something is left to send where the handle waits to send.
\<close>

definition settled :: "nbd_handle \<Rightarrow> bool" where
  "settled h \<longleftrightarrow> inv h \<and> waiting (state h) \<and> (state h = READY \<longrightarrow> cmds_to_issue h = []) \<and>
     (state h = ISSUE_COMMAND SEND_WRITE_PAYLOAD \<longrightarrow> wlen h \<noteq> 0)"

text \<open>The fuel a run needs.\<close>

definition turns :: "nbd_handle \<Rightarrow> nat" where
  "turns h = work h + rank (state h)"

theorem run_loop_ok:
  assumes "inv h" and "honest_run e n h" and "turns h < n"
  shows "\<exists>h' r. run_loop e n h = Returned h' r \<and> settled h' \<and> calm h h' \<and>
    (r = 0 \<or> r = -1 \<and> last_error h' \<noteq> None)"
  using assms
proof (induction n arbitrary: h)
  case (Suc n)
  obtain h' r where s: "step e h = Some (h', r)" "inv h'" "r = -1 \<longrightarrow> last_error h' \<noteq> None"
    using step_keeps_inv [OF Suc.prems(1), of e] Suc.prems(2) by auto
  note m = step_moves [OF Suc.prems(1) s(1)]
  show ?case
  proof (cases "r = -1 \<or> blocked h'")
    case True
    with s m have "settled h'" by (auto simp: settled_def inv_def)
    with True s m show ?thesis by auto
  next
    case False
    with m Suc.prems(3) have "turns h' < n" by (auto simp: turns_def)
    moreover have "honest_run e n h'" using Suc.prems(2) s(1) False by simp
    ultimately obtain h2 r2 where "run_loop e n h' = Returned h2 r2" "settled h2" "calm h' h2"
      "r2 = 0 \<or> r2 = -1 \<and> last_error h2 \<noteq> None"
      using Suc.IH [OF s(2)] by blast
    with s False m calm_trans show ?thesis by auto
  qed
qed simp

end
