(* ===== verification/NBD_Config.thy ===== *)
theory NBD_Config
  imports NBD_Commands
begin

text \<open>
  The life of a handle (\<^verbatim>\<open>lib/handle.c\<close>): its creation, the settings made before connecting,
  the queries over what was negotiated, connecting an open socket (\<^verbatim>\<open>lib/connect.c\<close>) and closing.
  Memory allocation is taken to succeed.
\<close>

section \<open>Creation\<close>

abbreviation LIBNBD_HANDSHAKE_FLAG_MASK :: u16 where "LIBNBD_HANDSHAKE_FLAG_MASK \<equiv> 3"
abbreviation ENAMETOOLONG :: u32 where "ENAMETOOLONG \<equiv> 36"

text \<open>The handle as \<^verbatim>\<open>nbd_create\<close> fills it after \<^verbatim>\<open>calloc\<close>, before the first event.\<close>

definition initial_handle :: nbd_handle where
  "initial_handle =
     \<lparr>export_name = [], tls = LIBNBD_TLS_DISABLE, request_eh = True, extended_headers = False,
      request_sr = True, request_meta = True, request_meta_contexts = [], opt_mode = False,
      opt_current = 0, opt_cb = null_cb, request_block_size = True, full_info = False,
      pread_initialize = True, gflags = LIBNBD_HANDSHAKE_FLAG_MASK, exportsize = 0, eflags = 0,
      block_minimum = 0, block_preferred = 0, block_maximum = 0, payload_maximum = 0,
      canonical_name = None, description = None, protocol = None, tls_negotiated = False,
      unique = 1, bytes_sent = 0, chunks_sent = 0, bytes_received = 0, chunks_received = 0,
      strict = LIBNBD_STRICT_MASK, public_state = START, state = START, structured_replies = False,
      meta_valid = False, meta_contexts = [], sock = None, rbuf = RNull, rlen = 0, wbuf = [],
      wlen = 0, wflags_more = False, sbuf = (\<lambda>_. 0), req = (\<lambda>_. 0), in_write_payload = False,
      in_write_shutdown = False, querylist = [], querynum = 0, payload_left = 0, bs_count = 0,
      bs_raw = [], cmds_to_issue = [], cmds_to_issue_tail = None, cmds_in_flight = [],
      cmds_done = [], cmds_done_tail = None, in_flight = 0, reply_cmd = None, reply_state = START,
      disconnect_request = False, last_error = None, trace = [], next_state = START,
      blocked = False\<rparr>"

definition nbd_create :: "env \<Rightarrow> nat \<Rightarrow> outcome" where
  "nbd_create e fuel = nbd_internal_run e fuel cmd_create initial_handle"

text \<open>Connecting a socket the caller opened; \<open>s\<close> is what \<^verbatim>\<open>nbd_internal_socket_create\<close> wraps it in.\<close>

definition nbd_unlocked_aio_connect_socket :: "env \<Rightarrow> nat \<Rightarrow> socket \<Rightarrow> nbd_handle \<Rightarrow> outcome" where
  "nbd_unlocked_aio_connect_socket e fuel s h =
     nbd_internal_run e fuel cmd_connect_socket (h\<lparr>sock := Some s\<rparr>)"

definition error_unless_ready :: "nbd_handle \<Rightarrow> nbd_handle \<times> int" where
  "error_unless_ready h =
     (if nbd_internal_is_state_ready (state h) \<or> nbd_internal_is_state_negotiating (state h)
      then (h, 0)
      else if nbd_internal_is_state_closed (state h) then (set_error 0 ''connection is closed'' h, -1)
      else if nbd_internal_is_state_dead (state h) then (h, -1)
      else (set_error 0 ''connection in an unexpected state'' h, -1))"

section \<open>Settings\<close>

definition nbd_unlocked_set_export_name :: "cstr \<Rightarrow> nbd_handle \<Rightarrow> nbd_handle \<times> int" where
  "nbd_unlocked_set_export_name name h =
     (if length name > NBD_MAX_STRING
      then (set_error ENAMETOOLONG ''export name too long for NBD protocol'' h, -1)
      else if name = export_name h then (h, 0)
      else ((nbd_internal_reset_size_and_flags (h\<lparr>export_name := name\<rparr>))\<lparr>meta_valid := False\<rparr>, 0))"

definition nbd_unlocked_get_export_name :: "nbd_handle \<Rightarrow> cstr" where
  "nbd_unlocked_get_export_name h = export_name h"

definition nbd_unlocked_set_request_block_size :: "bool \<Rightarrow> nbd_handle \<Rightarrow> nbd_handle \<times> int" where
  "nbd_unlocked_set_request_block_size request h = (h\<lparr>request_block_size := request\<rparr>, 0)"

definition nbd_unlocked_set_full_info :: "bool \<Rightarrow> nbd_handle \<Rightarrow> nbd_handle \<times> int" where
  "nbd_unlocked_set_full_info request h = (h\<lparr>full_info := request\<rparr>, 0)"

definition nbd_unlocked_add_meta_context :: "cstr \<Rightarrow> nbd_handle \<Rightarrow> nbd_handle \<times> int" where
  "nbd_unlocked_add_meta_context name h =
     (if length name > NBD_MAX_STRING
      then (set_error ENAMETOOLONG ''meta context name too long for NBD protocol'' h, -1)
      else (h\<lparr>request_meta_contexts := request_meta_contexts h @ [name]\<rparr>, 0))"

definition nbd_unlocked_get_nr_meta_contexts :: "nbd_handle \<Rightarrow> nat" where
  "nbd_unlocked_get_nr_meta_contexts h = length (request_meta_contexts h)"

definition nbd_unlocked_get_meta_context :: "nat \<Rightarrow> nbd_handle \<Rightarrow> nbd_handle \<times> cstr option" where
  "nbd_unlocked_get_meta_context i h =
     (if i \<ge> length (request_meta_contexts h)
      then (set_error EINVAL ''meta context request out of range'' h, None)
      else (h, Some (request_meta_contexts h ! i)))"

definition nbd_unlocked_clear_meta_contexts :: "nbd_handle \<Rightarrow> nbd_handle \<times> int" where
  "nbd_unlocked_clear_meta_contexts h = (h\<lparr>request_meta_contexts := []\<rparr>, 0)"

definition nbd_unlocked_set_request_extended_headers :: "bool \<Rightarrow> nbd_handle \<Rightarrow> nbd_handle \<times> int" where
  "nbd_unlocked_set_request_extended_headers request h = (h\<lparr>request_eh := request\<rparr>, 0)"

definition nbd_unlocked_set_request_structured_replies :: "bool \<Rightarrow> nbd_handle \<Rightarrow> nbd_handle \<times> int" where
  "nbd_unlocked_set_request_structured_replies request h = (h\<lparr>request_sr := request\<rparr>, 0)"

definition nbd_unlocked_set_request_meta_context :: "bool \<Rightarrow> nbd_handle \<Rightarrow> nbd_handle \<times> int" where
  "nbd_unlocked_set_request_meta_context request h = (h\<lparr>request_meta := request\<rparr>, 0)"

definition nbd_unlocked_set_handshake_flags :: "u32 \<Rightarrow> nbd_handle \<Rightarrow> nbd_handle \<times> int" where
  "nbd_unlocked_set_handshake_flags flags h = (h\<lparr>gflags := ucast flags\<rparr>, 0)"

definition nbd_unlocked_set_pread_initialize :: "bool \<Rightarrow> nbd_handle \<Rightarrow> nbd_handle \<times> int" where
  "nbd_unlocked_set_pread_initialize request h = (h\<lparr>pread_initialize := request\<rparr>, 0)"

definition nbd_unlocked_set_strict_mode :: "u32 \<Rightarrow> nbd_handle \<Rightarrow> nbd_handle \<times> int" where
  "nbd_unlocked_set_strict_mode flags h = (h\<lparr>strict := flags\<rparr>, 0)"

definition nbd_unlocked_set_opt_mode :: "bool \<Rightarrow> nbd_handle \<Rightarrow> nbd_handle \<times> int" where
  "nbd_unlocked_set_opt_mode value h = (h\<lparr>opt_mode := value\<rparr>, 0)"

definition nbd_unlocked_set_tls :: "nat \<Rightarrow> nbd_handle \<Rightarrow> nbd_handle \<times> int" where
  "nbd_unlocked_set_tls value h = (h\<lparr>tls := value\<rparr>, 0)"

section \<open>Queries\<close>

text \<open>A string the server may have sent, available once the export flags are known.\<close>

definition get_advertised ::
    "(nbd_handle \<Rightarrow> cstr option) \<Rightarrow> string \<Rightarrow> nbd_handle \<Rightarrow> nbd_handle \<times> cstr option" where
  "get_advertised field msg h =
     (if eflags h = 0
      then (set_error EINVAL ''server has not returned export flags, you need to connect to the server first'' h, None)
      else case field h of
        None \<Rightarrow> (set_error ENOTSUP msg h, None)
      | Some s \<Rightarrow> (h, Some s))"

definition nbd_unlocked_get_canonical_export_name where
  "nbd_unlocked_get_canonical_export_name =
     get_advertised canonical_name ''server did not advertise a canonical name''"

definition nbd_unlocked_get_export_description where
  "nbd_unlocked_get_export_description =
     get_advertised description ''server did not advertise a description''"

definition nbd_unlocked_get_protocol :: "nbd_handle \<Rightarrow> string option" where
  "nbd_unlocked_get_protocol h = protocol h"

text \<open>What was set, what was negotiated, and how much went over the wire.\<close>

definition nbd_unlocked_get_request_block_size :: "nbd_handle \<Rightarrow> bool" where
  "nbd_unlocked_get_request_block_size h = request_block_size h"

definition nbd_unlocked_get_full_info :: "nbd_handle \<Rightarrow> bool" where
  "nbd_unlocked_get_full_info h = full_info h"

definition nbd_unlocked_get_request_extended_headers :: "nbd_handle \<Rightarrow> bool" where
  "nbd_unlocked_get_request_extended_headers h = request_eh h"

definition nbd_unlocked_get_extended_headers_negotiated :: "nbd_handle \<Rightarrow> bool" where
  "nbd_unlocked_get_extended_headers_negotiated h = extended_headers h"

definition nbd_unlocked_get_request_structured_replies :: "nbd_handle \<Rightarrow> bool" where
  "nbd_unlocked_get_request_structured_replies h = request_sr h"

definition nbd_unlocked_get_request_meta_context :: "nbd_handle \<Rightarrow> bool" where
  "nbd_unlocked_get_request_meta_context h = request_meta h"

definition nbd_unlocked_get_structured_replies_negotiated :: "nbd_handle \<Rightarrow> bool" where
  "nbd_unlocked_get_structured_replies_negotiated h = structured_replies h"

definition nbd_unlocked_get_handshake_flags :: "nbd_handle \<Rightarrow> u32" where
  "nbd_unlocked_get_handshake_flags h = ucast (gflags h)"

definition nbd_unlocked_get_pread_initialize :: "nbd_handle \<Rightarrow> bool" where
  "nbd_unlocked_get_pread_initialize h = pread_initialize h"

definition nbd_unlocked_get_strict_mode :: "nbd_handle \<Rightarrow> u32" where
  "nbd_unlocked_get_strict_mode h = strict h"

definition nbd_unlocked_get_opt_mode :: "nbd_handle \<Rightarrow> bool" where
  "nbd_unlocked_get_opt_mode h = opt_mode h"

definition nbd_unlocked_get_tls :: "nbd_handle \<Rightarrow> nat" where
  "nbd_unlocked_get_tls h = tls h"

definition nbd_unlocked_get_tls_negotiated :: "nbd_handle \<Rightarrow> bool" where
  "nbd_unlocked_get_tls_negotiated h = tls_negotiated h"

definition nbd_unlocked_stats_bytes_sent :: "nbd_handle \<Rightarrow> u64" where
  "nbd_unlocked_stats_bytes_sent h = bytes_sent h"

definition nbd_unlocked_stats_chunks_sent :: "nbd_handle \<Rightarrow> u64" where
  "nbd_unlocked_stats_chunks_sent h = chunks_sent h"

definition nbd_unlocked_stats_bytes_received :: "nbd_handle \<Rightarrow> u64" where
  "nbd_unlocked_stats_bytes_received h = bytes_received h"

definition nbd_unlocked_stats_chunks_received :: "nbd_handle \<Rightarrow> u64" where
  "nbd_unlocked_stats_chunks_received h = chunks_received h"

text \<open>The caller sees the public copy of the state.\<close>

definition nbd_unlocked_aio_is_created :: "nbd_handle \<Rightarrow> bool" where
  "nbd_unlocked_aio_is_created h = nbd_internal_is_state_created (public_state h)"

definition nbd_unlocked_aio_is_connecting :: "nbd_handle \<Rightarrow> bool" where
  "nbd_unlocked_aio_is_connecting h = nbd_internal_is_state_connecting (public_state h)"

definition nbd_unlocked_aio_is_negotiating :: "nbd_handle \<Rightarrow> bool" where
  "nbd_unlocked_aio_is_negotiating h = nbd_internal_is_state_negotiating (public_state h)"

definition nbd_unlocked_aio_is_ready :: "nbd_handle \<Rightarrow> bool" where
  "nbd_unlocked_aio_is_ready h = nbd_internal_is_state_ready (public_state h)"

definition nbd_unlocked_aio_is_processing :: "nbd_handle \<Rightarrow> bool" where
  "nbd_unlocked_aio_is_processing h = nbd_internal_is_state_processing (public_state h)"

definition nbd_unlocked_aio_is_dead :: "nbd_handle \<Rightarrow> bool" where
  "nbd_unlocked_aio_is_dead h = nbd_internal_is_state_dead (public_state h)"

definition nbd_unlocked_aio_is_closed :: "nbd_handle \<Rightarrow> bool" where
  "nbd_unlocked_aio_is_closed h = nbd_internal_is_state_closed (public_state h)"

definition nbd_unlocked_aio_get_direction :: "nbd_handle \<Rightarrow> nat" where
  "nbd_unlocked_aio_get_direction h = nbd_internal_aio_get_direction (public_state h)"

section \<open>Closing\<close>

fun free_cmd_list :: "command list \<Rightarrow> nbd_handle \<Rightarrow> nbd_handle" where
  "free_cmd_list [] h = h"
| "free_cmd_list (cmd # cmds) h =
     (let (_, _, h') = call_completion (c_cookie cmd) (cb_completion (c_cb cmd))
            (if c_error cmd \<noteq> 0 then c_error cmd else ENOTCONN) h
      in free_cmd_list cmds (nbd_internal_retire_and_free_command cmd h'))"

text \<open>What the user can see of \<^verbatim>\<open>nbd_close\<close>: the calls and frees of the callbacks, in order.\<close>

definition nbd_close :: "nbd_handle \<Rightarrow> cb_event list" where
  "nbd_close h =
     (let h = h\<lparr>querylist := [], bs_raw := []\<rparr>;
          h = nbd_internal_reset_size_and_flags h;
          h = nbd_internal_free_option (h\<lparr>meta_contexts := []\<rparr>);
          h = free_cmd_list (cmds_to_issue h) h;
          h = free_cmd_list (cmds_in_flight h) h;
          h = free_cmd_list (cmds_done h) h
      in trace h)"

end
