(* ===== verification/NBD_Session.thy ===== *)
theory NBD_Session
  imports NBD_Run_Safe NBD_Config
begin

text \<open>
  A whole session on a connected handle: the program submits commands, delivers the events its
  poll loop reports, collects completed commands and disconnects, while the transport answers
  as it likes. Every call returns and keeps the invariant.
\<close>

section \<open>Events\<close>

text \<open>The disconnect request is the last command a program can submit.\<close>

definition dinv :: "nbd_handle \<Rightarrow> bool" where
  "dinv h \<longleftrightarrow> disconnect_request h \<or>
     \<not> in_write_shutdown h \<and> (\<forall>c \<in> set (cmds_to_issue h). c_type c \<noteq> NBD_CMD_DISC)"

lemma dinv_calm: "calm h h' \<Longrightarrow> dinv h \<Longrightarrow> dinv h'"
  using set_mono_suffix by (fastforce simp: calm_def dinv_def)

lemma inv_state: "inv_at s h \<Longrightarrow> (s = ISSUE_COMMAND SEND_WRITE_PAYLOAD \<Longrightarrow> wlen h \<noteq> 0) \<Longrightarrow> inv (h\<lparr>state := s\<rparr>)"
  by (simp add: inv_def)

lemma inv_at_qinv: "inv_at s h \<Longrightarrow> qinv h"
  by (cases s) simp_all

lemma issue_event_inv:
  "issue_event i ev = Some j \<Longrightarrow> iinv i h \<Longrightarrow> (i = SEND_WRITE_PAYLOAD \<longrightarrow> wlen h \<noteq> 0) \<Longrightarrow>
     iinv j h \<and> (j = SEND_WRITE_PAYLOAD \<longrightarrow> wlen h \<noteq> 0)"
  by (induction i ev rule: issue_event.induct) auto

lemma event_keeps_inv:
  assumes "inv h" and "state h = ISSUE_COMMAND SEND_WRITE_PAYLOAD \<longrightarrow> wlen h \<noteq> 0"
    and "external_transition (state h) ev = Some s" and "ev = cmd_issue \<longrightarrow> cmds_to_issue h \<noteq> []"
  shows "inv (h\<lparr>state := s\<rparr>)"
proof (rule inv_state)
  have i: "inv_at (state h) h" using assms(1) by (simp add: inv_def)
  show "inv_at s h"
  proof (cases "state h")
    case (REPLY r)
    with assms(3) have "s = state h" by (auto split: if_splits)
    with i show ?thesis by simp
  qed (use i assms(2-4) in \<open>auto simp: rinv_def dest: issue_event_inv split: if_splits\<close>)
  show "s = ISSUE_COMMAND SEND_WRITE_PAYLOAD \<Longrightarrow> wlen h \<noteq> 0"
    using i assms(2,3) by (cases "state h") (auto split: if_splits dest: issue_event_inv)
qed

text \<open>The invariant of a state depends on the completed commands only through that of the queues.\<close>

lemma inv_at_mono:
  assumes "inv_at s h" and "qinv h'"
    and "rlen h' = rlen h" "payload_left h' = payload_left h" "rbuf h' = rbuf h" "reply_cmd h' = reply_cmd h"
    "cmds_in_flight h' = cmds_in_flight h" "cmds_to_issue h' = cmds_to_issue h" "unique h' = unique h"
    "extended_headers h' = extended_headers h" "sbuf h' = sbuf h" "bs_count h' = bs_count h"
    "bs_raw h' = bs_raw h" "meta_valid h' = meta_valid h" "reply_state h' = reply_state h"
    "sock h' = None \<longleftrightarrow> sock h = None" "cmds_to_issue_tail h' = cmds_to_issue_tail h" "wlen h' = wlen h"
    "wbuf h' = wbuf h" "req h' = req h" "in_write_shutdown h' = in_write_shutdown h"
    "last_error h \<noteq> None \<longrightarrow> last_error h' \<noteq> None"
  shows "inv_at s h'"
proof -
  have r: "reply_data r h' = reply_data r h" for r by (rule reply_data_frame) (simp_all add: assms)
  have i: "iinv i h' = iinv i h" for i by (cases i) (simp_all add: inv_defs assms)
  have d: "ridle h' = ridle h" by (rule ridle_frame_eq) (simp_all add: assms)
  have c: "conn h' = conn h" "ipend h' = ipend h" by (simp_all add: inv_defs assms)
  show ?thesis using assms(1,2,15,22)
    by (cases s) (auto simp: rinv_def r i d c simp del: reply_data.simps)
qed

lemma inv_at_error: "inv_at s h \<Longrightarrow> inv_at s (h\<lparr>last_error := Some e\<rparr>)"
  by (rule inv_at_mono [of s h]) (auto intro: inv_at_qinv [of s h])

lemma settled_error: "settled h \<Longrightarrow> settled (set_error e m h)"
  by (simp add: settled_def inv_def inv_at_error set_error_def)

lemma dinv_error [simp]: "dinv (set_error e m h) = dinv h"
  by (simp add: dinv_def set_error_def)

text \<open>
  What is asked of a run that an event starts: the server is honest in it and the fuel is
  enough.
\<close>

definition run_ok :: "env \<Rightarrow> nat \<Rightarrow> external_event \<Rightarrow> nbd_handle \<Rightarrow> bool" where
  "run_ok e n ev h \<longleftrightarrow> (case external_transition (state h) ev of None \<Rightarrow> True
     | Some s \<Rightarrow> honest_run e n (h\<lparr>state := s\<rparr>) \<and> turns (h\<lparr>state := s\<rparr>) < n)"

definition good :: "nbd_handle \<Rightarrow> bool" where
  "good h \<longleftrightarrow> settled h \<and> dinv h"

lemma run_entered:
  assumes "inv h" and "state h = ISSUE_COMMAND SEND_WRITE_PAYLOAD \<longrightarrow> wlen h \<noteq> 0"
    and "external_transition (state h) ev = Some s" and "run_ok e n ev h"
    and "ev = cmd_issue \<longrightarrow> cmds_to_issue h \<noteq> []"
  shows "\<exists>h' r. nbd_internal_run e n ev h = Returned h' r \<and> settled h' \<and> calm h h' \<and>
    (r = 0 \<or> r = -1 \<and> last_error h' \<noteq> None)"
proof -
  have "honest_run e n (h\<lparr>state := s\<rparr>)" "turns (h\<lparr>state := s\<rparr>) < n"
    using assms(3,4) by (simp_all add: run_ok_def)
  with run_loop_ok [OF event_keeps_inv [OF assms(1-3,5)]] assms(3) show ?thesis
    by (auto simp: nbd_internal_run_def calm_def pending_left_def)
qed

lemma run_good:
  assumes "good h" and "run_ok e n ev h" and "ev \<noteq> cmd_issue"
  shows "\<exists>h' r. nbd_internal_run e n ev h = Returned h' r \<and> good h' \<and> calm h h' \<and>
    (r = 0 \<or> r = -1 \<and> last_error h' \<noteq> None)"
proof (cases "external_transition (state h) ev")
  case None
  then show ?thesis using assms(1) settled_error
    by (simp add: nbd_internal_run_def calm_view good_def) (simp add: set_error_def)
next
  case (Some s)
  then show ?thesis using run_entered [OF _ _ Some assms(2)] assms dinv_calm
    by (fastforce simp: good_def settled_def)
qed

text \<open>With extended headers only the fuel matters.\<close>

lemma run_ok_extended:
  assumes "inv h" and "state h = ISSUE_COMMAND SEND_WRITE_PAYLOAD \<longrightarrow> wlen h \<noteq> 0"
    and "ev = cmd_issue \<longrightarrow> cmds_to_issue h \<noteq> []" and "extended_headers h"
    and "\<And>s. turns (h\<lparr>state := s\<rparr>) < n"
  shows "run_ok e n ev h"
  using event_keeps_inv [OF assms(1,2) _ assms(3)] honest_extended assms(4,5)
  by (auto simp: run_ok_def split: option.splits)

section \<open>Submission\<close>

text \<open>
  What a caller of \<^verbatim>\<open>nbd_internal_command_common\<close> guarantees: the buffer of a read or write has the
  length it says, the range of a read stays clear of the end of the offset space, block status has
  a callback, and the disconnect request has none.
\<close>

definition submit_ok :: "u16 \<Rightarrow> u16 \<Rightarrow> u64 \<Rightarrow> u64 \<Rightarrow> cmd_data \<Rightarrow> command_cb option \<Rightarrow> nbd_handle \<Rightarrow> bool" where
  "submit_ok flags type offset count data cb h \<longleftrightarrow>
     (type = NBD_CMD_READ \<or> type = NBD_CMD_WRITE \<longrightarrow>
        (case data of Buf b \<Rightarrow> length b = unat count | _ \<Rightarrow> False)) \<and>
     (type = NBD_CMD_READ \<longrightarrow> unat offset + unat count \<le> 2 ^ 63) \<and>
     (type = NBD_CMD_BLOCK_STATUS \<longrightarrow> (case cb of None \<Rightarrow> False | Some cb \<Rightarrow> \<not> fn_is_null (cb_fn cb)) \<and>
        (case data of NoData \<Rightarrow> \<not> extended_headers h \<or> flags AND NBD_CMD_FLAG_PAYLOAD_LEN = 0
         | Ids _ \<Rightarrow> True | Buf _ \<Rightarrow> False)) \<and>
     (case data of Ids _ \<Rightarrow> type = NBD_CMD_BLOCK_STATUS | _ \<Rightarrow> True) \<and>
     (type = NBD_CMD_DISC \<longrightarrow> cb = None)"

lemma length_ids: "length (concat (map htobe32 ids)) = 4 * length ids"
  by (induction ids) simp_all

lemma check_command_limits:
  assumes "check_command type offset count count_err data h = None"
  shows "\<not> disconnect_request h" "in_flight h \<noteq> INT_MAX"
    "type = NBD_CMD_READ \<or> type = NBD_CMD_WRITE \<Longrightarrow> count \<le> of_nat MAX_REQUEST_SIZE"
    "type = NBD_CMD_BLOCK_STATUS \<Longrightarrow> data = Ids ids \<Longrightarrow> 4 * length ids \<le> MAX_REQUEST_SIZE"
    "type \<noteq> NBD_CMD_BLOCK_STATUS \<or> (\<forall>ids. data \<noteq> Ids ids) \<Longrightarrow> \<not> extended_headers h \<Longrightarrow> count \<le> UINT32_MAX"
    "count_err \<noteq> 0 \<Longrightarrow> is_strict h LIBNBD_STRICT_BOUNDS \<Longrightarrow> unat offset + unat count \<le> unat (exportsize h)"
proof -
  show "\<not> disconnect_request h" "in_flight h \<noteq> INT_MAX"
    and rw: "type = NBD_CMD_READ \<or> type = NBD_CMD_WRITE \<Longrightarrow> count \<le> of_nat MAX_REQUEST_SIZE"
    and "type = NBD_CMD_BLOCK_STATUS \<Longrightarrow> data = Ids ids \<Longrightarrow> 4 * length ids \<le> MAX_REQUEST_SIZE"
    using assms by (auto simp: check_command_def split: if_splits)
  show "count \<le> UINT32_MAX" if "type \<noteq> NBD_CMD_BLOCK_STATUS \<or> (\<forall>ids. data \<noteq> Ids ids)" "\<not> extended_headers h"
  proof (cases "type = NBD_CMD_READ \<or> type = NBD_CMD_WRITE")
    case True
    have "(of_nat MAX_REQUEST_SIZE :: u64) \<le> UINT32_MAX" by simp
    with rw [OF True] show ?thesis by (rule order_trans)
  next
    case False
    with assms that show ?thesis
      by (auto simp: check_command_def not_less split: if_splits bool.splits cmd_data.splits)
  qed
  show "unat offset + unat count \<le> unat (exportsize h)"
    if "count_err \<noteq> 0" "is_strict h LIBNBD_STRICT_BOUNDS"
  proof -
    have "offset \<le> exportsize h" "count \<le> exportsize h - offset"
      using assms that by (auto simp: check_command_def not_less split: if_splits)
    then show ?thesis by (simp add: word_le_nat_alt unat_sub)
  qed
qed

lemma new_command_ok:
  assumes "check_command type offset count count_err data h = None"
    and "submit_ok flags type offset count data cb h"
  shows "cmd_ok (extended_headers h) (new_command flags type offset count data cb h)"
proof -
  note l = check_command_limits [OF assms(1)]
  have small: "unat (of_nat n :: u64) = n" "(of_nat n :: u64) \<le> 0xFFFFFFFF" if "n \<le> MAX_REQUEST_SIZE" for n
    using that by (simp_all add: unat_of_nat word_le_nat_alt)
  have rd: "type = NBD_CMD_READ \<Longrightarrow> unat count \<le> MAX_REQUEST_SIZE"
    using l(3) by (simp add: word_le_nat_alt)
  show ?thesis
  proof (cases data)
    case (Ids ids)
    then have "type = NBD_CMD_BLOCK_STATUS" using assms(2) by (simp add: submit_ok_def)
    moreover have "4 * length ids \<le> MAX_REQUEST_SIZE" using l(4) calculation Ids by simp
    note small = small [OF this]
    ultimately show ?thesis using Ids assms(2) small
      by (auto simp: cmd_ok_def new_command_def submit_ok_def has_data_def length_ids split: option.splits)
  next
    case NoData
    then show ?thesis using assms(2) l(5) rd
      by (auto simp: cmd_ok_def new_command_def submit_ok_def null_cb_def split: option.splits)
  next
    case (Buf b)
    then show ?thesis using assms(2) l(5) rd
      by (auto simp: cmd_ok_def new_command_def submit_ok_def null_cb_def has_data_def split: option.splits)
  qed
qed


text \<open>The handle with a command added at the end of the queue.\<close>

definition queued :: "command \<Rightarrow> nbd_handle \<Rightarrow> nbd_handle" where
  "queued cmd h = h\<lparr>unique := unique h + 1, in_flight := in_flight h + 1,
     cmds_to_issue := cmds_to_issue h @ [cmd], cmds_to_issue_tail := Some (c_cookie cmd)\<rparr>"

lemma unat_succ: "u + 1 \<noteq> 0 \<Longrightarrow> unat (u + 1) = Suc (unat u)" for u :: u64
  using unatSuc [of u] by (simp add: add.commute)

lemma less_succ: "u + 1 \<noteq> 0 \<Longrightarrow> k < u \<Longrightarrow> k < u + 1" and succ_less: "u + 1 \<noteq> 0 \<Longrightarrow> u < u + 1" for u k :: u64
  by (simp_all add: word_less_nat_alt unat_succ)

lemma queued_qinv:
  assumes "qinv h" and "cmd_ok (extended_headers h) cmd" and "c_cookie cmd = unique h" and "unique h + 1 \<noteq> 0"
  shows "qinv (queued cmd h)"
proof -
  let ?K = "c_cookie ` set (cmds_to_issue h) \<union> c_cookie ` set (cmds_in_flight h) \<union> c_cookie ` set (cmds_done h)"
  have old: "\<forall>k \<in> ?K. k < unique h" using assms(1) by (simp add: qinv_def)
  then have new: "unique h \<notin> ?K" by blast
  have "\<forall>k \<in> ?K. k < unique h + 1" "unique h < unique h + 1"
    using old less_succ [OF assms(4)] succ_less [OF assms(4)] by blast+
  then show ?thesis
    using assms(1-3) new unfolding qinv_def queued_def by auto
qed

lemma queued_ok:
  assumes "good h" and "\<not> disconnect_request h" and "cmd_ok (extended_headers h) cmd"
    and "c_cookie cmd = unique h" and "unique h + 1 \<noteq> 0"
    and "state h = READY \<or> nbd_internal_is_state_processing (state h)"
  shows "inv (queued cmd h)" and "enqueue cmd (h\<lparr>unique := unique h + 1, in_flight := in_flight h + 1\<rparr>) = Some (queued cmd h)"
proof -
  have i: "inv_at (state h) h" "waiting (state h)" "state h = READY \<longrightarrow> cmds_to_issue h = []"
    "state h = ISSUE_COMMAND SEND_WRITE_PAYLOAD \<longrightarrow> wlen h \<noteq> 0"
    and d: "\<not> in_write_shutdown h" "\<forall>c \<in> set (cmds_to_issue h). c_type c \<noteq> NBD_CMD_DISC"
    using assms(1,2) by (auto simp: good_def settled_def inv_def dinv_def)
  then have h: "qinv h" "conn h" "ridle h"
    using assms(6) by (cases "state h"; auto simp: rinv_def)+
  have q: "qinv (queued cmd h)" using queued_qinv h(1) assms(3-5) by blast
  have c: "conn (queued cmd h)" using h(2) d(2) by (auto simp: conn_def queued_def last_cookie_def butlast_append)
  have pc: "past_cookie (queued cmd h)" if "past_cookie h"
    using that assms(4) less_succ [OF assms(5)] by (auto simp: past_cookie_def queued_def)
  have r: "ridle (queued cmd h)"
    by (rule ridle_more [OF h(3)]) (use pc in \<open>simp_all add: queued_def cookie_ok_def\<close>)
  have ih: "ihead h \<Longrightarrow> ihead (queued cmd h)" by (simp add: ihead_def queued_def)
  have sh: "shut_ok (queued cmd h)" using d(1) by (simp add: shut_ok_def queued_def)
  have w: "wlen (queued cmd h) = wlen h" "in_write_shutdown (queued cmd h) = in_write_shutdown h"
    "state (queued cmd h) = state h" by (simp_all add: queued_def)
  have "inv_at (state h) (queued cmd h)"
  proof (cases "state h")
    case (ISSUE_COMMAND x)
    then show ?thesis using i q c r ih sh d w by (cases x) auto
  qed (use i q c r ih sh w assms(6) in \<open>auto simp: rinv_def ipend_def\<close>)
  then show "inv (queued cmd h)" using i(4) by (auto simp: inv_def w)
  show "enqueue cmd (h\<lparr>unique := unique h + 1, in_flight := in_flight h + 1\<rparr>) = Some (queued cmd h)"
    using h(2) i(3) assms(6) by (auto simp: enqueue_def queued_def conn_def last_cookie_def)
qed


lemma free_callbacks_trace: "\<exists>tr. free_callbacks type cb h = h\<lparr>trace := tr\<rparr>"
  by (auto simp: free_callbacks_def log_event_def Let_def split: option.split intro: exI [of _ "trace h"])

lemma good_trace [simp]: "good (h\<lparr>trace := tr\<rparr>) = good h"
proof -
  have "inv_at s (h\<lparr>trace := tr\<rparr>) = inv_at s h" for s by (rule inv_at_frame) simp_all
  then show ?thesis by (simp add: good_def settled_def inv_def dinv_def)
qed

lemma good_error: "good h \<Longrightarrow> good (set_error e m h)"
  by (simp add: good_def settled_error)

lemma command_common_refused:
  assumes "good h" and "check_command type offset count count_err data h = Some (err, msg)"
  shows "\<exists>h'. nbd_internal_command_common e n flags type offset count count_err data cb h = Returned h' (-1) \<and>
    good h' \<and> last_error h' = Some (err, msg) \<and> cmds_to_issue h' = cmds_to_issue h \<and>
    cmds_in_flight h' = cmds_in_flight h \<and> unique h' = unique h \<and> in_flight h' = in_flight h"
proof -
  obtain tr where tr: "free_callbacks type cb (set_error err msg h) = (set_error err msg h)\<lparr>trace := tr\<rparr>"
    using free_callbacks_trace by blast
  then have "good (free_callbacks type cb (set_error err msg h))" using good_error [OF assms(1)] by simp
  then show ?thesis using assms(2) tr by (simp add: nbd_internal_command_common_def) (simp add: set_error_def)
qed

lemma command_common_queued:
  assumes "good h" and "state h = READY \<or> nbd_internal_is_state_processing (state h)" and "unique h + 1 \<noteq> 0"
    and check: "check_command type offset count count_err data h = None"
    and ok: "submit_ok flags type offset count data cb h"
    and run: "state h = READY \<longrightarrow> run_ok e n cmd_issue (queued (new_command flags type offset count data cb h) h)"
  shows "\<exists>h'. nbd_internal_command_common e n flags type offset count count_err data cb h =
      Returned h' (uint (unique h)) \<and> settled h' \<and> unique h' = unique h + 1 \<and>
    calm (queued (new_command flags type offset count data cb h) h) h'"
proof -
  define cmd where "cmd = new_command flags type offset count data cb h"
  have cmd: "c_cookie cmd = unique h" "cmd_ok (extended_headers h) cmd"
    using new_command_ok [OF check ok] by (simp_all add: cmd_def new_command_def)
  note q = queued_ok [OF assms(1) check_command_limits(1) [OF check] cmd(2,1) assms(3,2)]
  have st: "state (queued cmd h) = state h" "unique (queued cmd h) = unique h + 1" "wlen (queued cmd h) = wlen h"
    "cmds_to_issue (queued cmd h) \<noteq> []" by (simp_all add: queued_def)
  show ?thesis
  proof (cases "state h = READY")
    case True
    then have empty: "cmds_to_issue h = []" using assms(1) by (simp add: good_def settled_def)
    obtain h' r where "nbd_internal_run e n cmd_issue (queued cmd h) = Returned h' r" "settled h'" "calm (queued cmd h) h'"
      using run_entered [OF q(1), of cmd_issue "ISSUE_COMMAND ISSUE_START" e n] run True st
      by (auto simp: cmd_def)
    then show ?thesis using check q(2) cmd True empty st
      by (simp add: nbd_internal_command_common_def cmd_def [symmetric] Let_def nbd_internal_is_state_ready_def calm_def)
  next
    case False
    have "settled (queued cmd h)" using q(1) False st assms(1) by (simp add: settled_def good_def)
    then show ?thesis using check q(2) cmd False st
      by (simp add: nbd_internal_command_common_def cmd_def [symmetric] Let_def nbd_internal_is_state_ready_def calm_view)
  qed
qed


section \<open>Completion\<close>

lemma last_del: "cs \<noteq> [] \<Longrightarrow> distinct (map c_cookie cs) \<Longrightarrow> c_cookie (last cs) \<noteq> k \<Longrightarrow>
    del_cmd k cs \<noteq> [] \<and> last (del_cmd k cs) = last cs"
proof (induction cs)
  case (Cons c cs)
  then show ?case by (cases "cs = []") auto
qed simp

lemma last_cookie_del:
  assumes "find_cmd k cs = Some c" and "distinct (map c_cookie cs)"
  shows "(if last_cookie cs = Some k then last_cookie (del_cmd k cs) else last_cookie cs) = last_cookie (del_cmd k cs)"
  using assms last_del [of cs k] by (auto simp: last_cookie_def)

lemma qinv_drop_done:
  assumes "qinv h"
  shows "qinv (h\<lparr>cmds_done := del_cmd k (cmds_done h), cmds_done_tail := last_cookie (del_cmd k (cmds_done h))\<rparr>)"
proof -
  have d: "distinct (map c_cookie (cmds_done h))" using assms by (simp add: qinv_def)
  note cookies_del_cmd [of k "cmds_done h"] and set_del_cmd [of k "cmds_done h"] and distinct_del_cmd [OF d, of k]
  then show ?thesis using assms unfolding qinv_def by (auto simp: subset_iff)
qed

text \<open>The command is taken off the list of completed ones, which keeps its order.\<close>

lemma command_completed_ok:
  assumes "good h" and "cookie \<noteq> 0" and c: "find_cmd cookie (cmds_done h) = Some c"
  shows "\<exists>h' r. nbd_unlocked_aio_command_completed cookie h = Some (h', r) \<and> good h' \<and>
    cmds_done h' = del_cmd cookie (cmds_done h) \<and>
    (if c_error c = 0 \<and> (c_type c = NBD_CMD_READ \<longrightarrow> ucast (c_data_seen c) = c_count c) then r = 1
     else r = -1 \<and> nbd_get_errno h' = (if c_error c = 0 then EPROTO else c_error c))"
proof -
  have i: "inv_at (state h) h" and q: "qinv h"
    using assms(1) inv_at_qinv by (auto simp: good_def settled_def inv_def)
  have d: "distinct (map c_cookie (cmds_done h))" "cmds_done_tail h = last_cookie (cmds_done h)"
    "c_type c \<noteq> NBD_CMD_DISC"
    using q find_cmd_SomeD [OF c] by (auto simp: qinv_def)
  let ?rest = "del_cmd cookie (cmds_done h)"
  define g where "g = h\<lparr>cmds_done := ?rest, cmds_done_tail := last_cookie ?rest\<rparr>"
  obtain tr where tr: "nbd_internal_retire_and_free_command c g = g\<lparr>trace := tr\<rparr>"
    using retire_trace by blast
  have "inv_at (state h) g"
    unfolding g_def by (rule inv_at_mono [OF i qinv_drop_done [OF q]]) simp_all
  then have "good g" using assms(1) by (simp add: good_def settled_def inv_def dinv_def g_def)
  then have g: "good (g\<lparr>trace := tr\<rparr>)" by simp
  let ?e = "if c_type c = NBD_CMD_READ \<and> ucast (c_data_seen c) \<noteq> c_count c \<and> c_error c = 0 then EPROTO else c_error c"
  have one: "\<not> cookie < 1" using assms(2) by (simp add: word_less_nat_alt unat_eq_0 [symmetric] del: unat_eq_0)
  have "nbd_unlocked_aio_command_completed cookie h =
      (if ?e = 0 then Some (g\<lparr>trace := tr\<rparr>, 1)
       else Some (set_error ?e (nbd_internal_name_of_nbd_cmd (c_type c) @ '': command failed'') (g\<lparr>trace := tr\<rparr>), -1))"
  proof (cases "last_cookie (cmds_done h) = Some cookie")
    case True
    then have l: "c_cookie (last (cmds_done h)) = cookie"
      by (auto simp: last_cookie_def split: if_splits)
    have lc: "(if ?rest = [] then None else Some (c_cookie (last ?rest))) = last_cookie ?rest"
      by (simp add: last_cookie_def)
    have swap: "h\<lparr>cmds_done_tail := last_cookie ?rest, cmds_done := ?rest\<rparr> = g" by (simp add: g_def)
    show ?thesis using c d tr one True l
      unfolding nbd_unlocked_aio_command_completed_def Let_def lc
      by (simp add: swap)
  next
    case False
    then have "last_cookie (cmds_done h) = last_cookie ?rest" using last_cookie_del [OF c d(1)] by simp
    then have "h\<lparr>cmds_done := ?rest\<rparr> = g" using d(2) by (simp add: g_def)
    with False show ?thesis using c d tr assms(2) one
      by (simp add: nbd_unlocked_aio_command_completed_def Let_def)
  qed
  then show ?thesis
    using g good_error [OF g]
    by (auto simp: nbd_get_errno_def set_error_def g_def split: if_splits)
qed


section \<open>Disconnection\<close>

lemma disconnect_ok:
  assumes "good h" and "state h = READY \<or> nbd_internal_is_state_processing (state h)" and "unique h + 1 \<noteq> 0"
    and run: "state h = READY \<longrightarrow> run_ok e n cmd_issue (queued (new_command (ucast flags) NBD_CMD_DISC 0 0 NoData None h) h)"
  shows "\<exists>h' r. nbd_unlocked_aio_disconnect e n flags h = Returned h' r \<and> good h' \<and>
    (r = 0 \<and> disconnect_request h' \<or> r = -1 \<and> last_error h' \<noteq> None)"
proof (cases "check_command NBD_CMD_DISC 0 0 0 NoData h")
  case None
  have "submit_ok (ucast flags) NBD_CMD_DISC 0 0 NoData None h" by (simp add: submit_ok_def)
  then obtain h' where h': "nbd_internal_command_common e n (ucast flags) NBD_CMD_DISC 0 0 0 NoData None h =
      Returned h' (uint (unique h))" "settled h'"
    using command_common_queued [OF assms(1-3) None _ run] by blast
  have "uint (unique h) \<noteq> -1" by (metis neg_0_le_iff_le not_one_le_zero uint_range_size)
  moreover have "inv_at s (h'\<lparr>disconnect_request := True\<rparr>) = inv_at s h'" for s by (rule inv_at_frame) simp_all
  ultimately show ?thesis using h'
    by (simp add: nbd_unlocked_aio_disconnect_def good_def dinv_def settled_def inv_def)
next
  case (Some x)
  obtain err msg where "x = (err, msg)" by fastforce
  with command_common_refused [OF assms(1), of NBD_CMD_DISC 0 0 0 NoData err msg e n "ucast flags" None] Some
  show ?thesis by (auto simp: nbd_unlocked_aio_disconnect_def)
qed

section \<open>Sessions\<close>

text \<open>The calls of a program, and the transport changing what it will answer.\<close>

datatype call =
  Notify nat external_event
| Submit nat u16 u16 u64 u64 u32 cmd_data "command_cb option"
| Completed u64
| Disconnect nat u32
| Network socket

fun perform :: "env \<Rightarrow> call \<Rightarrow> nbd_handle \<Rightarrow> outcome" where
  "perform e (Notify n ev) h = nbd_internal_run e n ev h"
| "perform e (Submit n flags type offset count count_err data cb) h =
     nbd_internal_command_common e n flags type offset count count_err data cb h"
| "perform e (Completed cookie) h =
     (case nbd_unlocked_aio_command_completed cookie h of None \<Rightarrow> Aborted | Some (h', r) \<Rightarrow> Returned h' r)"
| "perform e (Disconnect n flags) h = nbd_unlocked_aio_disconnect e n flags h"
| "perform e (Network s) h = Returned (h\<lparr>sock := Some s\<rparr>) 0"

text \<open>
  When a call may be made: in a state the interface permits, with the arguments its caller
  guarantees, the server honest and the fuel enough.
\<close>

definition connected :: "nbd_handle \<Rightarrow> bool" where
  "connected h \<longleftrightarrow> state h = READY \<or> nbd_internal_is_state_processing (state h)"

fun permitted :: "env \<Rightarrow> call \<Rightarrow> nbd_handle \<Rightarrow> bool" where
  "permitted e (Notify n ev) h = ((ev = notify_read \<or> ev = notify_write) \<and> run_ok e n ev h)"
| "permitted e (Submit n flags type offset count count_err data cb) h =
     (connected h \<and> unique h + 1 \<noteq> 0 \<and> type \<noteq> NBD_CMD_DISC \<and>
      (check_command type offset count count_err data h = None \<longrightarrow>
         submit_ok flags type offset count data cb h \<and>
         (state h = READY \<longrightarrow> run_ok e n cmd_issue (queued (new_command flags type offset count data cb h) h))))"
| "permitted e (Completed cookie) h = True"
| "permitted e (Disconnect n flags) h =
     (connected h \<and> unique h + 1 \<noteq> 0 \<and>
      (state h = READY \<longrightarrow> run_ok e n cmd_issue (queued (new_command (ucast flags) NBD_CMD_DISC 0 0 NoData None h) h)))"
| "permitted e (Network s) h = (case sock h of None \<Rightarrow> False | Some s' \<Rightarrow> sent s = sent s')"

lemma dinv_queued:
  "dinv h \<Longrightarrow> \<not> disconnect_request h \<Longrightarrow> c_type cmd \<noteq> NBD_CMD_DISC \<Longrightarrow> dinv (queued cmd h)"
  by (simp add: dinv_def queued_def)

lemma submit_good:
  assumes "good h" and "permitted e (Submit n flags type offset count count_err data cb) h"
  shows "\<exists>h' r. nbd_internal_command_common e n flags type offset count count_err data cb h = Returned h' r \<and> good h'"
proof (cases "check_command type offset count count_err data h")
  case None
  let ?q = "queued (new_command flags type offset count data cb h) h"
  obtain h' where h': "nbd_internal_command_common e n flags type offset count count_err data cb h =
      Returned h' (uint (unique h))" "settled h'" "calm ?q h'"
    using command_common_queued [OF assms(1) _ _ None, of flags cb e n] assms(2) None by (auto simp: connected_def)
  have "dinv ?q"
    using dinv_queued [of h] assms check_command_limits(1) [OF None] by (simp add: good_def new_command_def)
  then show ?thesis using h' dinv_calm by (auto simp: good_def)
next
  case (Some x)
  obtain err msg where "x = (err, msg)" by fastforce
  with Some show ?thesis
    using command_common_refused [OF assms(1), of type offset count count_err data err msg] by blast
qed

lemma completed_good:
  assumes "good h"
  shows "\<exists>h' r. nbd_unlocked_aio_command_completed cookie h = Some (h', r) \<and> good h'"
proof (cases "cookie < 1 \<or> find_cmd cookie (cmds_done h) = None")
  case True
  then show ?thesis using assms good_error by (auto simp: nbd_unlocked_aio_command_completed_def)
next
  case False
  then show ?thesis using command_completed_ok [OF assms, of cookie] by auto
qed

lemma perform_good:
  assumes "good h" and "permitted e c h"
  shows "\<exists>h' r. perform e c h = Returned h' r \<and> good h'"
proof (cases c)
  case (Notify n ev)
  then show ?thesis using assms run_good by fastforce
next
  case (Submit n flags type offset count count_err data cb)
  then show ?thesis using assms submit_good by simp
next
  case (Completed cookie)
  then show ?thesis using completed_good [OF assms(1), of cookie] by auto
next
  case (Disconnect n flags)
  then show ?thesis using assms(2) disconnect_ok [OF assms(1), of e n flags] by (auto simp: connected_def)
next
  case (Network s)
  then have "sock h \<noteq> None" using assms(2) by (auto split: option.splits)
  then have "inv_at st (h\<lparr>sock := Some s\<rparr>) = inv_at st h" for st by (intro inv_at_frame) simp_all
  then show ?thesis using Network assms(1) by (simp add: good_def settled_def inv_def dinv_def)
qed


text \<open>
  The contract of such a machine: a permitted call returns and keeps what is good. It is proved
  once that then every session is good and never stuck.
\<close>

inductive session_of :: "('c \<Rightarrow> 's \<Rightarrow> bool) \<Rightarrow> ('c \<Rightarrow> 's \<Rightarrow> 's option) \<Rightarrow> 's \<Rightarrow> 'c list \<Rightarrow> 's \<Rightarrow> bool"
  for permits :: "'c \<Rightarrow> 's \<Rightarrow> bool" and act :: "'c \<Rightarrow> 's \<Rightarrow> 's option" and s0 :: 's where
  session_start: "session_of permits act s0 [] s0"
| session_call: "session_of permits act s0 cs s \<Longrightarrow> permits c s \<Longrightarrow> act c s = Some s' \<Longrightarrow>
    session_of permits act s0 (cs @ [c]) s'"

inductive_simps session_of_Nil: "session_of permits act s0 [] s"
inductive_cases session_of_snoc: "session_of permits act s0 (cs @ [c]) s"

locale safe_machine =
  fixes permits :: "'c \<Rightarrow> 's \<Rightarrow> bool"
    and act :: "'c \<Rightarrow> 's \<Rightarrow> 's option"
    and good :: "'s \<Rightarrow> bool"
  assumes act_good: "good s \<Longrightarrow> permits c s \<Longrightarrow> \<exists>s'. act c s = Some s' \<and> good s'"
begin

lemma session_good: "session_of permits act s0 cs s \<Longrightarrow> good s0 \<Longrightarrow> good s"
proof (induction rule: session_of.induct)
  case (session_call cs s c s')
  then show ?case using act_good [of s c] by auto
qed

lemma session_never_stuck:
  "session_of permits act s0 cs s \<Longrightarrow> good s0 \<Longrightarrow> permits c s \<Longrightarrow> \<exists>s'. act c s = Some s'"
  using act_good session_good by blast

end

definition after :: "outcome \<Rightarrow> nbd_handle option" where
  "after out = (case out of Returned h r \<Rightarrow> Some h | Aborted \<Rightarrow> None | Out_of_fuel \<Rightarrow> None)"

interpretation nbd: safe_machine "permitted e" "\<lambda>c h. after (perform e c h)" good for e
  by unfold_locales (use perform_good in \<open>fastforce simp: after_def\<close>)

end
