(* ===== verification/NBD_Examples.thy ===== *)
theory NBD_Examples
  imports NBD_Session
begin

text \<open>
  Concrete handles on which the properties are applied: a connection that is ready, with an
  export of 4096 bytes, over a transport that takes what it is given and has nothing to say.
\<close>

text \<open>No TLS and no connecting: the arguments of the model that stand for code outside it.\<close>

definition no_env :: env where
  "no_env = \<lparr>env_crypto = \<lparr>crypto_create_session = (\<lambda>h. (h, None)), crypto_is_reading = (\<lambda>h. False),
     crypto_handshake = (\<lambda>h. (h, -1))\<rparr>, env_connect = (\<lambda>_ _. None)\<rparr>"

definition quiet_sock :: socket where
  "quiet_sock = \<lparr>rx = [], tx = [TxAccept 100], sent = [], pending_answers = [], shut_answers = []\<rparr>"

definition ready_handle :: nbd_handle where
  "ready_handle = initial_handle\<lparr>state := READY, blocked := True, sock := Some quiet_sock,
     exportsize := 4096, eflags := 1\<rparr>"

definition extended_handle :: nbd_handle where
  "extended_handle = ready_handle\<lparr>extended_headers := True, structured_replies := True\<rparr>"

lemmas handle_defs = ready_handle_def extended_handle_def initial_handle_def quiet_sock_def

lemmas good_defs = good_def settled_def inv_def dinv_def qinv_def conn_def ipend_def shut_ok_def ridle_def
  last_cookie_def

lemma ready_good [simp]: "good ready_handle"
  by (simp add: handle_defs good_defs)

lemma extended_good [simp]: "good extended_handle"
  by (simp add: handle_defs good_defs)

lemma good_inv: "good h \<Longrightarrow> inv h"
  by (simp add: good_def settled_def)

lemma rank_le: "rank s \<le> 40"
proof (cases s)
  case (ISSUE_COMMAND i)
  then show ?thesis by (cases i) simp_all
next
  case (REPLY r)
  have "chunk_rank c \<le> 40" for c using chunk_rank_le [of c] by simp
  with REPLY show ?thesis by (cases r rule: reply_rank.cases) simp_all
qed simp_all

lemma turns_le: "turns (h\<lparr>state := s\<rparr>) \<le> 64 * (pending_left h + length (cmds_to_issue h)) + 40"
  using rank_le [of s] by (simp add: turns_def work_def pending_left_def)

text \<open>On the handle with extended headers a run of a hundred turns is enough for any event.\<close>

lemma extended_run_ok: "run_ok no_env 100 notify_read extended_handle"
proof (rule run_ok_extended)
  show "turns (extended_handle\<lparr>state := s\<rparr>) < 100" for s
    using turns_le [of s extended_handle] by (simp add: handle_defs pending_left_def)
qed (simp_all add: good_inv, simp_all add: handle_defs)

end
