(* ===== verification/NBD_Wire.thy ===== *)
theory NBD_Wire
  imports NBD_Examples
begin

text \<open>
  What goes over the wire: requests, and the bytes of a stream however the transport cuts them.
\<close>

section \<open>Requests\<close>

text \<open>
  C20. The request that the issuing state puts into the send buffer is read back by the peer as
  exactly the command: flags, type, cookie, offset and, without truncation, the count, in the
  layout of the negotiated headers.
\<close>

theorem request_roundtrip:
  assumes "cmds_to_issue h = cmd # rest" and "wlen h = 0" and "\<not> in_write_shutdown h"
    and "\<not> extended_headers h \<longrightarrow> c_count cmd \<le> 0xFFFFFFFF"
  shows "\<exists>h'. enter_ISSUE_COMMAND_START h = Some (h', 0) \<and> next_state h' = ISSUE_COMMAND SEND_REQUEST \<and>
    (if extended_headers h
     then nbd_request_ext_of_bytes (take (wlen h') (wbuf h')) =
       \<lparr>rx_magic = NBD_EXTENDED_REQUEST_MAGIC, rx_flags = c_flags cmd, rx_type = c_type cmd,
        rx_cookie = c_cookie cmd, rx_offset = c_offset cmd, rx_count = c_count cmd\<rparr>
     else nbd_request_of_bytes (take (wlen h') (wbuf h')) =
       \<lparr>rq_magic = NBD_REQUEST_MAGIC, rq_flags = c_flags cmd, rq_type = c_type cmd,
        rq_cookie = c_cookie cmd, rq_offset = c_offset cmd, rq_count = ucast (c_count cmd)\<rparr> \<and>
       unat (ucast (c_count cmd) :: u32) = unat (c_count cmd))"
proof -
  let ?eh = "extended_headers h"
  have wire: "take (request_size ?eh) (rd_bytes (fill_header ?eh cmd (req h)) 0 sizeof_request_ext) = request_header ?eh cmd"
    using fill_header_bytes [of ?eh cmd "req h"] rd_bytes_split [of "fill_header ?eh cmd (req h)" 0 28 4]
    by (cases ?eh) (simp_all add: length_request_header)
  have count: "unat (ucast w :: u32) = unat w" if "w \<le> 0xFFFFFFFF" for w :: u64
    using that by (simp add: unsigned_ucast_eq unsigned_take_bit_eq take_bit_eq_mod word_le_nat_alt)
  show ?thesis
    using assms wire count nbd_request_of_bytes_append [of _ "[]"] nbd_request_ext_of_bytes_append [of _ "[]"]
    by (auto simp: enter_ISSUE_COMMAND_START_def fill_request_def SET_NEXT_STATE_def SET_NEXT_STATE_AND_BLOCK_def
        return0_def Let_def request_header_def split: if_splits)
qed


definition flush_command :: command where
  "flush_command = new_command 0 NBD_CMD_FLUSH 0 0 NoData None ready_handle"

theorem request_roundtrip_witness:
  "\<exists>h'. enter_ISSUE_COMMAND_START (ready_handle\<lparr>cmds_to_issue := [flush_command]\<rparr>) = Some (h', 0) \<and>
     rq_type (nbd_request_of_bytes (take (wlen h') (wbuf h'))) = NBD_CMD_FLUSH \<and>
     rq_cookie (nbd_request_of_bytes (take (wlen h') (wbuf h'))) = 1"
  using request_roundtrip [of "ready_handle\<lparr>cmds_to_issue := [flush_command]\<rparr>" flush_command "[]"]
  by (auto simp: handle_defs flush_command_def new_command_def)

section \<open>Streams\<close>

text \<open>
  C24. Sending loses, repeats and reorders nothing: whatever part of the buffer the transport
  takes, what was sent so far followed by what is left in the buffer stays the same; the answer 0
  means that all of it was sent.
\<close>

theorem send_stream_exact:
  assumes "sock h = Some s" and "send_from_wbuf h = Some (h', r)"
  shows "\<exists>s'. sock h' = Some s' \<and>
    sent s' @ take (wlen h') (wbuf h') = sent s @ take (wlen h) (wbuf h) \<and> (r = 0 \<longrightarrow> wlen h' = 0)"
proof (cases "wlen h = 0")
  case True
  then show ?thesis using assms by (auto simp: send_from_wbuf_def)
next
  case False
  let ?bs = "take (wlen h) (wbuf h)"
  have len: "wlen h \<le> length (wbuf h)" using assms False by (auto simp: send_from_wbuf_def split: if_splits)
  obtain res s' where sd: "sock_send ?bs s = (res, s')" by fastforce
  show ?thesis
  proof (cases res)
    case (SockOk as)
    note rest = sk.send_then_rest [OF sd [unfolded SockOk]]
    obtain n where n: "as = take n ?bs" using sk.send_prefix [OF sd [unfolded SockOk]] by blast
    have "take (wlen h - length as) (drop (length as) (wbuf h)) = drop (length as) ?bs"
      by (simp add: drop_take)
    with rest show ?thesis using assms False len sd SockOk
      by (auto simp: send_from_wbuf_def Let_def split: if_splits)
  next
    case SockAgain
    then have "sent s' = sent s" using sd by (auto simp: sock_send.simps split: list.splits tx_event.splits)
    then show ?thesis using assms False len sd SockAgain by (auto simp: send_from_wbuf_def)
  next
    case (SockErr e)
    then have "sent s' = sent s" using sd by (auto simp: sock_send.simps split: list.splits tx_event.splits)
    then show ?thesis using assms False len sd SockErr by (auto simp: send_from_wbuf_def set_error_def)
  qed
qed

theorem send_stream_exact_witness:
  "\<exists>h' s'. send_from_wbuf (ready_handle\<lparr>wbuf := [1, 2, 3], wlen := 3\<rparr>) = Some (h', 0) \<and> sock h' = Some s' \<and>
     sent s' = [1, 2, 3]"
proof -
  let ?h = "ready_handle\<lparr>wbuf := [1, 2, 3], wlen := 3\<rparr>"
  obtain h' where h': "send_from_wbuf ?h = Some (h', 0)"
    by (simp add: send_from_wbuf_def handle_defs sock_send.simps)
  have "sock ?h = Some quiet_sock" by (simp add: ready_handle_def)
  from send_stream_exact [OF this h'] h' show ?thesis by (auto simp: handle_defs)
qed

lemma upd_upd_cmd: "(\<And>c. c_cookie (f c) = c_cookie c) \<Longrightarrow> upd_cmd k g (upd_cmd k f cs) = upd_cmd k (g \<circ> f) cs"
  by (induction cs) auto

lemma buf_write_append:
  "(buf_write buf off as \<bind> (\<lambda>b. buf_write b (off + length as) bs)) = buf_write buf off (as @ bs)"
proof (cases "off + length (as @ bs) \<le> length buf")
  case True
  then have "min (length buf) off = off" "min (length buf) (off + length as) = off + length as" by simp_all
  with True show ?thesis by (simp add: buf_write_def ac_simps)
qed (auto simp: buf_write_def)

lemma store_fragments_eq: "(store_rbuf as h \<bind> store_rbuf bs) = store_rbuf (as @ bs) h"
proof (cases "rbuf h")
  case (RData k off)
  show ?thesis
  proof (cases "find_cmd k (cmds_in_flight h)")
    case (Some c)
    then have ck: "c_cookie c = k" by (rule find_cmd_cookie)
    show ?thesis
    proof (cases "c_data c")
      case d: (Some d)
      have f: "find_cmd k (upd_cmd k (c_data_update (\<lambda>_. Some b)) (cmds_in_flight h)) = Some (c\<lparr>c_data := Some b\<rparr>)" for b
        using Some by (simp add: find_upd_cmd)
      show ?thesis using RData Some d f buf_write_append [of d off as bs]
        by (cases "buf_write d off as"; cases "buf_write d off (as @ bs)")
          (auto simp: store_rbuf.simps upd_upd_cmd comp_def add.assoc)
    qed (use RData Some in \<open>simp add: store_rbuf.simps\<close>)
  qed (use RData in \<open>simp add: store_rbuf.simps\<close>)
next
  case (RBsRaw off)
  then show ?thesis using buf_write_append [of "bs_raw h" off as bs]
    by (cases "buf_write (bs_raw h) off as"; cases "buf_write (bs_raw h) off (as @ bs)")
      (auto simp: store_rbuf.simps add.assoc)
qed (auto simp: store_rbuf.simps mem_write_append add.assoc)


text \<open>
  It does not matter how the transport cuts the incoming bytes: storing them in two pieces
  leaves the same buffers, in the same place, as storing them at once, and goes wrong exactly
  when that does.
\<close>

theorem store_fragments:
  "(store_rbuf as h \<bind> store_rbuf bs) = store_rbuf (as @ bs) h"
  by (rule store_fragments_eq)

text \<open>The buffers a receive may write, and the same receive from a handle with the same buffers.\<close>

definition bufs :: "nbd_handle \<Rightarrow> rptr \<times> mem \<times> command list \<times> u8 list" where
  "bufs h = (rbuf h, sbuf h, cmds_in_flight h, bs_raw h)"

lemma store_bufs: "bufs g = bufs h \<Longrightarrow> map_option bufs (store_rbuf bs g) = map_option bufs (store_rbuf bs h)"
proof -
  assume "bufs g = bufs h"
  then have e: "rbuf g = rbuf h" "sbuf g = sbuf h" "cmds_in_flight g = cmds_in_flight h" "bs_raw g = bs_raw h"
    by (simp_all add: bufs_def)
  show ?thesis
    by (auto simp: store_rbuf.simps e bufs_def split: rptr.split Option.bind_split)
qed

text \<open>The bytes went to where \<^verbatim>\<open>rbuf\<close> pointed.\<close>

definition took :: "u8 list \<Rightarrow> nbd_handle \<Rightarrow> nbd_handle \<Rightarrow> bool" where
  "took bs h h' \<longleftrightarrow> (if bs = [] then bufs h' = bufs h else map_option bufs (store_rbuf bs h) = Some (bufs h'))"

lemma took_trans:
  assumes "took as h g" and "took bs g h'"
  shows "took (as @ bs) h h'"
proof (cases "as = [] \<or> bs = []")
  case True
  then show ?thesis using assms store_bufs [of g h bs] by (auto simp: took_def)
next
  case False
  then obtain g' where g': "store_rbuf as h = Some g'" "bufs g' = bufs g"
    using assms(1) by (auto simp: took_def)
  then have "store_rbuf (as @ bs) h = store_rbuf bs g'" using store_fragments_eq [of as h bs] by simp
  with False g' assms(2) store_bufs [OF g'(2), of bs] show ?thesis by (simp add: took_def)
qed

lemma recv_once:
  assumes "sock h = Some s" and "recv_into_rbuf h = Some (h', r)" and "r \<noteq> -1"
  shows "\<exists>bs s'. sock h' = Some s' \<and> rx_bytes (rx s) = bs @ rx_bytes (rx s') \<and> length bs + rlen h' = rlen h \<and>
    took bs h h' \<and> (r = 0 \<longleftrightarrow> rlen h' = 0)"
proof (cases "rlen h = 0")
  case True
  then show ?thesis using assms by (auto simp: recv_into_rbuf_def took_def intro!: exI [of _ "[]"])
next
  case False
  define n where "n = (if rbuf h = RNull then min (rlen h) BUFSIZ else rlen h)"
  obtain res s' where rv: "sock_recv n s = (res, s')" by fastforce
  show ?thesis
  proof (cases res)
    case (SockOk bs)
    have ne: "bs \<noteq> []" using assms False rv SockOk by (auto simp: recv_into_rbuf_def n_def)
    have len: "length bs \<le> rlen h"
      using sk.recv_len [of n s bs s'] rv SockOk by (auto simp: n_def split: if_splits)
    obtain g where g: "store_rbuf bs (h\<lparr>sock := Some s'\<rparr>) = Some g"
      and h': "h' = g\<lparr>bytes_received := bytes_received g + of_nat (length bs), rlen := rlen g - length bs\<rparr>"
        "r = (if rlen h' = 0 then 0 else 1)"
      using assms False rv SockOk ne by (auto simp: recv_into_rbuf_def n_def Let_def split: Option.bind_splits)
    have gk: "sock g = Some s'" "rlen g = rlen h"
      using g by (auto simp: store_rbuf.simps split: rptr.splits if_splits Option.bind_splits)
    have "map_option bufs (store_rbuf bs h) = Some (bufs g)"
      using store_bufs [of "h\<lparr>sock := Some s'\<rparr>" h bs] g by (simp add: bufs_def)
    moreover have "bufs h' = bufs g" by (simp add: h' bufs_def)
    ultimately show ?thesis
      using sk.recv_stream [of n s bs s'] rv SockOk ne len gk h' by (auto simp: took_def intro!: exI [of _ bs])
  next
    case SockAgain
    then have "rx_bytes (rx s') = rx_bytes (rx s)"
      using rv by (auto simp: sock_recv.simps split: list.splits rx_event.splits if_splits)
    then show ?thesis using assms False rv SockAgain
      by (auto simp: recv_into_rbuf_def n_def took_def bufs_def intro!: exI [of _ "[]"])
  next
    case (SockErr e)
    then show ?thesis using assms False rv by (auto simp: recv_into_rbuf_def n_def)
  qed
qed

text \<open>The receiving state is entered again and again until all the bytes it waits for are there.\<close>

fun recv_many :: "nat \<Rightarrow> nbd_handle \<Rightarrow> (nbd_handle \<times> int) option" where
  "recv_many 0 h = Some (h, 1)"
| "recv_many (Suc n) h = (case recv_into_rbuf h of None \<Rightarrow> None
     | Some (h', r) \<Rightarrow> if r = 1 then recv_many n h' else Some (h', r))"

lemma recv_many_stream:
  "recv_many n h = Some (h', 0) \<Longrightarrow> sock h = Some s \<Longrightarrow>
     \<exists>bs s'. sock h' = Some s' \<and> rx_bytes (rx s) = bs @ rx_bytes (rx s') \<and> length bs = rlen h \<and> took bs h h'"
proof (induction n arbitrary: h s)
  case (Suc n)
  obtain g r where g: "recv_into_rbuf h = Some (g, r)" "if r = 1 then recv_many n g = Some (h', 0) else g = h' \<and> r = 0"
    using Suc.prems(1) by (auto split: option.splits if_splits)
  then have "r \<noteq> -1" by auto
  from recv_once [OF Suc.prems(2) g(1) this] obtain bs s1 where
    b: "sock g = Some s1" "rx_bytes (rx s) = bs @ rx_bytes (rx s1)" "length bs + rlen g = rlen h" "took bs h g"
      "r = 0 \<longleftrightarrow> rlen g = 0" by metis
  show ?case
  proof (cases "r = 1")
    case True
    with g(2) Suc.IH [OF _ b(1)] obtain cs s2 where
      "sock h' = Some s2" "rx_bytes (rx s1) = cs @ rx_bytes (rx s2)" "length cs = rlen g" "took cs g h'" by auto
    with b took_trans [OF b(4)] show ?thesis by (intro exI [of _ "bs @ cs"] exI [of _ s2]) auto
  next
    case False
    with g(2) b show ?thesis by auto
  qed
qed simp



definition reading_handle :: nbd_handle where
  "reading_handle = ready_handle\<lparr>sock := Some (quiet_sock\<lparr>rx := [RxData [7], RxAgain, RxData [8, 9, 10]]\<rparr>),
     cmds_in_flight := [new_command 0 NBD_CMD_READ 0 3 (Buf [0, 0, 0]) None ready_handle], rbuf := RData 1 0, rlen := 3\<rparr>"


end
