(* ===== verification/NBD_Limits.thy ===== *)
theory NBD_Limits
  imports NBD_Examples
begin

text \<open>
  Limits and checks: which commands are accepted, what the export may advertise, how replies
  are bounded.
\<close>

section \<open>Submission\<close>

text \<open>
  The limits of a command in plain arithmetic. \<open>align\<close> is the minimum block size, of which offset
  and count have to be multiples.
\<close>

definition within_limits :: "u16 \<Rightarrow> nat \<Rightarrow> nat \<Rightarrow> bool \<Rightarrow> cmd_data \<Rightarrow> nbd_handle \<Rightarrow> bool" where
  "within_limits type offset count checked data h \<longleftrightarrow>
     \<not> disconnect_request h \<and> in_flight h \<noteq> INT_MAX \<and>
     (checked \<longrightarrow>
       (is_strict h LIBNBD_STRICT_ZERO_SIZE \<longrightarrow> count > 0) \<and>
       (is_strict h LIBNBD_STRICT_BOUNDS \<longrightarrow> offset + count \<le> unat (exportsize h)) \<and>
       (is_strict h LIBNBD_STRICT_ALIGN \<and> block_minimum h \<noteq> 0 \<longrightarrow>
          unat (block_minimum h) dvd offset \<and> unat (block_minimum h) dvd count)) \<and>
     (if type = NBD_CMD_READ \<or> type = NBD_CMD_WRITE then
        count \<le> MAX_REQUEST_SIZE \<and>
        (type = NBD_CMD_WRITE \<and> is_strict h LIBNBD_STRICT_PAYLOAD \<longrightarrow> count \<le> unat (payload_maximum h))
      else case (type = NBD_CMD_BLOCK_STATUS, data) of
        (True, Ids ids) \<Rightarrow> 4 * length ids \<le> MAX_REQUEST_SIZE \<and>
          (is_strict h LIBNBD_STRICT_PAYLOAD \<longrightarrow> 4 * length ids \<le> unat (payload_maximum h))
      | _ \<Rightarrow> extended_headers h \<or> count < 2 ^ 32)"

lemma ucast_mask: "k < 32 \<Longrightarrow> ucast (2 ^ k - 1 :: u32) = (mask k :: u64)"
  unfolding mask_eq_exp_minus_1 [symmetric]
  by (rule bit_word_eqI) (auto simp: bit_ucast_iff bit_mask_iff)

lemma low_bits: "take_bit k w = 0 \<longleftrightarrow> 2 ^ k dvd unat w" for w :: u64
proof -
  have "take_bit k w = 0 \<longleftrightarrow> unat (take_bit k w) = 0" by (simp only: unat_eq_zero)
  also have "unat (take_bit k w) = take_bit k (unat w)" by (rule unsigned_take_bit_eq)
  also have "\<dots> = unat w mod 2 ^ k" by (rule take_bit_eq_mod)
  finally show ?thesis by (simp add: mod_eq_0_iff_dvd)
qed

lemma unat_power2: "k < 32 \<Longrightarrow> unat (2 ^ k :: u32) = 2 ^ k"
  using unat_of_nat [of "2 ^ k", where 'a = 32] power_strict_increasing [of k 32 "2 :: nat"] by simp

lemma aligned_iff:
  fixes a b :: u64 and m :: u32
  assumes "m = 2 ^ k" and "k < 32"
  shows "(a OR b) AND ucast (m - 1) = 0 \<longleftrightarrow> unat m dvd unat a \<and> unat m dvd unat b"
proof -
  have "unat m = 2 ^ k" using assms by (simp add: unat_power2)
  moreover have "(a OR b) AND ucast (m - 1) = take_bit k a OR take_bit k b"
    using ucast_mask [OF assms(2)] by (simp add: assms(1) take_bit_eq_mask bit.conj_disj_distrib2)
  ultimately show ?thesis by (simp add: low_bits or_eq_0_iff)
qed


lemma refuse_iff: "(if b then Some x else y) = None \<longleftrightarrow> \<not> b \<and> y = None"
  and accept_iff: "(if b then None else y) = None \<longleftrightarrow> b \<or> y = None"
  by simp_all

lemma bounds_iff:
  "\<not> (offset > size \<or> count > size - offset) \<longleftrightarrow> unat offset + unat count \<le> unat size" for offset size count :: u64
proof (cases "offset \<le> size")
  case True
  then show ?thesis by (auto simp: not_less word_le_nat_alt unat_sub)
qed (auto simp: not_le not_less word_less_nat_alt)

text \<open>
  C26. The checks of a command are exactly the documented limits: in 64-bit arithmetic, with the
  test of the bounds written so that it cannot overflow and the test of the alignment on the low
  bits, a command passes if and only if it is within the limits in plain arithmetic.
\<close>

theorem check_command_exact:
  assumes "block_minimum h = 0 \<or> (\<exists>k < 32. block_minimum h = 2 ^ k)"
  shows "check_command type offset count count_err data h = None \<longleftrightarrow>
    within_limits type (unat offset) (unat count) (count_err \<noteq> 0) data h"
proof -
  have al: "block_minimum h \<noteq> 0 \<Longrightarrow> (offset OR count) AND ucast (block_minimum h - 1) = 0 \<longleftrightarrow>
      unat (block_minimum h) dvd unat offset \<and> unat (block_minimum h) dvd unat count"
    using assms aligned_iff by blast
  have z: "count = 0 \<longleftrightarrow> unat count = 0" by (simp only: unat_eq_zero)
  have big: "count \<le> of_nat MAX_REQUEST_SIZE \<longleftrightarrow> unat count \<le> MAX_REQUEST_SIZE"
    "count \<le> UINT32_MAX \<longleftrightarrow> unat count < 2 ^ 32" "count \<le> ucast (payload_maximum h) \<longleftrightarrow> unat count \<le> unat (payload_maximum h)"
    by (auto simp: word_le_nat_alt)
  have "check_command type offset count count_err data h = None \<longleftrightarrow>
      \<not> disconnect_request h \<and> in_flight h \<noteq> INT_MAX \<and>
      (count_err \<noteq> 0 \<longrightarrow> (is_strict h LIBNBD_STRICT_ZERO_SIZE \<longrightarrow> count \<noteq> 0) \<and>
        (is_strict h LIBNBD_STRICT_BOUNDS \<longrightarrow> \<not> (offset > exportsize h \<or> count > exportsize h - offset)) \<and>
        (is_strict h LIBNBD_STRICT_ALIGN \<and> block_minimum h \<noteq> 0 \<longrightarrow>
           (offset OR count) AND ucast (block_minimum h - 1) = 0)) \<and>
      (if type = NBD_CMD_READ \<or> type = NBD_CMD_WRITE then count \<le> of_nat MAX_REQUEST_SIZE \<and>
         (type = NBD_CMD_WRITE \<and> is_strict h LIBNBD_STRICT_PAYLOAD \<longrightarrow> count \<le> ucast (payload_maximum h))
       else case (type = NBD_CMD_BLOCK_STATUS, data) of
         (True, Ids ids) \<Rightarrow> 4 * length ids \<le> MAX_REQUEST_SIZE \<and>
           (is_strict h LIBNBD_STRICT_PAYLOAD \<longrightarrow> 4 * length ids \<le> unat (payload_maximum h))
       | _ \<Rightarrow> extended_headers h \<or> count \<le> UINT32_MAX)"
    unfolding check_command_def refuse_iff accept_iff
    by (cases "type = NBD_CMD_BLOCK_STATUS"; cases data) (simp_all add: refuse_iff not_less, blast+)
  then show ?thesis
    unfolding within_limits_def bounds_iff big z using al by (cases "block_minimum h = 0") auto
qed

theorem check_command_exact_witness:
  "(check_command NBD_CMD_READ 4000 96 EINVAL (Buf []) ready_handle = None) \<and>
   (check_command NBD_CMD_READ 4000 97 EINVAL (Buf []) ready_handle \<noteq> None)"
  using check_command_exact [of ready_handle NBD_CMD_READ 4000 96 EINVAL "Buf []"]
    check_command_exact [of ready_handle NBD_CMD_READ 4000 97 EINVAL "Buf []"]
  by (simp add: handle_defs within_limits_def is_strict_def)


section \<open>What the server advertises\<close>

lemma nat_and_pred: "n AND (n - 1) = 0 \<Longrightarrow> 0 < n \<Longrightarrow> \<exists>k. n = 2 ^ k" for n :: nat
proof (induction n rule: less_induct)
  case (less n)
  have r: "n AND (n - 1) = of_bool (odd n \<and> odd (n - 1)) + 2 * ((n div 2) AND ((n - 1) div 2))"
    by (rule and_nat_rec)
  show ?case
  proof (cases "even n")
    case True
    then obtain m where n: "n = 2 * m" by blast
    have m: "0 < m" "m < n" using less.prems(2) n by simp_all
    have "(n - 1) div 2 = m - 1" using n by simp
    then have "m AND (m - 1) = 0" using r less.prems(1) n by simp
    from less.IH [OF m(2) this m(1)] obtain k where "m = 2 ^ k" ..
    then have "n = 2 ^ Suc k" by (simp add: n)
    then show ?thesis ..
  next
    case False
    then obtain m where n: "n = 2 * m + 1" by (rule oddE)
    have "m AND m = 0" using r less.prems(1) n by simp
    then have "n = 2 ^ 0" using n by simp
    then show ?thesis ..
  qed
qed

lemma word_power2:
  fixes w :: u32
  assumes "w AND (w - 1) = 0" and "w \<noteq> 0"
  shows "\<exists>k < 32. w = 2 ^ k"
proof -
  have p: "0 < unat w" using assms(2) by (simp add: unat_gt_0)
  have "unat (w - 1) = unat w - 1" using assms(2) by (simp add: unat_minus_one)
  then have "unat w AND (unat w - 1) = 0"
    using arg_cong [OF assms(1), of unat] by (simp add: unsigned_and_eq)
  then obtain k where k: "unat w = 2 ^ k" using nat_and_pred p by blast
  have "unat w < 2 ^ LENGTH(32)" by (rule unsigned_less)
  then have "2 ^ k < (2 :: nat) ^ 32" unfolding k by simp
  then have "k < 32" by (rule power_less_imp_less_exp [rotated]) simp
  moreover have "w = 2 ^ k" by (rule word_unat_eq_iff [THEN iffD2]) (simp add: k unat_power2 [OF \<open>k < 32\<close>])
  ultimately show ?thesis by blast
qed

definition block_sizes_sane :: "nbd_handle \<Rightarrow> bool" where
  "block_sizes_sane h \<longleftrightarrow> block_minimum h = 0 \<and> block_preferred h = 0 \<and> block_maximum h = 0 \<or>
     (\<exists>k l. k \<le> 16 \<and> k \<le> l \<and> 9 \<le> l \<and> l < 32 \<and> unat (block_minimum h) = 2 ^ k \<and> unat (block_preferred h) = 2 ^ l \<and>
       unat (block_preferred h) \<le> unat (block_maximum h) \<and>
       (unat (block_minimum h) dvd unat (block_maximum h) \<or> block_maximum h = 0xffffffff))"

text \<open>
  C34. Block size constraints are stored only when they make sense: whatever three numbers a
  server sends, the stored minimum is 0 or a power of two up to 64K, the preferred size is a power
  of two that is a multiple of it and at least 512, and the maximum is a multiple of the minimum
  or unlimited.
\<close>

theorem block_sizes_kept_sane:
  assumes "block_sizes_sane h"
  shows "block_sizes_sane (fst (nbd_internal_set_block_size bmin pref bmax h))"
proof (cases "block_size_ok bmin pref bmax")
  case True
  then have p: "bmin AND (bmin - 1) = 0" "bmin \<noteq> 0" "pref AND (pref - 1) = 0" "512 \<le> pref"
    by (auto simp: block_size_ok_def not_less)
  have "pref \<noteq> 0" using p(4) by auto
  then obtain k l where k: "k < 32" "bmin = 2 ^ k" and l: "l < 32" "pref = 2 ^ l"
    using word_power2 [of bmin] word_power2 [of pref] p by blast
  have u: "unat bmin = 2 ^ k" "unat pref = 2 ^ l" using k l unat_power2 by simp_all
  have le: "unat bmin \<le> 2 ^ 16" "unat bmin \<le> unat pref" "2 ^ 9 \<le> unat pref" "unat pref \<le> unat bmax"
    using True by (auto simp: block_size_ok_def not_less word_le_nat_alt)
  have "k \<le> 16" using le(1) unfolding u by (rule power_le_imp_le_exp [rotated]) simp
  moreover have "k \<le> l" using le(2) unfolding u by (rule power_le_imp_le_exp [rotated]) simp
  moreover have "9 \<le> l" using le(3) unfolding u by (rule power_le_imp_le_exp [rotated]) simp
  moreover have "unat bmin dvd unat bmax \<or> bmax = 0xffffffff"
  proof -
    have "bmax = 0xffffffff \<or> bmax mod bmin = 0" using True unfolding block_size_ok_def by blast
    moreover have "unat bmax mod unat bmin = unat (bmax mod bmin)" by (simp only: unat_mod_distrib)
    ultimately show ?thesis by (metis mod_eq_0_iff_dvd unat_0)
  qed
  ultimately show ?thesis
    using True l(1) u le by (auto simp: nbd_internal_set_block_size_def block_sizes_sane_def)
next
  case False
  with assms show ?thesis by (simp add: nbd_internal_set_block_size_def)
qed

theorem block_sizes_kept_sane_witness:
  "block_sizes_sane ready_handle \<and> block_sizes_sane (fst (nbd_internal_set_block_size 512 4096 65536 ready_handle)) \<and>
   block_minimum (fst (nbd_internal_set_block_size 512 4096 65536 ready_handle)) = 512"
proof -
  have s: "block_sizes_sane ready_handle" by (simp add: block_sizes_sane_def handle_defs)
  have "block_size_ok 512 4096 65536" by (simp add: block_size_ok_def)
  with block_sizes_kept_sane [OF s, of 512 4096 65536] s show ?thesis by (simp add: nbd_internal_set_block_size_def)
qed


text \<open>
  Flags of the export that contradict each other or the negotiated features are dropped and
  no flag is invented: afterwards the flag for unfragmented reads is there only with structured
  replies, the one for payloads of block status only with extended headers, the one for fast
  zeroes only with the one for zeroes; every other flag is as the server sent it.
\<close>

theorem eflags_consistent:
  "filter_eflags sr eh fl AND NBD_FLAG_SEND_DF = (if sr then fl AND NBD_FLAG_SEND_DF else 0) \<and>
   filter_eflags sr eh fl AND NBD_FLAG_BLOCK_STATUS_PAYLOAD =
     (if eh then fl AND NBD_FLAG_BLOCK_STATUS_PAYLOAD else 0) \<and>
   filter_eflags sr eh fl AND NBD_FLAG_SEND_FAST_ZERO =
     (if fl AND NBD_FLAG_SEND_WRITE_ZEROES \<noteq> 0 then fl AND NBD_FLAG_SEND_FAST_ZERO else 0) \<and>
   filter_eflags sr eh fl AND NOT (NBD_FLAG_SEND_DF OR NBD_FLAG_BLOCK_STATUS_PAYLOAD OR NBD_FLAG_SEND_FAST_ZERO) =
     fl AND NOT (NBD_FLAG_SEND_DF OR NBD_FLAG_BLOCK_STATUS_PAYLOAD OR NBD_FLAG_SEND_FAST_ZERO)"
  by (intro conjI) (simp_all add: filter_eflags_def Let_def and.assoc)

text \<open>
  Whatever block sizes the server advertised, the largest payload the client sends lies
  between 1 MB and 64 MB, and never above the size of the largest request.
\<close>

theorem payload_limit:
  "1024 * 1024 \<le> unat (payload_maximum (nbd_internal_set_payload h)) \<and>
   unat (payload_maximum (nbd_internal_set_payload h)) \<le> MAX_REQUEST_SIZE"
  by (simp add: nbd_internal_set_payload_def word_le_nat_alt min_def max_def)


section \<open>What the server answers\<close>

text \<open>
  C27. The test of the range of a data chunk, which is done in wrapping 64-bit arithmetic, is
  exact for every command that ends below the largest size of an export: it holds exactly when the
  range lies inside the request in plain arithmetic.
\<close>

theorem reply_range_exact:
  assumes "unat (c_offset cmd) + unat (c_count cmd) \<le> 2 ^ 63"
  shows "structured_reply_in_bounds off len cmd \<longleftrightarrow>
    unat (c_offset cmd) \<le> unat off \<and> unat off < unat (c_offset cmd) + unat (c_count cmd) \<and>
    unat off + unat len \<le> unat (c_offset cmd) + unat (c_count cmd)"
  by (rule in_bounds_exact [OF assms])

text \<open>A read of \<open>n\<close> bytes at \<open>off\<close>, into a buffer that is not cleared in advance.\<close>

definition read_at :: "u64 \<Rightarrow> u64 \<Rightarrow> command" where
  "read_at off n = \<lparr>c_flags = 0, c_type = NBD_CMD_READ, c_cookie = 1, c_offset = off, c_count = n,
     c_data = Some (replicate (unat n) 0), c_ids = None,
     c_cb = \<lparr>cb_fn = FnNull, cb_completion = null_cbk, cb_wide = False\<rparr>, c_initialized = False,
     c_data_seen = 0, c_error = 0\<rparr>"

theorem reply_range_exact_witness:
  "structured_reply_in_bounds 1000 536 (read_at 512 1024) \<and> \<not> structured_reply_in_bounds 1000 537 (read_at 512 1024)"
  using reply_range_exact [of "read_at 512 1024" 1000 536] reply_range_exact [of "read_at 512 1024" 1000 537]
  by (simp add: read_at_def)

text \<open>
  A handle in the middle of a chunk that announces a hole of \<open>len\<close> bytes at \<open>off\<close>, for the read
  of \<open>n\<close> bytes at \<open>start\<close>.
\<close>

definition hole_handle :: "u64 \<Rightarrow> u64 \<Rightarrow> u64 \<Rightarrow> u32 \<Rightarrow> nbd_handle" where
  "hole_handle start n off len = extended_handle\<lparr>cmds_in_flight := [read_at start n], reply_cmd := Some 1,
     in_flight := 1, state := REPLY (CHUNK_REPLY RECV_OFFSET_HOLE),
     sbuf := mem_write (sbuf extended_handle) payload_off (htobe64 off @ htobe32 len)\<rparr>"

lemma hole:
  "offset_hole_offset (mem_write m payload_off (htobe64 off @ htobe32 len)) = off"
  "offset_hole_length (mem_write m payload_off (htobe64 off @ htobe32 len)) = len"
  by (simp_all add: offset_hole_offset_def offset_hole_length_def rd_bytes_inside)


text \<open>
  C28. The extents that a block status reply hands to the user are sane whatever the server sent:
  the handler that prepares them does not fail, there is at least one, together they stay inside
  the export, each fits the width of the callback, and an empty extent is passed on only alone and
  with an error.
\<close>

theorem extents_within_export:
  assumes "raw \<noteq> []" and "\<forall>e \<in> set raw. narrow \<longrightarrow> narrow_ok e"
  shows "\<exists>exts err'. cook_extents narrow wide (extent_cap sz off) raw 0 err [] = Some (exts, err') \<and>
    exts \<noteq> [] \<and> length exts \<le> length raw \<and>
    total_length exts \<le> unat sz - unat off \<and> (\<forall>e \<in> set exts. \<not> wide \<longrightarrow> narrow_ok e) \<and>
    ((\<exists>e \<in> set exts. fst e = 0) \<longrightarrow> length exts = 1 \<and> err' \<noteq> 0) \<and> (err \<noteq> 0 \<longrightarrow> err' = err)"
proof -
  have "unat (extent_cap sz off) = unat sz - unat off"
    by (auto simp: extent_cap_def unat_sub word_le_nat_alt not_le)
  then show ?thesis
    using cook_extents_ok [of 0 "extent_cap sz off" raw narrow "[]" wide err] assms
    by (auto simp: cooked_ok_def)
qed

theorem extents_within_export_witness:
  "\<exists>exts err'. cook_extents True False (extent_cap 4096 4000) [(64, 0), (512, 1)] 0 0 [] = Some (exts, err') \<and>
     total_length exts \<le> 96"
  using extents_within_export [of "[(64, 0), (512, 1)]" True False 4096 4000 0]
  by (auto simp: narrow_ok_def)

text \<open>
  A server that keeps to the protocol is passed on unchanged: descriptors that are not empty,
  fit the callback and stay inside the export reach the user as they were sent, without an error.
\<close>

theorem extents_passed_on:
  assumes "\<forall>e \<in> set raw. conforming narrow wide e" and "total_length raw \<le> unat sz - unat off"
  shows "cook_extents narrow wide (extent_cap sz off) raw 0 0 [] = Some (raw, 0)"
proof -
  have "unat (extent_cap sz off) = unat sz - unat off"
    by (auto simp: extent_cap_def unat_sub word_le_nat_alt not_le)
  then show ?thesis using cook_extents_conforming [OF assms(1), of 0 "extent_cap sz off" 0 "[]"] assms(2) by simp
qed

theorem extents_passed_on_witness:
  "cook_extents True False (extent_cap 4096 4000) [(64, 0), (32, 1)] 0 0 [] = Some ([(64, 0), (32, 1)], 0)"
  by (rule extents_passed_on) (simp_all add: conforming_def narrow_ok_def)

end
