(* ===== verification/NBD_Opt.thy ===== *)
theory NBD_Opt
  imports NBD_Config
begin

text \<open>
  The commands of option negotiation (\<^verbatim>\<open>lib/opt.c\<close>): each stores the option and its callbacks
  and kicks the state machine, whose failure it ignores. TLS support is compiled in.
\<close>

text \<open>\<open>debug (h, ''option queued, ignoring state machine failure'')\<close>: the call still returns 0.\<close>

definition issue_option :: "env \<Rightarrow> nat \<Rightarrow> nbd_handle \<Rightarrow> outcome" where
  "issue_option e fuel h =
     (case nbd_internal_run e fuel cmd_issue h of
        Returned h r \<Rightarrow> Returned h 0
      | Aborted \<Rightarrow> Aborted
      | Out_of_fuel \<Rightarrow> Out_of_fuel)"

definition set_opt_completion :: "u8 \<Rightarrow> completion_fn cbk \<Rightarrow> nbd_handle \<Rightarrow> nbd_handle" where
  "set_opt_completion opt complete h =
     h\<lparr>opt_current := opt, opt_cb := (opt_cb h)\<lparr>cb_completion := complete\<rparr>\<rparr>"

text \<open>As for commands, the answer says whether the callbacks were taken over.\<close>

definition unless_fixed_newstyle :: "(nbd_handle \<Rightarrow> outcome) \<Rightarrow> nbd_handle \<Rightarrow> submission" where
  "unless_fixed_newstyle f h =
     (if \<not> fixed_newstyle h then refuse ENOTSUP ''server is not using fixed newstyle protocol'' h
      else (True, f h))"

definition nbd_unlocked_aio_opt_go :: "env \<Rightarrow> nat \<Rightarrow> completion_fn cbk \<Rightarrow> nbd_handle \<Rightarrow> submission" where
  "nbd_unlocked_aio_opt_go e fuel complete h =
     (True, issue_option e fuel (set_opt_completion NBD_OPT_GO complete h))"

definition nbd_unlocked_aio_opt_info :: "env \<Rightarrow> nat \<Rightarrow> completion_fn cbk \<Rightarrow> nbd_handle \<Rightarrow> submission" where
  "nbd_unlocked_aio_opt_info e fuel complete =
     unless_fixed_newstyle (\<lambda>h. issue_option e fuel (set_opt_completion NBD_OPT_INFO complete h))"

definition nbd_unlocked_aio_opt_abort :: "env \<Rightarrow> nat \<Rightarrow> nbd_handle \<Rightarrow> outcome" where
  "nbd_unlocked_aio_opt_abort e fuel h = issue_option e fuel (h\<lparr>opt_current := NBD_OPT_ABORT\<rparr>)"

definition nbd_unlocked_aio_opt_starttls :: "env \<Rightarrow> nat \<Rightarrow> completion_fn cbk \<Rightarrow> nbd_handle \<Rightarrow> submission" where
  "nbd_unlocked_aio_opt_starttls e fuel complete =
     unless_fixed_newstyle (\<lambda>h. issue_option e fuel (set_opt_completion NBD_OPT_STARTTLS complete h))"

definition nbd_unlocked_aio_opt_extended_headers ::
    "env \<Rightarrow> nat \<Rightarrow> completion_fn cbk \<Rightarrow> nbd_handle \<Rightarrow> submission" where
  "nbd_unlocked_aio_opt_extended_headers e fuel complete =
     unless_fixed_newstyle (\<lambda>h.
       issue_option e fuel (set_opt_completion NBD_OPT_EXTENDED_HEADERS complete h))"

definition nbd_unlocked_aio_opt_structured_reply ::
    "env \<Rightarrow> nat \<Rightarrow> completion_fn cbk \<Rightarrow> nbd_handle \<Rightarrow> submission" where
  "nbd_unlocked_aio_opt_structured_reply e fuel complete =
     unless_fixed_newstyle (\<lambda>h.
       issue_option e fuel (set_opt_completion NBD_OPT_STRUCTURED_REPLY complete h))"

text \<open>The options with a callback of their own assert that none is stored.\<close>

definition set_opt_fn :: "cb_fn \<Rightarrow> nbd_handle \<Rightarrow> nbd_handle" where
  "set_opt_fn fn h = h\<lparr>opt_cb := (opt_cb h)\<lparr>cb_fn := fn\<rparr>\<rparr>"

definition nbd_unlocked_aio_opt_list ::
    "env \<Rightarrow> nat \<Rightarrow> list_fn cbk \<Rightarrow> completion_fn cbk \<Rightarrow> nbd_handle \<Rightarrow> submission" where
  "nbd_unlocked_aio_opt_list e fuel list complete =
     unless_fixed_newstyle (\<lambda>h.
       if \<not> fn_is_null (cb_fn (opt_cb h)) then Aborted
       else issue_option e fuel (set_opt_completion NBD_OPT_LIST complete (set_opt_fn (FnList list) h)))"

definition aio_opt_meta_context_queries ::
    "env \<Rightarrow> nat \<Rightarrow> u8 \<Rightarrow> cstr list option \<Rightarrow> context_fn cbk \<Rightarrow> completion_fn cbk \<Rightarrow> nbd_handle
     \<Rightarrow> submission" where
  "aio_opt_meta_context_queries e fuel opt queries context complete =
     unless_fixed_newstyle (\<lambda>h.
       let h = nbd_internal_set_querylist queries h
       in if \<not> fn_is_null (cb_fn (opt_cb h)) then Aborted
          else issue_option e fuel (set_opt_completion opt complete (set_opt_fn (FnContext context) h)))"

definition nbd_unlocked_aio_opt_list_meta_context where
  "nbd_unlocked_aio_opt_list_meta_context e fuel context complete =
     aio_opt_meta_context_queries e fuel NBD_OPT_LIST_META_CONTEXT None context complete"

definition nbd_unlocked_aio_opt_list_meta_context_queries where
  "nbd_unlocked_aio_opt_list_meta_context_queries e fuel queries context complete =
     aio_opt_meta_context_queries e fuel NBD_OPT_LIST_META_CONTEXT (Some queries) context complete"

definition nbd_unlocked_aio_opt_set_meta_context where
  "nbd_unlocked_aio_opt_set_meta_context e fuel context complete =
     aio_opt_meta_context_queries e fuel NBD_OPT_SET_META_CONTEXT None context complete"

definition nbd_unlocked_aio_opt_set_meta_context_queries where
  "nbd_unlocked_aio_opt_set_meta_context_queries e fuel queries context complete =
     aio_opt_meta_context_queries e fuel NBD_OPT_SET_META_CONTEXT (Some queries) context complete"

end
