(* ===== verification/NBD_Poll.thy ===== *)
theory NBD_Poll
  imports NBD_Opt
begin

text \<open>
  The main loop over \<^verbatim>\<open>poll(2)\<close> (\<^verbatim>\<open>lib/poll.c\<close>) and the calls that wait in it: the blocking commands
  (\<^verbatim>\<open>lib/rw.c\<close>), the blocking options (\<^verbatim>\<open>lib/opt.c\<close>), connecting (\<^verbatim>\<open>lib/connect.c\<close>) and shutting down
  (\<^verbatim>\<open>lib/disconnect.c\<close>). The answers of \<^verbatim>\<open>poll\<close> are an input: a list, consumed from the front. A call
  that waits when there is no answer left never returns, which is the result \<^const>\<open>None\<close>.
\<close>

section \<open>Polling\<close>

datatype revent = POLLIN | POLLHUP | POLLOUT | POLLERR | POLLNVAL

datatype poll_answer =
  PollFailed u32
| PollTimeout
| PollRevents "revent list"

abbreviation EINTR :: u32 where "EINTR \<equiv> 4"

text \<open>The call is repeated while it is interrupted by a signal.\<close>

fun poll_syscall :: "poll_answer list \<Rightarrow> (poll_answer \<times> poll_answer list) option" where
  "poll_syscall [] = None"
| "poll_syscall (a # as) = (if a = PollFailed EINTR then poll_syscall as else Some (a, as))"

definition nbd_unlocked_aio_get_fd :: "nbd_handle \<Rightarrow> nbd_handle" where
  "nbd_unlocked_aio_get_fd h =
     (if sock h = None then set_error EINVAL ''connection is not in a connected state'' h else h)"

type_synonym waited = "(poll_answer list \<times> outcome) option"

text \<open>
  What follows the answer: one notification, for reading rather than for writing.
\<close>

definition notified :: "outcome \<Rightarrow> outcome" where
  "notified out = (case out of
       Returned h r \<Rightarrow> Returned h (if r = -1 then -1 else 1)
     | Aborted \<Rightarrow> Aborted | Out_of_fuel \<Rightarrow> Out_of_fuel)"

definition after_poll :: "env \<Rightarrow> nat \<Rightarrow> poll_answer \<Rightarrow> nbd_handle \<Rightarrow> outcome" where
  "after_poll e fuel a h =
     (case a of
        PollFailed err \<Rightarrow> fail err ''poll'' h
      | PollTimeout \<Rightarrow> Returned h 0
      | PollRevents rs \<Rightarrow>
          if POLLIN \<in> set rs \<or> POLLHUP \<in> set rs then notified (nbd_unlocked_aio_notify_read e fuel h)
          else if POLLOUT \<in> set rs then notified (nbd_unlocked_aio_notify_write e fuel h)
          else if POLLERR \<in> set rs \<or> POLLNVAL \<in> set rs
          then fail ENOTCONN ''server closed socket unexpectedly'' h
          else Returned h 1)"

definition do_poll :: "env \<Rightarrow> nat \<Rightarrow> poll_answer list \<Rightarrow> nbd_handle \<Rightarrow> waited" where
  "do_poll e fuel as h =
     (let h = nbd_unlocked_aio_get_fd h
      in if nbd_internal_aio_get_direction (state h) = 0
         then Some (as, fail EINVAL ''nothing to poll for in state'' h)
         else map_option (\<lambda>(a, as). (as, after_poll e fuel a h)) (poll_syscall as))"

definition nbd_unlocked_poll :: "env \<Rightarrow> nat \<Rightarrow> poll_answer list \<Rightarrow> nbd_handle \<Rightarrow> waited" where
  "nbd_unlocked_poll e fuel as h = do_poll e fuel as h"

lemma poll_syscall_shorter: "poll_syscall as = Some (a, as') \<Longrightarrow> length as' < length as"
  by (induction as) (auto split: if_splits)

lemma poll_shorter:
  "nbd_unlocked_poll e fuel as h = Some (as', Returned h' r) \<Longrightarrow> r \<noteq> -1 \<Longrightarrow> length as' < length as"
  by (auto simp: nbd_unlocked_poll_def do_poll_def fail_def Let_def dest: poll_syscall_shorter
      split: if_splits Option.bind_splits)

section \<open>Waiting\<close>

text \<open>\<open>poll_while cont\<close> polls as long as \<open>cont\<close> holds of the state; each turn uses up an answer.\<close>

function poll_while :: "(state \<Rightarrow> bool) \<Rightarrow> env \<Rightarrow> nat \<Rightarrow> poll_answer list \<Rightarrow> nbd_handle \<Rightarrow> waited" where
  "poll_while cont e fuel as h =
     (if cont (state h) then
        (case nbd_unlocked_poll e fuel as h of
           None \<Rightarrow> None
         | Some (as', Returned h' r) \<Rightarrow>
             if r = -1 then Some (as', Returned h' (-1)) else poll_while cont e fuel as' h'
         | Some (as', out) \<Rightarrow> Some (as', out))
      else Some (as, Returned h 0))"
  by pat_completeness auto
termination
  by (relation "measure (\<lambda>(_, _, _, as, _). length as)") (auto dest: poll_shorter)

declare poll_while.simps [simp del]

definition wait_for_option :: "env \<Rightarrow> nat \<Rightarrow> poll_answer list \<Rightarrow> nbd_handle \<Rightarrow> waited" where
  "wait_for_option = poll_while nbd_internal_is_state_connecting"

function wait_for_command :: "env \<Rightarrow> nat \<Rightarrow> u64 \<Rightarrow> poll_answer list \<Rightarrow> nbd_handle \<Rightarrow> waited" where
  "wait_for_command e fuel cookie as h =
     (case nbd_unlocked_aio_command_completed cookie h of
        None \<Rightarrow> Some (as, Aborted)
      | Some (h, r) \<Rightarrow>
          if r \<noteq> 0 then Some (as, Returned h (if r = -1 then -1 else 0))
          else (case nbd_unlocked_poll e fuel as h of
             None \<Rightarrow> None
           | Some (as', Returned h' r) \<Rightarrow>
               if r = -1 then Some (as', Returned h' (-1)) else wait_for_command e fuel cookie as' h'
           | Some (as', out) \<Rightarrow> Some (as', out)))"
  by pat_completeness auto
termination
  by (relation "measure (\<lambda>(_, _, _, as, _). length as)") (auto dest: poll_shorter)

declare wait_for_command.simps [simp del]


section \<open>Blocking commands\<close>

text \<open>
  The cookie of a submitted command is waited for; a failed submission is passed on. The callback of
  the caller (\<open>null\<close> says that there is none) has to be taken over by a submission that succeeds.
\<close>

definition wait_submitted :: "env \<Rightarrow> nat \<Rightarrow> poll_answer list \<Rightarrow> bool \<Rightarrow> submission \<Rightarrow> waited" where
  "wait_submitted e fuel as null sub =
     (case snd sub of
        Returned h cookie \<Rightarrow>
          if cookie = -1 then Some (as, Returned h (-1))
          else if \<not> null \<and> \<not> fst sub then Some (as, Aborted)
          else wait_for_command e fuel (word_of_int cookie) as h
      | Aborted \<Rightarrow> Some (as, Aborted)
      | Out_of_fuel \<Rightarrow> Some (as, Out_of_fuel))"

definition nbd_unlocked_pread where
  "nbd_unlocked_pread e fuel as buf count offset flags h =
     wait_submitted e fuel as True (nbd_unlocked_aio_pread e fuel buf count offset null_cbk flags h)"

definition nbd_unlocked_pwrite where
  "nbd_unlocked_pwrite e fuel as buf count offset flags h =
     wait_submitted e fuel as True (nbd_unlocked_aio_pwrite e fuel buf count offset null_cbk flags h)"

definition nbd_unlocked_flush where
  "nbd_unlocked_flush e fuel as flags h =
     wait_submitted e fuel as True (nbd_unlocked_aio_flush e fuel null_cbk flags h)"

definition nbd_unlocked_trim where
  "nbd_unlocked_trim e fuel as count offset flags h =
     wait_submitted e fuel as True (nbd_unlocked_aio_trim e fuel count offset null_cbk flags h)"

definition nbd_unlocked_cache where
  "nbd_unlocked_cache e fuel as count offset flags h =
     wait_submitted e fuel as True (nbd_unlocked_aio_cache e fuel count offset null_cbk flags h)"

definition nbd_unlocked_zero where
  "nbd_unlocked_zero e fuel as count offset flags h =
     wait_submitted e fuel as True (nbd_unlocked_aio_zero e fuel count offset null_cbk flags h)"

text \<open>The commands with a callback of the caller also answer whether it was taken over.\<close>

type_synonym waiting_submission = "bool \<times> waited"

definition nbd_unlocked_pread_structured where
  "nbd_unlocked_pread_structured e fuel as buf count offset chunk flags h =
     (let sub = nbd_unlocked_aio_pread_structured e fuel buf count offset chunk null_cbk flags h
      in (fst sub, wait_submitted e fuel as (CALLBACK_IS_NULL chunk) sub))"

definition nbd_unlocked_block_status where
  "nbd_unlocked_block_status e fuel as count offset extent flags h =
     (let sub = nbd_unlocked_aio_block_status e fuel count offset extent null_cbk flags h
      in (fst sub, wait_submitted e fuel as (CALLBACK_IS_NULL extent) sub))"

definition nbd_unlocked_block_status_64 where
  "nbd_unlocked_block_status_64 e fuel as count offset extent flags h =
     (let sub = nbd_unlocked_aio_block_status_64 e fuel count offset extent null_cbk flags h
      in (fst sub, wait_submitted e fuel as (CALLBACK_IS_NULL extent) sub))"

definition nbd_unlocked_block_status_filter where
  "nbd_unlocked_block_status_filter e fuel as count offset filters extent flags h =
     (let sub = nbd_unlocked_aio_block_status_filter e fuel count offset filters extent null_cbk flags h
      in (fst sub, wait_submitted e fuel as (CALLBACK_IS_NULL extent) sub))"

section \<open>Blocking options\<close>

text \<open>
  The completion callback of a blocking option stores its error in a local variable, which is read
  from the calls made since the option was issued. The visitors of the lists count their calls.
\<close>

definition go_complete :: "completion_fn cbk" where
  "go_complete = Cbk (Some (\<lambda>err. (0, err))) False"

definition since :: "nbd_handle \<Rightarrow> nbd_handle \<Rightarrow> cb_event list" where
  "since h0 h = drop (length (trace h0)) (trace h)"

fun option_errors :: "cb_event list \<Rightarrow> u32 list" where
  "option_errors [] = []"
| "option_errors (OptCompletionCall err # evs) = err # option_errors evs"
| "option_errors (ev # evs) = option_errors evs"

definition stored_error :: "nbd_handle \<Rightarrow> nbd_handle \<Rightarrow> u32" where
  "stored_error h0 h = (case option_errors (since h0 h) of [] \<Rightarrow> 0 | errs \<Rightarrow> last errs)"

text \<open>
  An issued option is waited for; \<open>complete\<close> is what else its completion callback did, and \<open>finish\<close> looks
  at the error and the state afterwards.
\<close>

definition wait_issued ::
    "env \<Rightarrow> nat \<Rightarrow> poll_answer list \<Rightarrow> nbd_handle \<Rightarrow> outcome \<Rightarrow> (nbd_handle \<Rightarrow> nbd_handle) \<Rightarrow>
     (u32 \<Rightarrow> nbd_handle \<Rightarrow> outcome) \<Rightarrow> waited" where
  "wait_issued e fuel as h0 out complete finish =
     (case out of
        Returned h r \<Rightarrow>
          if r = -1 then Some (as, Returned h (-1))
          else map_option (\<lambda>(as', out'). (as', case out' of
              Returned h' r' \<Rightarrow> if r' = -1 then Returned (complete h') (-1) else finish (stored_error h0 h') (complete h')
            | Aborted \<Rightarrow> Aborted | Out_of_fuel \<Rightarrow> Out_of_fuel)) (wait_for_option e fuel as h)
      | Aborted \<Rightarrow> Some (as, Aborted)
      | Out_of_fuel \<Rightarrow> Some (as, Out_of_fuel))"

definition nbd_unlocked_opt_go :: "env \<Rightarrow> nat \<Rightarrow> poll_answer list \<Rightarrow> nbd_handle \<Rightarrow> waited" where
  "nbd_unlocked_opt_go e fuel as h =
     wait_issued e fuel as h (snd (nbd_unlocked_aio_opt_go e fuel go_complete h)) id (\<lambda>err h.
       if err \<noteq> 0 then
         (if nbd_internal_is_state_negotiating (state h) \<or> nbd_internal_is_state_dead (state h)
          then Returned h (-1) else Aborted)
       else if nbd_internal_is_state_ready (state h) then Returned h 0 else Aborted)"

definition nbd_unlocked_opt_info :: "env \<Rightarrow> nat \<Rightarrow> poll_answer list \<Rightarrow> nbd_handle \<Rightarrow> waited" where
  "nbd_unlocked_opt_info e fuel as h =
     wait_issued e fuel as h (snd (nbd_unlocked_aio_opt_info e fuel go_complete h)) id (\<lambda>err h.
       if err \<noteq> 0 then
         (if nbd_internal_is_state_negotiating (state h) \<or> nbd_internal_is_state_dead (state h)
          then Returned h (-1) else Aborted)
       else Returned h 0)"

definition nbd_unlocked_opt_abort :: "env \<Rightarrow> nat \<Rightarrow> poll_answer list \<Rightarrow> nbd_handle \<Rightarrow> waited" where
  "nbd_unlocked_opt_abort e fuel as h =
     wait_issued e fuel as h (nbd_unlocked_aio_opt_abort e fuel h) id (\<lambda>_ h. Returned h 0)"

text \<open>The options that answer whether the server agreed.\<close>

definition agreed :: "string \<Rightarrow> u32 \<Rightarrow> nbd_handle \<Rightarrow> outcome" where
  "agreed msg err h =
     (if nbd_internal_is_state_negotiating (state h) then Returned h (if err = 0 then 1 else 0)
      else if nbd_internal_is_state_dead (state h) then fail err msg h
      else Aborted)"

definition nbd_unlocked_opt_starttls :: "env \<Rightarrow> nat \<Rightarrow> poll_answer list \<Rightarrow> nbd_handle \<Rightarrow> waited" where
  "nbd_unlocked_opt_starttls e fuel as h =
     wait_issued e fuel as h (snd (nbd_unlocked_aio_opt_starttls e fuel go_complete h)) id
       (agreed ''failed to get response to opt_starttls request'')"

definition nbd_unlocked_opt_extended_headers :: "env \<Rightarrow> nat \<Rightarrow> poll_answer list \<Rightarrow> nbd_handle \<Rightarrow> waited" where
  "nbd_unlocked_opt_extended_headers e fuel as h =
     wait_issued e fuel as h (snd (nbd_unlocked_aio_opt_extended_headers e fuel go_complete h)) id
       (agreed ''failed to get response to opt_extended_headers request'')"

definition nbd_unlocked_opt_structured_reply :: "env \<Rightarrow> nat \<Rightarrow> poll_answer list \<Rightarrow> nbd_handle \<Rightarrow> waited" where
  "nbd_unlocked_opt_structured_reply e fuel as h =
     wait_issued e fuel as h (snd (nbd_unlocked_aio_opt_structured_reply e fuel go_complete h)) id
       (agreed ''failed to get response to opt_structured_reply request'')"


text \<open>
  Listing exports and contexts: the visitors call the caller's callback, which the trace records, and
  count the calls up to \<^verbatim>\<open>INT_MAX\<close>; the completion frees the caller's callback.
\<close>

definition count_calls :: "(cb_event \<Rightarrow> bool) \<Rightarrow> nbd_handle \<Rightarrow> nbd_handle \<Rightarrow> int" where
  "count_calls p h0 h = min INT_MAX (int (length (filter p (since h0 h))))"

fun is_list_call :: "cb_event \<Rightarrow> bool" where
  "is_list_call (ListCall name desc) = True"
| "is_list_call _ = False"

fun is_context_call :: "cb_event \<Rightarrow> bool" where
  "is_context_call (ContextCall name) = True"
| "is_context_call _ = False"

definition list_visitor :: "list_fn cbk \<Rightarrow> list_fn cbk" where
  "list_visitor l = Cbk (Some (\<lambda>name desc. 0)) False"

definition context_visitor :: "context_fn cbk \<Rightarrow> context_fn cbk" where
  "context_visitor c = Cbk (Some (\<lambda>name. 0)) False"

text \<open>The completion frees the caller's callback when it is called.\<close>

definition list_complete :: "bool \<Rightarrow> nbd_handle \<Rightarrow> nbd_handle \<Rightarrow> nbd_handle" where
  "list_complete frees h0 h =
     (if frees \<and> option_errors (since h0 h) \<noteq> [] then log_event OptFreeFn h else h)"

definition listed :: "string \<Rightarrow> (cb_event \<Rightarrow> bool) \<Rightarrow> nbd_handle \<Rightarrow> u32 \<Rightarrow> nbd_handle \<Rightarrow> outcome" where
  "listed msg p h0 err h = (if err \<noteq> 0 then fail err msg h else Returned h (count_calls p h0 h))"

text \<open>The callback of the caller is taken over once the option has been issued.\<close>

definition issued :: "submission \<Rightarrow> bool" where
  "issued sub \<longleftrightarrow> (case snd sub of Returned h r \<Rightarrow> r \<noteq> -1 | _ \<Rightarrow> False)"

definition nbd_unlocked_opt_list ::
    "env \<Rightarrow> nat \<Rightarrow> poll_answer list \<Rightarrow> list_fn cbk \<Rightarrow> nbd_handle \<Rightarrow> waiting_submission" where
  "nbd_unlocked_opt_list e fuel as l h =
     (let sub = nbd_unlocked_aio_opt_list e fuel (list_visitor l) go_complete h
      in (issued sub, if issued sub \<and> \<not> fst sub then Some (as, Aborted)
          else wait_issued e fuel as h (snd sub) (list_complete (cbk_free l) h)
            (listed ''server replied with error to list request'' is_list_call h)))"

definition opt_meta_context_queries ::
    "env \<Rightarrow> nat \<Rightarrow> poll_answer list \<Rightarrow> u8 \<Rightarrow> cstr list option \<Rightarrow> context_fn cbk \<Rightarrow> nbd_handle
     \<Rightarrow> waiting_submission" where
  "opt_meta_context_queries e fuel as opt queries context h =
     (let sub = aio_opt_meta_context_queries e fuel opt queries (context_visitor context) go_complete h
      in (issued sub, if issued sub \<and> \<not> fst sub then Some (as, Aborted)
          else wait_issued e fuel as h (snd sub) (list_complete (cbk_free context) h)
            (listed ''server replied with error to meta context request'' is_context_call h)))"

definition nbd_unlocked_opt_list_meta_context where
  "nbd_unlocked_opt_list_meta_context e fuel as context h =
     opt_meta_context_queries e fuel as NBD_OPT_LIST_META_CONTEXT None context h"

definition nbd_unlocked_opt_list_meta_context_queries where
  "nbd_unlocked_opt_list_meta_context_queries e fuel as queries context h =
     opt_meta_context_queries e fuel as NBD_OPT_LIST_META_CONTEXT (Some queries) context h"

definition nbd_unlocked_opt_set_meta_context where
  "nbd_unlocked_opt_set_meta_context e fuel as context h =
     opt_meta_context_queries e fuel as NBD_OPT_SET_META_CONTEXT None context h"

definition nbd_unlocked_opt_set_meta_context_queries where
  "nbd_unlocked_opt_set_meta_context_queries e fuel as queries context h =
     opt_meta_context_queries e fuel as NBD_OPT_SET_META_CONTEXT (Some queries) context h"

section \<open>Connecting and shutting down\<close>

definition nbd_internal_wait_until_connected :: "env \<Rightarrow> nat \<Rightarrow> poll_answer list \<Rightarrow> nbd_handle \<Rightarrow> waited" where
  "nbd_internal_wait_until_connected e fuel as h =
     map_option (\<lambda>(as', out). (as', case out of
         Returned h' r \<Rightarrow> if r = -1 then Returned h' (-1)
           else (let (h'', r'') = error_unless_ready h' in Returned h'' r'')
       | Aborted \<Rightarrow> Aborted | Out_of_fuel \<Rightarrow> Out_of_fuel))
       (poll_while nbd_internal_is_state_connecting e fuel as h)"

definition nbd_unlocked_connect_socket ::
    "env \<Rightarrow> nat \<Rightarrow> poll_answer list \<Rightarrow> socket \<Rightarrow> nbd_handle \<Rightarrow> waited" where
  "nbd_unlocked_connect_socket e fuel as s h =
     (case nbd_unlocked_aio_connect_socket e fuel s h of
        Returned h' r \<Rightarrow> if r = -1 then Some (as, Returned h' (-1))
          else nbd_internal_wait_until_connected e fuel as h'
      | Aborted \<Rightarrow> Some (as, Aborted)
      | Out_of_fuel \<Rightarrow> Some (as, Out_of_fuel))"

text \<open>The end of \<^verbatim>\<open>nbd_shutdown\<close>: polling until the connection is closed or dead.\<close>

definition wait_until_closed :: "env \<Rightarrow> nat \<Rightarrow> poll_answer list \<Rightarrow> outcome \<Rightarrow> waited" where
  "wait_until_closed e fuel as out =
     (case out of
        Returned h r \<Rightarrow> if r = -1 then Some (as, Returned h (-1))
          else poll_while (\<lambda>s. \<not> nbd_internal_is_state_closed s \<and> \<not> nbd_internal_is_state_dead s) e fuel as h
      | Aborted \<Rightarrow> Some (as, Aborted)
      | Out_of_fuel \<Rightarrow> Some (as, Out_of_fuel))"

definition nbd_unlocked_shutdown :: "env \<Rightarrow> nat \<Rightarrow> poll_answer list \<Rightarrow> u32 \<Rightarrow> nbd_handle \<Rightarrow> waited" where
  "nbd_unlocked_shutdown e fuel as flags h =
     (if nbd_internal_is_state_negotiating (state h)
      then wait_until_closed e fuel as (nbd_unlocked_aio_opt_abort e fuel h)
      else case (if flags AND LIBNBD_SHUTDOWN_ABANDON_PENDING \<noteq> 0 then abandon_pending h else Some h) of
        None \<Rightarrow> Some (as, Aborted)
      | Some h \<Rightarrow>
          wait_until_closed e fuel as
            (if \<not> disconnect_request h \<and>
                (nbd_internal_is_state_ready (state h) \<or> nbd_internal_is_state_processing (state h))
             then nbd_unlocked_aio_disconnect e fuel 0 h
             else Returned h 0))"

end
