(* ===== verification/NBD_Api.thy ===== *)
theory NBD_Api
  imports NBD_Poll
begin

text \<open>
  The public interface (\<^verbatim>\<open>lib/api.c\<close>): every call checks the public state of the handle and its
  arguments, calls the function that does the work, frees the callbacks that were not taken over, and
  publishes the state. Locking and tracing are left out: the calls on a handle exclude each other.
  A pointer argument is an option, with \<^const>\<open>None\<close> for \<^verbatim>\<open>NULL\<close>.
\<close>

abbreviation EFAULT :: u32 where "EFAULT \<equiv> 14"
abbreviation LIBNBD_SHUTDOWN_MASK :: u32 where "LIBNBD_SHUTDOWN_MASK \<equiv> 0x10000"

section \<open>The frame of a call\<close>

definition publish :: "nbd_handle \<Rightarrow> nbd_handle" where
  "publish h = h\<lparr>public_state := state h\<rparr>"

fun leave :: "outcome \<Rightarrow> outcome" where
  "leave (Returned h r) = Returned (publish h) r"
| "leave Aborted = Aborted"
| "leave Out_of_fuel = Out_of_fuel"

fun on_returned :: "(nbd_handle \<Rightarrow> nbd_handle) \<Rightarrow> outcome \<Rightarrow> outcome" where
  "on_returned f (Returned h r) = Returned (f h) r"
| "on_returned f Aborted = Aborted"
| "on_returned f Out_of_fuel = Out_of_fuel"

text \<open>Callbacks that the function did not take over are freed before the state is published.\<close>

definition finish :: "(nbd_handle \<Rightarrow> nbd_handle) \<Rightarrow> submission \<Rightarrow> outcome" where
  "finish frees sub = leave (if fst sub then snd sub else on_returned frees (snd sub))"

definition finish_wait :: "(nbd_handle \<Rightarrow> nbd_handle) \<Rightarrow> waiting_submission \<Rightarrow> waited" where
  "finish_wait frees sub =
     map_option (\<lambda>(as, out). (as, finish frees (fst sub, out))) (snd sub)"

definition leave_wait :: "waited \<Rightarrow> waited" where
  "leave_wait w = map_option (\<lambda>(as, out). (as, leave out)) w"

definition leave_query :: "nbd_handle \<times> 'r \<Rightarrow> nbd_handle \<times> 'r" where
  "leave_query = apfst publish"

text \<open>FREE_CALLBACK on the arguments of a command and of an option.\<close>

definition free_fn :: "'f cbk \<Rightarrow> nbd_handle \<Rightarrow> nbd_handle" where
  "free_fn cb h = (if cbk_free cb then log_event (FreeFn 0) h else h)"

definition free_completion :: "'f cbk \<Rightarrow> nbd_handle \<Rightarrow> nbd_handle" where
  "free_completion cb h = (if cbk_free cb then log_event (FreeCompletion 0) h else h)"

definition free_opt_fn :: "'f cbk \<Rightarrow> nbd_handle \<Rightarrow> nbd_handle" where
  "free_opt_fn cb h = (if cbk_free cb then log_event OptFreeFn h else h)"

definition free_opt_completion :: "'f cbk \<Rightarrow> nbd_handle \<Rightarrow> nbd_handle" where
  "free_opt_completion cb h = (if cbk_free cb then log_event OptFreeCompletion h else h)"

section \<open>Checks\<close>

text \<open>The states in which calls are permitted.\<close>

definition connected_states :: "state \<Rightarrow> bool" where
  "connected_states s \<longleftrightarrow> nbd_internal_is_state_ready s \<or> nbd_internal_is_state_processing s"

definition negotiating_or_connected :: "state \<Rightarrow> bool" where
  "negotiating_or_connected s \<longleftrightarrow>
     nbd_internal_is_state_negotiating s \<or> nbd_internal_is_state_ready s \<or> nbd_internal_is_state_processing s"

definition negotiated_states :: "state \<Rightarrow> bool" where
  "negotiated_states s \<longleftrightarrow>
     nbd_internal_is_state_negotiating s \<or> nbd_internal_is_state_ready s \<or>
     nbd_internal_is_state_processing s \<or> nbd_internal_is_state_closed s"

definition configurable_states :: "state \<Rightarrow> bool" where
  "configurable_states s \<longleftrightarrow> nbd_internal_is_state_created s \<or> nbd_internal_is_state_negotiating s"

definition counted_states :: "state \<Rightarrow> bool" where
  "counted_states s \<longleftrightarrow>
     nbd_internal_is_state_ready s \<or> nbd_internal_is_state_processing s \<or>
     nbd_internal_is_state_closed s \<or> nbd_internal_is_state_dead s"

text \<open>The checks of a call in order: the first that fails gives its error.\<close>

datatype check =
  Permitted "state \<Rightarrow> bool"
| Non_null bool string
| Command_flags u32 u32
| Flag_mask u32 u32
| Valid bool

fun failed_check :: "nbd_handle \<Rightarrow> check \<Rightarrow> (u32 \<times> string) option" where
  "failed_check h (Permitted p) =
     (if p (public_state h) then None
      else Some (if nbd_internal_is_state_created (public_state h) then ENOTCONN else EINVAL, ''invalid state''))"
| "failed_check h (Non_null ok name) = (if ok then None else Some (EFAULT, name @ '' cannot be NULL''))"
| "failed_check h (Command_flags allowed flags) =
     (if flags AND NOT allowed \<noteq> 0 \<and> (is_strict h LIBNBD_STRICT_FLAGS \<or> flags > 0xffff)
      then Some (EINVAL, ''invalid value for flag'') else None)"
| "failed_check h (Flag_mask allowed flags) =
     (if flags AND NOT allowed \<noteq> 0 then Some (EINVAL, ''invalid value for flag'') else None)"
| "failed_check h (Valid ok) = (if ok then None else Some (EINVAL, ''invalid value for parameter''))"

fun first_failed :: "nbd_handle \<Rightarrow> check list \<Rightarrow> (u32 \<times> string) option" where
  "first_failed h [] = None"
| "first_failed h (c # cs) = (case failed_check h c of None \<Rightarrow> first_failed h cs | Some x \<Rightarrow> Some x)"

text \<open>
  The four forms of a call: with callbacks, without, waiting, and queries that cannot wait or abort.
  Following \<^verbatim>\<open>NULL\<close> would be an invalid access.
\<close>

definition api_call :: "check list \<Rightarrow> (nbd_handle \<Rightarrow> nbd_handle) \<Rightarrow> (nbd_handle \<Rightarrow> submission) \<Rightarrow> nbd_handle \<Rightarrow> outcome" where
  "api_call cs frees call h =
     finish frees (case first_failed h cs of None \<Rightarrow> call h | Some (err, msg) \<Rightarrow> refuse err msg h)"

definition api_plain :: "check list \<Rightarrow> (nbd_handle \<Rightarrow> outcome) \<Rightarrow> nbd_handle \<Rightarrow> outcome" where
  "api_plain cs call h =
     leave (case first_failed h cs of None \<Rightarrow> call h | Some (err, msg) \<Rightarrow> fail err msg h)"

definition api_wait :: "check list \<Rightarrow> poll_answer list \<Rightarrow> (nbd_handle \<Rightarrow> waited) \<Rightarrow> nbd_handle \<Rightarrow> waited" where
  "api_wait cs as call h =
     leave_wait (case first_failed h cs of None \<Rightarrow> call h | Some (err, msg) \<Rightarrow> Some (as, fail err msg h))"

definition api_wait_call ::
    "check list \<Rightarrow> (nbd_handle \<Rightarrow> nbd_handle) \<Rightarrow> poll_answer list \<Rightarrow> (nbd_handle \<Rightarrow> waiting_submission)
     \<Rightarrow> nbd_handle \<Rightarrow> waited" where
  "api_wait_call cs frees as call h =
     finish_wait frees (case first_failed h cs of None \<Rightarrow> call h
       | Some (err, msg) \<Rightarrow> (False, Some (as, fail err msg h)))"

definition api_query :: "check list \<Rightarrow> 'r \<Rightarrow> (nbd_handle \<Rightarrow> nbd_handle \<times> 'r) \<Rightarrow> nbd_handle \<Rightarrow> nbd_handle \<times> 'r" where
  "api_query cs failed call h =
     leave_query (case first_failed h cs of None \<Rightarrow> call h | Some (err, msg) \<Rightarrow> (set_error err msg h, failed))"

definition with_ptr :: "'p option \<Rightarrow> ('p \<Rightarrow> nbd_handle \<Rightarrow> submission) \<Rightarrow> nbd_handle \<Rightarrow> submission" where
  "with_ptr p f h = (case p of None \<Rightarrow> (True, Aborted) | Some x \<Rightarrow> f x h)"

section \<open>Commands\<close>

text \<open>
  Reading clears the buffer first, before any check. \<^const>\<open>None\<close>: that writes outside the buffer.
\<close>

definition initialize :: "u8 list option \<Rightarrow> u64 \<Rightarrow> nbd_handle \<Rightarrow> u8 list option option" where
  "initialize buf count h =
     (if \<not> pread_initialize h then Some buf
      else case buf of
        None \<Rightarrow> if count = 0 then Some None else None
      | Some b \<Rightarrow> if unat count \<le> length b
                  then Some (Some (replicate (unat count) 0 @ drop (unat count) b)) else None)"

definition nbd_aio_pread ::
    "env \<Rightarrow> nat \<Rightarrow> u8 list option \<Rightarrow> u64 \<Rightarrow> u64 \<Rightarrow> completion_fn cbk \<Rightarrow> u32 \<Rightarrow> nbd_handle \<Rightarrow> outcome" where
  "nbd_aio_pread e fuel buf count offset completion flags h =
     (case initialize buf count h of
        None \<Rightarrow> Aborted
      | Some buf \<Rightarrow>
          api_call [Permitted connected_states, Non_null (buf \<noteq> None) ''buf'', Command_flags 0 flags]
            (free_completion completion)
            (with_ptr buf (\<lambda>b. nbd_unlocked_aio_pread e fuel b count offset completion flags)) h)"

definition nbd_aio_pread_structured ::
    "env \<Rightarrow> nat \<Rightarrow> u8 list option \<Rightarrow> u64 \<Rightarrow> u64 \<Rightarrow> chunk_fn cbk \<Rightarrow> completion_fn cbk \<Rightarrow> u32 \<Rightarrow> nbd_handle
     \<Rightarrow> outcome" where
  "nbd_aio_pread_structured e fuel buf count offset chunk completion flags h =
     (case initialize buf count h of
        None \<Rightarrow> Aborted
      | Some buf \<Rightarrow>
          api_call [Permitted connected_states, Non_null (buf \<noteq> None) ''buf'',
              Non_null (\<not> CALLBACK_IS_NULL chunk) ''chunk'', Command_flags 0x4 flags]
            (free_completion completion \<circ> free_fn chunk)
            (with_ptr buf (\<lambda>b. nbd_unlocked_aio_pread_structured e fuel b count offset chunk completion flags)) h)"

definition nbd_aio_pwrite ::
    "env \<Rightarrow> nat \<Rightarrow> u8 list option \<Rightarrow> u64 \<Rightarrow> u64 \<Rightarrow> completion_fn cbk \<Rightarrow> u32 \<Rightarrow> nbd_handle \<Rightarrow> outcome" where
  "nbd_aio_pwrite e fuel buf count offset completion flags =
     api_call [Permitted connected_states, Non_null (buf \<noteq> None) ''buf'', Command_flags 0x21 flags]
       (free_completion completion)
       (with_ptr buf (\<lambda>b. nbd_unlocked_aio_pwrite e fuel b count offset completion flags))"

definition nbd_aio_flush :: "env \<Rightarrow> nat \<Rightarrow> completion_fn cbk \<Rightarrow> u32 \<Rightarrow> nbd_handle \<Rightarrow> outcome" where
  "nbd_aio_flush e fuel completion flags =
     api_call [Permitted connected_states, Command_flags 0 flags] (free_completion completion)
       (nbd_unlocked_aio_flush e fuel completion flags)"

definition nbd_aio_trim :: "env \<Rightarrow> nat \<Rightarrow> u64 \<Rightarrow> u64 \<Rightarrow> completion_fn cbk \<Rightarrow> u32 \<Rightarrow> nbd_handle \<Rightarrow> outcome" where
  "nbd_aio_trim e fuel count offset completion flags =
     api_call [Permitted connected_states, Command_flags 0x1 flags] (free_completion completion)
       (nbd_unlocked_aio_trim e fuel count offset completion flags)"

definition nbd_aio_cache :: "env \<Rightarrow> nat \<Rightarrow> u64 \<Rightarrow> u64 \<Rightarrow> completion_fn cbk \<Rightarrow> u32 \<Rightarrow> nbd_handle \<Rightarrow> outcome" where
  "nbd_aio_cache e fuel count offset completion flags =
     api_call [Permitted connected_states, Command_flags 0 flags] (free_completion completion)
       (nbd_unlocked_aio_cache e fuel count offset completion flags)"

definition nbd_aio_zero :: "env \<Rightarrow> nat \<Rightarrow> u64 \<Rightarrow> u64 \<Rightarrow> completion_fn cbk \<Rightarrow> u32 \<Rightarrow> nbd_handle \<Rightarrow> outcome" where
  "nbd_aio_zero e fuel count offset completion flags =
     api_call [Permitted connected_states, Command_flags 0x13 flags] (free_completion completion)
       (nbd_unlocked_aio_zero e fuel count offset completion flags)"

definition nbd_aio_block_status ::
    "env \<Rightarrow> nat \<Rightarrow> u64 \<Rightarrow> u64 \<Rightarrow> extent32_fn cbk \<Rightarrow> completion_fn cbk \<Rightarrow> u32 \<Rightarrow> nbd_handle \<Rightarrow> outcome" where
  "nbd_aio_block_status e fuel count offset extent completion flags =
     api_call [Permitted connected_states, Non_null (\<not> CALLBACK_IS_NULL extent) ''extent'', Command_flags 0x8 flags]
       (free_completion completion \<circ> free_fn extent)
       (nbd_unlocked_aio_block_status e fuel count offset extent completion flags)"

definition nbd_aio_block_status_64 ::
    "env \<Rightarrow> nat \<Rightarrow> u64 \<Rightarrow> u64 \<Rightarrow> extent64_fn cbk \<Rightarrow> completion_fn cbk \<Rightarrow> u32 \<Rightarrow> nbd_handle \<Rightarrow> outcome" where
  "nbd_aio_block_status_64 e fuel count offset extent completion flags =
     api_call [Permitted connected_states, Non_null (\<not> CALLBACK_IS_NULL extent) ''extent64'', Command_flags 0x8 flags]
       (free_completion completion \<circ> free_fn extent)
       (nbd_unlocked_aio_block_status_64 e fuel count offset extent completion flags)"

definition nbd_aio_block_status_filter ::
    "env \<Rightarrow> nat \<Rightarrow> u64 \<Rightarrow> u64 \<Rightarrow> cstr list option \<Rightarrow> extent64_fn cbk \<Rightarrow> completion_fn cbk \<Rightarrow> u32 \<Rightarrow> nbd_handle
     \<Rightarrow> outcome" where
  "nbd_aio_block_status_filter e fuel count offset contexts extent completion flags =
     api_call [Permitted connected_states, Non_null (contexts \<noteq> None) ''contexts'',
         Non_null (\<not> CALLBACK_IS_NULL extent) ''extent64'', Command_flags 0x28 flags]
       (free_completion completion \<circ> free_fn extent)
       (with_ptr contexts (\<lambda>cs. nbd_unlocked_aio_block_status_filter e fuel count offset cs extent completion flags))"

section \<open>Blocking commands\<close>

definition with_ptr_wait :: "poll_answer list \<Rightarrow> 'p option \<Rightarrow> ('p \<Rightarrow> nbd_handle \<Rightarrow> waited) \<Rightarrow> nbd_handle \<Rightarrow> waited" where
  "with_ptr_wait as p f h = (case p of None \<Rightarrow> Some (as, Aborted) | Some x \<Rightarrow> f x h)"

definition with_ptr_wait_call ::
    "poll_answer list \<Rightarrow> 'p option \<Rightarrow> ('p \<Rightarrow> nbd_handle \<Rightarrow> waiting_submission) \<Rightarrow> nbd_handle \<Rightarrow> waiting_submission" where
  "with_ptr_wait_call as p f h = (case p of None \<Rightarrow> (True, Some (as, Aborted)) | Some x \<Rightarrow> f x h)"

definition nbd_pread ::
    "env \<Rightarrow> nat \<Rightarrow> poll_answer list \<Rightarrow> u8 list option \<Rightarrow> u64 \<Rightarrow> u64 \<Rightarrow> u32 \<Rightarrow> nbd_handle \<Rightarrow> waited" where
  "nbd_pread e fuel as buf count offset flags h =
     (case initialize buf count h of
        None \<Rightarrow> Some (as, Aborted)
      | Some buf \<Rightarrow>
          api_wait [Permitted connected_states, Non_null (buf \<noteq> None) ''buf'', Command_flags 0 flags] as
            (with_ptr_wait as buf (\<lambda>b. nbd_unlocked_pread e fuel as b count offset flags)) h)"

definition nbd_pread_structured ::
    "env \<Rightarrow> nat \<Rightarrow> poll_answer list \<Rightarrow> u8 list option \<Rightarrow> u64 \<Rightarrow> u64 \<Rightarrow> chunk_fn cbk \<Rightarrow> u32 \<Rightarrow> nbd_handle \<Rightarrow> waited" where
  "nbd_pread_structured e fuel as buf count offset chunk flags h =
     (case initialize buf count h of
        None \<Rightarrow> Some (as, Aborted)
      | Some buf \<Rightarrow>
          api_wait_call [Permitted connected_states, Non_null (buf \<noteq> None) ''buf'',
              Non_null (\<not> CALLBACK_IS_NULL chunk) ''chunk'', Command_flags 0x4 flags] (free_fn chunk) as
            (with_ptr_wait_call as buf
              (\<lambda>b. nbd_unlocked_pread_structured e fuel as b count offset chunk flags)) h)"

definition nbd_pwrite ::
    "env \<Rightarrow> nat \<Rightarrow> poll_answer list \<Rightarrow> u8 list option \<Rightarrow> u64 \<Rightarrow> u64 \<Rightarrow> u32 \<Rightarrow> nbd_handle \<Rightarrow> waited" where
  "nbd_pwrite e fuel as buf count offset flags =
     api_wait [Permitted connected_states, Non_null (buf \<noteq> None) ''buf'', Command_flags 0x21 flags] as
       (with_ptr_wait as buf (\<lambda>b. nbd_unlocked_pwrite e fuel as b count offset flags))"

definition nbd_flush :: "env \<Rightarrow> nat \<Rightarrow> poll_answer list \<Rightarrow> u32 \<Rightarrow> nbd_handle \<Rightarrow> waited" where
  "nbd_flush e fuel as flags =
     api_wait [Permitted connected_states, Command_flags 0 flags] as
       (nbd_unlocked_flush e fuel as flags)"

definition nbd_trim :: "env \<Rightarrow> nat \<Rightarrow> poll_answer list \<Rightarrow> u64 \<Rightarrow> u64 \<Rightarrow> u32 \<Rightarrow> nbd_handle \<Rightarrow> waited" where
  "nbd_trim e fuel as count offset flags =
     api_wait [Permitted connected_states, Command_flags 0x1 flags] as
       (nbd_unlocked_trim e fuel as count offset flags)"

definition nbd_cache :: "env \<Rightarrow> nat \<Rightarrow> poll_answer list \<Rightarrow> u64 \<Rightarrow> u64 \<Rightarrow> u32 \<Rightarrow> nbd_handle \<Rightarrow> waited" where
  "nbd_cache e fuel as count offset flags =
     api_wait [Permitted connected_states, Command_flags 0 flags] as
       (nbd_unlocked_cache e fuel as count offset flags)"

definition nbd_zero :: "env \<Rightarrow> nat \<Rightarrow> poll_answer list \<Rightarrow> u64 \<Rightarrow> u64 \<Rightarrow> u32 \<Rightarrow> nbd_handle \<Rightarrow> waited" where
  "nbd_zero e fuel as count offset flags =
     api_wait [Permitted connected_states, Command_flags 0x13 flags] as
       (nbd_unlocked_zero e fuel as count offset flags)"

definition nbd_block_status ::
    "env \<Rightarrow> nat \<Rightarrow> poll_answer list \<Rightarrow> u64 \<Rightarrow> u64 \<Rightarrow> extent32_fn cbk \<Rightarrow> u32 \<Rightarrow> nbd_handle \<Rightarrow> waited" where
  "nbd_block_status e fuel as count offset extent flags =
     api_wait_call [Permitted connected_states, Non_null (\<not> CALLBACK_IS_NULL extent) ''extent'', Command_flags 0x8 flags]
       (free_fn extent) as (nbd_unlocked_block_status e fuel as count offset extent flags)"

definition nbd_block_status_64 ::
    "env \<Rightarrow> nat \<Rightarrow> poll_answer list \<Rightarrow> u64 \<Rightarrow> u64 \<Rightarrow> extent64_fn cbk \<Rightarrow> u32 \<Rightarrow> nbd_handle \<Rightarrow> waited" where
  "nbd_block_status_64 e fuel as count offset extent flags =
     api_wait_call [Permitted connected_states, Non_null (\<not> CALLBACK_IS_NULL extent) ''extent64'', Command_flags 0x8 flags]
       (free_fn extent) as (nbd_unlocked_block_status_64 e fuel as count offset extent flags)"

definition nbd_block_status_filter ::
    "env \<Rightarrow> nat \<Rightarrow> poll_answer list \<Rightarrow> u64 \<Rightarrow> u64 \<Rightarrow> cstr list option \<Rightarrow> extent64_fn cbk \<Rightarrow> u32 \<Rightarrow> nbd_handle \<Rightarrow> waited" where
  "nbd_block_status_filter e fuel as count offset contexts extent flags =
     api_wait_call [Permitted connected_states, Non_null (contexts \<noteq> None) ''contexts'',
         Non_null (\<not> CALLBACK_IS_NULL extent) ''extent64'', Command_flags 0x28 flags]
       (free_fn extent) as
       (with_ptr_wait_call as contexts
         (\<lambda>cs. nbd_unlocked_block_status_filter e fuel as count offset cs extent flags))"

section \<open>Options\<close>

definition nbd_aio_opt_go :: "env \<Rightarrow> nat \<Rightarrow> completion_fn cbk \<Rightarrow> nbd_handle \<Rightarrow> outcome" where
  "nbd_aio_opt_go e fuel completion =
     api_call [Permitted nbd_internal_is_state_negotiating] (free_opt_completion completion)
       (nbd_unlocked_aio_opt_go e fuel completion)"

definition nbd_aio_opt_info :: "env \<Rightarrow> nat \<Rightarrow> completion_fn cbk \<Rightarrow> nbd_handle \<Rightarrow> outcome" where
  "nbd_aio_opt_info e fuel completion =
     api_call [Permitted nbd_internal_is_state_negotiating] (free_opt_completion completion)
       (nbd_unlocked_aio_opt_info e fuel completion)"

definition nbd_aio_opt_starttls :: "env \<Rightarrow> nat \<Rightarrow> completion_fn cbk \<Rightarrow> nbd_handle \<Rightarrow> outcome" where
  "nbd_aio_opt_starttls e fuel completion =
     api_call [Permitted nbd_internal_is_state_negotiating] (free_opt_completion completion)
       (nbd_unlocked_aio_opt_starttls e fuel completion)"

definition nbd_aio_opt_extended_headers :: "env \<Rightarrow> nat \<Rightarrow> completion_fn cbk \<Rightarrow> nbd_handle \<Rightarrow> outcome" where
  "nbd_aio_opt_extended_headers e fuel completion =
     api_call [Permitted nbd_internal_is_state_negotiating] (free_opt_completion completion)
       (nbd_unlocked_aio_opt_extended_headers e fuel completion)"

definition nbd_aio_opt_structured_reply :: "env \<Rightarrow> nat \<Rightarrow> completion_fn cbk \<Rightarrow> nbd_handle \<Rightarrow> outcome" where
  "nbd_aio_opt_structured_reply e fuel completion =
     api_call [Permitted nbd_internal_is_state_negotiating] (free_opt_completion completion)
       (nbd_unlocked_aio_opt_structured_reply e fuel completion)"

definition nbd_aio_opt_abort :: "env \<Rightarrow> nat \<Rightarrow> nbd_handle \<Rightarrow> outcome" where
  "nbd_aio_opt_abort e fuel =
     api_plain [Permitted nbd_internal_is_state_negotiating] (nbd_unlocked_aio_opt_abort e fuel)"

definition nbd_aio_opt_list ::
    "env \<Rightarrow> nat \<Rightarrow> list_fn cbk \<Rightarrow> completion_fn cbk \<Rightarrow> nbd_handle \<Rightarrow> outcome" where
  "nbd_aio_opt_list e fuel l completion =
     api_call [Permitted nbd_internal_is_state_negotiating, Non_null (\<not> CALLBACK_IS_NULL l) ''list'']
       (free_opt_completion completion \<circ> free_opt_fn l)
       (nbd_unlocked_aio_opt_list e fuel l completion)"

definition nbd_aio_opt_list_meta_context ::
    "env \<Rightarrow> nat \<Rightarrow> context_fn cbk \<Rightarrow> completion_fn cbk \<Rightarrow> nbd_handle \<Rightarrow> outcome" where
  "nbd_aio_opt_list_meta_context e fuel context completion =
     api_call [Permitted nbd_internal_is_state_negotiating, Non_null (\<not> CALLBACK_IS_NULL context) ''context'']
       (free_opt_completion completion \<circ> free_opt_fn context)
       (nbd_unlocked_aio_opt_list_meta_context e fuel context completion)"

definition nbd_aio_opt_list_meta_context_queries ::
    "env \<Rightarrow> nat \<Rightarrow> cstr list option \<Rightarrow> context_fn cbk \<Rightarrow> completion_fn cbk \<Rightarrow> nbd_handle \<Rightarrow> outcome" where
  "nbd_aio_opt_list_meta_context_queries e fuel queries context completion =
     api_call [Permitted nbd_internal_is_state_negotiating, Non_null (queries \<noteq> None) ''queries'',
         Non_null (\<not> CALLBACK_IS_NULL context) ''context'']
       (free_opt_completion completion \<circ> free_opt_fn context)
       (with_ptr queries (\<lambda>qs. nbd_unlocked_aio_opt_list_meta_context_queries e fuel qs context completion))"

definition nbd_aio_opt_set_meta_context ::
    "env \<Rightarrow> nat \<Rightarrow> context_fn cbk \<Rightarrow> completion_fn cbk \<Rightarrow> nbd_handle \<Rightarrow> outcome" where
  "nbd_aio_opt_set_meta_context e fuel context completion =
     api_call [Permitted nbd_internal_is_state_negotiating, Non_null (\<not> CALLBACK_IS_NULL context) ''context'']
       (free_opt_completion completion \<circ> free_opt_fn context)
       (nbd_unlocked_aio_opt_set_meta_context e fuel context completion)"

definition nbd_aio_opt_set_meta_context_queries ::
    "env \<Rightarrow> nat \<Rightarrow> cstr list option \<Rightarrow> context_fn cbk \<Rightarrow> completion_fn cbk \<Rightarrow> nbd_handle \<Rightarrow> outcome" where
  "nbd_aio_opt_set_meta_context_queries e fuel queries context completion =
     api_call [Permitted nbd_internal_is_state_negotiating, Non_null (queries \<noteq> None) ''queries'',
         Non_null (\<not> CALLBACK_IS_NULL context) ''context'']
       (free_opt_completion completion \<circ> free_opt_fn context)
       (with_ptr queries (\<lambda>qs. nbd_unlocked_aio_opt_set_meta_context_queries e fuel qs context completion))"

definition nbd_opt_go :: "env \<Rightarrow> nat \<Rightarrow> poll_answer list \<Rightarrow> nbd_handle \<Rightarrow> waited" where
  "nbd_opt_go e fuel as =
     api_wait [Permitted nbd_internal_is_state_negotiating] as (nbd_unlocked_opt_go e fuel as)"

definition nbd_opt_info :: "env \<Rightarrow> nat \<Rightarrow> poll_answer list \<Rightarrow> nbd_handle \<Rightarrow> waited" where
  "nbd_opt_info e fuel as =
     api_wait [Permitted nbd_internal_is_state_negotiating] as (nbd_unlocked_opt_info e fuel as)"

definition nbd_opt_abort :: "env \<Rightarrow> nat \<Rightarrow> poll_answer list \<Rightarrow> nbd_handle \<Rightarrow> waited" where
  "nbd_opt_abort e fuel as =
     api_wait [Permitted nbd_internal_is_state_negotiating] as (nbd_unlocked_opt_abort e fuel as)"

definition nbd_opt_starttls :: "env \<Rightarrow> nat \<Rightarrow> poll_answer list \<Rightarrow> nbd_handle \<Rightarrow> waited" where
  "nbd_opt_starttls e fuel as =
     api_wait [Permitted nbd_internal_is_state_negotiating] as (nbd_unlocked_opt_starttls e fuel as)"

definition nbd_opt_extended_headers :: "env \<Rightarrow> nat \<Rightarrow> poll_answer list \<Rightarrow> nbd_handle \<Rightarrow> waited" where
  "nbd_opt_extended_headers e fuel as =
     api_wait [Permitted nbd_internal_is_state_negotiating] as (nbd_unlocked_opt_extended_headers e fuel as)"

definition nbd_opt_structured_reply :: "env \<Rightarrow> nat \<Rightarrow> poll_answer list \<Rightarrow> nbd_handle \<Rightarrow> waited" where
  "nbd_opt_structured_reply e fuel as =
     api_wait [Permitted nbd_internal_is_state_negotiating] as (nbd_unlocked_opt_structured_reply e fuel as)"

definition nbd_opt_list ::
    "env \<Rightarrow> nat \<Rightarrow> poll_answer list \<Rightarrow> list_fn cbk \<Rightarrow> nbd_handle \<Rightarrow> waited" where
  "nbd_opt_list e fuel as l =
     api_wait_call [Permitted nbd_internal_is_state_negotiating, Non_null (\<not> CALLBACK_IS_NULL l) ''list'']
       (free_opt_fn l) as (nbd_unlocked_opt_list e fuel as l)"

definition nbd_opt_list_meta_context ::
    "env \<Rightarrow> nat \<Rightarrow> poll_answer list \<Rightarrow> context_fn cbk \<Rightarrow> nbd_handle \<Rightarrow> waited" where
  "nbd_opt_list_meta_context e fuel as context =
     api_wait_call [Permitted nbd_internal_is_state_negotiating, Non_null (\<not> CALLBACK_IS_NULL context) ''context'']
       (free_opt_fn context) as (nbd_unlocked_opt_list_meta_context e fuel as context)"

definition nbd_opt_list_meta_context_queries ::
    "env \<Rightarrow> nat \<Rightarrow> poll_answer list \<Rightarrow> cstr list option \<Rightarrow> context_fn cbk \<Rightarrow> nbd_handle \<Rightarrow> waited" where
  "nbd_opt_list_meta_context_queries e fuel as queries context =
     api_wait_call [Permitted nbd_internal_is_state_negotiating, Non_null (queries \<noteq> None) ''queries'',
         Non_null (\<not> CALLBACK_IS_NULL context) ''context''] (free_opt_fn context) as
       (with_ptr_wait_call as queries (\<lambda>qs. nbd_unlocked_opt_list_meta_context_queries e fuel as qs context))"

definition nbd_opt_set_meta_context ::
    "env \<Rightarrow> nat \<Rightarrow> poll_answer list \<Rightarrow> context_fn cbk \<Rightarrow> nbd_handle \<Rightarrow> waited" where
  "nbd_opt_set_meta_context e fuel as context =
     api_wait_call [Permitted nbd_internal_is_state_negotiating, Non_null (\<not> CALLBACK_IS_NULL context) ''context'']
       (free_opt_fn context) as (nbd_unlocked_opt_set_meta_context e fuel as context)"

definition nbd_opt_set_meta_context_queries ::
    "env \<Rightarrow> nat \<Rightarrow> poll_answer list \<Rightarrow> cstr list option \<Rightarrow> context_fn cbk \<Rightarrow> nbd_handle \<Rightarrow> waited" where
  "nbd_opt_set_meta_context_queries e fuel as queries context =
     api_wait_call [Permitted nbd_internal_is_state_negotiating, Non_null (queries \<noteq> None) ''queries'',
         Non_null (\<not> CALLBACK_IS_NULL context) ''context''] (free_opt_fn context) as
       (with_ptr_wait_call as queries (\<lambda>qs. nbd_unlocked_opt_set_meta_context_queries e fuel as qs context))"

section \<open>Events, completion and the end of the connection\<close>

definition nbd_aio_notify_read :: "env \<Rightarrow> nat \<Rightarrow> nbd_handle \<Rightarrow> outcome" where
  "nbd_aio_notify_read e fuel = api_plain [] (nbd_unlocked_aio_notify_read e fuel)"

definition nbd_aio_notify_write :: "env \<Rightarrow> nat \<Rightarrow> nbd_handle \<Rightarrow> outcome" where
  "nbd_aio_notify_write e fuel = api_plain [] (nbd_unlocked_aio_notify_write e fuel)"

definition nbd_poll :: "env \<Rightarrow> nat \<Rightarrow> poll_answer list \<Rightarrow> nbd_handle \<Rightarrow> waited" where
  "nbd_poll e fuel as = api_wait [] as (nbd_unlocked_poll e fuel as)"

definition or_abort :: "(nbd_handle \<times> int) option \<Rightarrow> outcome" where
  "or_abort x = (case x of None \<Rightarrow> Aborted | Some (h, r) \<Rightarrow> Returned h r)"

definition nbd_aio_command_completed :: "u64 \<Rightarrow> nbd_handle \<Rightarrow> outcome" where
  "nbd_aio_command_completed cookie = api_plain [] (\<lambda>h. or_abort (nbd_unlocked_aio_command_completed cookie h))"

definition nbd_aio_peek_command_completed :: "nbd_handle \<Rightarrow> outcome" where
  "nbd_aio_peek_command_completed = api_plain [] (\<lambda>h. or_abort (nbd_unlocked_aio_peek_command_completed h))"

definition nbd_aio_in_flight :: "nbd_handle \<Rightarrow> nbd_handle \<times> int" where
  "nbd_aio_in_flight = api_query [Permitted counted_states] (-1) (\<lambda>h. (h, nbd_unlocked_aio_in_flight h))"

definition nbd_aio_disconnect :: "env \<Rightarrow> nat \<Rightarrow> u32 \<Rightarrow> nbd_handle \<Rightarrow> outcome" where
  "nbd_aio_disconnect e fuel flags =
     api_plain [Permitted connected_states, Command_flags 0 flags] (nbd_unlocked_aio_disconnect e fuel flags)"

definition nbd_shutdown :: "env \<Rightarrow> nat \<Rightarrow> poll_answer list \<Rightarrow> u32 \<Rightarrow> nbd_handle \<Rightarrow> waited" where
  "nbd_shutdown e fuel as flags =
     api_wait [Permitted negotiating_or_connected, Flag_mask LIBNBD_SHUTDOWN_MASK flags] as
       (nbd_unlocked_shutdown e fuel as flags)"

definition nbd_aio_connect_socket :: "env \<Rightarrow> nat \<Rightarrow> socket \<Rightarrow> nbd_handle \<Rightarrow> outcome" where
  "nbd_aio_connect_socket e fuel s =
     api_plain [Permitted nbd_internal_is_state_created] (nbd_unlocked_aio_connect_socket e fuel s)"

definition nbd_connect_socket :: "env \<Rightarrow> nat \<Rightarrow> poll_answer list \<Rightarrow> socket \<Rightarrow> nbd_handle \<Rightarrow> waited" where
  "nbd_connect_socket e fuel as s =
     api_wait [Permitted nbd_internal_is_state_created] as (nbd_unlocked_connect_socket e fuel as s)"

section \<open>Settings\<close>

definition with_string :: "cstr option \<Rightarrow> (cstr \<Rightarrow> nbd_handle \<Rightarrow> nbd_handle \<times> int) \<Rightarrow> nbd_handle \<Rightarrow> outcome" where
  "with_string p f h = (case p of None \<Rightarrow> Aborted | Some x \<Rightarrow> (let (h, r) = f x h in Returned h r))"

definition nbd_set_export_name :: "cstr option \<Rightarrow> nbd_handle \<Rightarrow> outcome" where
  "nbd_set_export_name name =
     api_plain [Permitted configurable_states, Non_null (name \<noteq> None) ''export_name'']
       (with_string name nbd_unlocked_set_export_name)"

definition nbd_add_meta_context :: "cstr option \<Rightarrow> nbd_handle \<Rightarrow> outcome" where
  "nbd_add_meta_context name =
     api_plain [Permitted configurable_states, Non_null (name \<noteq> None) ''name'']
       (with_string name nbd_unlocked_add_meta_context)"

definition nbd_can_meta_context :: "cstr option \<Rightarrow> nbd_handle \<Rightarrow> outcome" where
  "nbd_can_meta_context name =
     api_plain [Permitted negotiated_states, Non_null (name \<noteq> None) ''metacontext'']
       (with_string name nbd_unlocked_can_meta_context)"

definition nbd_set_request_block_size :: "bool \<Rightarrow> nbd_handle \<Rightarrow> nbd_handle \<times> int" where
  "nbd_set_request_block_size value = api_query [Permitted configurable_states] (-1) (nbd_unlocked_set_request_block_size value)"

definition nbd_set_full_info :: "bool \<Rightarrow> nbd_handle \<Rightarrow> nbd_handle \<times> int" where
  "nbd_set_full_info value = api_query [Permitted configurable_states] (-1) (nbd_unlocked_set_full_info value)"

definition nbd_set_request_meta_context :: "bool \<Rightarrow> nbd_handle \<Rightarrow> nbd_handle \<times> int" where
  "nbd_set_request_meta_context value = api_query [Permitted configurable_states] (-1) (nbd_unlocked_set_request_meta_context value)"

definition nbd_set_request_extended_headers :: "bool \<Rightarrow> nbd_handle \<Rightarrow> nbd_handle \<times> int" where
  "nbd_set_request_extended_headers value = api_query [Permitted nbd_internal_is_state_created] (-1) (nbd_unlocked_set_request_extended_headers value)"

definition nbd_set_request_structured_replies :: "bool \<Rightarrow> nbd_handle \<Rightarrow> nbd_handle \<times> int" where
  "nbd_set_request_structured_replies value = api_query [Permitted nbd_internal_is_state_created] (-1) (nbd_unlocked_set_request_structured_replies value)"

definition nbd_set_opt_mode :: "bool \<Rightarrow> nbd_handle \<Rightarrow> nbd_handle \<times> int" where
  "nbd_set_opt_mode value = api_query [Permitted nbd_internal_is_state_created] (-1) (nbd_unlocked_set_opt_mode value)"

definition nbd_set_pread_initialize :: "bool \<Rightarrow> nbd_handle \<Rightarrow> nbd_handle \<times> int" where
  "nbd_set_pread_initialize value = api_query [] (-1) (nbd_unlocked_set_pread_initialize value)"

definition nbd_set_handshake_flags :: "u32 \<Rightarrow> nbd_handle \<Rightarrow> nbd_handle \<times> int" where
  "nbd_set_handshake_flags flags =
     api_query [Permitted nbd_internal_is_state_created, Flag_mask (ucast LIBNBD_HANDSHAKE_FLAG_MASK) flags] (-1)
       (nbd_unlocked_set_handshake_flags flags)"

definition nbd_set_strict_mode :: "u32 \<Rightarrow> nbd_handle \<Rightarrow> nbd_handle \<times> int" where
  "nbd_set_strict_mode flags = api_query [Flag_mask LIBNBD_STRICT_MASK flags] (-1) (nbd_unlocked_set_strict_mode flags)"

definition nbd_set_tls :: "nat \<Rightarrow> nbd_handle \<Rightarrow> nbd_handle \<times> int" where
  "nbd_set_tls value =
     api_query [Permitted nbd_internal_is_state_created,
         Valid (value \<in> {LIBNBD_TLS_DISABLE, LIBNBD_TLS_ALLOW, LIBNBD_TLS_REQUIRE})] (-1)
       (nbd_unlocked_set_tls value)"

definition nbd_clear_meta_contexts :: "nbd_handle \<Rightarrow> nbd_handle \<times> int" where
  "nbd_clear_meta_contexts = api_query [Permitted configurable_states] (-1) nbd_unlocked_clear_meta_contexts"

section \<open>Queries\<close>

definition nbd_is_read_only :: "nbd_handle \<Rightarrow> nbd_handle \<times> int" where
  "nbd_is_read_only = api_query [Permitted negotiated_states] (-1) nbd_unlocked_is_read_only"

definition nbd_can_flush :: "nbd_handle \<Rightarrow> nbd_handle \<times> int" where
  "nbd_can_flush = api_query [Permitted negotiated_states] (-1) nbd_unlocked_can_flush"

definition nbd_can_fua :: "nbd_handle \<Rightarrow> nbd_handle \<times> int" where
  "nbd_can_fua = api_query [Permitted negotiated_states] (-1) nbd_unlocked_can_fua"

definition nbd_is_rotational :: "nbd_handle \<Rightarrow> nbd_handle \<times> int" where
  "nbd_is_rotational = api_query [Permitted negotiated_states] (-1) nbd_unlocked_is_rotational"

definition nbd_can_trim :: "nbd_handle \<Rightarrow> nbd_handle \<times> int" where
  "nbd_can_trim = api_query [Permitted negotiated_states] (-1) nbd_unlocked_can_trim"

definition nbd_can_zero :: "nbd_handle \<Rightarrow> nbd_handle \<times> int" where
  "nbd_can_zero = api_query [Permitted negotiated_states] (-1) nbd_unlocked_can_zero"

definition nbd_can_fast_zero :: "nbd_handle \<Rightarrow> nbd_handle \<times> int" where
  "nbd_can_fast_zero = api_query [Permitted negotiated_states] (-1) nbd_unlocked_can_fast_zero"

definition nbd_can_block_status_payload :: "nbd_handle \<Rightarrow> nbd_handle \<times> int" where
  "nbd_can_block_status_payload = api_query [Permitted negotiated_states] (-1) nbd_unlocked_can_block_status_payload"

definition nbd_can_df :: "nbd_handle \<Rightarrow> nbd_handle \<times> int" where
  "nbd_can_df = api_query [Permitted negotiated_states] (-1) nbd_unlocked_can_df"

definition nbd_can_multi_conn :: "nbd_handle \<Rightarrow> nbd_handle \<times> int" where
  "nbd_can_multi_conn = api_query [Permitted negotiated_states] (-1) nbd_unlocked_can_multi_conn"

definition nbd_can_cache :: "nbd_handle \<Rightarrow> nbd_handle \<times> int" where
  "nbd_can_cache = api_query [Permitted negotiated_states] (-1) nbd_unlocked_can_cache"

definition nbd_get_size :: "nbd_handle \<Rightarrow> nbd_handle \<times> int" where
  "nbd_get_size = api_query [Permitted negotiated_states] (-1) nbd_unlocked_get_size"

definition nbd_get_block_size :: "size_type \<Rightarrow> nbd_handle \<Rightarrow> nbd_handle \<times> int" where
  "nbd_get_block_size t = api_query [Permitted negotiated_states] (-1) (nbd_unlocked_get_block_size t)"

definition nbd_get_canonical_export_name :: "nbd_handle \<Rightarrow> nbd_handle \<times> cstr option" where
  "nbd_get_canonical_export_name = api_query [Permitted negotiated_states] None nbd_unlocked_get_canonical_export_name"

definition nbd_get_export_description :: "nbd_handle \<Rightarrow> nbd_handle \<times> cstr option" where
  "nbd_get_export_description = api_query [Permitted negotiated_states] None nbd_unlocked_get_export_description"

definition nbd_get_protocol :: "nbd_handle \<Rightarrow> nbd_handle \<times> string option" where
  "nbd_get_protocol = api_query [Permitted negotiated_states] None (\<lambda>h. (h, nbd_unlocked_get_protocol h))"

definition nbd_get_meta_context :: "nat \<Rightarrow> nbd_handle \<Rightarrow> nbd_handle \<times> cstr option" where
  "nbd_get_meta_context i = api_query [] None (nbd_unlocked_get_meta_context i)"

text \<open>Queries that cannot fail, in any state; those of what was negotiated only once it was.\<close>

definition yes_no :: "bool \<Rightarrow> int" where
  "yes_no b = (if b then 1 else 0)"

definition nbd_get_tls_negotiated :: "nbd_handle \<Rightarrow> nbd_handle \<times> int" where
  "nbd_get_tls_negotiated = api_query [Permitted negotiated_states] (-1) (\<lambda>h. (h, yes_no (nbd_unlocked_get_tls_negotiated h)))"

definition nbd_get_extended_headers_negotiated :: "nbd_handle \<Rightarrow> nbd_handle \<times> int" where
  "nbd_get_extended_headers_negotiated = api_query [Permitted negotiated_states] (-1) (\<lambda>h. (h, yes_no (nbd_unlocked_get_extended_headers_negotiated h)))"

definition nbd_get_structured_replies_negotiated :: "nbd_handle \<Rightarrow> nbd_handle \<times> int" where
  "nbd_get_structured_replies_negotiated = api_query [Permitted negotiated_states] (-1) (\<lambda>h. (h, yes_no (nbd_unlocked_get_structured_replies_negotiated h)))"

definition nbd_get_request_block_size :: "nbd_handle \<Rightarrow> nbd_handle \<times> bool" where
  "nbd_get_request_block_size h = leave_query (h, nbd_unlocked_get_request_block_size h)"

definition nbd_get_full_info :: "nbd_handle \<Rightarrow> nbd_handle \<times> bool" where
  "nbd_get_full_info h = leave_query (h, nbd_unlocked_get_full_info h)"

definition nbd_get_request_extended_headers :: "nbd_handle \<Rightarrow> nbd_handle \<times> bool" where
  "nbd_get_request_extended_headers h = leave_query (h, nbd_unlocked_get_request_extended_headers h)"

definition nbd_get_request_structured_replies :: "nbd_handle \<Rightarrow> nbd_handle \<times> bool" where
  "nbd_get_request_structured_replies h = leave_query (h, nbd_unlocked_get_request_structured_replies h)"

definition nbd_get_request_meta_context :: "nbd_handle \<Rightarrow> nbd_handle \<times> bool" where
  "nbd_get_request_meta_context h = leave_query (h, nbd_unlocked_get_request_meta_context h)"

definition nbd_get_pread_initialize :: "nbd_handle \<Rightarrow> nbd_handle \<times> bool" where
  "nbd_get_pread_initialize h = leave_query (h, nbd_unlocked_get_pread_initialize h)"

definition nbd_get_opt_mode :: "nbd_handle \<Rightarrow> nbd_handle \<times> bool" where
  "nbd_get_opt_mode h = leave_query (h, nbd_unlocked_get_opt_mode h)"

definition nbd_get_handshake_flags :: "nbd_handle \<Rightarrow> nbd_handle \<times> u32" where
  "nbd_get_handshake_flags h = leave_query (h, nbd_unlocked_get_handshake_flags h)"

definition nbd_get_strict_mode :: "nbd_handle \<Rightarrow> nbd_handle \<times> u32" where
  "nbd_get_strict_mode h = leave_query (h, nbd_unlocked_get_strict_mode h)"

definition nbd_get_tls :: "nbd_handle \<Rightarrow> nbd_handle \<times> nat" where
  "nbd_get_tls h = leave_query (h, nbd_unlocked_get_tls h)"

definition nbd_get_nr_meta_contexts :: "nbd_handle \<Rightarrow> nbd_handle \<times> nat" where
  "nbd_get_nr_meta_contexts h = leave_query (h, nbd_unlocked_get_nr_meta_contexts h)"

definition nbd_get_export_name :: "nbd_handle \<Rightarrow> nbd_handle \<times> cstr" where
  "nbd_get_export_name h = leave_query (h, nbd_unlocked_get_export_name h)"

definition nbd_stats_bytes_sent :: "nbd_handle \<Rightarrow> nbd_handle \<times> u64" where
  "nbd_stats_bytes_sent h = leave_query (h, nbd_unlocked_stats_bytes_sent h)"

definition nbd_stats_chunks_sent :: "nbd_handle \<Rightarrow> nbd_handle \<times> u64" where
  "nbd_stats_chunks_sent h = leave_query (h, nbd_unlocked_stats_chunks_sent h)"

definition nbd_stats_bytes_received :: "nbd_handle \<Rightarrow> nbd_handle \<times> u64" where
  "nbd_stats_bytes_received h = leave_query (h, nbd_unlocked_stats_bytes_received h)"

definition nbd_stats_chunks_received :: "nbd_handle \<Rightarrow> nbd_handle \<times> u64" where
  "nbd_stats_chunks_received h = leave_query (h, nbd_unlocked_stats_chunks_received h)"

text \<open>These read the public state without the lock.\<close>

definition nbd_aio_is_created :: "nbd_handle \<Rightarrow> bool" where
  "nbd_aio_is_created h = nbd_unlocked_aio_is_created h"

definition nbd_aio_is_connecting :: "nbd_handle \<Rightarrow> bool" where
  "nbd_aio_is_connecting h = nbd_unlocked_aio_is_connecting h"

definition nbd_aio_is_negotiating :: "nbd_handle \<Rightarrow> bool" where
  "nbd_aio_is_negotiating h = nbd_unlocked_aio_is_negotiating h"

definition nbd_aio_is_ready :: "nbd_handle \<Rightarrow> bool" where
  "nbd_aio_is_ready h = nbd_unlocked_aio_is_ready h"

definition nbd_aio_is_processing :: "nbd_handle \<Rightarrow> bool" where
  "nbd_aio_is_processing h = nbd_unlocked_aio_is_processing h"

definition nbd_aio_is_dead :: "nbd_handle \<Rightarrow> bool" where
  "nbd_aio_is_dead h = nbd_unlocked_aio_is_dead h"

definition nbd_aio_is_closed :: "nbd_handle \<Rightarrow> bool" where
  "nbd_aio_is_closed h = nbd_unlocked_aio_is_closed h"

definition nbd_aio_get_direction :: "nbd_handle \<Rightarrow> nat" where
  "nbd_aio_get_direction h = nbd_unlocked_aio_get_direction h"

end
