(* ===== verification/NBD_Lifecycle.thy ===== *)
theory NBD_Lifecycle
  imports NBD_Examples
begin

text \<open>
  The life of a command: submission, refusal, completion, the end of the connection; and the
  states of the handle as the caller sees them.
\<close>

section \<open>Submission\<close>





text \<open>
  After a request to disconnect no command is accepted any more: the call returns -1 with
  \<^verbatim>\<open>EINVAL\<close>, and nothing is queued or sent.
\<close>

theorem no_command_after_disconnect:
  assumes "disconnect_request h"
  shows "\<exists>h'. nbd_internal_command_common e n flags type offset count count_err data cb h = Returned h' (-1) \<and>
    nbd_get_errno h' = EINVAL \<and> cmds_to_issue h' = cmds_to_issue h \<and> sock h' = sock h \<and> state h' = state h"
proof -
  let ?msg = "''cannot request more commands after NBD_CMD_DISC''"
  obtain tr where "free_callbacks type cb (set_error EINVAL ?msg h) = (set_error EINVAL ?msg h)\<lparr>trace := tr\<rparr>"
    using free_callbacks_trace by blast
  then show ?thesis using assms
    by (simp add: nbd_internal_command_common_def check_command_def) (simp add: set_error_def nbd_get_errno_def)
qed

theorem no_command_after_disconnect_witness:
  "\<exists>h'. nbd_internal_command_common no_env 0 0 NBD_CMD_FLUSH 0 0 0 NoData None (ready_handle\<lparr>disconnect_request := True\<rparr>) =
     Returned h' (-1) \<and> nbd_get_errno h' = EINVAL"
  using no_command_after_disconnect [of "ready_handle\<lparr>disconnect_request := True\<rparr>" no_env 0 0 NBD_CMD_FLUSH 0 0 0 NoData None] by auto

text \<open>
  With strict commands, writing to an export that the server declared read only is refused
  by the client: nothing is queued, nothing goes to the server and the callback stays with the caller.
\<close>

theorem read_only_refused:
  assumes "is_strict h LIBNBD_STRICT_COMMANDS" and "eflags h AND NBD_FLAG_READ_ONLY \<noteq> 0"
    and "out \<in> {nbd_unlocked_aio_pwrite e n buf count offset completion flags h,
      nbd_unlocked_aio_trim e n count offset completion flags h,
      nbd_unlocked_aio_zero e n count offset completion flags h}"
  shows "\<exists>err msg. out = (False, Returned (set_error err msg h) (-1)) \<and> (err = EPERM \<or> err = EINVAL)"
proof -
  have "eflags h \<noteq> 0" using assms(2) by auto
  then show ?thesis using assms
    by (auto simp: nbd_unlocked_aio_pwrite_def nbd_unlocked_aio_trim_def nbd_unlocked_aio_zero_def guard_def
        can_defs get_flag_def refuse_def fail_def Let_def) blast+
qed

theorem read_only_refused_witness:
  "\<exists>err msg. nbd_unlocked_aio_pwrite no_env 0 [0] 1 0 null_cbk 0 (ready_handle\<lparr>eflags := 3\<rparr>) =
     (False, Returned (set_error err msg (ready_handle\<lparr>eflags := 3\<rparr>)) (-1)) \<and> (err = EPERM \<or> err = EINVAL)"
proof (rule read_only_refused)
  show "is_strict (ready_handle\<lparr>eflags := 3\<rparr>) LIBNBD_STRICT_COMMANDS" by (simp add: handle_defs is_strict_def)
  show "eflags (ready_handle\<lparr>eflags := 3\<rparr>) AND NBD_FLAG_READ_ONLY \<noteq> 0" by simp
qed (rule insertI1)

section \<open>Completion\<close>

text \<open>
  C31. A completed command is reported exactly once: the call answers 1 when it succeeded (for a
  read: when every byte was seen) and -1 with its error otherwise, the other completed commands
  keep their order, and asking again answers 0.
\<close>

theorem completed_once:
  assumes "good h" and "cookie \<noteq> 0" and "find_cmd cookie (cmds_done h) = Some c"
  shows "\<exists>h' r. nbd_unlocked_aio_command_completed cookie h = Some (h', r) \<and> good h' \<and>
    cmds_done h' = del_cmd cookie (cmds_done h) \<and>
    (if c_error c = 0 \<and> (c_type c = NBD_CMD_READ \<longrightarrow> ucast (c_data_seen c) = c_count c) then r = 1
     else r = -1 \<and> nbd_get_errno h' = (if c_error c = 0 then EPROTO else c_error c)) \<and>
    nbd_unlocked_aio_command_completed cookie h' = Some (h', 0)"
proof -
  have "distinct (map c_cookie (cmds_done h))"
    using assms(1) inv_at_qinv by (auto simp: good_def settled_def inv_def qinv_def)
  then have "find_cmd cookie (del_cmd cookie (cmds_done h)) = None"
    by (simp add: find_cmd_None del_cmd_gone)
  moreover have "\<not> cookie < 1"
    using assms(2) by (simp add: word_less_nat_alt unat_eq_0 [symmetric] del: unat_eq_0)
  ultimately have "nbd_unlocked_aio_command_completed cookie h' = Some (h', 0)"
    if "cmds_done h' = del_cmd cookie (cmds_done h)" for h'
    using that by (simp add: nbd_unlocked_aio_command_completed_def)
  then show ?thesis using command_completed_ok [OF assms] by metis
qed

text \<open>A handle on which the command \<open>c\<close> has completed.\<close>

definition done_handle :: "command \<Rightarrow> nbd_handle" where
  "done_handle c = ready_handle\<lparr>unique := 2, cmds_done := [c\<lparr>c_cookie := 1\<rparr>], cmds_done_tail := Some 1\<rparr>"

definition trim_command :: "u32 \<Rightarrow> command" where
  "trim_command err = (new_command 0 NBD_CMD_TRIM 0 512 NoData None ready_handle)\<lparr>c_error := err\<rparr>"

lemma done_good: "c_type c \<noteq> NBD_CMD_DISC \<Longrightarrow> good (done_handle c)"
  by (simp add: done_handle_def handle_defs good_defs)

theorem completed_once_witness:
  "\<exists>h'. nbd_unlocked_aio_command_completed 1 (done_handle (trim_command EIO)) = Some (h', -1) \<and>
     nbd_get_errno h' = EIO \<and> nbd_unlocked_aio_command_completed 1 h' = Some (h', 0)"
proof -
  have g: "good (done_handle (trim_command EIO))" by (rule done_good) (simp add: trim_command_def new_command_def)
  have f: "find_cmd 1 (cmds_done (done_handle (trim_command EIO))) = Some ((trim_command EIO)\<lparr>c_cookie := 1\<rparr>)"
    by (simp add: done_handle_def)
  from completed_once [OF g _ f] show ?thesis by (auto simp: trim_command_def)
qed

text \<open>
  Peeking names the oldest completed command, and that command can then be completed.
\<close>

theorem peek_then_complete:
  assumes "good h" and "cmds_done h = c # cs" and "c_cookie c \<noteq> 0"
  shows "nbd_unlocked_aio_peek_command_completed h = Some (h, uint (c_cookie c)) \<and>
    (\<exists>h' r. nbd_unlocked_aio_command_completed (word_of_int (uint (c_cookie c))) h = Some (h', r) \<and> r \<noteq> 0 \<and> cmds_done h' = cs)"
proof -
  have "c_type c \<noteq> NBD_CMD_DISC"
    using assms(1,2) inv_at_qinv by (auto simp: good_def settled_def inv_def qinv_def)
  moreover have "find_cmd (c_cookie c) (cmds_done h) = Some c" using assms(2) by simp
  ultimately show ?thesis
    using command_completed_ok [OF assms(1,3)] assms(2)
    by (fastforce simp: nbd_unlocked_aio_peek_command_completed_def split: if_splits)
qed

theorem peek_then_complete_witness:
  "nbd_unlocked_aio_peek_command_completed (done_handle (trim_command 0)) = Some (done_handle (trim_command 0), 1) \<and>
   (\<exists>h' r. nbd_unlocked_aio_command_completed 1 (done_handle (trim_command 0)) = Some (h', r) \<and> r \<noteq> 0)"
proof -
  have g: "good (done_handle (trim_command 0))" by (rule done_good) (simp add: trim_command_def new_command_def)
  show ?thesis using peek_then_complete [OF g, of "(trim_command 0)\<lparr>c_cookie := 1\<rparr>" "[]"]
    by (auto simp: done_handle_def)
qed

section \<open>The end of the connection\<close>

fun is_completion :: "cb_event \<Rightarrow> bool" where
  "is_completion (CompletionCall k err) = True"
| "is_completion _ = False"

definition completions :: "nbd_handle \<Rightarrow> cb_event list" where
  "completions h = filter is_completion (trace h)"

text \<open>The completion callbacks that giving up a list of commands has to call.\<close>

definition give_up_calls :: "command list \<Rightarrow> cb_event list" where
  "give_up_calls cs = map (\<lambda>c. CompletionCall (c_cookie c) (if c_error c \<noteq> 0 then c_error c else ENOTCONN))
     (filter (\<lambda>c. cbk_fun (cb_completion (c_cb c)) \<noteq> None) cs)"

lemma retire_frame [simp]:
  "completions (nbd_internal_retire_and_free_command c h) = completions h"
  "cmds_done (nbd_internal_retire_and_free_command c h) = cmds_done h"
  "cmds_to_issue (nbd_internal_retire_and_free_command c h) = cmds_to_issue h"
  "cmds_in_flight (nbd_internal_retire_and_free_command c h) = cmds_in_flight h"
  by (simp_all add: completions_def nbd_internal_retire_and_free_command_def log_event_def Let_def)

lemma notify_completion_ends:
  assumes "notify_completion err cmd h = Some (c, retire, h')"
  shows "c_cookie c = c_cookie cmd \<and> cmds_done h' = cmds_done h \<and> cmds_to_issue h' = cmds_to_issue h \<and>
    cmds_in_flight h' = cmds_in_flight h \<and>
    completions h' = completions h @
      (if cbk_fun (cb_completion (c_cb cmd)) \<noteq> None then [CompletionCall (c_cookie cmd) err] else [])"
  using assms
  by (auto simp: notify_completion_def call_completion_def completions_def log_event_def CALLBACK_IS_NULL_def Let_def
      split: if_splits option.splits Option.bind_splits)

lemma abort_commands_end:
  assumes "nbd_internal_abort_commands cs h = Some h'"
  shows "\<exists>ended. cmds_done h' = cmds_done h @ ended \<and> (\<forall>c \<in> set ended. c_error c \<noteq> 0) \<and>
    subseq (map c_cookie ended) (map c_cookie cs) \<and> completions h' = completions h @ give_up_calls cs \<and>
    cmds_to_issue h' = cmds_to_issue h \<and> cmds_in_flight h' = cmds_in_flight h"
  using assms
proof (induction cs arbitrary: h)
  case (Cons cmd cs)
  let ?e = "if c_error cmd \<noteq> 0 then c_error cmd else ENOTCONN"
  obtain c retire g where n: "notify_completion ?e cmd h = Some (c, retire, g)"
    using Cons.prems by (auto split: Option.bind_splits)
  let ?c = "if c_error c = 0 then c\<lparr>c_error := ENOTCONN\<rparr> else c"
  note ne = notify_completion_ends [OF n]
  obtain g1 where g1: "(if retire then Some (nbd_internal_retire_and_free_command ?c g) else append_done ?c g) = Some g1"
    and ab: "nbd_internal_abort_commands cs g1 = Some h'"
    using Cons.prems n by (auto simp: Let_def split: Option.bind_splits)
  obtain ended where ih: "cmds_done h' = cmds_done g1 @ ended" "\<forall>c \<in> set ended. c_error c \<noteq> 0"
    "subseq (map c_cookie ended) (map c_cookie cs)" "completions h' = completions g1 @ give_up_calls cs"
    "cmds_to_issue h' = cmds_to_issue g1" "cmds_in_flight h' = cmds_in_flight g1"
    using Cons.IH [OF ab] by blast
  have calls: "give_up_calls (cmd # cs) = (if cbk_fun (cb_completion (c_cb cmd)) \<noteq> None
      then [CompletionCall (c_cookie cmd) ?e] else []) @ give_up_calls cs"
    by (simp add: give_up_calls_def)
  show ?case
  proof (cases retire)
    case True
    then have "cmds_done g1 = cmds_done g" "cmds_to_issue g1 = cmds_to_issue g" "cmds_in_flight g1 = cmds_in_flight g"
      "completions g1 = completions g"
      using g1 by auto
    with ih ne calls show ?thesis by (intro exI [of _ ended]) (auto intro: list_emb_Cons)
  next
    case False
    then have "g1 = g\<lparr>cmds_done := cmds_done g @ [?c], cmds_done_tail := Some (c_cookie ?c)\<rparr>"
      using g1 by (auto simp: append_done_def split: if_splits option.splits Option.bind_splits)
    with ih ne calls show ?thesis
      by (intro exI [of _ "?c # ended"]) (simp add: completions_def)
  qed
qed (auto simp: give_up_calls_def)

lemma abort_all_ends:
  assumes "abort_all h = Some h'"
  shows "\<exists>ended. cmds_to_issue h' = [] \<and> cmds_in_flight h' = [] \<and>
    in_flight h' = 0 \<and> sock h' = None \<and> cmds_done h' = cmds_done h @ ended \<and> (\<forall>c \<in> set ended. c_error c \<noteq> 0) \<and>
    subseq (map c_cookie ended) (map c_cookie (cmds_to_issue h @ cmds_in_flight h)) \<and>
    completions h' = completions h @ give_up_calls (cmds_to_issue h @ cmds_in_flight h)"
proof -
  define g where "g = abort_option h"
  have c: "completions g = completions h"
    by (simp add: g_def abort_option_def nbd_internal_free_option_def call_opt_completion_def completions_def
        log_event_def Let_def split: option.split)
  have g: "cmds_to_issue g = cmds_to_issue h" "cmds_in_flight g = cmds_in_flight h" "cmds_done g = cmds_done h"
    unfolding g_def by (subst abort_option_frame, simp)+
  obtain g1 g2 where g1: "nbd_internal_abort_commands (cmds_to_issue g) (g\<lparr>cmds_to_issue := []\<rparr>) = Some g1"
    and g2: "nbd_internal_abort_commands (cmds_in_flight g1) (g1\<lparr>cmds_in_flight := []\<rparr>) = Some g2"
    and h': "h' = g2\<lparr>in_flight := 0, sock := None\<rparr>"
    using assms by (auto simp: abort_all_def g_def Let_def split: Option.bind_splits)
  obtain e1 where e1: "cmds_done g1 = cmds_done g @ e1" "\<forall>c \<in> set e1. c_error c \<noteq> 0"
    "subseq (map c_cookie e1) (map c_cookie (cmds_to_issue g))" "completions g1 = completions g @ give_up_calls (cmds_to_issue g)"
    "cmds_to_issue g1 = []" "cmds_in_flight g1 = cmds_in_flight g"
    using abort_commands_end [OF g1] by (auto simp: completions_def)
  obtain e2 where e2: "cmds_done g2 = cmds_done g1 @ e2" "\<forall>c \<in> set e2. c_error c \<noteq> 0"
    "subseq (map c_cookie e2) (map c_cookie (cmds_in_flight g))" "completions g2 = completions g1 @ give_up_calls (cmds_in_flight g)"
    "cmds_to_issue g2 = []" "cmds_in_flight g2 = []"
    using abort_commands_end [OF g2] e1 by (auto simp: completions_def)
  have "subseq (map c_cookie (e1 @ e2)) (map c_cookie (cmds_to_issue h @ cmds_in_flight h))"
    using e1(3) e2(3) g by (simp add: list_emb_append_mono)
  moreover have "completions h' = completions h @ give_up_calls (cmds_to_issue h @ cmds_in_flight h)"
    using e1(4) e2(4) c g by (simp add: h' completions_def give_up_calls_def)
  ultimately show ?thesis using e1 e2 g by (intro exI [of _ "e1 @ e2"]) (auto simp: h')
qed


text \<open>A handle that has a command in flight, with a completion callback.\<close>

definition told_command :: command where
  "told_command = new_command 0 NBD_CMD_FLUSH 0 0 NoData (Some (completion_cb (Cbk (Some (\<lambda>err. (0, err))) False))) ready_handle"

definition dying_handle :: nbd_handle where
  "dying_handle = ready_handle\<lparr>unique := 2, cmds_in_flight := [told_command], in_flight := 1, state := DEAD,
     last_error := Some (EIO, ''recv'')\<rparr>"


section \<open>States as the caller sees them\<close>

lemma waits_direction_iff:
  "waits_direction w \<in> {1, 3} \<longleftrightarrow> w = Some notify_read" "waits_direction w \<in> {2, 3} \<longleftrightarrow> w = Some notify_write"
  by (cases w rule: waits_direction.cases; simp)+

text \<open>
  C33. What the direction asks the caller to poll for is what the state machine accepts: a state
  asks for reading exactly when it takes the event of a readable socket, and for writing exactly
  when it takes the event of a writable one.
\<close>

theorem direction_matches_events:
  "(nbd_internal_aio_get_direction s \<in> {1, 3} \<longleftrightarrow> external_transition s notify_read \<noteq> None) \<and>
   (nbd_internal_aio_get_direction s \<in> {2, 3} \<longleftrightarrow> external_transition s notify_write \<noteq> None)"
proof (cases s)
  case (ISSUE_COMMAND i)
  then show ?thesis by (cases i) simp_all
next
  case (NEWSTYLE n)
  then show ?thesis using waits_direction_iff [of "newstyle_waits n"] by auto
qed (auto split: if_splits)

lemmas state_defs = nbd_internal_is_state_created_def nbd_internal_is_state_connecting_def
  nbd_internal_is_state_negotiating_def nbd_internal_is_state_ready_def nbd_internal_is_state_processing_def
  nbd_internal_is_state_dead_def nbd_internal_is_state_closed_def is_processing_group_iff is_connecting_group_iff

text \<open>
  Every state is described by exactly one of the public predicates, except the start of
  socket activation, which is described by none of them.
\<close>

theorem state_predicates:
  "length (filter (\<lambda>p. p s) [nbd_internal_is_state_created, nbd_internal_is_state_connecting,
     nbd_internal_is_state_negotiating, nbd_internal_is_state_ready, nbd_internal_is_state_processing,
     nbd_internal_is_state_dead, nbd_internal_is_state_closed]) = (if s = CONNECT_SA_START then 0 else 1)"
proof (cases s)
  case (NEWSTYLE n)
  then show ?thesis by (cases n) (simp_all add: state_defs)
next
  case (REPLY r)
  then show ?thesis by (cases r) (simp_all add: state_defs)
qed (simp_all add: state_defs)

end
