(* ===== verification/NBD_Waiting.thy ===== *)
theory NBD_Waiting
  imports NBD_Poll NBD_Lifecycle
begin

text \<open>
  Waiting for a command: on a connection with extended headers it neither aborts nor waits for a
  connection that has ended.
\<close>

definition enough :: "nat \<Rightarrow> nbd_handle \<Rightarrow> bool" where
  "enough n h \<longleftrightarrow> good h \<and> extended_headers h \<and> 64 * (pending_left h + length (cmds_to_issue h)) + 40 < n"

lemma enough_calm: "enough n h \<Longrightarrow> good h' \<Longrightarrow> calm h h' \<Longrightarrow> enough n h'"
  by (auto simp: enough_def calm_def dest!: suffix_length_le)

lemma notify_enough:
  assumes "enough n h" and "ev = notify_read \<or> ev = notify_write"
  shows "\<exists>h' r. nbd_internal_run e n ev h = Returned h' r \<and> enough n h' \<and> (r = 0 \<or> r = -1 \<and> last_error h' \<noteq> None)"
proof -
  have g: "good h" "extended_headers h" using assms(1) by (simp_all add: enough_def)
  have "turns (h\<lparr>state := s\<rparr>) < n" for s using turns_le [of s h] assms(1) by (simp add: enough_def)
  then have "run_ok e n ev h"
    using g assms(2) by (intro run_ok_extended) (auto simp: good_inv, auto simp: good_def settled_def)
  with run_good [OF g(1) this] assms show ?thesis using enough_calm by (metis external_event.distinct)
qed

lemma enough_error: "enough n h \<Longrightarrow> enough n (set_error err msg h)"
  using good_error [of h] by (simp add: enough_def) (simp add: set_error_def pending_left_def)

lemma good_direction:
  assumes "good h"
  shows "nbd_internal_aio_get_direction (state h) = 0 \<longleftrightarrow> state h \<in> {DEAD, CLOSED}"
proof -
  have "waiting (state h)" using assms by (simp add: good_def settled_def)
  then show ?thesis by (cases "state h") auto
qed

lemma fd_frame [simp]:
  "state (nbd_unlocked_aio_get_fd h) = state h"
  by (simp add: nbd_unlocked_aio_get_fd_def set_error_def)

lemma fd_enough: "enough n h \<Longrightarrow> enough n (nbd_unlocked_aio_get_fd h)"
  by (simp add: nbd_unlocked_aio_get_fd_def enough_error)

lemma after_poll_ok:
  assumes "enough n h"
  shows "\<exists>h' r. after_poll e n a h = Returned h' r \<and> enough n h' \<and> (r = -1 \<longrightarrow> last_error h' \<noteq> None)"
proof -
  have n: "\<exists>h' r. notified (nbd_internal_run e n ev h) = Returned h' r \<and> enough n h' \<and> (r = -1 \<longrightarrow> last_error h' \<noteq> None)"
    if "ev = notify_read \<or> ev = notify_write" for ev
    using notify_enough [OF assms that, of e] by (auto simp: notified_def)
  show ?thesis
    using n [of notify_read] n [of notify_write] assms enough_error [OF assms]
    by (cases a) (simp_all add: after_poll_def fail_def nbd_unlocked_aio_notify_read_def nbd_unlocked_aio_notify_write_def,
      auto simp: set_error_def)
qed

lemma poll_ok:
  assumes "enough n h"
  shows "case nbd_unlocked_poll e n as h of None \<Rightarrow> state h \<notin> {DEAD, CLOSED}
    | Some (as', out) \<Rightarrow> \<exists>h' r. out = Returned h' r \<and> enough n h' \<and> (r = -1 \<longrightarrow> last_error h' \<noteq> None)"
proof (cases "state h \<in> {DEAD, CLOSED}")
  case True
  then have "nbd_internal_aio_get_direction (state h) = 0" using good_direction assms by (simp add: enough_def)
  then show ?thesis using enough_error [OF fd_enough [OF assms]]
    by (simp add: nbd_unlocked_poll_def do_poll_def fail_def Let_def) (simp add: set_error_def)
next
  case False
  then have d: "nbd_internal_aio_get_direction (state h) \<noteq> 0" using good_direction assms by (simp add: enough_def)
  show ?thesis using after_poll_ok [OF fd_enough [OF assms], of e] False
    by (simp add: nbd_unlocked_poll_def do_poll_def d Let_def split: option.split prod.split)
qed

lemma poll_alive:
  "good h \<Longrightarrow> nbd_unlocked_poll e n as h = Some (as', Returned h' r) \<Longrightarrow> r \<noteq> -1 \<Longrightarrow> state h \<notin> {DEAD, CLOSED}"
  using good_direction by (auto simp: nbd_unlocked_poll_def do_poll_def fail_def Let_def split: if_splits)

lemma completed_frame:
  assumes "nbd_unlocked_aio_command_completed cookie h = Some (h', r)"
  shows "extended_headers h' = extended_headers h \<and> sock h' = sock h \<and> cmds_to_issue h' = cmds_to_issue h \<and>
    (r = 0 \<longrightarrow> h' = h) \<and> (r = -1 \<longrightarrow> last_error h' \<noteq> None) \<and> r \<in> {0, 1, -1}"
proof -
  have rt: "extended_headers (nbd_internal_retire_and_free_command c g) = extended_headers g"
    "sock (nbd_internal_retire_and_free_command c g) = sock g"
    "cmds_to_issue (nbd_internal_retire_and_free_command c g) = cmds_to_issue g" for c g
    using retire_trace [of c g] by auto
  show ?thesis using assms
    by (auto simp: nbd_unlocked_aio_command_completed_def set_error_def Let_def rt
        split: if_splits option.splits Option.bind_splits)
qed

lemma completed_enough:
  assumes "enough n h" and "nbd_unlocked_aio_command_completed cookie h = Some (h', r)"
  shows "enough n h' \<and> (r = 0 \<longrightarrow> h' = h) \<and> (r = -1 \<longrightarrow> last_error h' \<noteq> None) \<and> r \<in> {0, 1, -1}"
  using completed_frame [OF assms(2)] completed_good [of h cookie] assms by (auto simp: enough_def pending_left_def)



end
