(* ===== verification/NBD_Api_Safe.thy ===== *)
theory NBD_Api_Safe
  imports NBD_Api NBD_Waiting
begin

text \<open>
  The public interface on a connected handle is safe in any state and for any arguments the caller may
  pass: the checks in front of each call establish what the functions behind it rely on.
\<close>

section \<open>Results\<close>

text \<open>A call is fine when it returns, keeps the handle good, and explains a failure.\<close>

definition fine :: "outcome \<Rightarrow> bool" where
  "fine out \<longleftrightarrow> (\<exists>h r. out = Returned h r \<and> good h \<and> (r = -1 \<longrightarrow> last_error h \<noteq> None))"

lemma fine_Returned [simp]: "fine (Returned h r) \<longleftrightarrow> good h \<and> (r = -1 \<longrightarrow> last_error h \<noteq> None)"
  by (simp add: fine_def)

lemma not_fine [simp]: "\<not> fine Aborted" "\<not> fine Out_of_fuel"
  by (simp_all add: fine_def)

lemma fine_fail: "good h \<Longrightarrow> fine (fail err msg h)"
  using good_error [of h] by (simp add: fail_def) (simp add: set_error_def)

lemma fine_refuse: "good h \<Longrightarrow> fine (snd (refuse err msg h))"
  by (simp add: refuse_def fine_fail)

lemma good_publish [simp]: "good (publish h) = good h"
proof -
  have "inv_at s (publish h) = inv_at s h" for s by (rule inv_at_frame) (simp_all add: publish_def)
  then show ?thesis by (simp add: good_def settled_def inv_def dinv_def publish_def)
qed

lemma publish_error [simp]: "last_error (publish h) = last_error h"
  by (simp add: publish_def)

lemma fine_leave [simp]: "fine (leave out) = fine out"
  by (cases out) simp_all

text \<open>Freeing callbacks only adds to the trace.\<close>

definition only_traces :: "(nbd_handle \<Rightarrow> nbd_handle) \<Rightarrow> bool" where
  "only_traces f \<longleftrightarrow> (\<forall>h. f h = h\<lparr>trace := trace (f h)\<rparr>)"

lemma only_traces_free [simp]:
  "only_traces (free_fn cb)" "only_traces (free_completion cb)" "only_traces (free_opt_fn cb)"
  "only_traces (free_opt_completion cb)"
  by (cases "cbk_free cb"; simp add: only_traces_def free_fn_def free_completion_def free_opt_fn_def
      free_opt_completion_def log_event_def)+

lemma only_traces_comp [simp]:
  assumes "only_traces f" and "only_traces g"
  shows "only_traces (f \<circ> g)"
proof -
  have "f (g h) = (g h)\<lparr>trace := trace (f (g h))\<rparr>" "g h = h\<lparr>trace := trace (g h)\<rparr>" for h
    using assms by (simp_all only: only_traces_def)
  then have "f (g h) = (h\<lparr>trace := trace (g h)\<rparr>)\<lparr>trace := trace (f (g h))\<rparr>" for h by metis
  then show ?thesis by (simp add: only_traces_def)
qed

lemma fine_frees:
  assumes "only_traces f" and "fine out"
  shows "fine (on_returned f out)"
proof -
  obtain h r where h: "out = Returned h r" "good h" "r = -1 \<longrightarrow> last_error h \<noteq> None"
    using assms(2) by (auto simp: fine_def)
  have "f h = h\<lparr>trace := trace (f h)\<rparr>" using assms(1) by (simp only: only_traces_def)
  moreover have "good (h\<lparr>trace := trace (f h)\<rparr>)" "last_error (h\<lparr>trace := trace (f h)\<rparr>) = last_error h"
    using h(2) by simp_all
  ultimately have "good (f h)" "last_error (f h) = last_error h" by (simp_all only:)
  then show ?thesis using h by simp
qed

lemma fine_finish: "only_traces frees \<Longrightarrow> fine (snd sub) \<Longrightarrow> fine (finish frees sub)"
  by (simp add: finish_def fine_frees)

lemma leave_public:
  "leave out = Returned h r \<Longrightarrow> public_state h = state h"
  by (cases out) (auto simp: publish_def)

section \<open>Checked calls\<close>

text \<open>
  A call is fine if it is fine whenever its checks succeed. Then the handle also shows its state to
  the caller.
\<close>

lemma api_call_fine:
  assumes "good h" and "only_traces frees" and "first_failed h cs = None \<Longrightarrow> fine (snd (call h))"
  shows "fine (api_call cs frees call h)"
  using assms fine_refuse [OF assms(1)]
  by (auto simp: api_call_def intro!: fine_finish split: option.split)

lemma api_plain_fine:
  assumes "good h" and "first_failed h cs = None \<Longrightarrow> fine (call h)"
  shows "fine (api_plain cs call h)"
  using assms fine_fail [OF assms(1)] by (auto simp: api_plain_def split: option.split)

lemma api_public:
  "api_call cs frees call h = Returned h' r \<Longrightarrow> public_state h' = state h'"
  "api_plain cs plain h = Returned h' r \<Longrightarrow> public_state h' = state h'"
  by (auto simp: api_call_def finish_def api_plain_def dest: leave_public)

section \<open>Commands\<close>

text \<open>
  What the server may do, and the fuel, for every event that a call may deliver. The error that was
  set last does not matter: some queries set one and go on.
\<close>

definition but_error :: "nbd_handle \<Rightarrow> nbd_handle \<Rightarrow> bool" where
  "but_error h g \<longleftrightarrow> (\<exists>le. g = h\<lparr>last_error := le\<rparr>)"

definition server_ok :: "env \<Rightarrow> nat \<Rightarrow> nbd_handle \<Rightarrow> bool" where
  "server_ok e n h \<longleftrightarrow> run_ok e n notify_read h \<and> run_ok e n notify_write h \<and>
     (\<forall>g cmd. but_error h g \<and> good g \<and> state g = READY \<and> inv (queued cmd g) \<longrightarrow> run_ok e n cmd_issue (queued cmd g))"

definition submitting :: "env \<Rightarrow> nat \<Rightarrow> nbd_handle \<Rightarrow> bool" where
  "submitting e n h \<longleftrightarrow> good h \<and> connected_states (state h) \<and> unique h + 1 \<noteq> 0 \<and>
     (\<forall>cmd. state h = READY \<and> inv (queued cmd h) \<longrightarrow> run_ok e n cmd_issue (queued cmd h))"

lemma command_fine:
  assumes "submitting e n h" and "type \<noteq> NBD_CMD_DISC"
    and "check_command type offset count count_err data h = None \<Longrightarrow> submit_ok flags type offset count data cb h"
  shows "fine (snd (submit_command e n flags type offset count count_err data cb h))"
proof (cases "check_command type offset count count_err data h")
  case None
  let ?cmd = "new_command flags type offset count data cb h"
  have s: "good h" "state h = READY \<or> nbd_internal_is_state_processing (state h)" "unique h + 1 \<noteq> 0"
    using assms(1) by (auto simp: submitting_def connected_states_def nbd_internal_is_state_ready_def)
  have "inv (queued ?cmd h)"
    using queued_ok(1) [OF s(1) check_command_limits(1) [OF None] new_command_ok [OF None assms(3) [OF None]] _ s(3,2)]
    by (simp add: new_command_def)
  then have p: "permitted e (Submit n flags type offset count count_err data cb) h"
    using assms s None by (auto simp: submitting_def connected_def)
  obtain h' where h': "nbd_internal_command_common e n flags type offset count count_err data cb h = Returned h' (uint (unique h))"
    using command_common_queued [OF s None assms(3) [OF None], of e n] p None by auto
  moreover have "uint (unique h) \<noteq> -1" by (metis neg_0_le_iff_le not_one_le_zero uint_range_size)
  ultimately show ?thesis using submit_good [OF s(1) p] by (auto simp: submit_command_def)
next
  case (Some x)
  obtain err msg where "x = (err, msg)" by fastforce
  with Some command_common_refused [of h type offset count count_err data err msg e n flags cb] assms(1)
  show ?thesis by (auto simp: submit_command_def submitting_def)
qed

lemma but_error_refl [simp]: "but_error h h"
  unfolding but_error_def by (rule exI [of _ "last_error h"]) simp

lemma but_error_set [simp]: "but_error h (set_error err msg h)"
  by (auto simp: but_error_def set_error_def)

lemma but_error_trans: "but_error h g \<Longrightarrow> but_error g f \<Longrightarrow> but_error h f"
  by (auto simp: but_error_def)

lemma but_error_fields:
  assumes "but_error h g"
  shows "strict g = strict h" "exportsize g = exportsize h" "extended_headers g = extended_headers h"
    "state g = state h" "public_state g = public_state h" "unique g = unique h" "sock g = sock h"
    "cmds_to_issue g = cmds_to_issue h"
  using assms by (auto simp: but_error_def)

text \<open>The commands in the order of their checks; queries of the export flags only set an error.\<close>

definition submits :: "env \<Rightarrow> nat \<Rightarrow> nbd_handle \<Rightarrow> bool" where
  "submits e n h \<longleftrightarrow> good h \<and> (\<forall>g. but_error h g \<and> good g \<longrightarrow> submitting e n g)"

lemma submits_but_error: "submits e n h \<Longrightarrow> but_error h g \<Longrightarrow> good g \<Longrightarrow> submits e n g"
  using but_error_trans [of h g] by (auto simp: submits_def)

lemma submits_submitting: "submits e n h \<Longrightarrow> submitting e n h"
  by (simp add: submits_def)

lemma guard_fine:
  assumes "submits e n h" and "\<And>g. but_error h g \<Longrightarrow> submits e n g \<Longrightarrow> fine (snd (k g))"
  shows "fine (snd (guard on (get_flag f) bad err msg k h))"
proof -
  have "good h" using assms(1) by (simp add: submits_def)
  then show ?thesis
    using assms good_error fine_refuse submits_but_error [OF assms(1)] by (auto simp: guard_def get_flag_def)
qed

text \<open>What the caller promises of a buffer that is read into, and of the flags of a block status request.\<close>

definition read_promise :: "u8 list option \<Rightarrow> u64 \<Rightarrow> u64 \<Rightarrow> nbd_handle \<Rightarrow> bool" where
  "read_promise buf count offset h \<longleftrightarrow>
     (case buf of None \<Rightarrow> \<not> pread_initialize h \<or> count = 0 | Some b \<Rightarrow> length b = unat count) \<and>
     (unat offset + unat count \<le> 2 ^ 63 \<or> is_strict h LIBNBD_STRICT_BOUNDS \<and> unat (exportsize h) \<le> 2 ^ 63)"

definition write_promise :: "u8 list option \<Rightarrow> u64 \<Rightarrow> bool" where
  "write_promise buf count \<longleftrightarrow> (case buf of None \<Rightarrow> True | Some b \<Rightarrow> length b = unat count)"

definition status_promise :: "u32 \<Rightarrow> nbd_handle \<Rightarrow> bool" where
  "status_promise flags h \<longleftrightarrow> is_strict h LIBNBD_STRICT_FLAGS \<or> flags AND LIBNBD_CMD_FLAG_PAYLOAD_LEN = 0"

lemma read_submit_ok:
  assumes "length b = unat count" and "read_promise (Some b) count offset h"
    and "check_command NBD_CMD_READ offset count EINVAL (Buf b) h = None"
  shows "submit_ok flags NBD_CMD_READ offset count (Buf b) cb h"
  using assms check_command_limits(6) [OF assms(3)]
  by (auto simp: submit_ok_def read_promise_def)

lemma pread_fine:
  assumes "submits e n h" and "read_promise (Some b) count offset h"
  shows "fine (snd (nbd_unlocked_aio_pread e n b count offset completion flags h))"
  unfolding nbd_unlocked_aio_pread_def
  by (rule command_fine [OF submits_submitting [OF assms(1)]])
    (use assms(2) read_submit_ok in \<open>auto simp: read_promise_def\<close>)

lemma read_promise_but_error:
  "but_error h g \<Longrightarrow> read_promise (Some b) count offset g = read_promise (Some b) count offset h"
  by (simp add: read_promise_def is_strict_def but_error_fields)

lemma pread_structured_fine:
  assumes "submits e n h" and "read_promise (Some b) count offset h"
  shows "fine (snd (nbd_unlocked_aio_pread_structured e n b count offset chunk completion flags h))"
  unfolding nbd_unlocked_aio_pread_structured_def can_defs
proof (rule guard_fine [OF assms(1)])
  fix g assume g: "but_error h g" "submits e n g"
  show "fine (snd (submit_command e n (ucast flags) NBD_CMD_READ offset count EINVAL (Buf b)
      (Some \<lparr>cb_fn = FnChunk chunk, cb_completion = completion, cb_wide = False\<rparr>) g))"
    by (rule command_fine [OF submits_submitting [OF g(2)]]) (use assms read_submit_ok read_promise_but_error [OF g(1)] in
      \<open>auto simp: read_promise_def [of "Some b"]\<close>)
qed

lemma pwrite_fine:
  assumes "submits e n h" and "length b = unat count"
  shows "fine (snd (nbd_unlocked_aio_pwrite e n b count offset completion flags h))"
proof -
  have "fine (snd (submit_command e n fl NBD_CMD_WRITE offset count ENOSPC (Buf b) (Some (completion_cb completion)) g))"
    if "submits e n g" for g fl
    by (rule command_fine [OF submits_submitting [OF that]]) (simp_all add: submit_ok_def assms(2))
  moreover have "fine (snd (refuse err msg g))" if "submits e n g" for g err msg
    using that fine_refuse by (simp add: submits_def)
  ultimately show ?thesis
    using assms(1) unfolding nbd_unlocked_aio_pwrite_def can_defs Let_def
    by (intro guard_fine) (assumption | simp)+
qed

text \<open>Commands without data and without a callback of their own.\<close>

lemma plain_command_fine:
  assumes "submits e n h" and "type \<in> {NBD_CMD_FLUSH, NBD_CMD_TRIM, NBD_CMD_CACHE, NBD_CMD_WRITE_ZEROES}"
  shows "fine (snd (submit_command e n flags type offset count count_err NoData (Some (completion_cb completion)) h))"
  by (rule command_fine [OF submits_submitting [OF assms(1)]]) (use assms(2) in \<open>auto simp: submit_ok_def\<close>)

lemma flush_trim_cache_zero_fine:
  assumes "submits e n h"
  shows "fine (snd (nbd_unlocked_aio_flush e n completion flags h))"
    "fine (snd (nbd_unlocked_aio_trim e n count offset completion flags h))"
    "fine (snd (nbd_unlocked_aio_cache e n count offset completion flags h))"
    "fine (snd (nbd_unlocked_aio_zero e n count offset completion flags h))"
  using assms
  unfolding nbd_unlocked_aio_flush_def nbd_unlocked_aio_trim_def nbd_unlocked_aio_cache_def nbd_unlocked_aio_zero_def
    can_defs Let_def
  by (intro guard_fine [where e = e and n = n] plain_command_fine; simp)+

text \<open>Block status: the extended request carries a payload only when it has one.\<close>

lemma status_fine:
  assumes "submits e n h" and "\<not> fn_is_null (cb_fn cb)"
    and "data = NoData \<and> flags AND NBD_CMD_FLAG_PAYLOAD_LEN = 0 \<or> (\<exists>ids. data = Ids ids)"
  shows "fine (snd (submit_command e n flags NBD_CMD_BLOCK_STATUS offset count EINVAL data (Some cb) h))"
  by (rule command_fine [OF submits_submitting [OF assms(1)]]) (use assms(2,3) in \<open>auto simp: submit_ok_def\<close>)

lemma check_status_cases:
  assumes "check_aio_block_status h = (g, r)"
  shows "r = 0 \<and> g = h \<or> r = -1 \<and> (\<exists>err msg. g = set_error err msg h)"
  using assms by (auto simp: check_aio_block_status_def split: if_splits)

lemma no_payload_flag:
  assumes "flags AND LIBNBD_CMD_FLAG_PAYLOAD_LEN = 0"
  shows "(ucast flags :: u16) AND NBD_CMD_FLAG_PAYLOAD_LEN = 0"
proof -
  have "(ucast flags :: u16) AND NBD_CMD_FLAG_PAYLOAD_LEN = ucast (flags AND LIBNBD_CMD_FLAG_PAYLOAD_LEN)"
    by (simp add: unsigned_and_eq)
  with assms show ?thesis by simp
qed

lemma allowed_no_payload:
  fixes flags :: u32
  assumes "flags AND NOT 0x8 = 0"
  shows "flags AND LIBNBD_CMD_FLAG_PAYLOAD_LEN = 0"
proof -
  have "flags AND LIBNBD_CMD_FLAG_PAYLOAD_LEN = (flags AND NOT 0x8) AND LIBNBD_CMD_FLAG_PAYLOAD_LEN"
    by (simp add: and.assoc)
  with assms show ?thesis by simp
qed

lemma block_status_fine:
  assumes "submits e n h" and "flags AND LIBNBD_CMD_FLAG_PAYLOAD_LEN = 0"
  shows "\<not> CALLBACK_IS_NULL extent \<Longrightarrow> fine (snd (nbd_unlocked_aio_block_status e n count offset extent completion flags h))"
    and "\<not> CALLBACK_IS_NULL extent64 \<Longrightarrow>
      fine (snd (nbd_unlocked_aio_block_status_64 e n count offset extent64 completion flags h))"
proof -
  obtain g r where c: "check_aio_block_status h = (g, r)" by fastforce
  note facts = check_status_cases [OF c] assms(1) no_payload_flag [OF assms(2)] status_fine good_error
  show "fine (snd (nbd_unlocked_aio_block_status e n count offset extent completion flags h))"
    if "\<not> CALLBACK_IS_NULL extent"
    using facts that by (auto simp: nbd_unlocked_aio_block_status_def c submits_def set_error_def)
  show "fine (snd (nbd_unlocked_aio_block_status_64 e n count offset extent64 completion flags h))"
    if "\<not> CALLBACK_IS_NULL extent64"
    using facts that by (auto simp: nbd_unlocked_aio_block_status_64_def c submits_def set_error_def)
qed

lemma block_status_filter_fine:
  assumes "submits e n h" and "\<not> CALLBACK_IS_NULL extent"
  shows "fine (snd (nbd_unlocked_aio_block_status_filter e n count offset filters extent completion flags h))"
proof -
  obtain g r where c: "check_aio_block_status h = (g, r)" by fastforce
  have good: "submits e n h \<Longrightarrow> good h" for h by (simp add: submits_def)
  have s: "fine (snd (submit_command e n fl NBD_CMD_BLOCK_STATUS offset count EINVAL (Ids ids)
      (Some \<lparr>cb_fn = FnExtent64 extent, cb_completion = completion, cb_wide = True\<rparr>) g))" if "submits e n g" for g fl ids
    using status_fine [OF that] assms(2) by simp
  have ref: "fine (snd (refuse err msg g))" if "submits e n g" for g err msg
    using that good fine_refuse by blast
  show ?thesis
  proof (cases "r = -1")
    case True
    then have "g = h \<or> (\<exists>err msg. g = set_error err msg h)" using check_status_cases [OF c] by auto
    then show ?thesis using True c check_status_cases [OF c] good_error [OF good [OF assms(1)]]
      by (auto simp: nbd_unlocked_aio_block_status_filter_def set_error_def)
  next
    case False
    then have "g = h" using check_status_cases [OF c] by auto
    then show ?thesis using False assms(1) s ref
      by (auto simp: nbd_unlocked_aio_block_status_filter_def c can_defs Let_def
          intro!: guard_fine [where e = e and n = n] split: option.split)
  qed
qed

section \<open>Sessions through the public interface\<close>

datatype request =
  Aio_pread "u8 list option" u64 u64 "completion_fn cbk" u32
| Aio_pread_structured "u8 list option" u64 u64 "chunk_fn cbk" "completion_fn cbk" u32
| Aio_pwrite "u8 list option" u64 u64 "completion_fn cbk" u32
| Aio_flush "completion_fn cbk" u32
| Aio_trim u64 u64 "completion_fn cbk" u32
| Aio_cache u64 u64 "completion_fn cbk" u32
| Aio_zero u64 u64 "completion_fn cbk" u32
| Aio_block_status u64 u64 "extent32_fn cbk" "completion_fn cbk" u32
| Aio_block_status_64 u64 u64 "extent64_fn cbk" "completion_fn cbk" u32
| Aio_block_status_filter u64 u64 "cstr list option" "extent64_fn cbk" "completion_fn cbk" u32
| Aio_notify_read
| Aio_notify_write
| Aio_command_completed u64
| Aio_peek_command_completed
| Aio_disconnect u32
| Aio_opt_go "completion_fn cbk"
| Aio_opt_abort
| Aio_connect_socket socket
| Set_export_name "cstr option"
| Add_meta_context "cstr option"
| Set_strict_mode u32
| Set_pread_initialize bool
| Get_size
| Transport socket

text \<open>A query as a call: its answer is the result.\<close>

definition of_query :: "nbd_handle \<times> int \<Rightarrow> outcome" where
  "of_query x = Returned (fst x) (snd x)"

fun call_api :: "env \<Rightarrow> nat \<Rightarrow> request \<Rightarrow> nbd_handle \<Rightarrow> outcome" where
  "call_api e n (Aio_pread buf count offset completion flags) h = nbd_aio_pread e n buf count offset completion flags h"
| "call_api e n (Aio_pread_structured buf count offset chunk completion flags) h =
     nbd_aio_pread_structured e n buf count offset chunk completion flags h"
| "call_api e n (Aio_pwrite buf count offset completion flags) h = nbd_aio_pwrite e n buf count offset completion flags h"
| "call_api e n (Aio_flush completion flags) h = nbd_aio_flush e n completion flags h"
| "call_api e n (Aio_trim count offset completion flags) h = nbd_aio_trim e n count offset completion flags h"
| "call_api e n (Aio_cache count offset completion flags) h = nbd_aio_cache e n count offset completion flags h"
| "call_api e n (Aio_zero count offset completion flags) h = nbd_aio_zero e n count offset completion flags h"
| "call_api e n (Aio_block_status count offset extent completion flags) h =
     nbd_aio_block_status e n count offset extent completion flags h"
| "call_api e n (Aio_block_status_64 count offset extent completion flags) h =
     nbd_aio_block_status_64 e n count offset extent completion flags h"
| "call_api e n (Aio_block_status_filter count offset contexts extent completion flags) h =
     nbd_aio_block_status_filter e n count offset contexts extent completion flags h"
| "call_api e n Aio_notify_read h = nbd_aio_notify_read e n h"
| "call_api e n Aio_notify_write h = nbd_aio_notify_write e n h"
| "call_api e n (Aio_command_completed cookie) h = nbd_aio_command_completed cookie h"
| "call_api e n Aio_peek_command_completed h = nbd_aio_peek_command_completed h"
| "call_api e n (Aio_disconnect flags) h = nbd_aio_disconnect e n flags h"
| "call_api e n (Aio_opt_go completion) h = nbd_aio_opt_go e n completion h"
| "call_api e n Aio_opt_abort h = nbd_aio_opt_abort e n h"
| "call_api e n (Aio_connect_socket s) h = nbd_aio_connect_socket e n s h"
| "call_api e n (Set_export_name name) h = nbd_set_export_name name h"
| "call_api e n (Add_meta_context name) h = nbd_add_meta_context name h"
| "call_api e n (Set_strict_mode flags) h = of_query (nbd_set_strict_mode flags h)"
| "call_api e n (Set_pread_initialize value) h = of_query (nbd_set_pread_initialize value h)"
| "call_api e n Get_size h = of_query (nbd_get_size h)"
| "call_api e n (Transport s) h = Returned (h\<lparr>sock := Some s\<rparr>) 0"

text \<open>
  What is left for the caller to promise: buffers of the size it says, reads clear of the end of the
  offset space, and no payload flag without a payload when it has turned off the checks of flags.
  Nothing is said of the state of the handle. The other conditions are on the server, the fuel and the
  number of cookies.
\<close>

fun buffers_ok :: "request \<Rightarrow> nbd_handle \<Rightarrow> bool" where
  "buffers_ok (Aio_pread buf count offset completion flags) h = read_promise buf count offset h"
| "buffers_ok (Aio_pread_structured buf count offset chunk completion flags) h = read_promise buf count offset h"
| "buffers_ok (Aio_pwrite buf count offset completion flags) h = write_promise buf count"
| "buffers_ok (Aio_block_status count offset extent completion flags) h = status_promise flags h"
| "buffers_ok (Aio_block_status_64 count offset extent completion flags) h = status_promise flags h"
| "buffers_ok (Transport s) h = (case sock h of None \<Rightarrow> False | Some s' \<Rightarrow> sent s = sent s')"
| "buffers_ok rq h = True"

definition promised :: "env \<Rightarrow> nat \<Rightarrow> request \<Rightarrow> nbd_handle \<Rightarrow> bool" where
  "promised e n rq h \<longleftrightarrow> buffers_ok rq h \<and> server_ok e n h \<and> unique h + 1 \<noteq> 0"

definition api_good :: "nbd_handle \<Rightarrow> bool" where
  "api_good h \<longleftrightarrow> good h \<and> public_state h = state h"

lemma connected_submits:
  assumes "good h" and "server_ok e n h" and "unique h + 1 \<noteq> 0" and "connected_states (state h)"
  shows "submits e n h"
  using assms by (auto simp: submits_def submitting_def server_ok_def but_error_fields)

lemma initialize_promise:
  assumes "read_promise buf count offset h"
  shows "\<exists>buf'. initialize buf count h = Some buf' \<and> read_promise buf' count offset h \<and>
    (buf' = None \<longleftrightarrow> buf = None)"
  using assms by (cases buf) (auto simp: initialize_def read_promise_def)

text \<open>Each command behind its checks.\<close>

lemma api_read_fine:
  assumes "api_good h" and "server_ok e n h" and "unique h + 1 \<noteq> 0" and "read_promise buf count offset h"
  shows "fine (nbd_aio_pread e n buf count offset completion flags h)"
    and "fine (nbd_aio_pread_structured e n buf count offset chunk completion flags h)"
proof -
  obtain buf' where b: "initialize buf count h = Some buf'" "read_promise buf' count offset h"
    using initialize_promise [OF assms(4)] by blast
  have g: "good h" using assms(1) by (simp add: api_good_def)
  have c: "connected_states (public_state h) \<Longrightarrow> submits e n h"
    using connected_submits assms by (simp add: api_good_def)
  show "fine (nbd_aio_pread e n buf count offset completion flags h)"
    unfolding nbd_aio_pread_def b(1) option.case
    by (rule api_call_fine [OF g]) (use c b(2) pread_fine in \<open>auto simp: with_ptr_def split: if_splits option.split\<close>)
  show "fine (nbd_aio_pread_structured e n buf count offset chunk completion flags h)"
    unfolding nbd_aio_pread_structured_def b(1) option.case
    by (rule api_call_fine [OF g])
      (use c b(2) pread_structured_fine in \<open>auto simp: with_ptr_def split: if_splits option.split\<close>)
qed

lemma api_write_fine:
  assumes "api_good h" and "server_ok e n h" and "unique h + 1 \<noteq> 0" and "write_promise buf count"
  shows "fine (nbd_aio_pwrite e n buf count offset completion flags h)"
proof -
  have "connected_states (public_state h) \<Longrightarrow> submits e n h"
    using connected_submits assms by (simp add: api_good_def)
  then show ?thesis unfolding nbd_aio_pwrite_def
    by (intro api_call_fine) (use assms(1,4) pwrite_fine in
      \<open>auto simp: api_good_def with_ptr_def write_promise_def split: if_splits option.splits\<close>)
qed

lemma api_plain_command_fine:
  assumes "api_good h" and "server_ok e n h" and "unique h + 1 \<noteq> 0"
  shows "fine (nbd_aio_flush e n completion flags h)" "fine (nbd_aio_trim e n count offset completion flags h)"
    "fine (nbd_aio_cache e n count offset completion flags h)" "fine (nbd_aio_zero e n count offset completion flags h)"
proof -
  have "connected_states (public_state h) \<Longrightarrow> submits e n h"
    using connected_submits assms by (simp add: api_good_def)
  note facts = this assms(1) flush_trim_cache_zero_fine
  show "fine (nbd_aio_flush e n completion flags h)" unfolding nbd_aio_flush_def
    by (intro api_call_fine) (use facts in \<open>auto simp: api_good_def split: if_splits\<close>)
  show "fine (nbd_aio_trim e n count offset completion flags h)" unfolding nbd_aio_trim_def
    by (intro api_call_fine) (use facts in \<open>auto simp: api_good_def split: if_splits\<close>)
  show "fine (nbd_aio_cache e n count offset completion flags h)" unfolding nbd_aio_cache_def
    by (intro api_call_fine) (use facts in \<open>auto simp: api_good_def split: if_splits\<close>)
  show "fine (nbd_aio_zero e n count offset completion flags h)" unfolding nbd_aio_zero_def
    by (intro api_call_fine) (use facts in \<open>auto simp: api_good_def split: if_splits\<close>)
qed

lemma api_status_fine:
  assumes "api_good h" and "server_ok e n h" and "unique h + 1 \<noteq> 0" and "status_promise flags h"
  shows "fine (nbd_aio_block_status e n count offset extent completion flags h)"
    and "fine (nbd_aio_block_status_64 e n count offset extent64 completion flags h)"
proof -
  have c: "connected_states (public_state h) \<Longrightarrow> submits e n h"
    using connected_submits assms by (simp add: api_good_def)
  have p: "flags AND LIBNBD_CMD_FLAG_PAYLOAD_LEN = 0" if "failed_check h (Command_flags 0x8 flags) = None"
    using that assms(4) allowed_no_payload [of flags] by (auto simp: status_promise_def split: if_splits)
  note facts = c assms(1) p block_status_fine
  show "fine (nbd_aio_block_status e n count offset extent completion flags h)" unfolding nbd_aio_block_status_def
    by (intro api_call_fine) (use facts in \<open>auto simp: api_good_def split: if_splits\<close>)
  show "fine (nbd_aio_block_status_64 e n count offset extent64 completion flags h)" unfolding nbd_aio_block_status_64_def
    by (intro api_call_fine) (use facts in \<open>auto simp: api_good_def split: if_splits\<close>)
qed

lemma api_filter_fine:
  assumes "api_good h" and "server_ok e n h" and "unique h + 1 \<noteq> 0"
  shows "fine (nbd_aio_block_status_filter e n count offset contexts extent completion flags h)"
proof -
  have "connected_states (public_state h) \<Longrightarrow> submits e n h"
    using connected_submits assms by (simp add: api_good_def)
  then show ?thesis unfolding nbd_aio_block_status_filter_def
    by (intro api_call_fine) (use assms(1) block_status_filter_fine in
      \<open>auto simp: api_good_def with_ptr_def split: if_splits option.splits\<close>)
qed

text \<open>Events, completion and disconnection.\<close>

lemma api_event_fine:
  assumes "good h" and "server_ok e n h"
  shows "fine (nbd_aio_notify_read e n h)" and "fine (nbd_aio_notify_write e n h)"
proof -
  have "fine (nbd_internal_run e n ev h)" if "run_ok e n ev h" "ev \<noteq> cmd_issue" for ev
    using run_good [OF assms(1) that] by auto
  then show "fine (nbd_aio_notify_read e n h)" "fine (nbd_aio_notify_write e n h)"
    using assms(2) unfolding nbd_aio_notify_read_def nbd_aio_notify_write_def
    by (auto intro!: api_plain_fine [OF assms(1)] simp: nbd_unlocked_aio_notify_read_def
        nbd_unlocked_aio_notify_write_def server_ok_def)
qed

lemma good_qinv: "good h \<Longrightarrow> qinv h"
  using inv_at_qinv by (auto simp: good_def settled_def inv_def)

lemma api_completion_fine:
  assumes "good h"
  shows "fine (nbd_aio_command_completed cookie h)" and "fine (nbd_aio_peek_command_completed h)"
proof -
  obtain h' r where c: "nbd_unlocked_aio_command_completed cookie h = Some (h', r)" "good h'"
    using completed_good [OF assms] by blast
  then show "fine (nbd_aio_command_completed cookie h)"
    using completed_frame [OF c(1)] unfolding nbd_aio_command_completed_def
    by (intro api_plain_fine [OF assms]) (simp add: or_abort_def)
  have d: "\<forall>c \<in> set (cmds_done h). c_type c \<noteq> NBD_CMD_DISC" using good_qinv [OF assms] by (simp add: qinv_def)
  show "fine (nbd_aio_peek_command_completed h)"
    unfolding nbd_aio_peek_command_completed_def
  proof (rule api_plain_fine [OF assms])
    show "fine (or_abort (nbd_unlocked_aio_peek_command_completed h))"
    proof (cases "cmds_done h")
      case Nil
      then show ?thesis using good_error [OF assms]
        by (simp add: nbd_unlocked_aio_peek_command_completed_def or_abort_def) (simp add: set_error_def)
    next
      case (Cons c cs)
      have "uint (c_cookie c) \<noteq> -1" by (metis neg_0_le_iff_le not_one_le_zero uint_range_size)
      then show ?thesis using Cons d assms
        by (simp add: nbd_unlocked_aio_peek_command_completed_def or_abort_def)
    qed
  qed
qed

lemma api_disconnect_fine:
  assumes "api_good h" and "server_ok e n h" and "unique h + 1 \<noteq> 0"
  shows "fine (nbd_aio_disconnect e n flags h)"
proof -
  have g: "good h" using assms(1) by (simp add: api_good_def)
  have "fine (nbd_unlocked_aio_disconnect e n flags h)" if "connected_states (state h)"
  proof (cases "disconnect_request h")
    case True
    then obtain err msg where "check_command NBD_CMD_DISC 0 0 0 NoData h = Some (err, msg)"
      by (simp add: check_command_def)
    from command_common_refused [OF g this, of e n "ucast flags" None] show ?thesis
      by (auto simp: nbd_unlocked_aio_disconnect_def)
  next
    case False
    let ?cmd = "new_command (ucast flags) NBD_CMD_DISC 0 0 NoData None h"
    have s: "state h = READY \<or> nbd_internal_is_state_processing (state h)"
      using that by (auto simp: connected_states_def nbd_internal_is_state_ready_def)
    have "cmd_ok (extended_headers h) ?cmd"
      by (simp add: cmd_ok_def new_command_def null_cb_def)
    then have "inv (queued ?cmd h)"
      using queued_ok(1) [OF g False _ _ assms(3) s] by (simp add: new_command_def)
    then have "state h = READY \<longrightarrow> run_ok e n cmd_issue (queued ?cmd h)"
      using assms(2) g by (auto simp: server_ok_def)
    from disconnect_ok [OF g s assms(3) this] show ?thesis by auto
  qed
  then show ?thesis using assms(1) unfolding nbd_aio_disconnect_def
    by (intro api_plain_fine) (auto simp: api_good_def split: if_splits)
qed

text \<open>Calls for a handle that is not connected yet are refused; settings keep the handle good.\<close>

lemma good_not_created:
  assumes "good h"
  shows "\<not> nbd_internal_is_state_created (state h)" and "\<not> nbd_internal_is_state_negotiating (state h)"
proof -
  have "waiting (state h)" using assms by (simp add: good_def settled_def)
  then show "\<not> nbd_internal_is_state_created (state h)" "\<not> nbd_internal_is_state_negotiating (state h)"
    by (cases "state h"; simp add: nbd_internal_is_state_created_def nbd_internal_is_state_negotiating_def)+
qed

lemma good_setting [simp]:
  "good (h\<lparr>strict := x\<rparr>) = good h" "good (h\<lparr>pread_initialize := y\<rparr>) = good h"
proof -
  have "inv_at s (h\<lparr>strict := x\<rparr>) = inv_at s h" "inv_at s (h\<lparr>pread_initialize := y\<rparr>) = inv_at s h" for s
    by (rule inv_at_frame; simp)+
  then show "good (h\<lparr>strict := x\<rparr>) = good h" "good (h\<lparr>pread_initialize := y\<rparr>) = good h"
    by (simp_all add: good_def settled_def inv_def dinv_def)
qed

lemma api_query_fine:
  assumes "good h" and "first_failed h cs = None \<Longrightarrow> fine (of_query (call h))"
  shows "fine (of_query (api_query cs (-1) call h))"
  using assms good_error [OF assms(1)]
  by (auto simp: api_query_def leave_query_def of_query_def set_error_def apfst_def map_prod_def split: option.split prod.split)

lemma api_setting_fine:
  assumes "api_good h"
  shows "fine (of_query (nbd_set_strict_mode flags h))" "fine (of_query (nbd_set_pread_initialize value h))"
    "fine (of_query (nbd_get_size h))"
proof -
  have g: "good h" using assms by (simp add: api_good_def)
  show "fine (of_query (nbd_set_strict_mode flags h))" unfolding nbd_set_strict_mode_def
    by (rule api_query_fine [OF g]) (use g in \<open>simp add: of_query_def nbd_unlocked_set_strict_mode_def\<close>)
  show "fine (of_query (nbd_set_pread_initialize value h))" unfolding nbd_set_pread_initialize_def
    by (rule api_query_fine [OF g]) (use g in \<open>simp add: of_query_def nbd_unlocked_set_pread_initialize_def\<close>)
  have "uint (exportsize h) \<noteq> -1" by (metis neg_0_le_iff_le not_one_le_zero uint_range_size)
  then show "fine (of_query (nbd_get_size h))" unfolding nbd_get_size_def
    by (intro api_query_fine [OF g]) (use g good_error [OF g] in
      \<open>auto simp: of_query_def nbd_unlocked_get_size_def\<close>, auto simp: set_error_def)
qed

lemma api_refused_fine:
  assumes "api_good h"
  shows "fine (nbd_aio_opt_go e n completion h)" "fine (nbd_aio_opt_abort e n h)" "fine (nbd_aio_connect_socket e n s h)"
    "fine (nbd_set_export_name name h)" "fine (nbd_add_meta_context name h)"
proof -
  have g: "good h" "public_state h = state h" using assms by (simp_all add: api_good_def)
  note not = good_not_created [OF g(1)] g(2)
  show "fine (nbd_aio_opt_go e n completion h)" unfolding nbd_aio_opt_go_def
    by (rule api_call_fine [OF g(1)]) (use not in simp_all)
  show "fine (nbd_aio_opt_abort e n h)" unfolding nbd_aio_opt_abort_def
    by (rule api_plain_fine [OF g(1)]) (use not in simp)
  show "fine (nbd_aio_connect_socket e n s h)" unfolding nbd_aio_connect_socket_def
    by (rule api_plain_fine [OF g(1)]) (use not in simp)
  show "fine (nbd_set_export_name name h)" unfolding nbd_set_export_name_def
    by (rule api_plain_fine [OF g(1)]) (use not in \<open>simp add: configurable_states_def\<close>)
  show "fine (nbd_add_meta_context name h)" unfolding nbd_add_meta_context_def
    by (rule api_plain_fine [OF g(1)]) (use not in \<open>simp add: configurable_states_def\<close>)
qed

lemma call_api_fine:
  assumes "api_good h" and "promised e n rq h"
  shows "fine (call_api e n rq h)"
proof -
  have p: "buffers_ok rq h" "server_ok e n h" "unique h + 1 \<noteq> 0" and g: "good h"
    using assms by (simp_all add: promised_def api_good_def)
  note fine = api_read_fine [OF assms(1) p(2,3)] api_write_fine [OF assms(1) p(2,3)]
    api_plain_command_fine [OF assms(1) p(2,3)] api_status_fine [OF assms(1) p(2,3)] api_filter_fine [OF assms(1) p(2,3)]
    api_event_fine [OF g p(2)] api_completion_fine [OF g] api_disconnect_fine [OF assms(1) p(2,3)]
    api_setting_fine [OF assms(1)] api_refused_fine [OF assms(1)]
  show ?thesis
  proof (cases rq)
    case (Transport s)
    then have "sock h \<noteq> None" using p(1) by (auto split: option.splits)
    then have "inv_at st (h\<lparr>sock := Some s\<rparr>) = inv_at st h" for st by (intro inv_at_frame) simp_all
    then show ?thesis using Transport g by (simp add: good_def settled_def inv_def dinv_def)
  qed (use p(1) fine in simp_all)
qed

lemma call_api_public:
  assumes "call_api e n rq h = Returned h' r" and "public_state h = state h"
  shows "public_state h' = state h'"
proof -
  have q: "public_state (fst (api_query cs x call h)) = state (fst (api_query cs x call h))" for cs and x :: int and call
    by (simp add: api_query_def leave_query_def publish_def)
  note defs = nbd_aio_pread_def nbd_aio_pread_structured_def nbd_aio_pwrite_def nbd_aio_flush_def nbd_aio_trim_def
    nbd_aio_cache_def nbd_aio_zero_def nbd_aio_block_status_def nbd_aio_block_status_64_def
    nbd_aio_block_status_filter_def nbd_aio_notify_read_def nbd_aio_notify_write_def nbd_aio_command_completed_def
    nbd_aio_peek_command_completed_def nbd_aio_disconnect_def nbd_aio_opt_go_def nbd_aio_opt_abort_def
    nbd_aio_connect_socket_def nbd_set_export_name_def nbd_add_meta_context_def nbd_set_strict_mode_def
    nbd_set_pread_initialize_def nbd_get_size_def
  show ?thesis using assms q
    by (cases rq) (auto simp: defs of_query_def dest: api_public split: option.splits)
qed

lemma call_api_good:
  assumes "api_good h" and "promised e n rq h"
  shows "\<exists>h' r. call_api e n rq h = Returned h' r \<and> api_good h' \<and> (r = -1 \<longrightarrow> last_error h' \<noteq> None)"
proof -
  obtain h' r where "call_api e n rq h = Returned h' r" "good h'" "r = -1 \<longrightarrow> last_error h' \<noteq> None"
    using call_api_fine [OF assms] by (auto simp: fine_def)
  then show ?thesis using call_api_public [of e n rq h h' r] assms(1) by (auto simp: api_good_def)
qed

interpretation api: safe_machine "promised e n" "\<lambda>rq h. after (call_api e n rq h)" api_good for e n
  by unfold_locales (use call_api_good in \<open>fastforce simp: after_def\<close>)

text \<open>With extended headers nothing is asked of the server.\<close>

lemma server_ok_extended:
  assumes "good h" and "extended_headers h" and "64 * (pending_left h + Suc (length (cmds_to_issue h))) + 40 < n"
  shows "server_ok e n h"
proof -
  have t: "turns (h\<lparr>state := s\<rparr>) < n" for s using turns_le [of s h] assms(3) by simp
  have w: "state h = ISSUE_COMMAND SEND_WRITE_PAYLOAD \<longrightarrow> wlen h \<noteq> 0"
    using assms(1) by (simp add: good_def settled_def)
  have "run_ok e n ev h" if "ev \<noteq> cmd_issue" for ev
    using run_ok_extended [OF good_inv [OF assms(1)] w _ assms(2) t] that by blast
  moreover have "run_ok e n cmd_issue (queued cmd g)"
    if g: "but_error h g" "state g = READY" "inv (queued cmd g)" for g cmd
  proof (rule run_ok_extended)
    show "extended_headers (queued cmd g)" using assms(2) g by (simp add: queued_def but_error_fields)
    show "turns ((queued cmd g)\<lparr>state := s\<rparr>) < n" for s
      using turns_le [of s "queued cmd g"] assms(3) g
      by (simp add: queued_def pending_left_def but_error_fields)
  qed (use g in \<open>simp_all add: queued_def\<close>)
  ultimately show ?thesis by (simp add: server_ok_def)
qed

end
