(* ===== verification/NBD_Faults.thy ===== *)
theory NBD_Faults
  imports NBD_Waiting
begin

text \<open>
  Behaviour at the edges: what a server or a caller that does something unexpected can bring
  about, proved of the same definitions.
\<close>

section \<open>A reply to a command that was not sent\<close>

text \<open>
  The header of a structured reply, without its last field: an empty final chunk for cookie 1.
\<close>

definition early_header :: "u8 list" where
  "early_header = htobe32 NBD_STRUCTURED_REPLY_MAGIC @ htobe16 NBD_REPLY_FLAG_DONE @ htobe16 NBD_REPLY_TYPE_NONE @ htobe64 1"

lemma early_header_length [simp]: "length early_header = 16"
  by (simp add: early_header_def)

lemma early_header_nonempty [simp]: "early_header \<noteq> []"
  using early_header_length by force

lemma early_header_fields:
  "hdr_magic (mem_write m 0 early_header) = NBD_STRUCTURED_REPLY_MAGIC"
  "hdr_cookie (mem_write m 0 early_header) = 1"
  by (simp_all add: hdr_magic_def hdr_cookie_def rd_bytes_inside early_header_def)

lemma early_header_kept:
  "hdr_cookie (mem_write (mem_write m 0 early_header) 16 bs) = 1"
  by (simp add: hdr_cookie_def rd_bytes_other rd_bytes_inside early_header_def)

lemma remaining_length:
  "structured_length (mem_write (mem_write m 0 early_header) 16 (htobe32 n)) = n"
  by (simp add: structured_length_def)

definition structured_handle :: nbd_handle where
  "structured_handle = ready_handle\<lparr>structured_replies := True\<rparr>"

definition hears :: "u8 list \<Rightarrow> nbd_handle \<Rightarrow> nbd_handle" where
  "hears bs h = h\<lparr>sock := Some (quiet_sock\<lparr>rx := [RxData bs]\<rparr>)\<rparr>"

lemmas run_defs = step_def enter_def SET_NEXT_STATE_def SET_NEXT_STATE_AND_BLOCK_def return0_def Let_def
  recv_or_save_def recv_into_rbuf_def save_reply_state_def store_rbuf.simps send_from_wbuf_def
  enter_REPLY_START_def enter_REPLY_RECV_REPLY_def enter_REPLY_CHECK_REPLY_MAGIC_def
  enter_REPLY_RECV_STRUCTURED_REMAINING_def enter_READY_def sock_recv.simps sock_send.simps sock_pending.simps sock_shut_writes.simps

lemma run_loop_numeral:
  "run_loop e (numeral k) h =
     (case step e h of None \<Rightarrow> Aborted
      | Some (h', r) \<Rightarrow> if r = -1 then (if last_error h' \<noteq> None then Returned h' (-1) else Aborted)
          else if blocked h' then Returned h' 0 else run_loop e (pred_numeral k) h')"
  by (simp add: numeral_eq_Suc)

definition early_handle :: nbd_handle where
  "early_handle = structured_handle\<lparr>rbuf := RSbuf 16, rlen := 4, bytes_received := 16, chunks_received := 1,
     sbuf := mem_write (\<lambda>_. 0) 0 early_header, reply_state := REPLY RECV_STRUCTURED_REMAINING, next_state := READY,
     sock := Some quiet_sock\<rparr>"

lemma early_first: "nbd_internal_run no_env 10 notify_read (hears early_header structured_handle) = Returned early_handle 0"
  by (simp add: nbd_internal_run_def run_loop_numeral run_defs early_header_fields early_handle_def hears_def
      structured_handle_def handle_defs)


definition early_command :: command where
  "early_command = new_command 0 NBD_CMD_FLUSH 0 0 NoData None early_handle"

definition early_sent :: nbd_handle where
  "early_sent = early_handle\<lparr>unique := 2, in_flight := 1, cmds_in_flight := [early_command],
     req := fill_header False early_command (\<lambda>_. 0), bytes_sent := 28, chunks_sent := 1, 
     wbuf := drop 28 (rd_bytes (fill_header False early_command (\<lambda>_. 0)) 0 32),
     sock := Some (quiet_sock\<lparr>tx := [], sent := take 28 (rd_bytes (fill_header False early_command (\<lambda>_. 0)) 0 32)\<rparr>)\<rparr>"

lemma early_command_fields [simp]:
  "c_cookie early_command = 1" "c_type early_command = NBD_CMD_FLUSH" "c_count early_command = 0"
  by (simp_all add: early_command_def new_command_def early_handle_def structured_handle_def handle_defs)

lemma early_second:
  "nbd_internal_command_common no_env 10 0 NBD_CMD_FLUSH 0 0 0 NoData None early_handle = Returned early_sent 1"
  unfolding nbd_internal_command_common_def Let_def early_command_def [symmetric]
  by (simp add: check_command_def enqueue_def nbd_internal_run_def run_loop_numeral run_defs early_sent_def early_handle_def
      nbd_internal_is_state_ready_def
      enter_ISSUE_COMMAND_START_def enter_ISSUE_COMMAND_SEND_REQUEST_def fill_request_def
      enter_ISSUE_COMMAND_PREPARE_WRITE_PAYLOAD_def enter_ISSUE_COMMAND_FINISH_def
      structured_handle_def handle_defs)


lemma early_third: "nbd_internal_run no_env 10 notify_read (hears (htobe32 0) early_sent) = Aborted"
  by (simp add: nbd_internal_run_def run_loop_numeral run_defs early_sent_def early_handle_def hears_def
      enter_REPLY_CHUNK_REPLY_START_def chunk_length_def remaining_length resync_def get_reply_cmd_def
      enter_REPLY_CHUNK_REPLY_RESYNC_def enter_REPLY_FINISH_COMMAND_def early_header_kept
      structured_handle_def handle_defs)

text \<open>
  C37. A server can stop the client: it sends the header of a structured reply for a cookie that
  was not used yet, without its last four bytes; the client submits its next command, which gets
  that cookie and is sent; the server sends the four bytes, and the assertion that the command
  found by the cookie is the one being replied to fails.
\<close>

theorem early_reply_aborts:
  "\<exists>h1 h2. good (hears early_header structured_handle) \<and>
     nbd_internal_run no_env 10 notify_read (hears early_header structured_handle) = Returned h1 0 \<and>
     nbd_internal_command_common no_env 10 0 NBD_CMD_FLUSH 0 0 0 NoData None h1 = Returned h2 1 \<and>
     nbd_internal_run no_env 10 notify_read (hears (htobe32 0) h2) = Aborted"
proof (intro exI conjI)
  show "good (hears early_header structured_handle)"
    by (simp add: hears_def structured_handle_def handle_defs good_defs)
qed (rule early_first early_second early_third)+


section \<open>Replies that are not drained\<close>

text \<open>
  A chunk for a command that is not in flight is meant to be skipped, but its payload is
  not: the handler jumps to the resynchronisation before it has noted the length of the chunk, so
  that no byte is read and the payload, whatever its length, is taken for the next reply.
\<close>

theorem unknown_reply_not_drained:
  assumes "payload_left h = 0" and "get_reply_cmd h = None"
    and "unat (chunk_length h) \<le> MAX_REQUEST_SIZE + sizeof_chunk_offset_data"
  shows "\<exists>h'. enter_REPLY_CHUNK_REPLY_START h = Some (h', 0) \<and> next_state h' = REPLY (CHUNK_REPLY RESYNC) \<and>
    rlen h' = 0 \<and> chunk_length h' = chunk_length h \<and> sock h' = sock h"
  using assms
  by (simp add: enter_REPLY_CHUNK_REPLY_START_def resync_def SET_NEXT_STATE_def return0_def chunk_length_def)

definition chunk_handle :: nbd_handle where
  "chunk_handle = structured_handle\<lparr>state := REPLY (CHUNK_REPLY CHUNK_START),
     sbuf := mem_write (mem_write (\<lambda>_. 0) 0 early_header) 16 (htobe32 512)\<rparr>"

theorem unknown_reply_not_drained_witness:
  "chunk_length chunk_handle = 512 \<and> (\<exists>h'. enter_REPLY_CHUNK_REPLY_START chunk_handle = Some (h', 0) \<and> rlen h' = 0)"
proof -
  have c: "chunk_length chunk_handle = 512"
    by (simp add: chunk_length_def chunk_handle_def remaining_length structured_handle_def handle_defs)
  have g: "payload_left chunk_handle = 0" "get_reply_cmd chunk_handle = None"
    by (simp_all add: get_reply_cmd_def chunk_handle_def structured_handle_def handle_defs)
  show ?thesis using unknown_reply_not_drained [OF g] c by auto
qed

text \<open>
  When closing the sending side is interrupted by a reply, the request to disconnect is sent
  a second time: the state that issues commands sets the next state to the closing but goes on and
  fills the send buffer with the request again.
\<close>

theorem disconnect_sent_again:
  assumes "in_write_shutdown h" and "cmds_to_issue h = [cmd]" and "c_count cmd = 0"
  shows "\<exists>h'. enter_ISSUE_COMMAND_START h = Some (h', 0) \<and> next_state h' = ISSUE_COMMAND SEND_REQUEST \<and>
    \<not> blocked h' \<and> take (wlen h') (wbuf h') = request_header (extended_headers h) cmd"
proof -
  have "take (request_size (extended_headers h)) (rd_bytes (fill_header (extended_headers h) cmd (req h)) 0 sizeof_request_ext) =
      request_header (extended_headers h) cmd"
    using fill_header_bytes [of "extended_headers h" cmd "req h"]
      rd_bytes_split [of "fill_header (extended_headers h) cmd (req h)" 0 28 4]
    by (cases "extended_headers h") (simp_all add: length_request_header)
  then show ?thesis using assms
    by (auto simp: enter_ISSUE_COMMAND_START_def fill_request_def SET_NEXT_STATE_def SET_NEXT_STATE_AND_BLOCK_def
        return0_def Let_def split: if_splits)
qed

definition disc_command :: command where
  "disc_command = new_command 0 NBD_CMD_DISC 0 0 NoData None ready_handle"

theorem disconnect_sent_again_witness:
  "\<exists>h'. enter_ISSUE_COMMAND_START (ready_handle\<lparr>in_write_shutdown := True, cmds_to_issue := [disc_command]\<rparr>) = Some (h', 0) \<and>
     take (wlen h') (wbuf h') = request_header False disc_command"
  using disconnect_sent_again [of "ready_handle\<lparr>in_write_shutdown := True, cmds_to_issue := [disc_command]\<rparr>" disc_command]
  by (auto simp: disc_command_def new_command_def handle_defs)

section \<open>Shutting down\<close>

text \<open>
  Shutting down with pending commands abandoned fails an assertion on a connection that has
  nothing to send: after a spurious wake-up for reading the state is the start of a reply, which
  is not ready, and the assertion that a command is being issued does not hold.
\<close>

theorem shutdown_asserts:
  "\<exists>h. nbd_internal_run no_env 10 notify_read ready_handle = Returned h 0 \<and> good h \<and>
     nbd_unlocked_shutdown no_env 10 as LIBNBD_SHUTDOWN_ABANDON_PENDING h = Some (as, Aborted)"
proof -
  define g where "g = ready_handle\<lparr>state := REPLY REPLY_START, next_state := REPLY REPLY_START,
    rbuf := RSbuf 0, rlen := 16\<rparr>"
  have "nbd_internal_run no_env 10 notify_read ready_handle = Returned g 0"
    by (simp add: nbd_internal_run_def run_loop_numeral run_defs g_def handle_defs)
  moreover have "good g" by (simp add: g_def handle_defs good_defs rinv_def sbuf_upto_def hdr_size_def)
  moreover have "abandon_pending g = None"
    by (simp add: abandon_pending_def g_def handle_defs nbd_internal_is_state_ready_def)
  then have "nbd_unlocked_shutdown no_env 10 as LIBNBD_SHUTDOWN_ABANDON_PENDING g = Some (as, Aborted)"
    by (simp add: nbd_unlocked_shutdown_def nbd_internal_is_state_negotiating_def) (simp add: g_def)
  ultimately show ?thesis by blast
qed


text \<open>
  Commands that a shutdown abandons are never taken off the count of commands in flight:
  while a command is being sent and others wait behind it, the count stays what it was although
  the waiting commands are given up.
\<close>

theorem abandoned_still_counted:
  assumes "good h" and "state h = ISSUE_COMMAND i" and "cmds_to_issue h = cmd # next # rest"
  shows "\<exists>h'. abandon_pending h = Some h' \<and> cmds_to_issue h' = [cmd] \<and>
    nbd_unlocked_aio_in_flight h' = nbd_unlocked_aio_in_flight h \<and>
    nbd_unlocked_aio_in_flight h' > int (length (cmds_to_issue h') + length (cmds_in_flight h'))"
proof -
  have q: "qinv h" using assms(1) inv_at_qinv by (auto simp: good_def settled_def inv_def)
  let ?g = "h\<lparr>cmds_to_issue := [cmd], cmds_to_issue_tail := Some (c_cookie cmd)\<rparr>"
  have pre: "\<forall>c \<in> set (next # rest). cmd_ok (extended_headers h) c" "cmds_done_tail ?g = last_cookie (cmds_done ?g)"
    "distinct (map c_cookie (next # rest) @ map c_cookie (cmds_done ?g))"
    "\<forall>c \<in> set (cmds_done ?g). c_type c \<noteq> NBD_CMD_DISC"
    using q assms(3) by (auto simp: qinv_def)
  obtain tr dn where "nbd_internal_abort_commands (next # rest) ?g =
      Some (?g\<lparr>trace := tr, cmds_done := dn, cmds_done_tail := last_cookie dn\<rparr>)"
    using abort_commands_ok [OF pre] by blast
  then have "abandon_pending h = Some (?g\<lparr>trace := tr, cmds_done := dn, cmds_done_tail := last_cookie dn\<rparr>)"
    using assms(2,3) by (simp add: abandon_pending_def nbd_internal_is_state_ready_def del: nbd_internal_abort_commands.simps)
  then show ?thesis using q assms(3) by (simp add: nbd_unlocked_aio_in_flight_def qinv_def)
qed

text \<open>A handle with two commands queued, of which the first has not been sent completely.\<close>

definition sending_handle :: nbd_handle where
  "sending_handle = ready_handle\<lparr>state := ISSUE_COMMAND SEND_REQUEST, unique := 3, in_flight := 2,
     cmds_to_issue := [early_command, early_command\<lparr>c_cookie := 2\<rparr>], cmds_to_issue_tail := Some 2,
     req := fill_header False early_command (\<lambda>_. 0), wbuf := replicate 28 0, wlen := 28\<rparr>"

theorem abandoned_still_counted_witness:
  "\<exists>h'. abandon_pending sending_handle = Some h' \<and> length (cmds_to_issue h') = 1 \<and> nbd_unlocked_aio_in_flight h' = 2"
proof -
  have "CALLBACK_IS_NULL (cb_completion (c_cb early_command))"
    by (simp add: early_command_def new_command_def null_cb_def)
  then have "good sending_handle"
    by (simp add: sending_handle_def handle_defs good_defs ihead_def cmd_ok_def)
  from abandoned_still_counted [OF this, of SEND_REQUEST early_command "early_command\<lparr>c_cookie := 2\<rparr>" "[]"]
  show ?thesis by (auto simp: sending_handle_def nbd_unlocked_aio_in_flight_def)
qed

section \<open>Callbacks\<close>

definition finishing_handle :: nbd_handle where
  "finishing_handle = dying_handle\<lparr>state := REPLY FINISH_COMMAND, last_error := None, reply_cmd := Some 1,
     sbuf := mem_write (\<lambda>_. 0) 0 early_header\<rparr>"

text \<open>
  A completion callback can be called twice: once when the reply to its command arrives, with
  success, and again when the handle is closed before the caller has collected the command, with
  \<^verbatim>\<open>ENOTCONN\<close>.
\<close>

theorem closing_calls_again:
  "\<exists>h. enter_REPLY_FINISH_COMMAND finishing_handle = Some (h, 0) \<and>
     filter is_completion (nbd_close h) = [CompletionCall 1 0, CompletionCall 1 ENOTCONN]"
  by (simp add: enter_REPLY_FINISH_COMMAND_def finishing_handle_def early_header_fields notify_completion_def
      call_completion_def log_event_def append_done_def nbd_close_def nbd_internal_reset_size_and_flags_def
      nbd_internal_free_option_def nbd_internal_retire_and_free_command_def Let_def CALLBACK_IS_NULL_def
      told_command_def new_command_def completion_cb_def dying_handle_def handle_defs SET_NEXT_STATE_def return0_def null_cb_def)

section \<open>Lists of exports\<close>

text \<open>
  C40. A reply to a request for the list of exports that is shorter than the length field it has
  to hold is accepted, and then written to out of bounds: the index of the terminating zero is
  computed as the length minus 4 in 32 bits, which wraps.
\<close>

theorem short_list_reply_overflows:
  assumes "or_magic (sbuf h) = NBD_REP_MAGIC" and "or_option (sbuf h) = opt" and "or_reply (sbuf h) = NBD_REP_SERVER"
    and "or_replylen (sbuf h) < 4"
  shows "snd (prepare_for_reply_payload opt h) = 0 \<and> enter_OPT_LIST_CHECK_REPLY h = None"
proof
  have n: "unat (or_replylen (sbuf h)) < 4" using assms(4) by (simp add: word_less_nat_alt)
  then show "snd (prepare_for_reply_payload opt h) = 0" using assms by (simp add: prepare_for_reply_payload_def Let_def)
  have "unat (or_replylen (sbuf h) - 4) = unat (or_replylen (sbuf h)) + (2 ^ 32 - 4)"
    using n by (simp add: unat_sub_if_size word_size)
  then have "list_server_reply (or_replylen (sbuf h)) h = None" by (simp add: list_server_reply_def)
  then show "enter_OPT_LIST_CHECK_REPLY h = None" using assms(3) n by (simp add: enter_OPT_LIST_CHECK_REPLY_def)
qed

definition listing_handle :: nbd_handle where
  "listing_handle = initial_handle\<lparr>sbuf := mem_write (\<lambda>_. 0) 0
     (htobe64 NBD_REP_MAGIC @ htobe32 3 @ htobe32 NBD_REP_SERVER @ htobe32 0)\<rparr>"

theorem short_list_reply_overflows_witness:
  "snd (prepare_for_reply_payload 3 listing_handle) = 0 \<and> enter_OPT_LIST_CHECK_REPLY listing_handle = None"
  by (rule short_list_reply_overflows) (simp_all add: listing_handle_def or_defs rd_bytes_inside)



end
