(* ===== verification/NBD_Spec.thy ===== *)
theory NBD_Spec
  imports NBD_Lifecycle
begin

text \<open>
  An abstract specification of the queues of commands, and the proof that the state machine
  implements it. Which parts of the handle a handler leaves alone is proved once, in a locale over
  any view of the handle that does not depend on the buffers of the connection.
\<close>

section \<open>Views of the handle\<close>

locale handle_view =
  fixes v :: "nbd_handle \<Rightarrow> 'v"
  assumes v_receive [simp]:
      "v (h\<lparr>rbuf := x1\<rparr>) = v h" "v (h\<lparr>rlen := x2\<rparr>) = v h" "v (h\<lparr>payload_left := x3\<rparr>) = v h"
      "v (h\<lparr>bs_raw := x4\<rparr>) = v h" "v (h\<lparr>bs_count := x5\<rparr>) = v h" "v (h\<lparr>sbuf := x6\<rparr>) = v h"
      "v (h\<lparr>bytes_received := x7\<rparr>) = v h" "v (h\<lparr>chunks_received := x8\<rparr>) = v h"
      "v (h\<lparr>sock := x9\<rparr>) = v h" "v (h\<lparr>reply_cmd := x10\<rparr>) = v h" "v (h\<lparr>reply_state := x11\<rparr>) = v h"
    and v_send [simp]:
      "v (h\<lparr>wbuf := y1\<rparr>) = v h" "v (h\<lparr>wlen := y2\<rparr>) = v h" "v (h\<lparr>wflags_more := y3\<rparr>) = v h"
      "v (h\<lparr>req := y4\<rparr>) = v h" "v (h\<lparr>bytes_sent := y5\<rparr>) = v h" "v (h\<lparr>chunks_sent := y6\<rparr>) = v h"
      "v (h\<lparr>in_write_payload := y7\<rparr>) = v h" "v (h\<lparr>in_write_shutdown := y8\<rparr>) = v h"
    and v_engine [simp]:
      "v (h\<lparr>last_error := z1\<rparr>) = v h" "v (h\<lparr>trace := z2\<rparr>) = v h" "v (h\<lparr>next_state := z3\<rparr>) = v h"
      "v (h\<lparr>blocked := z4\<rparr>) = v h" "v (h\<lparr>state := z5\<rparr>) = v h"
    and v_set_cmd [simp]: "v (set_cmd c h) = v h"
    and v_data: "v (h\<lparr>cmds_in_flight := upd_cmd k (c_data_update f) (cmds_in_flight h)\<rparr>) = v h"
begin

definition keeps :: "nbd_handle \<Rightarrow> (nbd_handle \<times> int) option \<Rightarrow> bool" where
  "keeps h x \<longleftrightarrow> (\<forall>h' r. x = Some (h', r) \<longrightarrow> v h' = v h)"

lemma v_derived [simp]:
  "v (SET_NEXT_STATE s h) = v h" "v (SET_NEXT_STATE_AND_BLOCK s h) = v h" "v (set_error e m h) = v h"
  "v (log_event ev h) = v h"
  by (simp_all add: SET_NEXT_STATE_def SET_NEXT_STATE_AND_BLOCK_def set_error_def log_event_def)

lemma keeps_simps [simp]:
  "keeps h None" "keeps h (Some (g, r)) \<longleftrightarrow> v g = v h" "keeps h (return0 g) \<longleftrightarrow> v g = v h"
  by (auto simp: keeps_def return0_def)

lemma keeps_bind: "(\<And>y. x = Some y \<Longrightarrow> keeps h (f y)) \<Longrightarrow> keeps h (x \<bind> f)"
  by (cases x) simp_all

lemma v_store: "store_rbuf bs h = Some h' \<Longrightarrow> v h' = v h"
  by (auto simp: store_rbuf.simps v_data split: rptr.splits if_splits Option.bind_splits)

lemma v_recv: "recv_into_rbuf h = Some (h', r) \<Longrightarrow> v h' = v h"
  by (auto simp: recv_into_rbuf_def Let_def dest!: v_store
      split: if_splits Option.bind_splits prod.splits sock_result.splits)

lemma v_send_from: "send_from_wbuf h = Some (h', r) \<Longrightarrow> v h' = v h"
  by (auto simp: send_from_wbuf_def Let_def split: if_splits Option.bind_splits prod.splits sock_result.splits)

lemma keeps_recv: "(\<And>h'. v h' = v h \<Longrightarrow> keeps h (f h')) \<Longrightarrow> keeps h (recv_or_save f h)"
  unfolding recv_or_save_def using v_recv by (auto intro!: keeps_bind simp: save_reply_state_def)

lemma v_callback:
  "call_chunk c b off st e h = (r, err, h') \<Longrightarrow> v h' = v h"
  "call_extent c n ex e h = (r, err, h') \<Longrightarrow> v h' = v h"
  using call_chunk_handle call_extent_handle by fastforce+

lemma keeps_resync: "v g = v h \<Longrightarrow> keeps h (resync g)"
  by (simp add: resync_def)

lemma CHUNK_keeps: "keeps h (enter_REPLY_CHUNK x h)"
proof (cases x)
  case CHUNK_START
  have "keeps h (start_block_status type len c g)" if "v g = v h" for type len c g
    unfolding start_block_status_def recv_payload_def using that
    by (auto intro!: keeps_bind simp: Let_def keeps_resync split: if_splits)
  then have "keeps h (start_chunk flags type len c g)" if "v g = v h" for flags type len c g
    unfolding start_chunk_def recv_payload_def using that by (auto simp: keeps_resync)
  with CHUNK_START show ?thesis
    by (auto simp: enter_REPLY_CHUNK_REPLY_START_def keeps_resync split: option.split)
next
  case RECV_ERROR
  then show ?thesis
    by (auto simp: enter_REPLY_CHUNK_REPLY_RECV_ERROR_def Let_def keeps_resync intro!: keeps_recv keeps_bind)
next
  case RECV_ERROR_MESSAGE
  then show ?thesis
    by (auto simp: enter_REPLY_CHUNK_REPLY_RECV_ERROR_MESSAGE_def Let_def intro!: keeps_recv)
next
  case RECV_ERROR_TAIL
  then show ?thesis
    by (auto simp: enter_REPLY_CHUNK_REPLY_RECV_ERROR_TAIL_def Let_def v_callback
        intro!: keeps_recv keeps_bind split: prod.split)
next
  case RECV_OFFSET_DATA
  then show ?thesis
    by (auto simp: enter_REPLY_CHUNK_REPLY_RECV_OFFSET_DATA_def Let_def intro!: keeps_recv keeps_bind)
next
  case RECV_OFFSET_DATA_DATA
  then show ?thesis
    by (auto simp: enter_REPLY_CHUNK_REPLY_RECV_OFFSET_DATA_DATA_def Let_def v_callback
        intro!: keeps_recv keeps_bind split: prod.splits if_splits Option.bind_splits)
next
  case RECV_OFFSET_HOLE
  then show ?thesis
    by (auto simp: enter_REPLY_CHUNK_REPLY_RECV_OFFSET_HOLE_def Let_def v_callback
        intro!: keeps_recv keeps_bind split: prod.splits)
next
  case RECV_BS_HEADER
  then show ?thesis
    by (auto simp: enter_REPLY_CHUNK_REPLY_RECV_BS_HEADER_def Let_def keeps_resync intro!: keeps_recv keeps_bind)
next
  case RECV_BS_ENTRIES
  then show ?thesis
    by (auto simp: enter_REPLY_CHUNK_REPLY_RECV_BS_ENTRIES_def Let_def v_callback
        intro!: keeps_recv keeps_bind split: prod.splits option.splits)
next
  case RESYNC
  then show ?thesis
    by (auto simp: enter_REPLY_CHUNK_REPLY_RESYNC_def intro!: keeps_recv keeps_bind split: option.splits)
next
  case CHUNK_FINISH
  then show ?thesis
    by (auto simp: enter_REPLY_CHUNK_REPLY_FINISH_def intro!: keeps_bind)
qed

lemma REPLY_keeps: "r \<noteq> FINISH_COMMAND \<Longrightarrow> keeps h (enter_REPLY r h)"
proof (cases r rule: reply_rank.cases)
  case 1
  then show ?thesis
    by (auto simp: enter_REPLY_START_def Let_def intro!: keeps_bind dest!: v_store
        split: prod.splits sock_result.splits)
next
  case 2
  then show ?thesis
    by (auto simp: enter_REPLY_RECV_REPLY_def Let_def v_recv intro!: keeps_bind)
next
  case 3
  then show ?thesis
    by (auto simp: enter_REPLY_CHECK_REPLY_MAGIC_def invalid_magic_def Let_def intro!: keeps_bind)
next
  case 4
  then show ?thesis by (auto simp: enter_REPLY_RECV_STRUCTURED_REMAINING_def intro!: keeps_recv)
next
  case 5
  then show ?thesis by (auto simp: enter_REPLY_SIMPLE_REPLY_START_def Let_def split: option.split)
next
  case 6
  then show ?thesis
    by (auto simp: enter_REPLY_SIMPLE_REPLY_RECV_READ_PAYLOAD_def Let_def v_callback
        intro!: keeps_recv keeps_bind split: prod.splits)
next
  case (7 c)
  then show ?thesis using CHUNK_keeps by simp
qed simp

lemma v_fill: "fill_request cmd h = Some h' \<Longrightarrow> v h' = v h"
  by (auto simp: fill_request_def split: if_splits Option.bind_splits)

lemma ISSUE_keeps: "i \<noteq> ISSUE_FINISH \<Longrightarrow> keeps h (enter_ISSUE_COMMAND i h)"
  by (cases i)
    (auto simp: enter_ISSUE_COMMAND_START_def enter_ISSUE_COMMAND_SEND_REQUEST_def
      enter_ISSUE_COMMAND_PAUSE_SEND_REQUEST_def enter_ISSUE_COMMAND_PREPARE_WRITE_PAYLOAD_def
      enter_ISSUE_COMMAND_SEND_WRITE_PAYLOAD_def enter_ISSUE_COMMAND_PAUSE_WRITE_PAYLOAD_def
      enter_ISSUE_COMMAND_SEND_WRITE_SHUTDOWN_def enter_ISSUE_COMMAND_PAUSE_WRITE_SHUTDOWN_def
      Let_def v_send_from dest!: v_fill intro!: keeps_bind split: list.split prod.splits)

lemma READY_keeps: "keeps h (enter_READY h)"
  by (auto simp: enter_READY_def Let_def intro!: keeps_bind split: prod.splits)

end


section \<open>The specification\<close>

text \<open>
  What the caller knows of the commands: the cookies of those waiting to be sent, of those in
  flight and of those completed. Commands are sent in the order in which they were submitted; a
  reply completes one command in flight, which is kept for the caller unless its callback took it;
  the end of the connection completes what is left.
\<close>

type_synonym queues = "u64 list \<times> u64 list \<times> u64 list"

inductive queue_step :: "queues \<Rightarrow> queues \<Rightarrow> bool" where
  stutter: "queue_step q q"
| issue: "queue_step (k # p, f, d) (p, k # f, d)"
| complete: "k \<in> set f \<Longrightarrow> queue_step (p, f, d) (p, remove1 k f, d @ [k])"
| retire: "k \<in> set f \<Longrightarrow> queue_step (p, f, d) (p, remove1 k f, d)"
| give_up: "subseq ks (p @ f) \<Longrightarrow> queue_step (p, f, d) ([], [], d @ ks)"

inductive_simps queue_step_iff: "queue_step (p, f, d) q"

definition queues :: "nbd_handle \<Rightarrow> queues" where
  "queues h = (map c_cookie (cmds_to_issue h), map c_cookie (cmds_in_flight h), map c_cookie (cmds_done h))"

interpretation qv: handle_view queues
  by unfold_locales (simp_all add: queues_def set_cmd_def cookies_upd_cmd)

lemma cookies_del: "map c_cookie (del_cmd k cs) = remove1 k (map c_cookie cs)"
  by (induction cs) auto

lemma ISSUE_FINISH_queues:
  assumes "enter_ISSUE_COMMAND_FINISH h = Some (h', r)"
  shows "queue_step (queues h) (queues h')"
proof -
  obtain cmd rest where c: "cmds_to_issue h = cmd # rest"
    using assms by (auto simp: enter_ISSUE_COMMAND_FINISH_def split: list.splits Option.bind_splits)
  then have "cmds_to_issue h' = rest" "cmds_in_flight h' = cmd # cmds_in_flight h" "cmds_done h' = cmds_done h"
    using assms by (auto simp: enter_ISSUE_COMMAND_FINISH_def Let_def return0_def SET_NEXT_STATE_def
        split: Option.bind_splits if_splits)
  with c show ?thesis by (simp add: queues_def queue_step.issue)
qed

lemma FINISH_COMMAND_queues:
  assumes "enter_REPLY_FINISH_COMMAND h = Some (h', r)"
  shows "queue_step (queues h) (queues h')"
proof (cases "find_cmd (hdr_cookie (sbuf h)) (cmds_in_flight h)")
  case None
  then have "queues h' = queues h"
    using assms by (auto simp: enter_REPLY_FINISH_COMMAND_def Let_def return0_def split: Option.bind_splits if_splits)
  then show ?thesis by (simp add: queue_step.stutter)
next
  case (Some cmd)
  let ?k = "hdr_cookie (sbuf h)" and ?h = "h\<lparr>reply_cmd := None\<rparr>"
  obtain c rt g where n: "notify_completion (c_error cmd) cmd ?h = Some (c, rt, g)"
    using assms Some by (auto simp: enter_REPLY_FINISH_COMMAND_def Let_def split: Option.bind_splits if_splits)
  let ?g = "g\<lparr>cmds_in_flight := del_cmd ?k (cmds_in_flight g)\<rparr>"
  obtain g1 where g1: "(if rt then Some (nbd_internal_retire_and_free_command c ?g) else append_done c ?g) = Some g1"
    and q: "queues h' = queues g1"
    using assms Some n
    by (auto simp: enter_REPLY_FINISH_COMMAND_def Let_def return0_def SET_NEXT_STATE_def queues_def split: Option.bind_splits if_splits)
  note ne = notify_completion_ends [OF n]
  have k: "?k \<in> set (map c_cookie (cmds_in_flight h))" "c_cookie cmd = ?k"
    using find_cmd_SomeD [OF Some] by force+
  show ?thesis
  proof (cases rt)
    case True
    then have "queues g1 = (map c_cookie (cmds_to_issue h), remove1 ?k (map c_cookie (cmds_in_flight h)), map c_cookie (cmds_done h))"
      using g1 ne by (auto simp: queues_def cookies_del)
    then show ?thesis using queue_step.retire [OF k(1)] q by (simp add: queues_def)
  next
    case False
    then have "g1 = ?g\<lparr>cmds_done := cmds_done g @ [c], cmds_done_tail := Some (c_cookie c)\<rparr>"
      using g1 by (auto simp: append_done_def split: if_splits option.splits Option.bind_splits)
    then have "queues g1 = (map c_cookie (cmds_to_issue h), remove1 ?k (map c_cookie (cmds_in_flight h)),
        map c_cookie (cmds_done h) @ [?k])"
      using ne k by (simp add: queues_def cookies_del)
    then show ?thesis using queue_step.complete [OF k(1)] q by (simp add: queues_def)
  qed
qed

lemma abort_all_queues:
  assumes "abort_all h = Some h'"
  shows "queue_step (queues h) (queues h')"
  using abort_all_ends [OF assms] queue_step.give_up by (fastforce simp: queues_def)

lemma enter_queues:
  assumes "inv_at (state h) h" and "enter_state e (state h) h = Some (h', r)"
  shows "queue_step (queues h) (queues h')"
proof (cases "state h")
  case READY
  then show ?thesis using qv.READY_keeps [of h] assms(2) by (simp add: qv.keeps_def queue_step.stutter)
next
  case (ISSUE_COMMAND i)
  then show ?thesis using qv.ISSUE_keeps [of i h] ISSUE_FINISH_queues assms(2)
    by (cases "i = ISSUE_FINISH") (auto simp: qv.keeps_def queue_step.stutter)
next
  case (REPLY x)
  then show ?thesis using qv.REPLY_keeps [of x h] FINISH_COMMAND_queues assms(2)
    by (cases "x = FINISH_COMMAND") (auto simp: qv.keeps_def queue_step.stutter)
qed (use assms abort_all_queues in \<open>auto simp: enter_DEAD_def enter_CLOSED_def split: Option.bind_splits\<close>)

lemma step_queues:
  assumes "inv h" and "step e h = Some (h', r)"
  shows "queue_step (queues h) (queues h')"
proof -
  let ?h = "h\<lparr>blocked := True, next_state := state h\<rparr>"
  obtain g where g: "enter_state e (state h) ?h = Some (g, r)" "h' = g\<lparr>state := next_state g\<rparr>"
    using assms(2) by (auto simp: step_def enter_def)
  have "inv_at (state ?h) ?h" using assms(1) by (simp add: inv_def)
  then have "queue_step (queues ?h) (queues g)" using enter_queues [of ?h e g r] g(1) by simp
  then show ?thesis by (simp add: queues_def g(2))
qed


text \<open>A handle about to send its first command.\<close>

definition issuing_handle :: nbd_handle where
  "issuing_handle = (queued (new_command 0 NBD_CMD_FLUSH 0 0 NoData None extended_handle) extended_handle)
     \<lparr>state := ISSUE_COMMAND ISSUE_START\<rparr>"


end
