(* ===== verification/NBD_Handshake.thy ===== *)
theory NBD_Handshake
  imports NBD_Spec
begin

text \<open>
  The handshake: a connection that requires TLS never gets past the negotiation without it, and
  the requests of the options that carry a payload announce its length.
\<close>

section \<open>What the handlers of the handshake leave alone\<close>

definition tls_view :: "nbd_handle \<Rightarrow> nat \<times> bool" where
  "tls_view h = (tls h, tls_negotiated h)"

interpretation tv: handle_view tls_view
  by unfold_locales (simp_all add: tls_view_def set_cmd_def)

lemma tls_view_frame [simp]:
  "tls_view (h\<lparr>exportsize := a1\<rparr>) = tls_view h" "tls_view (h\<lparr>eflags := a2\<rparr>) = tls_view h"
  "tls_view (h\<lparr>block_minimum := a3\<rparr>) = tls_view h" "tls_view (h\<lparr>block_preferred := a4\<rparr>) = tls_view h"
  "tls_view (h\<lparr>block_maximum := a5\<rparr>) = tls_view h" "tls_view (h\<lparr>payload_maximum := a6\<rparr>) = tls_view h"
  "tls_view (h\<lparr>canonical_name := a7\<rparr>) = tls_view h" "tls_view (h\<lparr>description := a8\<rparr>) = tls_view h"
  "tls_view (h\<lparr>protocol := a9\<rparr>) = tls_view h" "tls_view (h\<lparr>gflags := b1\<rparr>) = tls_view h"
  "tls_view (h\<lparr>structured_replies := b2\<rparr>) = tls_view h" "tls_view (h\<lparr>extended_headers := b3\<rparr>) = tls_view h"
  "tls_view (h\<lparr>meta_valid := b4\<rparr>) = tls_view h" "tls_view (h\<lparr>meta_contexts := b5\<rparr>) = tls_view h"
  "tls_view (h\<lparr>querylist := b6\<rparr>) = tls_view h" "tls_view (h\<lparr>querynum := b7\<rparr>) = tls_view h"
  "tls_view (h\<lparr>opt_current := b8\<rparr>) = tls_view h" "tls_view (h\<lparr>opt_cb := b9\<rparr>) = tls_view h"
  by (simp_all add: tls_view_def)

lemma tls_view_helpers [simp]:
  "tls_view (put_sbuf bs h) = tls_view h" "tls_view (put_option opt len h) = tls_view h"
  "tls_view (put_string s h) = tls_view h" "tls_view (msg_more h) = tls_view h"
  "tls_view (await_option_reply h) = tls_view h" "tls_view (nbd_internal_free_option h) = tls_view h"
  "tls_view (call_opt_completion err h) = tls_view h" "tls_view (finish_option err h) = tls_view h"
  "tls_view (call_context n h) = tls_view h" "tls_view (call_list n d h) = tls_view h"
  "tls_view (nbd_internal_set_querylist qs h) = tls_view h" "tls_view (nbd_internal_reset_size_and_flags h) = tls_view h"
  "tls_view (nbd_internal_set_payload h) = tls_view h"
  by (simp_all add: put_sbuf_def put_option_def put_string_def msg_more_def await_option_reply_def
      nbd_internal_free_option_def call_opt_completion_def finish_option_def call_context_def call_list_def
      nbd_internal_set_querylist_def nbd_internal_reset_size_and_flags_def nbd_internal_set_payload_def Let_def
      split: option.split cb_fn.split cbk.split)

lemma tls_view_results:
  "nbd_internal_set_size_and_flags sz fl h = Some (h', r) \<Longrightarrow> tls_view h' = tls_view h"
  "nbd_internal_set_block_size a b c h = (h', r) \<Longrightarrow> tls_view h' = tls_view h"
  "prepare_for_reply_payload opt h = (h', r) \<Longrightarrow> tls_view h' = tls_view h"
  "handle_reply_error h = (h', r) \<Longrightarrow> tls_view h' = tls_view h"
  by (auto simp: nbd_internal_set_size_and_flags_def nbd_internal_set_block_size_def prepare_for_reply_payload_def
      handle_reply_error_def Let_def split: if_splits Option.bind_splits)


lemma keeps_recv_then: "(\<And>h'. tls_view h' = tls_view h \<Longrightarrow> tv.keeps h (f h')) \<Longrightarrow> tv.keeps h (recv_then f h)"
  unfolding recv_then_def using tv.v_recv by (auto intro!: tv.keeps_bind)

lemma keeps_send_then: "(\<And>h'. tls_view h' = tls_view h \<Longrightarrow> tv.keeps h (f h')) \<Longrightarrow> tv.keeps h (send_then f h)"
  unfolding send_then_def using tv.v_send_from by (auto intro!: tv.keeps_bind)

lemma keeps_option_reply: "tv.keeps h (recv_option_reply opt s h)"
  unfolding recv_option_reply_def
  by (auto intro!: keeps_recv_then simp: tls_view_results split: prod.split)

lemma keeps_reply_error:
  "tls_view g = tls_view h \<Longrightarrow> (\<And>h'. tls_view h' = tls_view h \<Longrightarrow> tv.keeps h (f h')) \<Longrightarrow> tv.keeps h (on_reply_error f g)"
  unfolding on_reply_error_def by (auto simp: tls_view_results split: prod.split)

lemmas keeps_rules = keeps_recv_then keeps_send_then keeps_option_reply keeps_reply_error tv.keeps_bind

lemma OPT_GO_keeps: "tv.keeps h (enter_OPT_GO x h)"
proof (cases x)
  case GO_CHECK_REPLY
  have i: "go_info_reply n g = Some (h', r) \<Longrightarrow> tls_view h' = tls_view g" for n g h' r
    by (auto simp: go_info_reply_def Let_def tls_view_results split: if_splits Option.bind_splits)
  then show ?thesis using GO_CHECK_REPLY
    by (auto simp: enter_OPT_GO_CHECK_REPLY_def go_finish_def Let_def intro!: keeps_rules)
qed (auto simp: enter_OPT_GO_START_def enter_OPT_GO_SEND_def enter_OPT_GO_SEND_EXPORTNAMELEN_def
    enter_OPT_GO_SEND_EXPORT_def enter_OPT_GO_SEND_NRINFOS_def enter_OPT_GO_SEND_INFO_def
    enter_OPT_GO_RECV_REPLY_def enter_OPT_GO_RECV_REPLY_PAYLOAD_def Let_def intro!: keeps_rules)

lemma OPT_META_keeps: "tv.keeps h (enter_OPT_META_CONTEXT x h)"
  by (cases x)
   (auto simp: enter_OPT_META_CONTEXT_START_def enter_OPT_META_CONTEXT_SEND_def send_meta_request_def
    enter_OPT_META_CONTEXT_SEND_EXPORTNAMELEN_def enter_OPT_META_CONTEXT_SEND_EXPORTNAME_def
    enter_OPT_META_CONTEXT_SEND_NRQUERIES_def enter_OPT_META_CONTEXT_PREPARE_NEXT_QUERY_def
    enter_OPT_META_CONTEXT_SEND_QUERYLEN_def enter_OPT_META_CONTEXT_SEND_QUERY_def
    enter_OPT_META_CONTEXT_PREPARE_FOR_REPLY_def enter_OPT_META_CONTEXT_RECV_REPLY_def
    enter_OPT_META_CONTEXT_RECV_REPLY_PAYLOAD_def enter_OPT_META_CONTEXT_CHECK_REPLY_def Let_def intro!: keeps_rules)

lemma OPT_simple_keeps:
  "tv.keeps h (enter_OPT_EXTENDED_HEADERS x h)" "tv.keeps h (enter_OPT_STRUCTURED_REPLY x h)"
  "tv.keeps h (enter_OPT_LIST x h)"
proof -
  show "tv.keeps h (enter_OPT_EXTENDED_HEADERS x h)"
    by (cases x)
      (auto simp: enter_OPT_EXTENDED_HEADERS_START_def enter_OPT_EXTENDED_HEADERS_SEND_def
        enter_OPT_EXTENDED_HEADERS_RECV_REPLY_def enter_OPT_EXTENDED_HEADERS_RECV_REPLY_PAYLOAD_def
        enter_OPT_EXTENDED_HEADERS_CHECK_REPLY_def Let_def intro!: keeps_rules)
  show "tv.keeps h (enter_OPT_STRUCTURED_REPLY x h)"
    by (cases x)
      (auto simp: enter_OPT_STRUCTURED_REPLY_START_def enter_OPT_STRUCTURED_REPLY_SEND_def
        enter_OPT_STRUCTURED_REPLY_RECV_REPLY_def enter_OPT_STRUCTURED_REPLY_RECV_REPLY_PAYLOAD_def
        enter_OPT_STRUCTURED_REPLY_CHECK_REPLY_def Let_def intro!: keeps_rules)
  have "list_server_reply n g = Some (h', r) \<Longrightarrow> tls_view h' = tls_view g" for n g h' r
    by (auto simp: list_server_reply_def Let_def split: if_splits Option.bind_splits)
  then show "tv.keeps h (enter_OPT_LIST x h)"
    by (cases x)
      (auto simp: enter_OPT_LIST_START_def enter_OPT_LIST_SEND_def enter_OPT_LIST_RECV_REPLY_def
        enter_OPT_LIST_RECV_REPLY_PAYLOAD_def enter_OPT_LIST_CHECK_REPLY_def Let_def intro!: keeps_rules)
qed

lemma OPT_EXPORT_NAME_keeps: "tv.keeps h (enter_OPT_EXPORT_NAME x h)"
  by (cases x)
    (auto simp: enter_OPT_EXPORT_NAME_START_def enter_OPT_EXPORT_NAME_SEND_def enter_OPT_EXPORT_NAME_SEND_EXPORT_def
      enter_OPT_EXPORT_NAME_RECV_REPLY_def enter_OPT_EXPORT_NAME_CHECK_REPLY_def tls_view_results Let_def intro!: keeps_rules)


section \<open>TLS\<close>

text \<open>
  Where a connection that requires TLS may be without it: before the option that starts it,
  in that option, or on the way to the end.
\<close>

fun plaintext_ok :: "state \<Rightarrow> nbd_handle \<Rightarrow> bool" where
  "plaintext_ok (MAGIC m) h = True"
| "plaintext_ok (OLDSTYLE m) h = True"
| "plaintext_ok (NEWSTYLE NEWSTYLE_START) h = (\<not> opt_mode h \<or> opt_current h = 0)"
| "plaintext_ok (NEWSTYLE RECV_GFLAGS) h = True"
| "plaintext_ok (NEWSTYLE CHECK_GFLAGS) h = True"
| "plaintext_ok (NEWSTYLE SEND_CFLAGS) h = fixed_newstyle h"
| "plaintext_ok (NEWSTYLE (OPT_STARTTLS x)) h = True"
| "plaintext_ok (NEWSTYLE PREPARE_OPT_ABORT) h = True"
| "plaintext_ok (NEWSTYLE SEND_OPT_ABORT) h = True"
| "plaintext_ok (NEWSTYLE SEND_OPTION_SHUTDOWN) h = True"
| "plaintext_ok DEAD h = True"
| "plaintext_ok CLOSED h = True"
| "plaintext_ok s h = False"

text \<open>What is assumed of the TLS code: it does not touch the setting and the result of the negotiation.\<close>

definition crypto_frame :: "crypto \<Rightarrow> bool" where
  "crypto_frame c \<longleftrightarrow> (\<forall>h. tls_view (fst (crypto_create_session c h)) = tls_view h \<and>
     tls_view (fst (crypto_handshake c h)) = tls_view h)"

definition guards :: "(nbd_handle \<times> int) option \<Rightarrow> bool" where
  "guards x \<longleftrightarrow> (\<forall>h' r. x = Some (h', r) \<longrightarrow>
     tls h' = LIBNBD_TLS_REQUIRE \<and> (tls_negotiated h' \<or> plaintext_ok (next_state h') h'))"

lemma guards_simps [simp]:
  "guards None"
  "guards (return0 g) \<longleftrightarrow> tls g = LIBNBD_TLS_REQUIRE \<and> (tls_negotiated g \<or> plaintext_ok (next_state g) g)"
  by (auto simp: guards_def return0_def)

lemma guards_bind: "(\<And>y. x = Some y \<Longrightarrow> guards (f y)) \<Longrightarrow> guards (x \<bind> f)"
  by (cases x) simp_all

lemma guards_keeps:
  "tv.keeps h x \<Longrightarrow> tls_view h = (LIBNBD_TLS_REQUIRE, True) \<Longrightarrow> guards x"
  by (auto simp: tv.keeps_def guards_def tls_view_def)

lemma plaintext_frame [simp]:
  "fixed_newstyle (SET_NEXT_STATE s h) = fixed_newstyle h"
  "plaintext_ok s' (SET_NEXT_STATE s h) = plaintext_ok s' h"
  by (simp_all add: SET_NEXT_STATE_def fixed_newstyle_def) (cases "(s', h)" rule: plaintext_ok.cases; simp add: fixed_newstyle_def)

lemma tls_fields: "tls_view h = (a, b) \<longleftrightarrow> tls h = a \<and> tls_negotiated h = b"
  by (simp add: tls_view_def)

lemma recv_frame:
  assumes "recv_into_rbuf h = Some (h', r)"
  shows "next_state h' = next_state h \<and> opt_mode h' = opt_mode h \<and> opt_current h' = opt_current h \<and> gflags h' = gflags h"
proof -
  have "store_rbuf bs g = Some g' \<Longrightarrow> next_state g' = next_state g \<and> opt_mode g' = opt_mode g \<and>
      opt_current g' = opt_current g \<and> gflags g' = gflags g" for bs g g'
    by (auto simp: store_rbuf.simps split: rptr.splits if_splits Option.bind_splits)
  then show ?thesis using assms
    by (fastforce simp: recv_into_rbuf_def Let_def set_error_def
        split: if_splits Option.bind_splits prod.splits sock_result.splits)
qed

lemma send_frame:
  "send_from_wbuf h = Some (h', r) \<Longrightarrow>
     next_state h' = next_state h \<and> opt_mode h' = opt_mode h \<and> opt_current h' = opt_current h \<and> gflags h' = gflags h"
  by (auto simp: send_from_wbuf_def Let_def set_error_def
      split: if_splits Option.bind_splits prod.splits sock_result.splits)

text \<open>A handler that receives or sends either stays, or gives up, or goes on.\<close>

definition alike :: "nbd_handle \<Rightarrow> nbd_handle \<Rightarrow> bool" where
  "alike h h' \<longleftrightarrow> tls_view h' = tls_view h \<and> next_state h' = next_state h \<and> opt_mode h' = opt_mode h \<and>
     opt_current h' = opt_current h \<and> gflags h' = gflags h"

lemma alike_plaintext: "alike h h' \<Longrightarrow> plaintext_ok s h' = plaintext_ok s h"
  by (cases "(s, h)" rule: plaintext_ok.cases) (simp_all add: alike_def fixed_newstyle_def)

lemma guards_alike:
  fixes r :: int
  assumes "tls h = LIBNBD_TLS_REQUIRE" and "plaintext_ok (next_state h) h" and "alike h h'"
    and "\<And>h'. alike h h' \<Longrightarrow> guards (f h')"
  shows "guards (if r = -1 then goto DEAD h' else if r = 0 then f h' else return0 h')"
proof -
  have "tls h' = LIBNBD_TLS_REQUIRE" "plaintext_ok (next_state h') h'" "tls (SET_NEXT_STATE DEAD h') = LIBNBD_TLS_REQUIRE"
    using assms(1-3) alike_plaintext [OF assms(3)] by (simp_all add: alike_def tls_view_def SET_NEXT_STATE_def)
  then show ?thesis using assms(3,4) by simp
qed

lemma guards_recv_then:
  assumes "tls h = LIBNBD_TLS_REQUIRE" and "plaintext_ok (next_state h) h" and "\<And>h'. alike h h' \<Longrightarrow> guards (f h')"
  shows "guards (recv_then f h)"
  unfolding recv_then_def
proof (rule guards_bind, clarify)
  fix h' r assume r: "recv_into_rbuf h = Some (h', r)"
  have "alike h h'" using tv.v_recv [OF r] recv_frame [OF r] by (simp add: alike_def)
  from guards_alike [OF assms(1,2) this assms(3)]
  show "guards (if r = -1 then goto DEAD h' else if r = 0 then f h' else return0 h')" .
qed

lemma guards_send_then:
  assumes "tls h = LIBNBD_TLS_REQUIRE" and "plaintext_ok (next_state h) h" and "\<And>h'. alike h h' \<Longrightarrow> guards (f h')"
  shows "guards (send_then f h)"
  unfolding send_then_def
proof (rule guards_bind, clarify)
  fix h' r assume r: "send_from_wbuf h = Some (h', r)"
  have "alike h h'" using tv.v_send_from [OF r] send_frame [OF r] by (simp add: alike_def)
  from guards_alike [OF assms(1,2) this assms(3)]
  show "guards (if r = -1 then goto DEAD h' else if r = 0 then f h' else return0 h')" .
qed

lemma tls_field_frame [simp]:
  "tls (SET_NEXT_STATE s h) = tls h" "tls (set_error e m h) = tls h" "tls (put_sbuf bs h) = tls h"
  "tls (put_option opt len h) = tls h" "tls (await_option_reply h) = tls h"
  "tls_negotiated (SET_NEXT_STATE s h) = tls_negotiated h" "next_state (SET_NEXT_STATE s h) = s"
  "next_state (set_error e m h) = next_state h"
  by (simp_all add: SET_NEXT_STATE_def set_error_def put_sbuf_def put_option_def await_option_reply_def)

text \<open>The states before TLS.\<close>

lemma MAGIC_guards:
  assumes "tls h = LIBNBD_TLS_REQUIRE" and "next_state h = MAGIC m"
  shows "guards (enter_MAGIC m h)"
  using assms
  by (cases m) (auto simp: enter_MAGIC_START_def enter_MAGIC_RECV_MAGIC_def enter_MAGIC_CHECK_MAGIC_def
      alike_def tls_view_def intro!: guards_bind guards_recv_then)

lemma OLDSTYLE_guards:
  assumes "tls h = LIBNBD_TLS_REQUIRE" and "next_state h = OLDSTYLE m"
  shows "guards (enter_OLDSTYLE m h)"
  using assms
  by (cases m) (auto simp: enter_OLDSTYLE_START_def enter_OLDSTYLE_RECV_REMAINING_def enter_OLDSTYLE_CHECK_def
      alike_def tls_view_def Let_def intro!: guards_bind guards_recv_then)


lemma finish_option_frame [simp]:
  "tls (finish_option err h) = tls h" "tls_negotiated (finish_option err h) = tls_negotiated h"
  using tls_view_helpers(8) [of err h] by (simp_all add: tls_view_def)

lemma crypto_tls:
  assumes "crypto_frame c"
  shows "crypto_create_session c h = (g, x) \<Longrightarrow> tls g = tls h" "crypto_handshake c h = (g, r) \<Longrightarrow> tls g = tls h"
proof -
  have "tls_view (fst (crypto_create_session c h)) = tls_view h" "tls_view (fst (crypto_handshake c h)) = tls_view h"
    using assms by (simp_all add: crypto_frame_def)
  then show "crypto_create_session c h = (g, x) \<Longrightarrow> tls g = tls h" "crypto_handshake c h = (g, r) \<Longrightarrow> tls g = tls h"
    by (simp_all add: tls_view_def)
qed

lemma direction_guards: "tls h = LIBNBD_TLS_REQUIRE \<Longrightarrow> guards (tls_direction c h)"
  by (simp add: tls_direction_def)

lemma TLS_HANDSHAKE_guards:
  "tls h = LIBNBD_TLS_REQUIRE \<Longrightarrow> crypto_frame c \<Longrightarrow> guards (enter_TLS_HANDSHAKE c h)"
  using crypto_tls(2) by (auto simp: enter_TLS_HANDSHAKE_def direction_guards split: prod.split)

lemma reset_tls [simp]: "tls (nbd_internal_reset_size_and_flags h) = tls h"
  by (simp add: nbd_internal_reset_size_and_flags_def)

lemma STARTTLS_CHECK_guards:
  assumes "tls h = LIBNBD_TLS_REQUIRE" and "crypto_frame c"
  shows "guards (enter_OPT_STARTTLS_CHECK_REPLY c h)"
proof -
  have "tls h' = LIBNBD_TLS_REQUIRE" if "handle_reply_error h = (h', r)" for h' r
    using tls_view_results(4) [OF that] assms(1) by (simp add: tls_view_def)
  then show ?thesis
    using assms crypto_tls(1)
    by (auto simp: enter_OPT_STARTTLS_CHECK_REPLY_def on_reply_error_def Let_def direction_guards
        split: prod.split option.split)
qed

lemma STARTTLS_guards:
  assumes "tls h = LIBNBD_TLS_REQUIRE" and "next_state h = NEWSTYLE (OPT_STARTTLS x)" and "crypto_frame c"
  shows "guards (enter_OPT_STARTTLS c x h)"
proof (cases x)
  case STARTTLS_RECV_REPLY
  show ?thesis using assms STARTTLS_RECV_REPLY tls_view_results(3)
    by (auto simp: enter_OPT_STARTTLS_RECV_REPLY_def recv_option_reply_def alike_def tls_fields
        intro!: guards_recv_then split: prod.split)
      (auto simp: tls_view_def)
next
  case STARTTLS_CHECK_REPLY
  then show ?thesis using assms STARTTLS_CHECK_guards by simp
next
  case TLS_HANDSHAKE_READ
  then show ?thesis using assms TLS_HANDSHAKE_guards by simp
next
  case TLS_HANDSHAKE_WRITE
  then show ?thesis using assms TLS_HANDSHAKE_guards by simp
qed (use assms in \<open>auto simp: enter_OPT_STARTTLS_START_def enter_OPT_STARTTLS_SEND_def 
    enter_OPT_STARTTLS_RECV_REPLY_PAYLOAD_def enter_TLS_HANDSHAKE_DONE_def alike_def tls_view_def Let_def
    intro!: guards_bind guards_recv_then guards_send_then\<close>)


lemma NEWSTYLE_guards:
  assumes "tls h = LIBNBD_TLS_REQUIRE" and "plaintext_ok (NEWSTYLE x) h" and "next_state h = NEWSTYLE x" and "crypto_frame c"
  shows "guards (enter_NEWSTYLE c x h)"
proof (cases x)
  case NEWSTYLE_START
  then show ?thesis using assms
    by (auto simp: enter_NEWSTYLE_START_def begin_newstyle_def Let_def intro!: guards_bind)
next
  case CHECK_GFLAGS
  then show ?thesis using assms
    by (auto simp: enter_NEWSTYLE_CHECK_GFLAGS_def Let_def fixed_newstyle_def put_sbuf_def)
next
  case SEND_CFLAGS
  then show ?thesis using assms
    by (auto simp: enter_NEWSTYLE_SEND_CFLAGS_def alike_def tls_view_def fixed_newstyle_def intro!: guards_send_then)
next
  case (OPT_STARTTLS y)
  then show ?thesis using assms STARTTLS_guards by simp
next
  case SEND_OPTION_SHUTDOWN
  then show ?thesis using assms
    by (auto simp: enter_NEWSTYLE_SEND_OPTION_SHUTDOWN_def Let_def intro!: guards_bind split: prod.split)
qed (use assms in \<open>auto simp: enter_NEWSTYLE_RECV_GFLAGS_def enter_NEWSTYLE_PREPARE_OPT_ABORT_def
    enter_NEWSTYLE_SEND_OPT_ABORT_def alike_def tls_view_def
    intro!: guards_bind guards_recv_then guards_send_then\<close>)

text \<open>Once TLS is there it stays.\<close>

lemma NEWSTYLE_own_keeps:
  "tv.keeps h (enter_NEWSTYLE_START h)" "tv.keeps h (enter_NEWSTYLE_RECV_GFLAGS h)"
  "tv.keeps h (enter_NEWSTYLE_CHECK_GFLAGS h)" "tv.keeps h (enter_NEWSTYLE_SEND_CFLAGS h)"
  "tv.keeps h (enter_NEWSTYLE_PREPARE_OPT_ABORT h)" "tv.keeps h (enter_NEWSTYLE_SEND_OPT_ABORT h)"
  "tv.keeps h (enter_NEWSTYLE_SEND_OPTION_SHUTDOWN h)" "tv.keeps h (enter_NEWSTYLE_FINISHED h)"
  by (auto simp: enter_NEWSTYLE_START_def begin_newstyle_def enter_NEWSTYLE_RECV_GFLAGS_def
      enter_NEWSTYLE_CHECK_GFLAGS_def enter_NEWSTYLE_SEND_CFLAGS_def enter_NEWSTYLE_PREPARE_OPT_ABORT_def
      enter_NEWSTYLE_SEND_OPT_ABORT_def enter_NEWSTYLE_SEND_OPTION_SHUTDOWN_def enter_NEWSTYLE_FINISHED_def Let_def
      intro!: keeps_rules split: prod.split)

lemma NEWSTYLE_negotiated:
  assumes "tls h = LIBNBD_TLS_REQUIRE" and "tls_negotiated h" and "next_state h = NEWSTYLE x" and "crypto_frame c"
  shows "guards (enter_NEWSTYLE c x h)"
proof (cases "\<exists>y. x = OPT_STARTTLS y")
  case True
  then show ?thesis using STARTTLS_guards assms by auto
next
  case False
  then have "tv.keeps h (enter_NEWSTYLE c x h)"
    by (cases x) (simp_all add: NEWSTYLE_own_keeps OPT_simple_keeps OPT_META_keeps OPT_GO_keeps OPT_EXPORT_NAME_keeps)
  then show ?thesis by (rule guards_keeps) (simp add: tls_view_def assms)
qed

text \<open>
  The course of a handshake: turns of the state machine, events, and what the caller does between
  them, which leaves the settings alone but may choose the next option in state \<^verbatim>\<open>NEGOTIATING\<close>.
\<close>

fun in_handshake :: "state \<Rightarrow> bool" where
  "in_handshake (MAGIC m) = True"
| "in_handshake (OLDSTYLE m) = True"
| "in_handshake (NEWSTYLE x) = True"
| "in_handshake NEGOTIATING = True"
| "in_handshake s = False"

inductive handshake :: "env \<Rightarrow> nbd_handle \<Rightarrow> nbd_handle \<Rightarrow> bool" for e :: env and h0 :: nbd_handle where
  hs_start: "handshake e h0 h0"
| hs_turn: "handshake e h0 h \<Longrightarrow> in_handshake (state h) \<Longrightarrow> step e h = Some (h', r) \<Longrightarrow> handshake e h0 h'"
| hs_event: "handshake e h0 h \<Longrightarrow> in_handshake (state h) \<Longrightarrow> external_transition (state h) ev = Some s \<Longrightarrow>
    handshake e h0 (h\<lparr>state := s\<rparr>)"
| hs_caller: "handshake e h0 h \<Longrightarrow> state h' = state h \<Longrightarrow> tls_view h' = tls_view h \<Longrightarrow> gflags h' = gflags h \<Longrightarrow>
    opt_mode h' = opt_mode h \<Longrightarrow> opt_current h' = opt_current h \<or> state h = NEGOTIATING \<Longrightarrow> handshake e h0 h'"

definition guarded :: "nbd_handle \<Rightarrow> bool" where
  "guarded h \<longleftrightarrow> tls h = LIBNBD_TLS_REQUIRE \<and> (tls_negotiated h \<or> plaintext_ok (state h) h)"

lemma step_guarded:
  assumes "guarded h" and "in_handshake (state h)" and "crypto_frame (env_crypto e)" and "step e h = Some (h', r)"
  shows "guarded h'"
proof -
  define g where "g = h\<lparr>blocked := True, next_state := state h\<rparr>"
  obtain g' where g': "enter_state e (state h) g = Some (g', r)" "h' = g'\<lparr>state := next_state g'\<rparr>"
    using assms(4) by (auto simp: step_def enter_def g_def)
  have g: "tls g = LIBNBD_TLS_REQUIRE" "next_state g = state h"
    "tls_negotiated g \<or> plaintext_ok (state h) g"
    using assms(1) by (auto simp: guarded_def g_def) (cases "(state h, h)" rule: plaintext_ok.cases; simp add: fixed_newstyle_def)
  have "guards (enter_state e (state h) g)"
  proof (cases "state h")
    case (MAGIC m)
    then show ?thesis using MAGIC_guards g by simp
  next
    case (OLDSTYLE m)
    then show ?thesis using OLDSTYLE_guards g by simp
  next
    case (NEWSTYLE x)
    then show ?thesis using NEWSTYLE_guards NEWSTYLE_negotiated g assms(3) by auto
  qed (use assms(2) g in auto)
  then have "tls g' = LIBNBD_TLS_REQUIRE" "tls_negotiated g' \<or> plaintext_ok (next_state g') g'"
    using g'(1) by (simp_all add: guards_def)
  moreover have "plaintext_ok s (g'\<lparr>state := s'\<rparr>) = plaintext_ok s g'" for s s'
    by (cases "(s, g')" rule: plaintext_ok.cases) (simp_all add: fixed_newstyle_def)
  ultimately show ?thesis by (simp add: guarded_def g'(2))
qed

lemma event_guarded:
  assumes "guarded h" and "in_handshake (state h)" and "external_transition (state h) ev = Some s"
  shows "guarded (h\<lparr>state := s\<rparr>)"
proof -
  have "plaintext_ok s (h\<lparr>state := s\<rparr>) = plaintext_ok s h" for s
    by (cases "(s, h)" rule: plaintext_ok.cases) (simp_all add: fixed_newstyle_def)
  moreover have "s = state h \<or> state h = NEGOTIATING"
    using assms(2,3) by (cases "state h") (auto split: if_splits)
  ultimately show ?thesis using assms(1) by (auto simp: guarded_def)
qed

lemma handshake_guarded:
  assumes "handshake e h0 h" and "guarded h0" and "crypto_frame (env_crypto e)"
  shows "guarded h"
  using assms(1)
proof induction
  case hs_start
  show ?case by (rule assms(2))
next
  case (hs_turn h h' r)
  then show ?case using step_guarded assms(3) by blast
next
  case (hs_event h ev s)
  then show ?case using event_guarded by blast
next
  case (hs_caller h h')
  have "tls_negotiated h \<or> state h \<noteq> NEGOTIATING" using hs_caller(7) by (auto simp: guarded_def)
  moreover have "plaintext_ok (state h) h' = plaintext_ok (state h) h" if "opt_current h' = opt_current h"
    using hs_caller that by (cases "(state h, h)" rule: plaintext_ok.cases) (simp_all add: fixed_newstyle_def)
  ultimately show ?case using hs_caller by (auto simp: guarded_def tls_view_def)
qed

text \<open>
  C6. A connection that requires TLS does not get past the negotiation without it: whatever the
  server sends during the handshake, when the connection is ready, or waits for the caller to choose
  an option, or negotiates any option other than the one that starts TLS, TLS has been negotiated.
\<close>

theorem tls_required:
  assumes "handshake e h0 h" and "state h0 = MAGIC MAGIC_START" and "tls h0 = LIBNBD_TLS_REQUIRE"
    and "crypto_frame (env_crypto e)"
    and "state h \<in> {READY, NEGOTIATING, NEWSTYLE FINISHED} \<union> range (NEWSTYLE \<circ> OPT_GO) \<union> range (NEWSTYLE \<circ> OPT_EXPORT_NAME) \<union>
      range (NEWSTYLE \<circ> OPT_META_CONTEXT) \<union> range (NEWSTYLE \<circ> OPT_LIST) \<union> range (NEWSTYLE \<circ> OPT_STRUCTURED_REPLY) \<union>
      range (NEWSTYLE \<circ> OPT_EXTENDED_HEADERS)"
  shows "tls_negotiated h"
  using handshake_guarded [OF assms(1) _ assms(4)] assms(2,3,5) by (auto simp: guarded_def)


text \<open>Turns of the state machine as long as the handshake lasts.\<close>

fun handshake_turns :: "env \<Rightarrow> nat \<Rightarrow> nbd_handle \<Rightarrow> nbd_handle option" where
  "handshake_turns e 0 h = Some h"
| "handshake_turns e (Suc n) h =
     (if in_handshake (state h) then step e h \<bind> (\<lambda>(h', r). handshake_turns e n h') else None)"

lemma handshake_turns_reach:
  "handshake e h0 g \<Longrightarrow> handshake_turns e n g = Some h \<Longrightarrow> handshake e h0 h"
proof (induction n arbitrary: g)
  case (Suc n)
  then obtain g' r where "step e g = Some (g', r)" "handshake_turns e n g' = Some h" "in_handshake (state g)"
    by (auto split: if_splits Option.bind_splits)
  with Suc.IH hs_turn [OF Suc.prems(1)] show ?case by blast
qed simp

text \<open>A server that accepts TLS, and a TLS library whose handshake succeeds at once.\<close>

definition tls_env :: env where
  "tls_env = \<lparr>env_crypto = \<lparr>crypto_create_session = (\<lambda>h. (h, Some quiet_sock)), crypto_is_reading = (\<lambda>h. False),
     crypto_handshake = (\<lambda>h. (h, 0))\<rparr>, env_connect = (\<lambda>_ _. None)\<rparr>"

definition tls_server :: socket where
  "tls_server = quiet_sock\<lparr>rx := [RxData (htobe64 NBD_MAGIC @ htobe64 NBD_NEW_VERSION), RxData (htobe16 3),
     RxData (htobe64 NBD_REP_MAGIC @ htobe32 5 @ htobe32 NBD_REP_ACK @ htobe32 0)],
     tx := [TxAccept 4, TxAccept 16]\<rparr>"

definition tls_handle :: nbd_handle where
  "tls_handle = initial_handle\<lparr>tls := LIBNBD_TLS_REQUIRE, state := MAGIC MAGIC_START, sock := Some tls_server\<rparr>"

lemma handshake_turns_numeral:
  "handshake_turns e (numeral k) h =
     (if in_handshake (state h) then step e h \<bind> (\<lambda>(h', r). handshake_turns e (pred_numeral k) h') else None)"
  by (simp add: numeral_eq_Suc)

lemmas handshake_defs = step_def enter_def SET_NEXT_STATE_def return0_def Let_def recv_into_rbuf_def
  store_rbuf.simps send_from_wbuf_def sock_recv.simps sock_send.simps recv_then_def send_then_def recv_option_reply_def
  put_sbuf_def put_option_def await_option_reply_def rd_bytes_inside prepare_for_reply_payload_def or_defs
  enter_MAGIC_START_def enter_MAGIC_RECV_MAGIC_def enter_MAGIC_CHECK_MAGIC_def enter_NEWSTYLE_START_def begin_newstyle_def
  enter_NEWSTYLE_RECV_GFLAGS_def enter_NEWSTYLE_CHECK_GFLAGS_def enter_NEWSTYLE_SEND_CFLAGS_def fixed_newstyle_def
  enter_OPT_STARTTLS_START_def enter_OPT_STARTTLS_SEND_def enter_OPT_STARTTLS_RECV_REPLY_def
  enter_OPT_STARTTLS_RECV_REPLY_PAYLOAD_def enter_OPT_STARTTLS_CHECK_REPLY_def tls_direction_def enter_TLS_HANDSHAKE_def
  enter_TLS_HANDSHAKE_DONE_def nbd_internal_reset_size_and_flags_def
  finish_option_def call_opt_completion_def nbd_internal_free_option_def

lemma tls_server_accepts: "\<exists>h. handshake_turns tls_env 14 tls_handle = Some h \<and> state h = NEWSTYLE (OPT_EXTENDED_HEADERS OPT_START)"
  by (simp add: handshake_turns_numeral handshake_defs tls_env_def tls_handle_def tls_server_def handle_defs null_cb_def)


theorem tls_required_witness:
  "\<exists>h. handshake tls_env tls_handle h \<and> state h = NEWSTYLE (OPT_EXTENDED_HEADERS OPT_START) \<and> tls_negotiated h"
proof -
  obtain h where h: "handshake_turns tls_env 14 tls_handle = Some h" "state h = NEWSTYLE (OPT_EXTENDED_HEADERS OPT_START)"
    using tls_server_accepts by blast
  have hs: "handshake tls_env tls_handle h" by (rule handshake_turns_reach [OF hs_start h(1)])
  have "tls_negotiated h"
    by (rule tls_required [OF hs]) (simp_all add: h(2) tls_handle_def tls_env_def crypto_frame_def)
  with hs h(2) show ?thesis by blast
qed

section \<open>Options with a payload\<close>

text \<open>
  What a sequence of states puts on the wire when the transport takes everything: each state finds
  the send buffer empty and fills it again.
\<close>

fun sent_by :: "handler list \<Rightarrow> nbd_handle \<Rightarrow> u8 list option" where
  "sent_by [] h = Some []"
| "sent_by (f # fs) h = f (h\<lparr>wlen := 0\<rparr>) \<bind> (\<lambda>(h', r). sent_by fs h' \<bind> (\<lambda>bs. Some (take (wlen h') (wbuf h') @ bs)))"

lemma send_then_sent: "send_then f (h\<lparr>wlen := 0\<rparr>) = f (h\<lparr>wlen := 0, wflags_more := False\<rparr>)"
  by (simp add: send_then_def send_from_wbuf_def)

text \<open>An option request: the header announces as many bytes as follow it.\<close>

definition well_framed :: "u32 \<Rightarrow> u8 list \<Rightarrow> u8 list \<Rightarrow> bool" where
  "well_framed opt payload bs \<longleftrightarrow>
     bs = htobe64 NBD_NEW_VERSION @ htobe32 opt @ htobe32 (of_nat (length payload)) @ payload"




definition query_bytes :: "cstr \<Rightarrow> u8 list" where
  "query_bytes q = htobe32 (of_nat (length q)) @ q"

definition query_states :: "handler list" where
  "query_states = [enter_OPT_META_CONTEXT_PREPARE_NEXT_QUERY, enter_OPT_META_CONTEXT_SEND_QUERYLEN,
     enter_OPT_META_CONTEXT_SEND_QUERY]"

lemma query_sent:
  assumes "querynum h < length (querylist h)"
  shows "\<exists>g. querynum g = Suc (querynum h) \<and> querylist g = querylist h \<and> (\<forall>fs. sent_by (query_states @ fs) h =
    sent_by fs g \<bind> (\<lambda>bs. Some (query_bytes (querylist h ! querynum h) @ bs)))"
proof -
  let ?q = "querylist h ! querynum h"
  define g where "g = h\<lparr>sbuf := mem_write (sbuf h) 0 (htobe32 (of_nat (length ?q))), wbuf := ?q, wlen := 0,
    wflags_more := False, querynum := Suc (querynum h), blocked := False,
    next_state := NEWSTYLE (OPT_META_CONTEXT META_PREPARE_NEXT_QUERY)\<rparr>"
  have "sent_by (query_states @ fs) h = sent_by fs g \<bind> (\<lambda>bs. Some (query_bytes ?q @ bs))" for fs
    using assms
    by (simp add: query_states_def enter_OPT_META_CONTEXT_PREPARE_NEXT_QUERY_def enter_OPT_META_CONTEXT_SEND_QUERYLEN_def
        enter_OPT_META_CONTEXT_SEND_QUERY_def send_then_sent put_sbuf_def put_string_def msg_more_def return0_def
        SET_NEXT_STATE_def query_bytes_def g_def)
  then show ?thesis by (intro exI [of _ g]) (simp add: g_def)
qed

lemma queries_sent:
  "querynum h + n = length (querylist h) \<Longrightarrow>
     sent_by (concat (replicate n query_states)) h = Some (concat (map query_bytes (drop (querynum h) (querylist h))))"
proof (induction n arbitrary: h)
  case (Suc n)
  then obtain g where g: "querynum g = Suc (querynum h)" "querylist g = querylist h"
    and s: "\<forall>fs. sent_by (query_states @ fs) h =
      sent_by fs g \<bind> (\<lambda>bs. Some (query_bytes (querylist h ! querynum h) @ bs))"
    using query_sent [of h] by auto
  have "drop (querynum h) (querylist h) = querylist h ! querynum h # drop (Suc (querynum h)) (querylist h)"
    using Suc.prems by (intro Cons_nth_drop_Suc [symmetric]) simp
  then show ?case using Suc.IH [of g] Suc.prems g s by simp
qed simp

definition meta_states :: "nat \<Rightarrow> handler list" where
  "meta_states n = [enter_OPT_META_CONTEXT_START, enter_OPT_META_CONTEXT_SEND, enter_OPT_META_CONTEXT_SEND_EXPORTNAMELEN,
     enter_OPT_META_CONTEXT_SEND_EXPORTNAME, enter_OPT_META_CONTEXT_SEND_NRQUERIES] @ concat (replicate n query_states)"

lemma meta_length: "length (concat (map query_bytes qs)) = (\<Sum>q\<leftarrow>qs. 4 + length q)"
  by (induction qs) (simp_all add: query_bytes_def)

lemma meta_sent:
  assumes "enter_OPT_META_CONTEXT_START (h\<lparr>wlen := 0\<rparr>) = send_meta_request opt g" and "querylist g = qs"
  shows "\<exists>bs. sent_by (meta_states (length qs)) h = Some bs \<and>
    well_framed (ucast opt) (htobe32 (of_nat (length (export_name g))) @ export_name g @ htobe32 (of_nat (length qs)) @
      concat (map query_bytes qs)) bs"
  using assms
  by (simp add: meta_states_def send_meta_request_def meta_request_len_def enter_OPT_META_CONTEXT_SEND_def
      enter_OPT_META_CONTEXT_SEND_EXPORTNAMELEN_def enter_OPT_META_CONTEXT_SEND_EXPORTNAME_def
      enter_OPT_META_CONTEXT_SEND_NRQUERIES_def send_then_sent put_option_def put_sbuf_def put_string_def msg_more_def
      return0_def SET_NEXT_STATE_def queries_sent well_framed_def meta_length add.assoc)



definition meta_handle :: nbd_handle where
  "meta_handle = tls_handle\<lparr>structured_replies := True, request_meta_contexts := [[98, 58], [97]]\<rparr>"


end
