(* ===== verification/NBD_Api_Props.thy ===== *)
theory NBD_Api_Props
  imports NBD_Api_Safe NBD_Faults NBD_Handshake
begin

text \<open>
  Properties of the public interface: who frees the callbacks of a refused call, what the calls do
  with invalid arguments, and where they do not protect the caller.
\<close>

section \<open>Callbacks of a refused command\<close>

text \<open>\<open>frees tr h sub\<close>: a failed submission has added \<open>tr\<close> to the trace if it took the callbacks over, and nothing if not.\<close>

definition frees :: "cb_event list \<Rightarrow> nbd_handle \<Rightarrow> submission \<Rightarrow> bool" where
  "frees tr h sub \<longleftrightarrow> (\<forall>h'. snd sub = Returned h' (-1) \<longrightarrow> trace h' = trace h @ (if fst sub then tr else []))"

definition released :: "bool \<Rightarrow> bool \<Rightarrow> cb_event list" where
  "released fn completion = (if fn then [FreeFn 0] else []) @ (if completion then [FreeCompletion 0] else [])"

lemma trace_error [simp]: "trace (set_error err msg h) = trace h"
  by (simp add: set_error_def)

lemma frees_refuse: "trace g = trace h \<Longrightarrow> frees tr h (refuse err msg g)"
  by (simp add: frees_def refuse_def fail_def)

lemma frees_guard:
  assumes "trace g = trace h" and "\<And>f. trace f = trace h \<Longrightarrow> frees tr h (k f)"
  shows "frees tr h (guard on (get_flag fl) bad err msg k g)"
  using assms frees_refuse by (auto simp: guard_def get_flag_def)

lemma uint_not_minus: "uint (c :: u64) \<noteq> -1"
  by (metis neg_0_le_iff_le not_one_le_zero uint_range_size)

lemma frees_submit:
  assumes "trace g = trace h"
    and "tr = released ((type = NBD_CMD_BLOCK_STATUS \<or> type = NBD_CMD_READ) \<and> fn_free (cb_fn cb)) (cbk_free (cb_completion cb))"
  shows "frees tr h (submit_command e n flags type offset count count_err data (Some cb) g)"
  using assms uint_not_minus
  by (auto simp: frees_def submit_command_def nbd_internal_command_common_def free_callbacks_def released_def
      log_event_def Let_def split: option.splits if_splits outcome.splits)

lemma frees_if: "(p \<Longrightarrow> frees tr h x) \<Longrightarrow> (\<not> p \<Longrightarrow> frees tr h y) \<Longrightarrow> frees tr h (if p then x else y)"
  by simp

lemmas frees_intros = frees_guard frees_submit frees_refuse

lemma frees_command:
  "frees (released False (cbk_free c)) h (nbd_unlocked_aio_pread e n b count offset c flags h)"
  "frees (released (cbk_free chunk) (cbk_free c)) h (nbd_unlocked_aio_pread_structured e n b count offset chunk c flags h)"
  "frees (released False (cbk_free c)) h (nbd_unlocked_aio_pwrite e n b count offset c flags h)"
  "frees (released False (cbk_free c)) h (nbd_unlocked_aio_flush e n c flags h)"
  "frees (released False (cbk_free c)) h (nbd_unlocked_aio_trim e n count offset c flags h)"
  "frees (released False (cbk_free c)) h (nbd_unlocked_aio_cache e n count offset c flags h)"
  "frees (released False (cbk_free c)) h (nbd_unlocked_aio_zero e n count offset c flags h)"
  unfolding nbd_unlocked_aio_pread_def nbd_unlocked_aio_pread_structured_def nbd_unlocked_aio_pwrite_def
    nbd_unlocked_aio_flush_def nbd_unlocked_aio_trim_def nbd_unlocked_aio_cache_def nbd_unlocked_aio_zero_def can_defs Let_def
  by (rule frees_intros | simp split del: if_split add: completion_cb_def | rule frees_if)+

lemma frees_status:
  "frees (released (cbk_free x) (cbk_free c)) h (nbd_unlocked_aio_block_status e n count offset x c flags h)"
  "frees (released (cbk_free y) (cbk_free c)) h (nbd_unlocked_aio_block_status_64 e n count offset y c flags h)"
  "frees (released (cbk_free y) (cbk_free c)) h (nbd_unlocked_aio_block_status_filter e n count offset fs y c flags h)"
proof -
  obtain g r where c: "check_aio_block_status h = (g, r)" by fastforce
  then have g: "trace g = trace h" using check_status_cases [OF c] by auto
  then have no: "frees tr h (False, Returned g (-1))" for tr by (simp add: frees_def)
  show "frees (released (cbk_free x) (cbk_free c)) h (nbd_unlocked_aio_block_status e n count offset x c flags h)"
    "frees (released (cbk_free y) (cbk_free c)) h (nbd_unlocked_aio_block_status_64 e n count offset y c flags h)"
    unfolding nbd_unlocked_aio_block_status_def nbd_unlocked_aio_block_status_64_def c Let_def prod.case
    using no g by (simp_all add: frees_submit)
  show "frees (released (cbk_free y) (cbk_free c)) h (nbd_unlocked_aio_block_status_filter e n count offset fs y c flags h)"
    unfolding nbd_unlocked_aio_block_status_filter_def c Let_def prod.case can_defs
    using no g by (auto intro!: frees_intros split: option.split)
qed

lemma frees_finish:
  assumes "frees tr h sub" and "finish f sub = Returned h' (-1)" and "\<And>g. trace (f g) = trace g @ tr"
  shows "trace h' = trace h @ tr"
  using assms by (cases "snd sub") (auto simp: finish_def frees_def publish_def split: if_splits)

lemma frees_api:
  assumes "frees tr h (call h)" and "api_call cs f call h = Returned h' (-1)" and "\<And>g. trace (f g) = trace g @ tr"
  shows "trace h' = trace h @ tr"
  using assms frees_finish [of tr h "case first_failed h cs of None \<Rightarrow> call h | Some (err, msg) \<Rightarrow> refuse err msg h" f h']
  by (auto simp: api_call_def frees_refuse split: option.splits)

text \<open>The callbacks that a command is called with, and what freeing each of them once looks like.\<close>

fun to_free :: "request \<Rightarrow> cb_event list" where
  "to_free (Aio_pread buf count offset c flags) = released False (cbk_free c)"
| "to_free (Aio_pread_structured buf count offset chunk c flags) = released (cbk_free chunk) (cbk_free c)"
| "to_free (Aio_pwrite buf count offset c flags) = released False (cbk_free c)"
| "to_free (Aio_flush c flags) = released False (cbk_free c)"
| "to_free (Aio_trim count offset c flags) = released False (cbk_free c)"
| "to_free (Aio_cache count offset c flags) = released False (cbk_free c)"
| "to_free (Aio_zero count offset c flags) = released False (cbk_free c)"
| "to_free (Aio_block_status count offset x c flags) = released (cbk_free x) (cbk_free c)"
| "to_free (Aio_block_status_64 count offset x c flags) = released (cbk_free x) (cbk_free c)"
| "to_free (Aio_block_status_filter count offset fs x c flags) = released (cbk_free x) (cbk_free c)"
| "to_free _ = []"

fun is_command :: "request \<Rightarrow> bool" where
  "is_command (Aio_pread buf count offset c flags) = True"
| "is_command (Aio_pread_structured buf count offset chunk c flags) = True"
| "is_command (Aio_pwrite buf count offset c flags) = True"
| "is_command (Aio_flush c flags) = True"
| "is_command (Aio_trim count offset c flags) = True"
| "is_command (Aio_cache count offset c flags) = True"
| "is_command (Aio_zero count offset c flags) = True"
| "is_command (Aio_block_status count offset x c flags) = True"
| "is_command (Aio_block_status_64 count offset x c flags) = True"
| "is_command (Aio_block_status_filter count offset fs x c flags) = True"
| "is_command _ = False"

lemma trace_free:
  "trace (free_completion c g) = trace g @ released False (cbk_free c)"
  "trace (free_fn x g) = trace g @ released (cbk_free x) False"
  "released a False @ released False b = released a b"
  by (simp_all add: free_completion_def free_fn_def log_event_def released_def)

lemma frees_with_ptr:
  "(\<And>x. frees tr h (f x h)) \<Longrightarrow> frees tr h (with_ptr p f h)"
  by (cases p) (simp_all add: with_ptr_def frees_def)

text \<open>
  C36. A command call that fails has freed each callback of the caller exactly once, whichever of its
  checks failed and whether the callbacks had been taken over or not, and has called none of them.
\<close>

theorem refused_frees_once:
  assumes "is_command rq" and "call_api e n rq h = Returned h' (-1)"
  shows "trace h' = trace h @ to_free rq"
  using assms
  by (cases rq)
    (auto simp: nbd_aio_pread_def nbd_aio_pread_structured_def nbd_aio_pwrite_def nbd_aio_flush_def nbd_aio_trim_def
      nbd_aio_cache_def nbd_aio_zero_def nbd_aio_block_status_def nbd_aio_block_status_64_def
      nbd_aio_block_status_filter_def frees_command frees_status trace_free split: option.splits
      elim!: frees_api [rotated] intro!: frees_with_ptr)

text \<open>A handle as the caller has it: its state is public.\<close>

definition api_handle :: nbd_handle where
  "api_handle = publish extended_handle"

lemma api_handle_good [simp]: "api_good api_handle"
  by (simp add: api_good_def api_handle_def) (simp add: publish_def)

definition own_cb :: "completion_fn cbk" where
  "own_cb = Cbk (Some (\<lambda>err. (0, err))) True"

theorem refused_frees_once_witness:
  "\<exists>h'. call_api no_env 0 (Aio_trim 512 0 own_cb 0x8) api_handle = Returned h' (-1) \<and>
     trace h' = trace api_handle @ [FreeCompletion 0]"
proof -
  have c: "\<exists>h'. call_api no_env 0 (Aio_trim 512 0 own_cb 0x8) api_handle = Returned h' (-1)"
    by (simp add: nbd_aio_trim_def api_call_def api_handle_def publish_def handle_defs connected_states_def
        nbd_internal_is_state_ready_def is_strict_def finish_def refuse_def fail_def)
  then show ?thesis using refused_frees_once [of "Aio_trim 512 0 own_cb 0x8" no_env 0 api_handle]
    by (auto simp: released_def own_cb_def)
qed

section \<open>Safety at work\<close>

lemma api_handle_server: "server_ok no_env 200 api_handle"
proof (rule server_ok_extended)
  show "good api_handle" using api_handle_good by (simp add: api_good_def)
qed (simp_all add: api_handle_def publish_def handle_defs pending_left_def)

section \<open>Where the checks do not help\<close>

text \<open>
  The buffer of a read is cleared before the pointer is checked, so that a null pointer is an invalid
  access and not the error that the check behind it was to give; this holds in every state of the
  handle and for every flag, as long as buffers are cleared at all, which is the default.
\<close>

theorem null_read_crashes:
  assumes "pread_initialize h" and "count \<noteq> 0"
  shows "nbd_aio_pread e n None count offset c flags h = Aborted \<and>
    nbd_pread e n as None count offset flags h = Some (as, Aborted) \<and>
    (\<exists>h'. nbd_aio_pwrite e n None count offset c flags h = Returned h' (-1))"
  using assms
  by (auto simp: nbd_aio_pread_def nbd_pread_def initialize_def nbd_aio_pwrite_def api_call_def finish_def refuse_def fail_def
      split: option.split prod.split)

theorem null_read_crashes_witness:
  "nbd_aio_pread no_env 0 None 512 0 own_cb 0 api_handle = Aborted \<and>
   nbd_pread no_env 0 [] None 512 0 0 api_handle = Some ([], Aborted)"
  using null_read_crashes [of api_handle 512 no_env 0 0 own_cb 0 "[]"]
  by (simp add: api_handle_def publish_def handle_defs)

text \<open>
  With the checks of flags turned off, a block status request may carry the payload flag; on a
  connection with extended headers the state machine then sends as many bytes as the request covers
  from a null pointer.
\<close>

theorem payload_flag_reads_null:
  "\<exists>h. nbd_set_strict_mode 0 api_handle = (h, 0) \<and>
     nbd_aio_block_status_64 no_env 50 512 0 (Cbk (Some (\<lambda>_ _ _ err. (0, err))) False) null_cbk
       LIBNBD_CMD_FLAG_PAYLOAD_LEN h = Aborted"
  by (simp add: nbd_set_strict_mode_def api_query_def leave_query_def nbd_unlocked_set_strict_mode_def
      nbd_aio_block_status_64_def nbd_unlocked_aio_block_status_64_def check_aio_block_status_def submit_command_def
      api_call_def finish_def publish_def api_handle_def handle_defs connected_states_def nbd_internal_is_state_ready_def
      CALLBACK_IS_NULL_def is_strict_def nbd_internal_command_common_def check_command_def new_command_def enqueue_def
      nbd_internal_run_def run_loop_numeral run_defs enter_ISSUE_COMMAND_START_def enter_ISSUE_COMMAND_SEND_REQUEST_def
      fill_request_def enter_ISSUE_COMMAND_PREPARE_WRITE_PAYLOAD_def enter_ISSUE_COMMAND_SEND_WRITE_PAYLOAD_def)

definition negotiating_handle :: nbd_handle where
  "negotiating_handle = publish (initial_handle\<lparr>state := NEGOTIATING, opt_mode := True, sock := Some quiet_sock\<rparr>)"

text \<open>
  The completion callback of a blocking option points into the frame of the call. When \<^verbatim>\<open>poll\<close> fails
  while the option is being negotiated, the call returns and leaves the option and its callback in the handle,
  to be called by a later call of the program.
\<close>

theorem blocking_option_dangles:
  "\<exists>h. nbd_opt_info no_env 20 [PollFailed 12] negotiating_handle = Some ([], Returned h (-1)) \<and>
     opt_current h = NBD_OPT_INFO \<and> cb_completion (opt_cb h) = go_complete"
  by (simp add: nbd_opt_info_def api_wait_def leave_wait_def negotiating_handle_def publish_def initial_handle_def
      quiet_sock_def nbd_internal_is_state_negotiating_def nbd_unlocked_opt_info_def wait_issued_def
      nbd_unlocked_aio_opt_info_def unless_fixed_newstyle_def fixed_newstyle_def issue_option_def set_opt_completion_def
      wait_for_option_def poll_while.simps nbd_unlocked_poll_def do_poll_def after_poll_def fail_def
      nbd_internal_run_def run_loop_numeral handshake_defs msg_more_def enter_OPT_GO_START_def enter_OPT_GO_SEND_def
      enter_OPT_GO_SEND_EXPORTNAMELEN_def go_nrinfos_def null_cb_def enter_OPT_META_CONTEXT_START_def
      nbd_internal_is_state_connecting_def is_connecting_group.simps nbd_unlocked_aio_get_fd_def set_error_def)

end
