(* ===== verification/NBD_Utils.thy ===== *)
theory NBD_Utils
  imports NBD_Handle
begin

text \<open>
  The helpers of \<^verbatim>\<open>lib/utils.c\<close>: printing of numbers and of diagnostics between fork and exec, the search for
  a program along the path and its execution, and the printable forms of strings and buffers.
  Strings are lists of bytes without the final zero. Memory allocation is taken to succeed.
\<close>

section \<open>Text\<close>

definition ascii :: "string \<Rightarrow> cstr" where
  "ascii s = map of_char s"

abbreviation COLON :: u8 where "COLON \<equiv> 58"
abbreviation SLASH :: u8 where "SLASH \<equiv> 47"
abbreviation DOT :: u8 where "DOT \<equiv> 46"
abbreviation MINUS :: u8 where "MINUS \<equiv> 45"
abbreviation ZERO :: u8 where "ZERO \<equiv> 48"

section \<open>Numbers\<close>

text \<open>
  \<^verbatim>\<open>nbd_internal_fork_safe_itoa\<close> fills the buffer from its end: \<open>i\<close> is the index of the next byte to store.
  \<^const>\<open>None\<close>: the buffer is too small and the program aborts, or a store would be before its start.
\<close>

definition store_down :: "u8 \<Rightarrow> u8 list \<times> int \<Rightarrow> (u8 list \<times> int) option" where
  "store_down b s = (case s of (buf, i) \<Rightarrow>
     if 0 \<le> i \<and> i < int (length buf) then Some (buf[nat i := b], i - 1) else None)"

function itoa_digits :: "u64 \<Rightarrow> u8 list \<times> int \<Rightarrow> (u8 list \<times> int) option" where
  "itoa_digits uv s =
     (if uv = 0 then Some s
      else do {
        s \<leftarrow> store_down (ZERO + ucast (uv mod 10)) s;
        itoa_digits (uv div 10) s })"
  by pat_completeness auto
termination
  by (relation "measure (\<lambda>(uv, _). unat uv)") (auto simp: unat_div word_neq_0_conv unat_gt_0 intro!: div_less_dividend)

declare itoa_digits.simps [simp del]

definition nbd_internal_fork_safe_itoa :: "u64 \<Rightarrow> u8 list \<Rightarrow> (u8 list \<times> int) option" where
  "nbd_internal_fork_safe_itoa v buf = do {
     asrt (length buf \<ge> 32);
     s \<leftarrow> store_down 0 (buf, int (length buf) - 1);
     let neg = (sint v < 0);
     let uv = (if neg then - v else v);
     s \<leftarrow> (if uv = 0 then store_down ZERO s else itoa_digits uv s);
     (buf, i) \<leftarrow> (if neg then store_down MINUS s else Some s);
     Some (buf, i + 1) }"

text \<open>The string that a pointer into a buffer denotes.\<close>

definition c_string :: "u8 list \<Rightarrow> int \<Rightarrow> cstr" where
  "c_string buf i = takeWhile (\<lambda>b. b \<noteq> 0) (drop (nat i) buf)"

text \<open>The decimal notation it is to produce.\<close>

fun dec :: "nat \<Rightarrow> cstr" where
  "dec n = (if n < 10 then [ZERO + of_nat n] else dec (n div 10) @ [ZERO + of_nat (n mod 10)])"

declare dec.simps [simp del]

definition decimal :: "int \<Rightarrow> cstr" where
  "decimal k = (if k < 0 then MINUS # dec (nat (- k)) else dec (nat k))"

lemma dec_length: "0 < k \<Longrightarrow> n < 10 ^ k \<Longrightarrow> length (dec n) \<le> k"
proof (induction k arbitrary: n)
  case (Suc k)
  show ?case
  proof (cases "n < 10")
    case False
    then have "k \<noteq> 0" using Suc.prems by (cases k) auto
    moreover have "n div 10 < 10 ^ k" using Suc.prems by (auto simp: less_mult_imp_div_less mult.commute)
    ultimately show ?thesis using Suc.IH [of "n div 10"] False by (subst dec.simps) simp
  qed (subst dec.simps, simp)
qed simp

lemma store_down_nat:
  "k < length buf \<Longrightarrow> store_down b (buf, int k) = Some (buf[k := b], int k - 1)"
  by (simp add: store_down_def)

lemma itoa_digits_dec:
  assumes "uv \<noteq> 0" and "length (dec (unat uv)) \<le> Suc k" and "k < length buf"
  shows "itoa_digits uv (buf, int k) =
    Some (take (Suc k - length (dec (unat uv))) buf @ dec (unat uv) @ drop (Suc k) buf, int k - int (length (dec (unat uv))))"
  using assms
proof (induction "unat uv" arbitrary: uv k buf rule: less_induct)
  case less
  have "(ucast (uv mod 10) :: u8) = of_nat (unat (uv mod 10))" by (rule of_nat_unat [symmetric])
  then have d: "unat (uv div 10) = unat uv div 10" "(ucast (uv mod 10) :: u8) = of_nat (unat uv mod 10)"
    by (simp_all add: unat_div unat_mod)
  show ?case
  proof (cases "unat uv < 10")
    case True
    then have "uv div 10 = 0" using d(1) by (simp add: unat_eq_0)
    moreover have "dec (unat uv) = [ZERO + of_nat (unat uv)]" using True by (subst dec.simps) simp
    ultimately show ?thesis using less.prems True d(2)
      by (subst itoa_digits.simps) (simp add: store_down_nat upd_conv_take_nth_drop itoa_digits.simps [of 0])
  next
    case False
    define q where "q = uv div 10"
    have q: "q \<noteq> 0" "unat q < unat uv" "unat q = unat uv div 10"
      using False d(1) by (auto simp: q_def unat_eq_0 [symmetric])
    have dec: "dec (unat uv) = dec (unat q) @ [ZERO + of_nat (unat uv mod 10)]"
      using False q(3) by (subst dec.simps) simp
    define b where "b = (ZERO + of_nat (unat uv mod 10) :: u8)"
    have len: "length (dec (unat q)) \<le> k" using less.prems(2) dec by simp
    moreover have "0 < length (dec (unat q))" by (subst dec.simps) simp
    ultimately obtain j where j: "k = Suc j" by (cases k) auto
    have "store_down b (buf, int k) = Some (buf[k := b], int j)" using store_down_nat [OF less.prems(3), of b] j by simp
    then have "itoa_digits uv (buf, int k) = itoa_digits q (buf[k := b], int j)"
      using less.prems(1) d(2) by (subst itoa_digits.simps) (simp add: q_def b_def)
    also have "\<dots> = Some (take (Suc j - length (dec (unat q))) (buf[k := b]) @ dec (unat q) @ drop (Suc j) (buf[k := b]),
        int j - int (length (dec (unat q))))"
      using less.hyps [OF q(2,1), of j "buf[k := b]"] len j less.prems(3) by simp
    finally show ?thesis using less.prems len j
      by (simp add: dec b_def [symmetric] drop_update_swap Cons_nth_drop_Suc [symmetric])
  qed
qed

lemma dec_nonzero: "0 \<notin> set (dec n)"
proof (induction n rule: dec.induct)
  case (1 n)
  have z: "(ZERO + of_nat k :: u8) \<noteq> 0" if "k < 10" for k
  proof -
    have "unat (ZERO + of_nat k :: u8) = 48 + k" using that by (simp add: unat_word_ariths unat_of_nat)
    then show ?thesis by (metis add_is_0 unat_0 zero_neq_numeral)
  qed
  show ?case using 1 z [of n] z [of "n mod 10"] by (subst dec.simps) (auto dest: sym)
qed

lemma itoa_value:
  assumes "length (dec (unat uv)) \<le> Suc k" and "k < length buf"
  shows "(if uv = 0 then store_down ZERO (buf, int k) else itoa_digits uv (buf, int k)) =
    Some (take (Suc k - length (dec (unat uv))) buf @ dec (unat uv) @ drop (Suc k) buf, int k - int (length (dec (unat uv))))"
proof (cases "uv = 0")
  case True
  have "dec 0 = [ZERO]" by (subst dec.simps) simp
  then show ?thesis using True assms by (simp add: store_down_nat upd_conv_take_nth_drop)
qed (use assms itoa_digits_dec in simp)

lemma negate_unat:
  fixes v :: u64
  shows "sint v < 0 \<Longrightarrow> unat (- v) = nat (- sint v)" and "\<not> sint v < 0 \<Longrightarrow> unat v = nat (sint v)"
proof -
  have u: "uint v = sint v mod 2 ^ 64" by (simp add: uint_sint take_bit_eq_mod)
  have r: "- (2 ^ 63) \<le> sint v" "sint v < 2 ^ 63" using sint_greater_eq [of v] sint_less [of v] by simp_all
  show "unat (- v) = nat (- sint v)" if "sint v < 0"
  proof -
    have "uint (- v) = (- sint v) mod 2 ^ 64" by (simp add: uint_word_ariths u mod_minus_eq)
    also have "\<dots> = - sint v" using that r by simp
    finally show ?thesis by (simp add: unat_eq_nat_uint)
  qed
  show "unat v = nat (sint v)" if "\<not> sint v < 0"
    using that u r by (simp add: unat_eq_nat_uint)
qed

lemma itoa_string:
  assumes "32 \<le> length buf"
  shows "\<exists>buf' i. nbd_internal_fork_safe_itoa v buf = Some (buf', i) \<and> length buf' = length buf \<and>
    c_string buf' i = decimal (sint v)"
proof -
  define uv where "uv = (if sint v < 0 then - v else v)"
  define d where "d = dec (unat uv)"
  define k where "k = length buf - 2"
  have k: "length buf = Suc (Suc k)" "30 \<le> k" using assms by (simp_all add: k_def)
  have "unat uv < 10 ^ 20" using unsigned_less [of uv, where ?'a = nat] by simp
  then have len: "length d \<le> 20" unfolding d_def by (rule dec_length [rotated]) simp
  have z: "0 \<notin> set d" unfolding d_def by (rule dec_nonzero)
  define buf0 where "buf0 = buf[Suc k := 0]"
  define buf1 where "buf1 = take (Suc k - length d) buf0 @ d @ drop (Suc k) buf0"
  have s0: "store_down 0 (buf, int (length buf) - 1) = Some (buf0, int k)"
    using k store_down_nat [of "Suc k" buf 0] by (simp add: buf0_def)
  have s1: "(if uv = 0 then store_down ZERO (buf0, int k) else itoa_digits uv (buf0, int k)) = Some (buf1, int k - int (length d))"
    using itoa_value [of uv k buf0] len k by (simp add: d_def buf0_def buf1_def)
  have "buf0 ! Suc k = 0" "drop (Suc (Suc k)) buf0 = []" "Suc k < length buf0" using k by (simp_all add: buf0_def)
  then have end0: "drop (Suc k) buf0 = [0]" by (metis Cons_nth_drop_Suc)
  have l: "length buf1 = length buf" using k len by (simp add: buf1_def buf0_def)
  define j where "j = k - length d"
  have j: "int k - int (length d) = int j" "Suc k - length d = Suc j" "Suc j < length buf1"
    using len k l by (simp_all add: j_def)
  have tl: "drop (Suc j) buf1 = d @ [0]" using j k len by (simp add: buf1_def buf0_def end0 [unfolded buf0_def])
  have str: "takeWhile (\<lambda>b. b \<noteq> 0) (d @ [0]) = d" using z by (simp add: takeWhile_append)
  have dec: "decimal (sint v) = (if sint v < 0 then MINUS # d else d)"
    using negate_unat [of v] by (simp add: decimal_def d_def uv_def)
  show ?thesis
  proof (cases "sint v < 0")
    case True
    have st: "store_down MINUS (buf1, int j) = Some (buf1[j := MINUS], int j - 1)"
      using store_down_nat j(3) by simp
    have "drop j (buf1[j := MINUS]) = MINUS # (d @ [0])"
      using j(3) tl by (simp add: drop_update_swap Cons_nth_drop_Suc [symmetric])
    then have "c_string (buf1[j := MINUS]) (int j) = MINUS # d" using str by (simp add: c_string_def)
    moreover have "nbd_internal_fork_safe_itoa v buf = Some (buf1[j := MINUS], int j)"
      unfolding nbd_internal_fork_safe_itoa_def Let_def uv_def [symmetric]
      using assms True j(1) by (simp add: s0 s1 st split del: if_split)
    ultimately show ?thesis using l dec True by simp
  next
    case False
    have "c_string buf1 (int j + 1) = d" using tl str by (simp add: c_string_def nat_add_distrib)
    moreover have "nbd_internal_fork_safe_itoa v buf = Some (buf1, int j + 1)"
      unfolding nbd_internal_fork_safe_itoa_def Let_def uv_def [symmetric]
      using assms False j(1) by (simp add: s0 s1 split del: if_split)
    ultimately show ?thesis using l dec False by simp
  qed
qed

text \<open>
  C17. Numbers are printed right: for every 64-bit value and every buffer of at least 32 bytes the function
  neither aborts nor stores outside the buffer, and the string it returns is the decimal notation of the value.
\<close>

theorem itoa_decimal:
  assumes "32 \<le> length buf"
  shows "\<exists>buf' i. nbd_internal_fork_safe_itoa v buf = Some (buf', i) \<and> length buf' = length buf \<and>
    c_string buf' i = decimal (sint v)"
  using assms by (rule itoa_string)

theorem itoa_decimal_witness:
  "\<exists>buf' i. nbd_internal_fork_safe_itoa (- 42) (replicate 32 7) = Some (buf', i) \<and> c_string buf' i = decimal (- 42)"
  using itoa_decimal [of "replicate 32 7" "- 42"] by auto

section \<open>Diagnostics between fork and exec\<close>

text \<open>
  \<^verbatim>\<open>xwritel\<close>: at most 16 strings are written with \<^verbatim>\<open>writev\<close>, whose answers are a list: the number of bytes
  taken, or an error. \<^verbatim>\<open>EINTR\<close> and \<^verbatim>\<open>EAGAIN\<close> repeat the call. \<open>out\<close> is what has been written.
\<close>

datatype write_answer = Wrote nat | WriteFailed u32

abbreviation EACCES :: u32 where "EACCES \<equiv> 13"
abbreviation ELOOP :: u32 where "ELOOP \<equiv> 40"
abbreviation ENOTDIR :: u32 where "ENOTDIR \<equiv> 20"
abbreviation ENOEXEC :: u32 where "ENOEXEC \<equiv> 8"

text \<open>Consuming the vectors that have been written, fully or in part.\<close>

fun advance :: "nat \<Rightarrow> cstr list \<Rightarrow> cstr list" where
  "advance n [] = []"
| "advance n (v # vs) =
     (let adv = min n (length v); v' = drop adv v; n' = n - adv; vs' = (if v' = [] then vs else v' # vs)
      in if n' > 0 then advance n' vs else vs')"

fun write_vectors :: "cstr list \<Rightarrow> write_answer list \<Rightarrow> cstr \<Rightarrow> cstr" where
  "write_vectors [] as out = out"
| "write_vectors ([] # vs) as out = write_vectors vs as out"
| "write_vectors ((b # bs) # vs) [] out = out"
| "write_vectors ((b # bs) # vs) (WriteFailed err # as) out =
     (if err = 4 \<or> err = 11 then write_vectors ((b # bs) # vs) as out else out)"
| "write_vectors ((b # bs) # vs) (Wrote n # as) out =
     (let n = min n (length (concat ((b # bs) # vs)))
      in write_vectors (advance n ((b # bs) # vs)) as (out @ take n (concat ((b # bs) # vs))))"

definition xwritel :: "cstr list \<Rightarrow> write_answer list \<Rightarrow> cstr" where
  "xwritel args as = write_vectors (take 16 args) as []"

lemma advance_concat: "concat (advance n vs) = drop n (concat vs)"
  by (induction n vs rule: advance.induct) (auto simp: Let_def)

text \<open>Answers that let the output go on: bytes were taken, or the call is to be repeated.\<close>

definition goes_on :: "write_answer \<Rightarrow> bool" where
  "goes_on a \<longleftrightarrow> (case a of Wrote n \<Rightarrow> 0 < n | WriteFailed err \<Rightarrow> err = 4 \<or> err = 11)"

definition takes :: "write_answer \<Rightarrow> bool" where
  "takes a \<longleftrightarrow> (case a of Wrote n \<Rightarrow> True | WriteFailed err \<Rightarrow> False)"

lemma takes_simps [simp]: "takes (Wrote n)" "\<not> takes (WriteFailed err)"
  by (simp_all add: takes_def)

lemma write_vectors_prefix: "\<exists>rest. out @ concat vs = write_vectors vs as out @ rest"
proof (induction vs as out rule: write_vectors.induct)
  case (5 b bs vs n as out)
  define k where "k = min n (length (concat ((b # bs) # vs)))"
  obtain rest where "(out @ take k (concat ((b # bs) # vs))) @ concat (advance k ((b # bs) # vs)) =
      write_vectors (advance k ((b # bs) # vs)) as (out @ take k (concat ((b # bs) # vs))) @ rest"
    using "5.IH" [OF k_def] by blast
  then show ?case
    by (simp only: advance_concat append_assoc append_take_drop_id write_vectors.simps Let_def k_def [symmetric]) blast
qed auto

lemma write_vectors_complete:
  "list_all goes_on as \<Longrightarrow> length (concat vs) \<le> length (filter takes as) \<Longrightarrow> write_vectors vs as out = out @ concat vs"
proof (induction vs as out rule: write_vectors.induct)
  case (5 b bs vs n as out)
  define k where "k = min n (length (concat ((b # bs) # vs)))"
  have "0 < n" using "5.prems"(1) by (simp add: goes_on_def)
  then have "0 < k" by (simp add: k_def)
  moreover have "length (concat (advance k ((b # bs) # vs))) = length (concat ((b # bs) # vs)) - k"
    by (simp only: advance_concat length_drop)
  ultimately have "length (concat (advance k ((b # bs) # vs))) \<le> length (filter takes as)"
    using "5.prems"(2) by simp
  then have "write_vectors (advance k ((b # bs) # vs)) as (out @ take k (concat ((b # bs) # vs))) =
      (out @ take k (concat ((b # bs) # vs))) @ concat (advance k ((b # bs) # vs))"
    using "5.IH" [OF k_def] "5.prems"(1) by simp
  then show ?case
    by (simp only: advance_concat append_assoc append_take_drop_id write_vectors.simps Let_def k_def [symmetric])
qed (auto simp: goes_on_def)

text \<open>
  Diagnostics written between fork and exec survive partial writes: what is written is always a prefix
  of the strings one after the other, of at most 16 of them, and all of it if the system goes on taking bytes.
\<close>

theorem xwritel_exact:
  "(\<exists>rest. concat (take 16 args) = xwritel args as @ rest) \<and>
   (list_all goes_on as \<and> length (concat (take 16 args)) \<le> length (filter takes as) \<longrightarrow>
      xwritel args as = concat (take 16 args))"
  using write_vectors_prefix [of "[]" "take 16 args" as] write_vectors_complete [of as "take 16 args" "[]"]
  by (auto simp: xwritel_def)

theorem xwritel_exact_witness:
  "xwritel [ascii ''fork'', ascii '': '', [], ascii ''out of memory'']
     (Wrote 5 # WriteFailed 4 # replicate 18 (Wrote 1)) = ascii ''fork: out of memory''"
proof -
  have "list_all goes_on (Wrote 5 # WriteFailed 4 # replicate 18 (Wrote 1))"
    "length (concat (take 16 [ascii ''fork'', ascii '': '', [], ascii ''out of memory''])) \<le>
       length (filter takes (Wrote 5 # WriteFailed 4 # replicate 18 (Wrote 1)))"
    by (simp_all add: goes_on_def ascii_def numeral_eq_Suc)
  then have "xwritel [ascii ''fork'', ascii '': '', [], ascii ''out of memory'']
     (Wrote 5 # WriteFailed 4 # replicate 18 (Wrote 1)) = concat (take 16 [ascii ''fork'', ascii '': '', [], ascii ''out of memory''])"
    using xwritel_exact by blast
  then show ?thesis by (simp add: ascii_def)
qed

text \<open>
  What is printed when a call fails or an assertion does not hold: \<open>strerror\<close> is the table of the C library, which
  may have no text for an error. The second function also says whether the program goes on.
\<close>

definition nbd_internal_fork_safe_perror :: "(u32 \<Rightarrow> cstr option) \<Rightarrow> u32 \<Rightarrow> cstr \<Rightarrow> write_answer list \<Rightarrow> cstr option" where
  "nbd_internal_fork_safe_perror strerror err s as = do {
     m \<leftarrow> (case strerror err of
            Some m \<Rightarrow> Some m
          | None \<Rightarrow> map_option (\<lambda>(buf, i). c_string buf i) (nbd_internal_fork_safe_itoa (scast err) (replicate 32 0)));
     Some (xwritel [s, ascii '': '', m, [10]] as) }"

definition nbd_internal_fork_safe_assert ::
    "bool \<Rightarrow> cstr \<Rightarrow> u64 \<Rightarrow> cstr \<Rightarrow> cstr \<Rightarrow> write_answer list \<Rightarrow> (cstr \<times> bool) option" where
  "nbd_internal_fork_safe_assert result name line func assertion as =
     (if result then Some ([], True)
      else do {
        (buf, i) \<leftarrow> nbd_internal_fork_safe_itoa line (replicate 32 0);
        Some (xwritel [name, ascii '':'', c_string buf i, ascii '': '', func, ascii '': Assertion `'', assertion,
                [39] @ ascii '' failed.'' @ [10]] as, False) })"

section \<open>Searching and executing a program\<close>

definition get_path :: "cstr option \<Rightarrow> u32 + cstr \<Rightarrow> u32 + cstr" where
  "get_path env_path confstr =
     (case env_path of
        Some path \<Rightarrow> Inr path
      | None \<Rightarrow> (case confstr of Inl err \<Rightarrow> Inl (if err = 0 then ENOENT else err) | Inr path \<Rightarrow> Inr path))"

text \<open>
  One element of the path, from the last separator to the current position, and the file. \<^const>\<open>None\<close>: the
  size of the name does not fit 64 bits.
\<close>

definition path_name :: "cstr \<Rightarrow> cstr \<Rightarrow> cstr option" where
  "path_name file element =
     (let start = (if element = [] then [DOT] else element);
          sep = (if last start \<noteq> SLASH then [SLASH] else []);
          name = start @ sep @ file
      in if length name + 1 < 2 ^ 64 then Some name else None)"

fun scan_path :: "cstr \<Rightarrow> cstr \<Rightarrow> cstr \<Rightarrow> cstr list option" where
  "scan_path file element [] = do { name \<leftarrow> path_name file element; Some [name] }"
| "scan_path file element (c # scan) =
     (if c = COLON then do {
        name \<leftarrow> path_name file element;
        names \<leftarrow> scan_path file [] scan;
        Some (name # names) }
      else scan_path file (element @ [c]) scan)"

record execvpe =
  pathnames :: "cstr list"
  num_sh_args :: nat

text \<open>\<open>num_args\<close> counts the null pointer at the end of the arguments; pointers have 8 bytes.\<close>

definition nbd_internal_execvpe_init :: "cstr option \<Rightarrow> u32 + cstr \<Rightarrow> cstr \<Rightarrow> nat \<Rightarrow> u32 + execvpe" where
  "nbd_internal_execvpe_init env_path confstr file num_args =
     (if file = [] then Inl ENOENT
      else case (if SLASH \<notin> set file
                 then (case get_path env_path confstr of
                         Inl err \<Rightarrow> Inl err
                       | Inr [] \<Rightarrow> Inl ENOENT
                       | Inr path \<Rightarrow> (case scan_path file [] path of None \<Rightarrow> Inl EOVERFLOW | Some names \<Rightarrow> Inr names))
                 else Inr [file]) of
        Inl err \<Rightarrow> Inl err
      | Inr names \<Rightarrow>
          if num_args < 2 then Inl EINVAL
          else if num_args + 1 \<ge> 2 ^ 64 \<or> 8 * (num_args + 1) \<ge> 2 ^ 64 then Inl EOVERFLOW
          else Inr \<lparr>pathnames = names, num_sh_args = num_args + 1\<rparr>)"

text \<open>
  \<open>execve\<close> answers 0 when the process has become the program, and an error otherwise. \<^const>\<open>None\<close>: an assertion fails.
\<close>

datatype exec_result = Running cstr "cstr list" | Not_run u32

definition path_errors :: "u32 set" where
  "path_errors = {EACCES, ELOOP, 36, ENOENT, ENOTDIR}"

fun try_paths :: "(cstr \<Rightarrow> cstr list \<Rightarrow> u32) \<Rightarrow> cstr list \<Rightarrow> cstr list \<Rightarrow> u32 \<Rightarrow> cstr option \<times> u32" where
  "try_paths execve argv [] err = (None, err)"
| "try_paths execve argv (name # names) err =
     (let err = execve name argv
      in if err \<in> path_errors then try_paths execve argv names err else (Some name, err))"

definition nbd_internal_fork_safe_execvpe ::
    "(cstr \<Rightarrow> cstr list \<Rightarrow> u32) \<Rightarrow> execvpe \<Rightarrow> cstr list \<Rightarrow> exec_result option" where
  "nbd_internal_fork_safe_execvpe execve ctx argv = do {
     asrt (pathnames ctx \<noteq> []);
     case try_paths execve argv (pathnames ctx) 0 of
       (None, err) \<Rightarrow> Some (Not_run err)
     | (Some name, err) \<Rightarrow>
         if err = 0 then Some (Running name argv)
         else if err = ENOEXEC then do {
           asrt (num_sh_args ctx \<ge> length argv + 1);
           asrt (num_sh_args ctx - (length argv + 1) = 1);
           let sh_argv = hd argv # name # tl argv;
           let err = execve (ascii ''/bin/sh'') sh_argv;
           Some (if err = 0 then Running (ascii ''/bin/sh'') sh_argv else Not_run err) }
         else Some (Not_run err) }"

text \<open>The names that the description of the search asks for.\<close>

definition curdir :: "cstr \<Rightarrow> cstr" where
  "curdir x = (if x = [] then [DOT] else x)"

definition suffix_slash :: "cstr \<Rightarrow> cstr" where
  "suffix_slash x = (if last x = SLASH then x else x @ [SLASH])"

fun join :: "cstr list \<Rightarrow> cstr" where
  "join [] = []"
| "join [x] = x"
| "join (x # xs) = x @ COLON # join xs"

lemma path_name_spec:
  "length element + length file + 3 < 2 ^ 64 \<Longrightarrow> path_name file element = Some (suffix_slash (curdir element) @ file)"
  by (auto simp: path_name_def suffix_slash_def curdir_def Let_def)

lemma scan_path_spec:
  assumes "COLON \<notin> set element" and "length element + length path + length file + 3 < 2 ^ 64"
  shows "\<exists>prefixes. scan_path file element path = Some (map (\<lambda>x. suffix_slash (curdir x) @ file) prefixes) \<and>
    prefixes \<noteq> [] \<and> element @ path = join prefixes \<and> (\<forall>x \<in> set prefixes. COLON \<notin> set x)"
  using assms
proof (induction path arbitrary: element)
  case Nil
  then show ?case using path_name_spec [of element "file"] by (intro exI [of _ "[element]"]) simp
next
  case (Cons c scan)
  show ?case
  proof (cases "c = COLON")
    case True
    obtain ps where ps: "scan_path file [] scan = Some (map (\<lambda>x. suffix_slash (curdir x) @ file) ps)" "ps \<noteq> []"
      "scan = join ps" "\<forall>x \<in> set ps. COLON \<notin> set x"
      using Cons.IH [of "[]"] Cons.prems by auto
    then obtain q qs where q: "ps = q # qs" by (cases ps) auto
    have "path_name file element = Some (suffix_slash (curdir element) @ file)"
      using path_name_spec Cons.prems(2) by simp
    then show ?thesis using True ps q Cons.prems(1) by (intro exI [of _ "element # ps"]) simp
  next
    case False
    then show ?thesis using Cons.IH [of "element @ [c]"] Cons.prems by auto
  qed
qed

text \<open>
  The search for a program follows its description: a file name with a slash is taken as it is; any other
  is looked for in every element of the path, in order, an empty element standing for the current
  directory, with exactly one slash between directory and file.
\<close>

theorem execvpe_follows_path:
  assumes "file \<noteq> []" and "2 \<le> num_args" and "num_args < 2 ^ 60" and "path \<noteq> []"
    and "length path + length file < 2 ^ 60"
  shows "\<exists>ctx. nbd_internal_execvpe_init (Some path) confstr file num_args = Inr ctx \<and> num_sh_args ctx = num_args + 1 \<and>
    (if SLASH \<in> set file then pathnames ctx = [file]
     else \<exists>prefixes. path = join prefixes \<and> (\<forall>x \<in> set prefixes. COLON \<notin> set x) \<and> prefixes \<noteq> [] \<and>
       pathnames ctx = map (\<lambda>x. suffix_slash (curdir x) @ file) prefixes)"
proof -
  obtain c cs where c: "path = c # cs" using assms(4) by (cases path) auto
  have "\<exists>prefixes. scan_path file [] path = Some (map (\<lambda>x. suffix_slash (curdir x) @ file) prefixes) \<and>
    prefixes \<noteq> [] \<and> path = join prefixes \<and> (\<forall>x \<in> set prefixes. COLON \<notin> set x)"
    using scan_path_spec [of "[]" path "file"] assms(5) by simp
  then show ?thesis using assms(1-3) c
    by (cases "SLASH \<in> set file") (auto simp: nbd_internal_execvpe_init_def get_path_def simp del: scan_path.simps)
qed

theorem execvpe_follows_path_witness:
  "\<exists>ctx. nbd_internal_execvpe_init (Some (ascii ''/bin:'')) (Inl 0) (ascii ''nbdkit'') 2 = Inr ctx \<and>
    pathnames ctx = [ascii ''/bin/nbdkit'', ascii ''./nbdkit'']"
proof -
  obtain ctx prefixes where ctx: "nbd_internal_execvpe_init (Some (ascii ''/bin:'')) (Inl 0) (ascii ''nbdkit'') 2 = Inr ctx"
    "ascii ''/bin:'' = join prefixes" "\<forall>x \<in> set prefixes. COLON \<notin> set x" "prefixes \<noteq> []"
    "pathnames ctx = map (\<lambda>x. suffix_slash (curdir x) @ ascii ''nbdkit'') prefixes"
    using execvpe_follows_path [of "ascii ''nbdkit''" 2 "ascii ''/bin:''" "Inl 0"] by (auto simp: ascii_def)
  have "pathnames ctx = [ascii ''/bin/nbdkit'', ascii ''./nbdkit'']"
    using ctx(1) by (auto simp: nbd_internal_execvpe_init_def get_path_def path_name_def Let_def ascii_def)
  then show ?thesis using ctx(1) by blast
qed

section \<open>Execution\<close>

text \<open>The candidate that decides: the first whose execution does not fail for a reason of path resolution.\<close>

definition chosen :: "(cstr \<Rightarrow> cstr list \<Rightarrow> u32) \<Rightarrow> cstr list \<Rightarrow> cstr list \<Rightarrow> cstr option" where
  "chosen execve argv names = find (\<lambda>name. execve name argv \<notin> path_errors) names"

definition attempt :: "(cstr \<Rightarrow> cstr list \<Rightarrow> u32) \<Rightarrow> cstr \<Rightarrow> cstr list \<Rightarrow> exec_result" where
  "attempt execve name argv = (let err = execve name argv in if err = 0 then Running name argv else Not_run err)"

lemma try_paths_chosen:
  "names \<noteq> [] \<Longrightarrow> try_paths execve argv names err =
     (case chosen execve argv names of
        None \<Rightarrow> (None, execve (last names) argv) | Some name \<Rightarrow> (Some name, execve name argv))"
  by (induction names arbitrary: err) (auto simp: chosen_def Let_def split: option.split)

lemma scan_path_nonempty: "scan_path name element path \<noteq> Some []"
  by (induction name element path rule: scan_path.induct) (auto split: Option.bind_splits)

lemma execvpe_init_sizes:
  "nbd_internal_execvpe_init env_path confstr name num_args = Inr ctx \<Longrightarrow>
     num_sh_args ctx = num_args + 1 \<and> pathnames ctx \<noteq> []"
  by (auto simp: nbd_internal_execvpe_init_def scan_path_nonempty simp del: scan_path.simps
      split: if_splits sum.splits option.splits list.splits)


text \<open>A script without an interpreter line, found in the second directory of the path.\<close>

definition script_only :: "cstr \<Rightarrow> cstr list \<Rightarrow> u32" where
  "script_only name argv = (if name = ascii ''/b/run'' then ENOEXEC else if name = ascii ''/bin/sh'' then 0 else ENOENT)"


section \<open>Printable forms\<close>

text \<open>
  The conversions of \<^verbatim>\<open>fprintf\<close> that are used: \<^verbatim>\<open>%x\<close> with a minimal width, filled with zeros, and \<^verbatim>\<open>%zu\<close>. A byte is
  printable as in the C locale.
\<close>

definition hex_digit :: "nat \<Rightarrow> u8" where
  "hex_digit d = (if d < 10 then 48 + of_nat d else 87 + of_nat d)"

fun hex :: "nat \<Rightarrow> cstr" where
  "hex n = (if n < 16 then [hex_digit n] else hex (n div 16) @ [hex_digit (n mod 16)])"

declare hex.simps [simp del]

definition zero_pad :: "nat \<Rightarrow> cstr \<Rightarrow> cstr" where
  "zero_pad width s = replicate (width - length s) ZERO @ s"

abbreviation SPACE :: u8 where "SPACE \<equiv> 32"
abbreviation BAR :: u8 where "BAR \<equiv> 124"
abbreviation NEWLINE :: u8 where "NEWLINE \<equiv> 10"
abbreviation QUOTE :: u8 where "QUOTE \<equiv> 34"

definition isprint :: "u8 \<Rightarrow> bool" where
  "isprint c \<longleftrightarrow> 32 \<le> c \<and> c \<le> 126"

text \<open>A row of the dump shows up to 16 bytes, in hexadecimal and as text.\<close>

definition hexdump_row :: "nat \<Rightarrow> u8 list \<Rightarrow> cstr" where
  "hexdump_row i bs =
     zero_pad 4 (hex i) @ ascii '': '' @
     concat (map (\<lambda>b. zero_pad 2 (hex (unat b)) @ [SPACE]) bs) @
     concat (replicate (16 - length bs) (ascii ''   '')) @ [BAR] @
     map (\<lambda>b. if isprint b then b else DOT) bs @
     replicate (16 - length bs) SPACE @ [BAR, NEWLINE]"

fun hexdump_from :: "nat \<Rightarrow> u8 list \<Rightarrow> cstr" where
  "hexdump_from i data = (if data = [] then [] else hexdump_row i (take 16 data) @ hexdump_from (i + 16) (drop 16 data))"

declare hexdump_from.simps [simp del]

definition nbd_internal_hexdump :: "u8 list \<Rightarrow> cstr" where
  "nbd_internal_hexdump data = hexdump_from 0 data"

definition truncation :: "nat \<Rightarrow> cstr" where
  "truncation n = (if n > 0 then ascii ''[... '' @ dec n @ ascii '' more bytes truncated ...]'' else [])"

definition nbd_internal_printable_buffer :: "u8 list \<Rightarrow> cstr" where
  "nbd_internal_printable_buffer buf =
     [NEWLINE] @ nbd_internal_hexdump (take 512 buf) @
     (if length buf > 512 then truncation (length buf - 512) @ [NEWLINE] else [])"

text \<open>In a string a byte is a signed \<^verbatim>\<open>char\<close>, which \<^verbatim>\<open>fprintf\<close> receives widened to an \<^verbatim>\<open>int\<close>.\<close>

definition printable_char :: "u8 \<Rightarrow> cstr" where
  "printable_char c = (if isprint c then [c] else [92, 120] @ zero_pad 2 (hex (unat (scast c :: u32))))"

definition printable_string :: "cstr option \<Rightarrow> cstr" where
  "printable_string str =
     (case str of
        None \<Rightarrow> ascii ''NULL''
      | Some s \<Rightarrow> [QUOTE] @ concat (map printable_char (take 512 s)) @ truncation (length s - 512) @ [QUOTE])"

definition nbd_internal_printable_string :: "cstr option \<Rightarrow> cstr" where
  "nbd_internal_printable_string str = printable_string str"

fun comma_separated :: "cstr list \<Rightarrow> cstr" where
  "comma_separated [] = []"
| "comma_separated [x] = x"
| "comma_separated (x # xs) = x @ ascii '', '' @ comma_separated xs"

definition nbd_internal_printable_string_list :: "cstr list option \<Rightarrow> cstr" where
  "nbd_internal_printable_string_list strs =
     (case strs of
        None \<Rightarrow> ascii ''NULL''
      | Some ss \<Rightarrow> ascii ''['' @ comma_separated (map (\<lambda>s. printable_string (Some s)) ss) @ ascii '']'')"

text \<open>A reader of dumps: rows of 73 bytes, with the bytes in hexadecimal from column 6 on.\<close>

definition hex_value :: "u8 \<Rightarrow> nat" where
  "hex_value c = (if c \<le> 57 then unat c - 48 else unat c - 87)"

fun read_hex :: "cstr \<Rightarrow> u8 list" where
  "read_hex (a # b # c # s) = (if a = SPACE then [] else of_nat (16 * hex_value a + hex_value b) # read_hex s)"
| "read_hex _ = []"

function read_dump :: "cstr \<Rightarrow> u8 list" where
  "read_dump s = (if s = [] then [] else read_hex (take 48 (drop 6 s)) @ read_dump (drop 73 s))"
  by pat_completeness auto
termination
  by (relation "measure length") auto

declare read_dump.simps [simp del]

lemma hex_digit_inverse: "d < 16 \<Longrightarrow> hex_value (hex_digit d) = d \<and> hex_digit d \<noteq> SPACE"
proof -
  assume "d < 16"
  then have "d \<in> set [0..<16]" by simp
  moreover have "\<forall>d \<in> set [0..<16]. hex_value (hex_digit d) = d \<and> hex_digit d \<noteq> SPACE"
    by (simp add: upt_conv_Cons hex_value_def hex_digit_def)
  ultimately show ?thesis by blast
qed

lemma hex_two: "n < 256 \<Longrightarrow> zero_pad 2 (hex n) = [hex_digit (n div 16), hex_digit (n mod 16)]"
proof (cases "n < 16")
  case True
  then have "hex n = [hex_digit n]" by (subst hex.simps) simp
  then show ?thesis using True by (simp add: zero_pad_def hex_digit_def [of 0])
next
  case False
  assume "n < 256"
  then have "n div 16 < 16" by (simp add: less_mult_imp_div_less)
  then have "hex (n div 16) = [hex_digit (n div 16)]" by (subst hex.simps) simp
  then show ?thesis using False by (subst hex.simps) (simp add: zero_pad_def)
qed

lemma hex_length: "0 < k \<Longrightarrow> n < 16 ^ k \<Longrightarrow> length (hex n) \<le> k"
proof (induction k arbitrary: n)
  case (Suc k)
  show ?case
  proof (cases "n < 16")
    case False
    then have "k \<noteq> 0" using Suc.prems by (cases k) auto
    moreover have "n div 16 < 16 ^ k" using Suc.prems by (auto simp: less_mult_imp_div_less mult.commute)
    ultimately show ?thesis using Suc.IH [of "n div 16"] False by (subst hex.simps) simp
  qed (subst hex.simps, simp)
qed simp

lemma read_hex_bytes:
  "read_hex (concat (map (\<lambda>b. zero_pad 2 (hex (unat b)) @ [SPACE]) bs) @ concat (replicate n (ascii ''   ''))) = bs"
proof (induction bs)
  case Nil
  then show ?case by (cases n) (simp_all add: ascii_def)
next
  case (Cons b bs)
  have "unat b < 256" using unsigned_less [of b, where ?'a = nat] by simp
  moreover from this have "unat b div 16 < 16" by (simp add: less_mult_imp_div_less)
  ultimately show ?case using Cons hex_digit_inverse [of "unat b div 16"] hex_digit_inverse [of "unat b mod 16"]
    by (simp add: hex_two)
qed

lemma hexdump_row_reads:
  assumes "i < 65536" and "length bs \<le> 16"
  shows "length (hexdump_row i bs) = 73" and "read_hex (take 48 (drop 6 (hexdump_row i bs @ rest))) = bs"
proof -
  define body where "body = concat (map (\<lambda>b. zero_pad 2 (hex (unat b)) @ [SPACE]) bs) @ concat (replicate (16 - length bs) (ascii ''   ''))"
  have two: "length (zero_pad 2 (hex (unat b))) = 2" for b :: u8
    using hex_two [of "unat b"] unsigned_less [of b, where ?'a = nat] by simp
  have "length (concat (map (\<lambda>b. zero_pad 2 (hex (unat b)) @ [SPACE]) bs)) = 3 * length bs"
    by (induction bs) (simp_all add: two)
  moreover have "length (concat (replicate n (ascii ''   ''))) = 3 * n" for n
    by (induction n) (simp_all add: ascii_def)
  ultimately have body: "length body = 48" using assms(2) by (simp add: body_def)
  have four: "length (zero_pad 4 (hex i)) = 4"
    using hex_length [of 4 i] assms(1) by (simp add: zero_pad_def)
  obtain tl where row: "hexdump_row i bs = (zero_pad 4 (hex i) @ ascii '': '') @ body @ tl" and tl: "length tl = 19"
    using assms(2) by (simp add: hexdump_row_def body_def)
  show "length (hexdump_row i bs) = 73" by (simp add: row body four tl ascii_def)
  have "take 48 (drop 6 (hexdump_row i bs @ rest)) = body" using body four by (simp add: row ascii_def)
  then show "read_hex (take 48 (drop 6 (hexdump_row i bs @ rest))) = bs"
    by (simp only: body_def read_hex_bytes)
qed

lemma read_dump_from: "i + length data \<le> 65536 \<Longrightarrow> read_dump (hexdump_from i data) = data"
proof (induction i data rule: hexdump_from.induct)
  case (1 i data)
  show ?case
  proof (cases "data = []")
    case True
    then show ?thesis by (simp add: hexdump_from.simps read_dump.simps)
  next
    case False
    then have i: "i < 65536" using "1.prems" by (cases data) auto
    have le: "i + 16 + length (drop 16 data) \<le> 65536 \<or> drop 16 data = []" using "1.prems" by auto
    have "read_dump (hexdump_from (i + 16) (drop 16 data)) = drop 16 data"
      using le "1.IH" [OF False] by (auto simp: hexdump_from.simps [of _ "[]"] read_dump.simps [of "[]"])
    moreover have "hexdump_row i (take 16 data) \<noteq> []"
      using hexdump_row_reads(1) [of i "take 16 data"] i by force
    ultimately show ?thesis using False hexdump_row_reads [of i "take 16 data"] i
      by (subst hexdump_from.simps, subst read_dump.simps) simp
  qed
qed

text \<open>
  The dump of a buffer of up to 64 KiB shows all of it: the columns in hexadecimal, read row by row, give the
  buffer back.
\<close>

theorem hexdump_roundtrip:
  "length data \<le> 65536 \<Longrightarrow> read_dump (nbd_internal_hexdump data) = data"
  by (simp add: nbd_internal_hexdump_def read_dump_from)

theorem hexdump_roundtrip_witness:
  "read_dump (nbd_internal_hexdump (replicate 17 0 @ ascii ''NBDMAGIC'')) = replicate 17 0 @ ascii ''NBDMAGIC''"
  using hexdump_roundtrip [of "replicate 17 0 @ ascii ''NBDMAGIC''"] by (simp add: ascii_def)

lemma widened_char:
  fixes c :: u8
  assumes "128 \<le> c"
  shows "unat (scast c :: u32) = 0xffffff00 + unat c"
proof -
  have u: "uint c = sint c mod 256" by (simp add: uint_sint take_bit_eq_mod)
  have r: "- 128 \<le> sint c" "sint c < 128" using sint_greater_eq [of c] sint_less [of c] by simp_all
  have c: "128 \<le> uint c" "uint c < 256" using assms unsigned_less [of c, where ?'a = int] by (simp_all add: word_le_def)
  have "sint c < 0" using u r c by (cases "sint c < 0") simp_all
  moreover have "uint c = (sint c + 256) mod 256" using u by simp
  moreover have "(sint c + 256) mod 256 = sint c + 256" using calculation(1) r by (intro mod_pos_pos_trivial) simp_all
  ultimately have s: "sint c = uint c - 256" by linarith
  have "uint (scast c :: u32) = sint c mod 2 ^ 32" by (subst scast_eq) (simp only: unsigned_of_int take_bit_eq_mod, simp)
  also have "\<dots> = (sint c + 2 ^ 32) mod 2 ^ 32" by simp
  also have "\<dots> = 0xffffff00 + uint c" using s c by (subst mod_pos_pos_trivial) simp_all
  finally have "uint (scast c :: u32) = 0xffffff00 + uint c" .
  then have "nat (uint (scast c :: u32)) = nat 0xffffff00 + nat (uint c)" using c by (metis nat_add_distrib zero_le_numeral order_trans)
  then show ?thesis by (simp only: unat_eq_nat_uint [of c] unat_eq_nat_uint [of "scast c :: u32"] nat_numeral)
qed

lemma hex_append: "16 \<le> n \<Longrightarrow> hex n = hex (n div 16) @ [hex_digit (n mod 16)]"
  by (subst hex.simps) simp

text \<open>
  A byte that is not ASCII is not printed as two digits: being a negative \<^verbatim>\<open>char\<close> it is widened with its sign,
  and eight digits appear.
\<close>

theorem printable_sign_extends:
  "128 \<le> c \<Longrightarrow> printable_char c = ascii (CHR 0x5C # ''xffffff'') @ [hex_digit (unat c div 16), hex_digit (unat c mod 16)]"
proof -
  assume c: "128 \<le> c"
  define m where "m = unat c"
  have m: "m < 256" using unsigned_less [of c, where ?'a = nat] by (simp add: m_def)
  have shift: "(16 * k + x) div 16 = k + x div 16" "(16 * k + x) mod 16 = x mod 16" for k x :: nat by simp_all
  have d: "(0xffffff00 + m) div 16 = 0xffffff0 + m div 16" "(0xffffff00 + m) mod 16 = m mod 16"
    using shift [of "0xffffff0" m] by simp_all
  have "m div 16 < 16" using m by (simp add: less_mult_imp_div_less)
  then have e: "(0xffffff0 + m div 16) div 16 = 0xffffff" "(0xffffff0 + m div 16) mod 16 = m div 16"
    using shift [of "0xffffff" "m div 16"] by simp_all
  have "hex (0xffffff00 + m) = hex 0xffffff @ [hex_digit (m div 16), hex_digit (m mod 16)]"
    using hex_append [of "0xffffff00 + m"] hex_append [of "0xffffff0 + m div 16"] d e by simp
  moreover have "hex 0xffffff = ascii ''ffffff''"
    by (simp add: hex_append hex.simps [of 15] hex_digit_def ascii_def)
  moreover have "\<not> isprint c" using order_trans [OF c, of 126] by (auto simp: isprint_def)
  ultimately show ?thesis using widened_char [OF c] by (simp add: printable_char_def m_def zero_pad_def ascii_def)
qed

theorem printable_sign_extends_witness:
  "nbd_internal_printable_string (Some [65, 0xC3]) = [QUOTE, 65] @ ascii (CHR 0x5C # ''xffffffc3'') @ [QUOTE]"
  using printable_sign_extends [of "0xC3"]
  by (simp add: nbd_internal_printable_string_def printable_string_def printable_char_def [of 65] isprint_def truncation_def ascii_def hex_digit_def)

end
