(* ===== verification/NBD_Connect.thy ===== *)
theory NBD_Connect
  imports NBD_Utils NBD_Poll
begin

text \<open>
  Opening the connection (\<^verbatim>\<open>generator/states-connect.c\<close>, \<^verbatim>\<open>generator/states-connect-socket-activation.c\<close>,
  \<^verbatim>\<open>lib/connect.c\<close>): to a socket address, to the addresses of a host, to a command on a socket pair and
  to a server that is started with a listening socket. The fields of the handle that only these
  states use are a record around the handle, next to the part of the operating system they touch: its
  open descriptors, the temporary files and the answers of its calls.
\<close>

section \<open>The operating system\<close>

text \<open>
  A call fails with the next of the \<open>answers\<close>; 0 is success, and so is every answer after the last. Allocation has
  answers of its own (\<open>mallocs\<close>: whether it fails). \<open>wires\<close> are the transports of the sockets to come and \<open>calls\<close> records
  the addresses that are connected to. A new descriptor is the lowest that is free. The family and type of a
  socket make no difference to the model.
\<close>

record addrinfo =
  ai_family :: u16
  ai_addr :: "u8 list"

record os =
  answers :: "u32 list"
  mallocs :: "bool list"
  fds :: "nat list"
  bad_close :: bool
  wires :: "socket list"
  calls :: "u8 list list"
  dirs :: "cstr list"
  socks :: "cstr list"
  tmp_suffix :: cstr
  next_pid :: int
  killed :: "int list"
  environ :: "cstr list"
  confstr_path :: "u32 + cstr"
  getaddrinfo :: "cstr \<Rightarrow> cstr \<Rightarrow> int + addrinfo list"

definition lowest_fd :: "nat list \<Rightarrow> nat" where
  "lowest_fd used = hd (filter (\<lambda>fd. fd \<notin> set used) [0..<Suc (length used)])"

definition answer :: "os \<Rightarrow> u32 \<times> os" where
  "answer s = (case answers s of [] \<Rightarrow> (0, s) | err # as \<Rightarrow> (err, s\<lparr>answers := as\<rparr>))"

definition malloc_fails :: "os \<Rightarrow> bool \<times> os" where
  "malloc_fails s = (case mallocs s of [] \<Rightarrow> (False, s) | b # bs \<Rightarrow> (b, s\<lparr>mallocs := bs\<rparr>))"

definition open_fd :: "os \<Rightarrow> nat \<times> os" where
  "open_fd s = (let fd = lowest_fd (fds s) in (fd, s\<lparr>fds := fd # fds s\<rparr>))"

definition close_fd :: "nat \<Rightarrow> os \<Rightarrow> os" where
  "close_fd fd s = s\<lparr>fds := remove1 fd (fds s), bad_close := (bad_close s \<or> fd \<notin> set (fds s))\<rparr>"

definition nbd_internal_socket :: "os \<Rightarrow> (u32 + nat) \<times> os" where
  "nbd_internal_socket s =
     (let (err, s) = answer s
      in if err \<noteq> 0 then (Inl err, s) else let (fd, s) = open_fd s in (Inr fd, s))"

definition nbd_internal_socketpair :: "os \<Rightarrow> (u32 + nat \<times> nat) \<times> os" where
  "nbd_internal_socketpair s =
     (let (err, s) = answer s
      in if err \<noteq> 0 then (Inl err, s)
         else let (fd0, s) = open_fd s; (fd1, s) = open_fd s in (Inr (fd0, fd1), s))"

text \<open>\<^verbatim>\<open>connect\<close> answers 0 or its error.\<close>

definition sys_connect :: "u8 list \<Rightarrow> os \<Rightarrow> u32 \<times> os" where
  "sys_connect addr s = (let (err, s) = answer s in (err, s\<lparr>calls := calls s @ [addr]\<rparr>))"

text \<open>Two calls of \<^verbatim>\<open>fcntl\<close>, to read the flags and to set them.\<close>

definition fcntl_add :: "os \<Rightarrow> u32 \<times> os" where
  "fcntl_add s = (let (err, s) = answer s in if err \<noteq> 0 then (err, s) else answer s)"

text \<open>\<^verbatim>\<open>getsockopt\<close> with \<^verbatim>\<open>SO_ERROR\<close>: its error, or the status of the connection.\<close>

definition so_error :: "os \<Rightarrow> (u32 + u32) \<times> os" where
  "so_error s =
     (let (err, s) = answer s
      in if err \<noteq> 0 then (Inl err, s) else let (status, s) = answer s in (Inr status, s))"

definition fork :: "os \<Rightarrow> (u32 + int) \<times> os" where
  "fork s =
     (let (err, s) = answer s
      in if err \<noteq> 0 then (Inl err, s) else (Inr (next_pid s), s\<lparr>next_pid := next_pid s + 1\<rparr>))"

definition getenv :: "cstr \<Rightarrow> cstr list \<Rightarrow> cstr option" where
  "getenv name vars =
     map_option (drop (length name + 1)) (find (\<lambda>v. take (length name + 1) v = name @ [61]) vars)"

section \<open>The handle while it connects\<close>

text \<open>
  A null pointer is \<^const>\<open>None\<close>; \<open>rp\<close> points into the list \<open>result\<close> and is empty at its end. \<open>argv\<close> is without the null pointer
  that ends it. \<open>sock_fd\<close> is the descriptor in \<^verbatim>\<open>h->sock\<close>.
\<close>

record connector =
  hdl :: nbd_handle
  sys :: os
  sock_fd :: "nat option"
  connaddr :: "u8 list"
  connaddrlen :: nat
  hostname :: "cstr option"
  port :: "cstr option"
  result :: "addrinfo list option"
  rp :: "addrinfo list"
  connect_errno :: u32
  argv :: "cstr list option"
  sact_name :: "cstr option"
  sact_tmpdir :: "cstr option"
  sact_sockpath :: "cstr option"
  pid :: int

abbreviation sizeof_sockaddr_storage :: nat where "sizeof_sockaddr_storage \<equiv> 128"
abbreviation sizeof_sun_path :: nat where "sizeof_sun_path \<equiv> 108"
abbreviation AF_UNIX :: u16 where "AF_UNIX \<equiv> 1"
abbreviation AF_VSOCK :: u16 where "AF_VSOCK \<equiv> 40"
abbreviation EINPROGRESS :: u32 where "EINPROGRESS \<equiv> 115"
abbreviation EAGAIN :: u32 where "EAGAIN \<equiv> 11"

text \<open>Fields of an address are in the order of the host, least significant byte first.\<close>

definition host16 :: "u16 \<Rightarrow> u8 list" where
  "host16 w = [ucast w, ucast (drop_bit 8 w)]"

definition host32 :: "u32 \<Rightarrow> u8 list" where
  "host32 w = [ucast w, ucast (drop_bit 8 w), ucast (drop_bit 16 w), ucast (drop_bit 24 w)]"

definition ss_family :: "u8 list \<Rightarrow> u16" where
  "ss_family addr = ucast (addr ! 0) OR push_bit 8 (ucast (addr ! 1))"

type_synonym opener = "connector \<Rightarrow> (connector \<times> int) option"

definition with_handle :: "(nbd_handle \<Rightarrow> nbd_handle) \<Rightarrow> connector \<Rightarrow> connector" where
  "with_handle f c = c\<lparr>hdl := f (hdl c)\<rparr>"

definition with_sys :: "(os \<Rightarrow> os) \<Rightarrow> connector \<Rightarrow> connector" where
  "with_sys f c = c\<lparr>sys := f (sys c)\<rparr>"

abbreviation next_state_is :: "state \<Rightarrow> connector \<Rightarrow> connector" where
  "next_state_is s \<equiv> with_handle (SET_NEXT_STATE s)"

abbreviation error_is :: "u32 \<Rightarrow> string \<Rightarrow> connector \<Rightarrow> connector" where
  "error_is err msg \<equiv> with_handle (set_error err msg)"

text \<open>The end of most failures: the connection is dead, with an error.\<close>

definition dies :: "u32 \<Rightarrow> string \<Rightarrow> connector \<Rightarrow> (connector \<times> int) option" where
  "dies err msg c = Some (error_is err msg (next_state_is DEAD c), 0)"

definition nbd_internal_socket_create :: "nat \<Rightarrow> connector \<Rightarrow> (nat \<times> socket) option \<times> connector" where
  "nbd_internal_socket_create fd c =
     (let (fails, s) = malloc_fails (sys c); c = c\<lparr>sys := s\<rparr>
      in if fails then (None, error_is ENOMEM ''malloc'' c)
         else (case wires s of
             [] \<Rightarrow> (Some (fd, \<lparr>rx = [], tx = [], sent = [], pending_answers = [], shut_answers = []\<rparr>), c)
           | w # ws \<Rightarrow> (Some (fd, w), c\<lparr>sys := s\<lparr>wires := ws\<rparr>\<rparr>)))"

definition install :: "nat \<times> socket \<Rightarrow> connector \<Rightarrow> connector" where
  "install s c = c\<lparr>sock_fd := Some (fst s), hdl := (hdl c)\<lparr>sock := Some (snd s)\<rparr>\<rparr>"

definition close_sock :: "connector \<Rightarrow> connector" where
  "close_sock c =
     (case sock_fd c of None \<Rightarrow> c | Some fd \<Rightarrow> with_sys (close_fd fd) c)\<lparr>sock_fd := None, hdl := (hdl c)\<lparr>sock := None\<rparr>\<rparr>"

section \<open>Connecting to an address\<close>

text \<open>\<^verbatim>\<open>disable_nagle\<close> and \<^verbatim>\<open>disable_sigpipe\<close> ignore the result of \<^verbatim>\<open>setsockopt\<close> and have no effect here.\<close>

definition enter_CONNECT_START :: opener where
  "enter_CONNECT_START c = do {
     asrt (sock (hdl c) = None);
     let (r, s) = nbd_internal_socket (sys c);
     let c = c\<lparr>sys := s\<rparr>;
     case r of
       Inl err \<Rightarrow> dies err ''socket'' c
     | Inr fd \<Rightarrow>
         (case nbd_internal_socket_create fd c of
            (None, c) \<Rightarrow> Some (next_state_is DEAD c, 0)
          | (Some so, c) \<Rightarrow>
              let c = install so c;
                  (err, s) = sys_connect (take (connaddrlen c) (connaddr c)) (sys c);
                  c = c\<lparr>sys := s\<rparr>
              in if err = 0 \<or> err = EINPROGRESS then Some (c, 0)
                 else if err = EAGAIN \<and> ss_family (connaddr c) = AF_UNIX
                 then dies err ''connect: server backlog overflowed'' c
                 else dies err ''connect'' c) }"

definition enter_CONNECT_CONNECTING :: opener where
  "enter_CONNECT_CONNECTING c = do {
     asrt (sock_fd c \<noteq> None);
     let (r, s) = so_error (sys c);
     let c = c\<lparr>sys := s\<rparr>;
     case r of
       Inl err \<Rightarrow> dies err ''getsockopt: SO_ERROR'' c
     | Inr status \<Rightarrow> if status = 0 then Some (next_state_is (MAGIC MAGIC_START) c, 0) else dies status ''connect'' c }"

section \<open>Connecting to a host\<close>

definition enter_CONNECT_TCP_START :: opener where
  "enter_CONNECT_TCP_START c = do {
     host \<leftarrow> hostname c;
     service \<leftarrow> port c;
     let c = c\<lparr>result := None, connect_errno := 0\<rparr>;
     case getaddrinfo (sys c) host service of
       Inl r \<Rightarrow> Some (error_is 0 ''getaddrinfo'' (next_state_is START c), -1)
     | Inr addrs \<Rightarrow> Some (next_state_is (CONNECT_TCP TCP_CONNECT) (c\<lparr>result := Some addrs, rp := addrs\<rparr>), 0) }"

text \<open>The first error of a connection is kept.\<close>

definition first_errno :: "u32 \<Rightarrow> connector \<Rightarrow> connector" where
  "first_errno err c = (if connect_errno c = 0 then c\<lparr>connect_errno := err\<rparr> else c)"

definition enter_CONNECT_TCP_CONNECT :: opener where
  "enter_CONNECT_TCP_CONNECT c = do {
     asrt (sock (hdl c) = None);
     case rp c of
       [] \<Rightarrow> Some (error_is (connect_errno c) ''connect: could not connect to remote host'' (next_state_is START c), -1)
     | ai # _ \<Rightarrow>
         let (r, s) = nbd_internal_socket (sys c);
             c = c\<lparr>sys := s\<rparr>
         in (case r of
               Inl err \<Rightarrow> Some (next_state_is (CONNECT_TCP TCP_NEXT_ADDRESS) c, 0)
             | Inr fd \<Rightarrow>
                 (case nbd_internal_socket_create fd c of
                    (None, c) \<Rightarrow> Some (next_state_is DEAD c, 0)
                  | (Some so, c) \<Rightarrow>
                      let c = install so c;
                          (err, s) = sys_connect (ai_addr ai) (sys c);
                          c = c\<lparr>sys := s\<rparr>
                      in if err \<noteq> 0 \<and> err \<noteq> EINPROGRESS
                         then Some (next_state_is (CONNECT_TCP TCP_NEXT_ADDRESS) (first_errno err c), 0)
                         else Some (next_state_is (CONNECT_TCP TCP_CONNECTING) c, 0))) }"

definition enter_CONNECT_TCP_CONNECTING :: opener where
  "enter_CONNECT_TCP_CONNECTING c = do {
     asrt (sock_fd c \<noteq> None);
     let (r, s) = so_error (sys c);
     let c = c\<lparr>sys := s\<rparr>;
     case r of
       Inl err \<Rightarrow> dies err ''getsockopt: SO_ERROR'' c
     | Inr status \<Rightarrow>
         if status = 0 then Some (next_state_is (MAGIC MAGIC_START) c, 0)
         else Some (next_state_is (CONNECT_TCP TCP_NEXT_ADDRESS) (first_errno status c), 0) }"

definition enter_CONNECT_TCP_NEXT_ADDRESS :: opener where
  "enter_CONNECT_TCP_NEXT_ADDRESS c =
     (let c = (if sock (hdl c) \<noteq> None then close_sock c else c);
          c = c\<lparr>rp := tl (rp c)\<rparr>
      in Some (next_state_is (CONNECT_TCP TCP_CONNECT) c, 0))"

section \<open>Connecting to a command\<close>

definition init_execvpe :: "connector \<Rightarrow> cstr list \<Rightarrow> u32 + execvpe" where
  "init_execvpe c args =
     nbd_internal_execvpe_init (getenv (ascii ''PATH'') (environ (sys c))) (confstr_path (sys c)) (hd args) (length args + 1)"

text \<open>
  The parent. Its temporaries are released at the end, from the label that is jumped to on: the socket when the
  connection failed, both ends of the pair unless the first has gone into the socket.
\<close>

definition close_socket_pair :: "bool \<Rightarrow> nat \<times> nat \<Rightarrow> connector \<Rightarrow> connector" where
  "close_socket_pair parentfd_transferred sv c =
     with_sys (close_fd (snd sv)) (if parentfd_transferred then c else with_sys (close_fd (fst sv)) c)"

definition close_high_level_socket :: "nat \<times> nat \<Rightarrow> connector \<Rightarrow> connector" where
  "close_high_level_socket sv c = close_socket_pair True sv (with_sys (close_fd (fst sv)) c)"

definition enter_CONNECT_COMMAND_START :: opener where
  "enter_CONNECT_COMMAND_START c = do {
     asrt (sock (hdl c) = None);
     args \<leftarrow> argv c;
     asrt (args \<noteq> []);
     let (r, s) = nbd_internal_socketpair (sys c);
     let c = c\<lparr>sys := s\<rparr>;
     case r of
       Inl err \<Rightarrow> dies err ''socketpair'' c
     | Inr sv \<Rightarrow> do {
         asrt (fst sv > 2);
         asrt (snd sv > 2);
         let (err, s) = fcntl_add (sys c);
         let c = c\<lparr>sys := s\<rparr>;
         if err \<noteq> 0 then dies err ''fcntl'' (close_socket_pair False sv c)
         else case nbd_internal_socket_create (fst sv) c of
           (None, c) \<Rightarrow> Some (next_state_is DEAD (close_socket_pair False sv c), 0)
         | (Some so, c) \<Rightarrow>
             (case init_execvpe c args of
                Inl err \<Rightarrow> dies err ''nbd_internal_execvpe_init'' (close_high_level_socket sv c)
              | Inr _ \<Rightarrow>
                  let (r, s) = fork (sys c);
                      c = c\<lparr>sys := s\<rparr>
                  in (case r of
                        Inl err \<Rightarrow> dies err ''fork'' (close_high_level_socket sv c)
                      | Inr p \<Rightarrow>
                          Some (next_state_is (MAGIC MAGIC_START)
                            (close_socket_pair True sv (install so (c\<lparr>pid := p\<rparr>))), 0))) } }"

section \<open>Connecting to a server started with a listening socket\<close>

record sact_var =
  var_prefix :: cstr
  var_value :: cstr

text \<open>The new environment: the variables first, then what there was without them. Sizes are checked.\<close>

definition prepare_socket_activation_environment :: "sact_var list \<Rightarrow> cstr list \<Rightarrow> u32 + cstr list" where
  "prepare_socket_activation_environment vars envp =
     (if \<exists>v \<in> set vars. length (var_prefix v) + length (var_value v) + 1 \<ge> 2 ^ 64 then Inl EOVERFLOW
      else Inr (map (\<lambda>v. var_prefix v @ var_value v) vars @
                filter (\<lambda>x. \<not> (\<exists>v \<in> set vars. take (length (var_prefix v)) x = var_prefix v)) envp))"

definition sact_vars :: "cstr option \<Rightarrow> sact_var list" where
  "sact_vars name =
     [\<lparr>var_prefix = ascii ''LISTEN_PID='', var_value = replicate 32 120\<rparr>,
      \<lparr>var_prefix = ascii ''LISTEN_FDS='', var_value = ascii ''1''\<rparr>,
      \<lparr>var_prefix = ascii ''LISTEN_FDNAMES='', var_value = (case name of None \<Rightarrow> ascii ''unknown'' | Some n \<Rightarrow> n)\<rparr>]"

text \<open>
  The temporaries are released in the order of the labels; each step is done only when the connection failed, except
  closing the socket. The bytes of the address after the path are taken to be zero.
\<close>

definition mkdtemp :: "os \<Rightarrow> (u32 + cstr) \<times> os" where
  "mkdtemp s =
     (let (err, s) = answer s; name = ascii ''/tmp/libnbd'' @ tmp_suffix s
      in if err \<noteq> 0 then (Inl err, s) else (Inr name, s\<lparr>dirs := name # dirs s\<rparr>))"

definition bind_path :: "cstr \<Rightarrow> os \<Rightarrow> u32 \<times> os" where
  "bind_path path s = (let (err, s) = answer s in (err, if err \<noteq> 0 then s else s\<lparr>socks := path # socks s\<rparr>))"

definition rmdir_tmpdir :: "cstr \<Rightarrow> os \<Rightarrow> os" where
  "rmdir_tmpdir d s = s\<lparr>dirs := remove1 d (dirs s)\<rparr>"

definition unlink_path :: "cstr \<Rightarrow> os \<Rightarrow> os" where
  "unlink_path p s = s\<lparr>socks := remove1 p (socks s)\<rparr>"

definition unwind_socket :: "nat \<Rightarrow> cstr \<Rightarrow> connector \<Rightarrow> connector" where
  "unwind_socket fd tmpdir c = with_sys (\<lambda>s. rmdir_tmpdir tmpdir (close_fd fd s)) c"

definition unwind_path :: "cstr \<Rightarrow> nat \<Rightarrow> cstr \<Rightarrow> connector \<Rightarrow> connector" where
  "unwind_path path fd tmpdir c = unwind_socket fd tmpdir (with_sys (unlink_path path) c)"

definition unix_address :: "cstr \<Rightarrow> u8 list" where
  "unix_address path = host16 AF_UNIX @ path @ replicate (sizeof_sun_path - length path) 0"

definition store_connaddr :: "u8 list \<Rightarrow> connector \<Rightarrow> connector" where
  "store_connaddr addr c =
     c\<lparr>connaddr := addr @ drop (length addr) (connaddr c), connaddrlen := length addr\<rparr>"

definition start_server :: "cstr list \<Rightarrow> cstr \<Rightarrow> cstr \<Rightarrow> nat \<Rightarrow> connector \<Rightarrow> (connector \<times> int) option" where
  "start_server args tmpdir path fd c =
     (case init_execvpe c args of
        Inl err \<Rightarrow> dies err ''nbd_internal_execvpe_init'' (unwind_path path fd tmpdir c)
      | Inr _ \<Rightarrow>
          let (fails, s) = malloc_fails (sys c);
              c = c\<lparr>sys := s\<rparr>
          in (case (if fails then Inl ENOMEM
                    else prepare_socket_activation_environment (sact_vars (sact_name c)) (environ (sys c))) of
                Inl err \<Rightarrow> dies err ''malloc'' (unwind_path path fd tmpdir c)
              | Inr _ \<Rightarrow>
                  let (r, s) = fork (sys c);
                      c = c\<lparr>sys := s\<rparr>
                  in (case r of
                        Inl err \<Rightarrow> dies err ''fork'' (unwind_path path fd tmpdir c)
                      | Inr p \<Rightarrow>
                          let c = store_connaddr (unix_address path)
                                    (c\<lparr>sact_tmpdir := Some tmpdir, sact_sockpath := Some path, pid := p\<rparr>)
                          in Some (next_state_is (CONNECT CONNECT_START) (with_sys (close_fd fd) c), 0))))"

definition listen_on :: "cstr list \<Rightarrow> cstr \<Rightarrow> cstr \<Rightarrow> nat \<Rightarrow> connector \<Rightarrow> (connector \<times> int) option" where
  "listen_on args tmpdir path fd c = do {
     asrt (length path + 1 \<le> sizeof_sun_path);
     let (err, s) = bind_path path (sys c);
     let c = c\<lparr>sys := s\<rparr>;
     if err \<noteq> 0 then dies err ''bind'' (unwind_socket fd tmpdir c)
     else let (err, s) = answer (sys c);
              c = c\<lparr>sys := s\<rparr>
          in if err \<noteq> 0 then dies err ''listen'' (unwind_path path fd tmpdir c)
             else start_server args tmpdir path fd c }"

definition enter_CONNECT_SA_START :: opener where
  "enter_CONNECT_SA_START c = do {
     asrt (sock (hdl c) = None);
     args \<leftarrow> argv c;
     asrt (args \<noteq> []);
     let (fails, s) = malloc_fails (sys c);
     let c = c\<lparr>sys := s\<rparr>;
     if fails then dies ENOMEM ''strdup'' c
     else case mkdtemp (sys c) of
       (Inl err, s) \<Rightarrow> dies err ''mkdtemp'' (c\<lparr>sys := s\<rparr>)
     | (Inr tmpdir, s) \<Rightarrow>
         let (fails, s) = malloc_fails s;
             c = c\<lparr>sys := s\<rparr>
         in if fails then dies ENOMEM ''asprintf'' (with_sys (rmdir_tmpdir tmpdir) c)
            else (case nbd_internal_socket (sys c) of
                (Inl err, s) \<Rightarrow> dies err ''socket'' (with_sys (rmdir_tmpdir tmpdir) (c\<lparr>sys := s\<rparr>))
              | (Inr fd, s) \<Rightarrow> listen_on args tmpdir (tmpdir @ ascii ''/sock'') fd (c\<lparr>sys := s\<rparr>)) }"

section \<open>The child processes\<close>

text \<open>
  The descriptors of a process: what each stands for, and whether it is closed by \<^verbatim>\<open>exec\<close>. A system call of the
  child fails with the next answer, as in the parent. The child ends as a program, with an exit code, or it aborts.
\<close>

type_synonym 'o table = "nat \<rightharpoonup> 'o \<times> bool"

datatype 'o child =
  Child_runs cstr "cstr list" "cstr list" "nat \<rightharpoonup> 'o"
| Child_exits nat
| Child_aborts

definition dup2 :: "nat \<Rightarrow> nat \<Rightarrow> 'o table \<Rightarrow> 'o table" where
  "dup2 old new t = t(new := map_option (\<lambda>(ob, _). (ob, False)) (t old))"

definition kept_by_exec :: "'o table \<Rightarrow> nat \<rightharpoonup> 'o" where
  "kept_by_exec t = (\<lambda>fd. case t fd of Some (ob, False) \<Rightarrow> Some ob | _ \<Rightarrow> None)"

definition run_child ::
    "(cstr \<Rightarrow> cstr list \<Rightarrow> u32) \<Rightarrow> execvpe \<Rightarrow> cstr list \<Rightarrow> cstr list \<Rightarrow> u32 \<Rightarrow> 'o table \<Rightarrow> 'o child" where
  "run_child execve ctx args envp signal_err t =
     (if signal_err \<noteq> 0 then Child_exits 126
      else case nbd_internal_fork_safe_execvpe execve ctx args of
        None \<Rightarrow> Child_aborts
      | Some (Running name args) \<Rightarrow> Child_runs name args envp (kept_by_exec t)
      | Some (Not_run err) \<Rightarrow> Child_exits (if err = ENOENT then 127 else 126))"

text \<open>The answers: of \<^verbatim>\<open>close\<close>, \<^verbatim>\<open>dup2\<close> twice, \<^verbatim>\<open>close\<close> and \<^verbatim>\<open>signal\<close>.\<close>

definition command_child ::
    "(cstr \<Rightarrow> cstr list \<Rightarrow> u32) \<Rightarrow> execvpe \<Rightarrow> cstr list \<Rightarrow> cstr list \<Rightarrow> u32 list \<Rightarrow> nat \<times> nat \<Rightarrow> 'o table \<Rightarrow> 'o child" where
  "command_child execve ctx args envp as sv t =
     (let fails = (\<lambda>i. i < length as \<and> as ! i \<noteq> 0);
          t = t(fst sv := None)
      in if fails 0 \<or> fails 1 \<or> fails 2 then Child_exits 126
         else let t = dup2 (snd sv) 1 (dup2 (snd sv) 0 t)
              in if snd sv = 0 \<or> snd sv = 1 then Child_aborts
                 else if fails 3 then Child_exits 126
                 else run_child execve ctx args envp (if fails 4 then 1 else 0) (t(snd sv := None)))"

text \<open>
  The answers: of \<^verbatim>\<open>dup2\<close> and \<^verbatim>\<open>close\<close>, or of two calls of \<^verbatim>\<open>fcntl\<close>, and of \<^verbatim>\<open>signal\<close>. The process id is written over the
  start of the value prepared for it; the string ends where the number ends.
\<close>

definition sa_child ::
    "(cstr \<Rightarrow> cstr list \<Rightarrow> u32) \<Rightarrow> execvpe \<Rightarrow> cstr list \<Rightarrow> sact_var list \<Rightarrow> cstr list \<Rightarrow> u64 \<Rightarrow> u32 list \<Rightarrow> nat \<Rightarrow> 'o table \<Rightarrow> 'o child" where
  "sa_child execve ctx args vars envp mypid as fd t =
     (let fails = (\<lambda>i. i < length as \<and> as ! i \<noteq> 0)
      in if fails 0 \<or> fails 1 then Child_exits 126
         else let t = (if fd \<noteq> 3 then (dup2 fd 3 t)(fd := None) else dup2 3 3 t)
              in case nbd_internal_fork_safe_itoa mypid (replicate 32 0) of
                   None \<Rightarrow> Child_aborts
                 | Some (buf, i) \<Rightarrow>
                     let v = c_string buf i
                     in if length v \<le> length (var_value (hd vars))
                        then run_child execve ctx args (envp[0 := var_prefix (hd vars) @ v]) (if fails 2 then 1 else 0) t
                        else Child_aborts)"

section \<open>The loop\<close>

fun is_opening :: "state \<Rightarrow> bool" where
  "is_opening (CONNECT c) = True"
| "is_opening (CONNECT_TCP c) = True"
| "is_opening CONNECT_COMMAND_START = True"
| "is_opening CONNECT_SA_START = True"
| "is_opening _ = False"

fun enter_OPENING :: "state \<Rightarrow> opener" where
  "enter_OPENING (CONNECT CONNECT_START) = enter_CONNECT_START"
| "enter_OPENING (CONNECT CONNECT_CONNECTING) = enter_CONNECT_CONNECTING"
| "enter_OPENING (CONNECT_TCP TCP_START) = enter_CONNECT_TCP_START"
| "enter_OPENING (CONNECT_TCP TCP_CONNECT) = enter_CONNECT_TCP_CONNECT"
| "enter_OPENING (CONNECT_TCP TCP_CONNECTING) = enter_CONNECT_TCP_CONNECTING"
| "enter_OPENING (CONNECT_TCP TCP_NEXT_ADDRESS) = enter_CONNECT_TCP_NEXT_ADDRESS"
| "enter_OPENING CONNECT_COMMAND_START = enter_CONNECT_COMMAND_START"
| "enter_OPENING CONNECT_SA_START = enter_CONNECT_SA_START"
| "enter_OPENING _ = (\<lambda>c. None)"

definition open_step :: opener where
  "open_step c =
     map_option (\<lambda>(c', r). (with_handle (\<lambda>h. h\<lparr>state := next_state h\<rparr>) c', r))
       (enter_OPENING (state (hdl c)) (with_handle (\<lambda>h. h\<lparr>blocked := True, next_state := state h\<rparr>) c))"

datatype opened = Opened connector int | Open_aborted | Open_out_of_fuel

text \<open>
  Past the states that open the connection the loop is that of the handle alone. When that loop has closed the
  socket, its descriptor is closed.
\<close>

definition settle :: "connector \<Rightarrow> outcome \<Rightarrow> opened" where
  "settle c out =
     (case out of
        Returned h r \<Rightarrow> Opened (if sock h = None then close_sock (c\<lparr>hdl := h\<rparr>) else c\<lparr>hdl := h\<rparr>) r
      | Aborted \<Rightarrow> Open_aborted
      | Out_of_fuel \<Rightarrow> Open_out_of_fuel)"

fun open_loop :: "env \<Rightarrow> nat \<Rightarrow> connector \<Rightarrow> opened" where
  "open_loop e 0 c = Open_out_of_fuel"
| "open_loop e (Suc n) c =
     (if is_opening (state (hdl c)) then
        (case open_step c of
           None \<Rightarrow> Open_aborted
         | Some (c', r) \<Rightarrow>
             if r = -1 then (if last_error (hdl c') \<noteq> None then Opened c' (-1) else Open_aborted)
             else if blocked (hdl c') then Opened c' 0
             else open_loop e n c')
      else settle c (run_loop e (Suc n) (hdl c)))"

definition open_run :: "env \<Rightarrow> nat \<Rightarrow> external_event \<Rightarrow> connector \<Rightarrow> opened" where
  "open_run e fuel ev c =
     (case external_transition (state (hdl c)) ev of
        None \<Rightarrow> Opened (error_is EINVAL ''external event is invalid in state'' c) (-1)
      | Some s \<Rightarrow> open_loop e fuel (with_handle (\<lambda>h. h\<lparr>state := s\<rparr>) c))"

section \<open>The calls that connect\<close>

definition refuse_connect :: "u32 \<Rightarrow> string \<Rightarrow> connector \<Rightarrow> opened" where
  "refuse_connect err msg c = Opened (error_is err msg c) (-1)"

definition nbd_unlocked_aio_connect :: "env \<Rightarrow> nat \<Rightarrow> u8 list \<Rightarrow> connector \<Rightarrow> opened" where
  "nbd_unlocked_aio_connect e fuel addr c =
     (if length addr \<le> sizeof_sockaddr_storage then open_run e fuel cmd_connect_sockaddr (store_connaddr addr c)
      else Open_aborted)"

definition nbd_unlocked_aio_connect_unix :: "env \<Rightarrow> nat \<Rightarrow> cstr \<Rightarrow> connector \<Rightarrow> opened" where
  "nbd_unlocked_aio_connect_unix e fuel unixsocket c =
     (if length unixsocket > sizeof_sun_path then refuse_connect ENAMETOOLONG ''socket name too long'' c
      else open_run e fuel cmd_connect_sockaddr (store_connaddr (unix_address unixsocket) c))"

definition vsock_address :: "u32 \<Rightarrow> u32 \<Rightarrow> u8 list" where
  "vsock_address cid service = host16 AF_VSOCK @ [0, 0] @ host32 service @ host32 cid @ [0, 0, 0, 0]"

definition nbd_unlocked_aio_connect_vsock :: "env \<Rightarrow> nat \<Rightarrow> u32 \<Rightarrow> u32 \<Rightarrow> connector \<Rightarrow> opened" where
  "nbd_unlocked_aio_connect_vsock e fuel cid service c =
     open_run e fuel cmd_connect_sockaddr (store_connaddr (vsock_address cid service) c)"

definition nbd_unlocked_aio_connect_tcp :: "env \<Rightarrow> nat \<Rightarrow> cstr \<Rightarrow> cstr \<Rightarrow> connector \<Rightarrow> opened" where
  "nbd_unlocked_aio_connect_tcp e fuel host service c =
     open_run e fuel cmd_connect_tcp (c\<lparr>hostname := Some host, port := Some service\<rparr>)"

text \<open>Connecting a descriptor of the caller, which is closed when that fails.\<close>

definition connect_fd :: "env \<Rightarrow> nat \<Rightarrow> nat \<Rightarrow> connector \<Rightarrow> opened" where
  "connect_fd e fuel fd c =
     (let (err, s) = fcntl_add (sys c);
          c = c\<lparr>sys := s\<rparr>
      in if err \<noteq> 0 then refuse_connect err ''fcntl: set O_NONBLOCK'' (with_sys (close_fd fd) c)
         else let (err, s) = fcntl_add (sys c);
                  c = c\<lparr>sys := s\<rparr>
              in if err \<noteq> 0 then refuse_connect err ''fcntl: set FD_CLOEXEC'' (with_sys (close_fd fd) c)
                 else (case nbd_internal_socket_create fd c of
                         (None, c) \<Rightarrow> Opened (with_sys (close_fd fd) c) (-1)
                       | (Some so, c) \<Rightarrow> open_run e fuel cmd_connect_socket (install so c)))"

definition nbd_internal_set_argv :: "cstr list \<Rightarrow> connector \<Rightarrow> connector option" where
  "nbd_internal_set_argv args c = (if args = [] then None else Some (c\<lparr>argv := Some args\<rparr>))"

definition connect_argv :: "env \<Rightarrow> nat \<Rightarrow> external_event \<Rightarrow> cstr list \<Rightarrow> connector \<Rightarrow> opened" where
  "connect_argv e fuel ev args c =
     (case nbd_internal_set_argv args c of
        None \<Rightarrow> refuse_connect EINVAL ''missing command name in argv list'' c
      | Some c \<Rightarrow> open_run e fuel ev c)"

definition nbd_unlocked_aio_connect_command :: "env \<Rightarrow> nat \<Rightarrow> cstr list \<Rightarrow> connector \<Rightarrow> opened" where
  "nbd_unlocked_aio_connect_command e fuel args c = connect_argv e fuel cmd_connect_command args c"

definition nbd_unlocked_aio_connect_systemd_socket_activation :: "env \<Rightarrow> nat \<Rightarrow> cstr list \<Rightarrow> connector \<Rightarrow> opened" where
  "nbd_unlocked_aio_connect_systemd_socket_activation e fuel args c = connect_argv e fuel cmd_connect_sa args c"

section \<open>Connecting and waiting\<close>

text \<open>
  The calls that wait until the connection is made: as long as it is being made, the socket is polled for what the state
  waits for, and the state machine is told. \<^const>\<open>None\<close>: the answers of \<^verbatim>\<open>poll\<close> are exhausted.
\<close>

type_synonym open_waited = "(poll_answer list \<times> opened) option"

definition open_notified :: "opened \<Rightarrow> opened" where
  "open_notified out = (case out of Opened c r \<Rightarrow> Opened c (if r = -1 then -1 else 1) | _ \<Rightarrow> out)"

definition open_after_poll :: "env \<Rightarrow> nat \<Rightarrow> poll_answer \<Rightarrow> connector \<Rightarrow> opened" where
  "open_after_poll e fuel a c =
     (case a of
        PollFailed err \<Rightarrow> refuse_connect err ''poll'' c
      | PollTimeout \<Rightarrow> Opened c 0
      | PollRevents rs \<Rightarrow>
          if POLLIN \<in> set rs \<or> POLLHUP \<in> set rs then open_notified (open_run e fuel notify_read c)
          else if POLLOUT \<in> set rs then open_notified (open_run e fuel notify_write c)
          else if POLLERR \<in> set rs \<or> POLLNVAL \<in> set rs then refuse_connect ENOTCONN ''server closed socket unexpectedly'' c
          else Opened c 1)"

definition open_poll :: "env \<Rightarrow> nat \<Rightarrow> poll_answer list \<Rightarrow> connector \<Rightarrow> open_waited" where
  "open_poll e fuel as c =
     (let c = with_handle nbd_unlocked_aio_get_fd c
      in if nbd_internal_aio_get_direction (state (hdl c)) = 0
         then Some (as, refuse_connect EINVAL ''nothing to poll for in state'' c)
         else map_option (\<lambda>(a, as). (as, open_after_poll e fuel a c)) (poll_syscall as))"

lemma open_poll_shorter:
  "open_poll e fuel as c = Some (as', Opened c' r) \<Longrightarrow> r \<noteq> -1 \<Longrightarrow> length as' < length as"
  by (auto simp: open_poll_def refuse_connect_def Let_def dest: poll_syscall_shorter split: if_splits)

function open_wait :: "env \<Rightarrow> nat \<Rightarrow> poll_answer list \<Rightarrow> connector \<Rightarrow> open_waited" where
  "open_wait e fuel as c =
     (if nbd_internal_is_state_connecting (state (hdl c)) then
        (case open_poll e fuel as c of
           None \<Rightarrow> None
         | Some (as', Opened c' r) \<Rightarrow> if r = -1 then Some (as', Opened c' (-1)) else open_wait e fuel as' c'
         | Some (as', out) \<Rightarrow> Some (as', out))
      else let (h, r) = error_unless_ready (hdl c) in Some (as, Opened (c\<lparr>hdl := h\<rparr>) r))"
  by pat_completeness auto
termination
  by (relation "measure (\<lambda>(_, _, as, _). length as)") (auto dest: open_poll_shorter)

declare open_wait.simps [simp del]

definition then_wait :: "env \<Rightarrow> nat \<Rightarrow> poll_answer list \<Rightarrow> opened \<Rightarrow> open_waited" where
  "then_wait e fuel as out =
     (case out of Opened c r \<Rightarrow> if r = -1 then Some (as, out) else open_wait e fuel as c | _ \<Rightarrow> Some (as, out))"

definition nbd_unlocked_connect_unix :: "env \<Rightarrow> nat \<Rightarrow> poll_answer list \<Rightarrow> cstr \<Rightarrow> connector \<Rightarrow> open_waited" where
  "nbd_unlocked_connect_unix e fuel as unixsocket c =
     then_wait e fuel as (nbd_unlocked_aio_connect_unix e fuel unixsocket c)"

definition nbd_unlocked_connect_vsock :: "env \<Rightarrow> nat \<Rightarrow> poll_answer list \<Rightarrow> u32 \<Rightarrow> u32 \<Rightarrow> connector \<Rightarrow> open_waited" where
  "nbd_unlocked_connect_vsock e fuel as cid service c =
     then_wait e fuel as (nbd_unlocked_aio_connect_vsock e fuel cid service c)"

definition nbd_unlocked_connect_tcp :: "env \<Rightarrow> nat \<Rightarrow> poll_answer list \<Rightarrow> cstr \<Rightarrow> cstr \<Rightarrow> connector \<Rightarrow> open_waited" where
  "nbd_unlocked_connect_tcp e fuel as host service c =
     then_wait e fuel as (nbd_unlocked_aio_connect_tcp e fuel host service c)"

definition nbd_unlocked_connect_command :: "env \<Rightarrow> nat \<Rightarrow> poll_answer list \<Rightarrow> cstr list \<Rightarrow> connector \<Rightarrow> open_waited" where
  "nbd_unlocked_connect_command e fuel as args c =
     then_wait e fuel as (nbd_unlocked_aio_connect_command e fuel args c)"

definition nbd_unlocked_connect_systemd_socket_activation ::
    "env \<Rightarrow> nat \<Rightarrow> poll_answer list \<Rightarrow> cstr list \<Rightarrow> connector \<Rightarrow> open_waited" where
  "nbd_unlocked_connect_systemd_socket_activation e fuel as args c =
     then_wait e fuel as (nbd_unlocked_aio_connect_systemd_socket_activation e fuel args c)"

section \<open>Closing\<close>

text \<open>What closing the handle does outside of it.\<close>

definition close_connector :: "connector \<Rightarrow> connector" where
  "close_connector c =
     (let c = c\<lparr>argv := None\<rparr>;
          c = (case sact_sockpath c of
                 None \<Rightarrow> c
               | Some p \<Rightarrow>
                   (let c = (if pid c > 0 then with_sys (killed_update (\<lambda>ps. ps @ [pid c])) c else c)
                    in with_sys (unlink_path p) c\<lparr>sact_sockpath := None\<rparr>));
          c = (case sact_tmpdir c of None \<Rightarrow> c | Some d \<Rightarrow> with_sys (rmdir_tmpdir d) c\<lparr>sact_tmpdir := None\<rparr>);
          c = c\<lparr>hostname := None, port := None, result := None\<rparr>
      in if sock (hdl c) \<noteq> None then close_sock c else c)"

end
