(* ===== verification/NBD_Connect_Props.thy ===== *)
theory NBD_Connect_Props
  imports NBD_Connect NBD_Faults NBD_Handshake
begin

text \<open>
  What opening a connection promises: no assertion fails, every descriptor and temporary file is accounted for on
  every path, the addresses of a host are tried in order, and a child process gets what it is to get.
\<close>

section \<open>Descriptors and files\<close>

lemma lowest_fd_fresh: "lowest_fd used \<notin> set used"
proof -
  have "\<not> set [0..<Suc (length used)] \<subseteq> set used"
  proof
    assume "set [0..<Suc (length used)] \<subseteq> set used"
    then have "card (set [0..<Suc (length used)]) \<le> card (set used)" by (intro card_mono) auto
    also have "\<dots> \<le> length used" by (rule card_length)
    finally show False by simp
  qed
  then have "filter (\<lambda>fd. fd \<notin> set used) [0..<Suc (length used)] \<noteq> []" by (auto simp: filter_empty_conv)
  then have "lowest_fd used \<in> set (filter (\<lambda>fd. fd \<notin> set used) [0..<Suc (length used)])"
    unfolding lowest_fd_def by (rule hd_in_set)
  then show ?thesis by (auto split: if_splits)
qed

fun the_list :: "'a option \<Rightarrow> 'a list" where
  "the_list None = []"
| "the_list (Some x) = [x]"

text \<open>
  Everything is accounted for: besides what was there before (\<open>fs\<close>, \<open>ds\<close>, \<open>ss\<close>) there are the descriptor of the socket, the
  temporary directory and the socket in it, and no descriptor was closed that was not open.
\<close>

definition clean :: "nat list \<Rightarrow> cstr list \<Rightarrow> cstr list \<Rightarrow> connector \<Rightarrow> bool" where
  "clean fs ds ss c \<longleftrightarrow>
     fds (sys c) = the_list (sock_fd c) @ fs \<and> \<not> bad_close (sys c) \<and>
     dirs (sys c) = the_list (sact_tmpdir c) @ ds \<and> socks (sys c) = the_list (sact_sockpath c) @ ss \<and>
     (sock (hdl c) = None \<longrightarrow> sock_fd c = None) \<and> mallocs (sys c) = []"

text \<open>What a state that opens the connection relies on when it is entered.\<close>

definition no_server :: "connector \<Rightarrow> bool" where
  "no_server c \<longleftrightarrow> sact_tmpdir c = None \<and> sact_sockpath c = None"

definition command_given :: "connector \<Rightarrow> bool" where
  "command_given c \<longleftrightarrow> (\<exists>a as. argv c = Some (a # as)) \<and> {0, 1, 2} \<subseteq> set (fds (sys c))"

fun open_inv :: "state \<Rightarrow> connector \<Rightarrow> bool" where
  "open_inv START c = (sock (hdl c) = None \<and> no_server c)"
| "open_inv (CONNECT CONNECT_START) c = (sock (hdl c) = None)"
| "open_inv (CONNECT CONNECT_CONNECTING) c = (sock_fd c \<noteq> None)"
| "open_inv (CONNECT_TCP TCP_START) c = (sock (hdl c) = None \<and> no_server c \<and> hostname c \<noteq> None \<and> port c \<noteq> None)"
| "open_inv (CONNECT_TCP TCP_CONNECT) c = (sock (hdl c) = None \<and> no_server c)"
| "open_inv (CONNECT_TCP TCP_CONNECTING) c = (sock_fd c \<noteq> None \<and> no_server c)"
| "open_inv (CONNECT_TCP TCP_NEXT_ADDRESS) c = no_server c"
| "open_inv CONNECT_COMMAND_START c = (sock (hdl c) = None \<and> no_server c \<and> command_given c)"
| "open_inv CONNECT_SA_START c = (sock (hdl c) = None \<and> no_server c \<and> command_given c \<and> length (tmp_suffix (sys c)) = 6)"
| "open_inv (MAGIC MAGIC_START) c = (sock_fd c \<noteq> None)"
| "open_inv DEAD c = (last_error (hdl c) \<noteq> None)"
| "open_inv _ c = False"

text \<open>A handler is fine when it returns, with everything accounted for and what the next state relies on.\<close>

definition fine_open :: "nat list \<Rightarrow> cstr list \<Rightarrow> cstr list \<Rightarrow> (connector \<times> int) option \<Rightarrow> bool" where
  "fine_open fs ds ss x \<longleftrightarrow>
     (case x of
        None \<Rightarrow> False
      | Some (c, r) \<Rightarrow>
          clean fs ds ss c \<and>
          (if r = -1 then next_state (hdl c) = START \<and> last_error (hdl c) \<noteq> None \<and> open_inv START c
           else if blocked (hdl c) then next_state (hdl c) = CONNECT CONNECT_START \<and> sock_fd c \<noteq> None
           else next_state (hdl c) \<noteq> START \<and> open_inv (next_state (hdl c)) c))"

lemmas os_defs = answer_def malloc_fails_def open_fd_def close_fd_def nbd_internal_socket_def nbd_internal_socketpair_def
  sys_connect_def fcntl_add_def so_error_def fork_def

lemmas open_defs = with_handle_def with_sys_def dies_def nbd_internal_socket_create_def install_def close_sock_def
  first_errno_def SET_NEXT_STATE_def set_error_def

lemma clean_start:
  assumes "clean fs ds ss c" and "open_inv (CONNECT CONNECT_START) c" and "next_state (hdl c) = CONNECT CONNECT_START"
    and "blocked (hdl c)"
  shows "fine_open fs ds ss (enter_CONNECT_START c)"
  using assms
  by (auto simp: enter_CONNECT_START_def fine_open_def clean_def os_defs open_defs Let_def split: list.split option.split)

lemma connecting_fine:
  "clean fs ds ss c \<Longrightarrow> open_inv (CONNECT CONNECT_CONNECTING) c \<Longrightarrow> fine_open fs ds ss (enter_CONNECT_CONNECTING c)"
  by (auto simp: enter_CONNECT_CONNECTING_def fine_open_def clean_def os_defs open_defs Let_def split: list.split)

lemma tcp_start_fine:
  "clean fs ds ss c \<Longrightarrow> open_inv (CONNECT_TCP TCP_START) c \<Longrightarrow> fine_open fs ds ss (enter_CONNECT_TCP_START c)"
  by (auto simp: enter_CONNECT_TCP_START_def fine_open_def clean_def no_server_def open_defs Let_def split: sum.split)

lemma tcp_connect_fine:
  "clean fs ds ss c \<Longrightarrow> open_inv (CONNECT_TCP TCP_CONNECT) c \<Longrightarrow> fine_open fs ds ss (enter_CONNECT_TCP_CONNECT c)"
  by (auto simp: enter_CONNECT_TCP_CONNECT_def fine_open_def clean_def no_server_def os_defs open_defs Let_def
      split: list.split)

lemma tcp_connecting_fine:
  "clean fs ds ss c \<Longrightarrow> open_inv (CONNECT_TCP TCP_CONNECTING) c \<Longrightarrow> fine_open fs ds ss (enter_CONNECT_TCP_CONNECTING c)"
  by (auto simp: enter_CONNECT_TCP_CONNECTING_def fine_open_def clean_def no_server_def os_defs open_defs Let_def
      split: list.split)

lemma tcp_next_fine:
  "clean fs ds ss c \<Longrightarrow> open_inv (CONNECT_TCP TCP_NEXT_ADDRESS) c \<Longrightarrow> fine_open fs ds ss (enter_CONNECT_TCP_NEXT_ADDRESS c)"
  by (auto simp: enter_CONNECT_TCP_NEXT_ADDRESS_def fine_open_def clean_def no_server_def os_defs open_defs Let_def
      split: option.split)

lemma standard_fds:
  assumes "{0, 1, 2} \<subseteq> set used"
  shows "2 < lowest_fd used"
proof (rule ccontr)
  assume "\<not> 2 < lowest_fd used"
  then have "lowest_fd used \<in> {0, 1, 2}" by auto
  then show False using assms lowest_fd_fresh [of used] by blast
qed

text \<open>The calls of the system as case distinctions.\<close>

lemma answer_eq: "\<exists>err as. answer s = (err, s\<lparr>answers := as\<rparr>)"
proof (cases "answers s")
  case Nil
  then have "answer s = (0, s\<lparr>answers := []\<rparr>)" by (simp add: answer_def)
  then show ?thesis by blast
qed (auto simp: answer_def)

lemma malloc_eq: "mallocs s = [] \<Longrightarrow> malloc_fails s = (False, s)"
  by (simp add: malloc_fails_def)

lemma fcntl_eq: "\<exists>err as. fcntl_add s = (err, s\<lparr>answers := as\<rparr>)"
proof -
  obtain err as where 1: "answer s = (err, s\<lparr>answers := as\<rparr>)" using answer_eq by blast
  obtain err' as' where "answer (s\<lparr>answers := as\<rparr>) = (err', s\<lparr>answers := as'\<rparr>)"
    using answer_eq [of "s\<lparr>answers := as\<rparr>"] by auto
  with 1 show ?thesis by (cases "err = 0") (auto simp: fcntl_add_def)
qed

lemma fork_eq:
  obtains (failed) err as where "fork s = (Inl err, s\<lparr>answers := as\<rparr>)"
  | (forked) as where "fork s = (Inr (next_pid s), s\<lparr>answers := as, next_pid := next_pid s + 1\<rparr>)"
proof -
  obtain err as where 1: "answer s = (err, s\<lparr>answers := as\<rparr>)" using answer_eq by blast
  show ?thesis by (cases "err = 0") (use 1 in \<open>auto simp: fork_def intro: that\<close>)
qed

lemma socket_eq:
  obtains (failed) err as where "nbd_internal_socket s = (Inl err, s\<lparr>answers := as\<rparr>)"
  | (made) as where "nbd_internal_socket s = (Inr (lowest_fd (fds s)), s\<lparr>answers := as, fds := lowest_fd (fds s) # fds s\<rparr>)"
proof -
  obtain err as where 1: "answer s = (err, s\<lparr>answers := as\<rparr>)" using answer_eq by blast
  show ?thesis by (cases "err = 0") (use 1 in \<open>auto simp: nbd_internal_socket_def open_fd_def Let_def intro: that\<close>)
qed

lemma socketpair_eq:
  obtains (failed) err as where "nbd_internal_socketpair s = (Inl err, s\<lparr>answers := as\<rparr>)"
  | (made) as fd0 fd1 where "fd0 = lowest_fd (fds s)" "fd1 = lowest_fd (fd0 # fds s)"
      "nbd_internal_socketpair s = (Inr (fd0, fd1), s\<lparr>answers := as, fds := fd1 # fd0 # fds s\<rparr>)"
proof -
  obtain err as where 1: "answer s = (err, s\<lparr>answers := as\<rparr>)" using answer_eq by blast
  show ?thesis by (cases "err = 0") (use 1 in \<open>auto simp: nbd_internal_socketpair_def open_fd_def Let_def intro: that\<close>)
qed

lemma create_eq:
  "mallocs (sys c) = [] \<Longrightarrow> \<exists>w ws. nbd_internal_socket_create fd c = (Some (fd, w), c\<lparr>sys := (sys c)\<lparr>wires := ws\<rparr>\<rparr>)"
proof (cases "wires (sys c)")
  case Nil
  assume "mallocs (sys c) = []"
  with Nil have "\<exists>w. nbd_internal_socket_create fd c = (Some (fd, w), c\<lparr>sys := (sys c)\<lparr>wires := []\<rparr>\<rparr>)"
    by (auto simp: nbd_internal_socket_create_def malloc_eq)
  then show ?thesis by blast
qed (auto simp: nbd_internal_socket_create_def malloc_eq)

lemma fine_dies: "clean fs ds ss c \<Longrightarrow> fine_open fs ds ss (dies err msg c)"
  by (simp add: fine_open_def clean_def open_defs)

lemma opening_command_fine:
  assumes "clean fs ds ss c" and "open_inv CONNECT_COMMAND_START c"
  shows "fine_open fs ds ss (enter_CONNECT_COMMAND_START c)"
proof -
  obtain a as where args: "argv c = Some (a # as)" and std: "{0, 1, 2} \<subseteq> set (fds (sys c))" and none: "sock (hdl c) = None"
    using assms(2) by (auto simp: command_given_def)
  show ?thesis
  proof (cases rule: socketpair_eq [of "sys c"])
    case (failed err as')
    moreover have "clean fs ds ss (c\<lparr>sys := sys c\<lparr>answers := as'\<rparr>\<rparr>)" using assms(1) by (simp add: clean_def)
    ultimately show ?thesis using args none by (simp add: enter_CONNECT_COMMAND_START_def fine_dies)
  next
    case (made as1 fd0 fd1)
    have fs: "fds (sys c) = fs" "sock_fd c = None" using assms none by (auto simp: clean_def)
    have lt: "2 < fd0" "2 < fd1" using standard_fds [OF std] standard_fds [of "fd0 # fds (sys c)"] std made(1,2) by auto
    have ne: "fd1 \<noteq> fd0" using lowest_fd_fresh [of "fd0 # fds (sys c)"] made(2) by auto
    define c1 where "c1 = c\<lparr>sys := sys c\<lparr>answers := as1, fds := fd1 # fd0 # fds (sys c)\<rparr>\<rparr>"
    obtain err2 as2 where s2: "fcntl_add (sys c1) = (err2, sys c1\<lparr>answers := as2\<rparr>)" using fcntl_eq by blast
    define c2 where "c2 = c1\<lparr>sys := sys c1\<lparr>answers := as2\<rparr>\<rparr>"
    have "mallocs (sys c2) = []" using assms(1) by (simp add: clean_def c2_def c1_def)
    then obtain w ws where s3: "nbd_internal_socket_create fd0 c2 = (Some (fd0, w), c2\<lparr>sys := (sys c2)\<lparr>wires := ws\<rparr>\<rparr>)"
      using create_eq by blast
    define c3 where "c3 = c2\<lparr>sys := (sys c2)\<lparr>wires := ws\<rparr>\<rparr>"
    have undo: "clean fs ds ss (close_high_level_socket (fd0, fd1) (c3\<lparr>sys := sys c3\<lparr>answers := as'\<rparr>\<rparr>))" for as'
      using assms fs ne by (simp add: clean_def close_high_level_socket_def close_socket_pair_def with_sys_def close_fd_def
          c1_def c2_def c3_def)
    have undo0: "clean fs ds ss (close_high_level_socket (fd0, fd1) c3)"
      using undo [of "answers (sys c3)"] by simp
    have "clean fs ds ss (close_socket_pair False (fd0, fd1) c2)"
      using assms fs ne by (simp add: clean_def close_socket_pair_def with_sys_def close_fd_def c1_def c2_def)
    then have fcntl: "fine_open fs ds ss (dies err2 ''fcntl'' (close_socket_pair False (fd0, fd1) c2))" by (rule fine_dies)
    have eq: "enter_CONNECT_COMMAND_START c =
        (if err2 \<noteq> 0 then dies err2 ''fcntl'' (close_socket_pair False (fd0, fd1) c2)
         else case init_execvpe c3 (a # as) of
             Inl err \<Rightarrow> dies err ''nbd_internal_execvpe_init'' (close_high_level_socket (fd0, fd1) c3)
           | Inr _ \<Rightarrow> (case fork (sys c3) of
               (Inl err, s) \<Rightarrow> dies err ''fork'' (close_high_level_socket (fd0, fd1) (c3\<lparr>sys := s\<rparr>))
             | (Inr p, s) \<Rightarrow> Some (next_state_is (MAGIC MAGIC_START)
                 (close_socket_pair True (fd0, fd1) (install (fd0, w) (c3\<lparr>sys := s, pid := p\<rparr>))), 0)))"
      using args none made(3) lt s2 s3
      by (simp add: enter_CONNECT_COMMAND_START_def c1_def c2_def c3_def split: prod.split sum.split)
    show ?thesis
    proof (cases rule: fork_eq [of "sys c3"])
      case (failed err as4)
      then show ?thesis using fcntl undo undo0 by (simp add: eq fine_dies split: sum.split)
    next
      case (forked as4)
      have "fine_open fs ds ss (Some (next_state_is (MAGIC MAGIC_START) (close_socket_pair True (fd0, fd1)
          (install (fd0, w) (c3\<lparr>sys := sys c3\<lparr>answers := as4, next_pid := next_pid (sys c3) + 1\<rparr>, pid := next_pid (sys c3)\<rparr>))), 0))"
        using assms fs ne by (simp add: fine_open_def clean_def close_socket_pair_def with_sys_def close_fd_def
            install_def with_handle_def SET_NEXT_STATE_def c1_def c2_def c3_def)
      then show ?thesis using fcntl undo0 forked by (simp add: eq fine_dies split: sum.split)
    qed
  qed
qed

text \<open>The server being started: its descriptor, directory and socket are open besides the rest.\<close>

definition starting :: "nat list \<Rightarrow> cstr list \<Rightarrow> cstr list \<Rightarrow> nat \<Rightarrow> cstr \<Rightarrow> cstr \<Rightarrow> connector \<Rightarrow> bool" where
  "starting fs ds ss fd tmpdir path c \<longleftrightarrow>
     sock_fd c = None \<and> sock (hdl c) = None \<and> no_server c \<and> mallocs (sys c) = [] \<and> \<not> bad_close (sys c) \<and>
     fds (sys c) = fd # fs \<and> dirs (sys c) = tmpdir # ds \<and> socks (sys c) = path # ss"

lemma unwind_clean:
  "starting fs ds ss fd tmpdir path c \<Longrightarrow> clean fs ds ss (unwind_path path fd tmpdir c)"
  by (simp add: starting_def clean_def no_server_def unwind_path_def unwind_socket_def with_sys_def rmdir_tmpdir_def
      unlink_path_def close_fd_def)

lemma starting_answers [simp]:
  "starting fs ds ss fd tmpdir path (c\<lparr>sys := sys c\<lparr>answers := as\<rparr>\<rparr>) = starting fs ds ss fd tmpdir path c"
  by (simp add: starting_def no_server_def)

lemma start_server_fine:
  assumes "starting fs ds ss fd tmpdir path c"
  shows "fine_open fs ds ss (start_server args tmpdir path fd c)"
proof (cases "init_execvpe c args")
  case (Inl err)
  then show ?thesis using assms by (simp add: start_server_def fine_dies unwind_clean)
next
  case (Inr ctx)
  have m: "malloc_fails (sys c) = (False, sys c)" using assms by (simp add: starting_def malloc_eq)
  show ?thesis
  proof (cases "prepare_socket_activation_environment (sact_vars (sact_name c)) (environ (sys c))")
    case (Inl err)
    then show ?thesis using assms Inr m by (simp add: start_server_def fine_dies unwind_clean)
  next
    case (Inr envp)
    note envp = Inr
    show ?thesis
    proof (cases rule: fork_eq [of "sys c"])
      case (failed err as)
      then show ?thesis using assms \<open>init_execvpe c args = Inr ctx\<close> envp m
        by (simp add: start_server_def fine_dies unwind_clean)
    next
      case (forked as)
      then show ?thesis using assms \<open>init_execvpe c args = Inr ctx\<close> envp m
        by (simp add: start_server_def fine_open_def clean_def starting_def no_server_def open_defs close_fd_def
            store_connaddr_def Let_def)
    qed
  qed
qed

lemma listen_on_fine:
  assumes "starting fs ds ss fd tmpdir path (c\<lparr>sys := (sys c)\<lparr>socks := path # socks (sys c)\<rparr>\<rparr>)"
    and "length path + 1 \<le> sizeof_sun_path"
  shows "fine_open fs ds ss (listen_on args tmpdir path fd c)"
proof -
  obtain err as where b: "answer (sys c) = (err, sys c\<lparr>answers := as\<rparr>)" using answer_eq by blast
  define c1 where "c1 = c\<lparr>sys := sys c\<lparr>answers := as, socks := path # socks (sys c)\<rparr>\<rparr>"
  obtain err' as' where l: "answer (sys c1) = (err', sys c1\<lparr>answers := as'\<rparr>)" using answer_eq by blast
  have c1: "starting fs ds ss fd tmpdir path c1" using assms(1) by (simp add: starting_def no_server_def c1_def)
  show ?thesis
  proof (cases "err = 0")
    case False
    have "clean fs ds ss (unwind_socket fd tmpdir (c\<lparr>sys := sys c\<lparr>answers := as\<rparr>\<rparr>))"
      using assms(1) by (simp add: starting_def clean_def no_server_def unwind_socket_def with_sys_def rmdir_tmpdir_def close_fd_def)
    then show ?thesis using False b assms(2) by (simp add: listen_on_def bind_path_def fine_dies)
  next
    case True
    have "listen_on args tmpdir path fd c = (if err' \<noteq> 0
        then dies err' ''listen'' (unwind_path path fd tmpdir (c1\<lparr>sys := sys c1\<lparr>answers := as'\<rparr>\<rparr>))
        else start_server args tmpdir path fd (c1\<lparr>sys := sys c1\<lparr>answers := as'\<rparr>\<rparr>))"
      using True b l assms(2) by (simp add: listen_on_def bind_path_def c1_def)
    then show ?thesis using c1 by (simp add: fine_dies unwind_clean start_server_fine)
  qed
qed

lemma sa_fine:
  assumes "clean fs ds ss c" and "open_inv CONNECT_SA_START c"
  shows "fine_open fs ds ss (enter_CONNECT_SA_START c)"
proof -
  obtain a as where args: "argv c = Some (a # as)" and none: "sock (hdl c) = None" and six: "length (tmp_suffix (sys c)) = 6"
    using assms(2) by (auto simp: command_given_def)
  have m: "mallocs (sys c) = []" "sock_fd c = None" and ns: "no_server c" using assms none by (auto simp: clean_def)
  obtain err as1 where d: "answer (sys c) = (err, sys c\<lparr>answers := as1\<rparr>)" using answer_eq by blast
  define tmpdir where "tmpdir = ascii ''/tmp/libnbd'' @ tmp_suffix (sys c)"
  define c1 where "c1 = c\<lparr>sys := sys c\<lparr>answers := as1, dirs := tmpdir # dirs (sys c)\<rparr>\<rparr>"
  show ?thesis
  proof (cases "err = 0")
    case False
    have "clean fs ds ss (c\<lparr>sys := sys c\<lparr>answers := as1\<rparr>\<rparr>)" using assms(1) by (simp add: clean_def)
    then show ?thesis using False d args none m by (simp add: enter_CONNECT_SA_START_def malloc_eq mkdtemp_def fine_dies)
  next
    case True
    have eq: "enter_CONNECT_SA_START c = (case nbd_internal_socket (sys c1) of
        (Inl err, s) \<Rightarrow> dies err ''socket'' (with_sys (rmdir_tmpdir tmpdir) (c1\<lparr>sys := s\<rparr>))
      | (Inr fd, s) \<Rightarrow> listen_on (a # as) tmpdir (tmpdir @ ascii ''/sock'') fd (c1\<lparr>sys := s\<rparr>))"
      using True d args none m by (simp add: enter_CONNECT_SA_START_def malloc_eq mkdtemp_def c1_def tmpdir_def Let_def split: prod.split sum.split)
    show ?thesis
    proof (cases rule: socket_eq [of "sys c1"])
      case (failed err as2)
      moreover have "clean fs ds ss (with_sys (rmdir_tmpdir tmpdir) (c1\<lparr>sys := sys c1\<lparr>answers := as2\<rparr>\<rparr>))"
        using assms(1) ns by (simp add: clean_def no_server_def with_sys_def rmdir_tmpdir_def c1_def)
      ultimately show ?thesis by (simp add: eq fine_dies)
    next
      case (made as2)
      define c2 where "c2 = c1\<lparr>sys := sys c1\<lparr>answers := as2, fds := lowest_fd (fds (sys c1)) # fds (sys c1)\<rparr>\<rparr>"
      have "starting fs ds ss (lowest_fd (fds (sys c1))) tmpdir path (c2\<lparr>sys := (sys c2)\<lparr>socks := path # socks (sys c2)\<rparr>\<rparr>)" for path
        using assms(1) ns m none by (simp add: starting_def clean_def no_server_def c2_def c1_def)
      then have "fine_open fs ds ss (listen_on (a # as) tmpdir (tmpdir @ ascii ''/sock'') (lowest_fd (fds (sys c1))) c2)"
        by (rule listen_on_fine) (simp add: tmpdir_def six ascii_def)
      then show ?thesis using made by (simp add: eq c2_def)
    qed
  qed
qed

section \<open>Opening a connection ends\<close>

lemma enter_OPENING_fine:
  assumes "is_opening s" and "clean fs ds ss c" and "open_inv s c" and "next_state (hdl c) = s" and "blocked (hdl c)"
  shows "fine_open fs ds ss (enter_OPENING s c)"
proof (cases s)
  case (CONNECT x)
  then show ?thesis using assms clean_start connecting_fine by (cases x) simp_all
next
  case (CONNECT_TCP x)
  then show ?thesis using assms tcp_start_fine tcp_connect_fine tcp_connecting_fine tcp_next_fine by (cases x) simp_all
next
  case CONNECT_COMMAND_START
  then show ?thesis using assms opening_command_fine by simp
next
  case CONNECT_SA_START
  then show ?thesis using assms sa_fine by simp
qed (use assms(1) in simp_all)

lemma clean_handle [simp]: "sock h = sock (hdl c) \<Longrightarrow> clean fs ds ss (c\<lparr>hdl := h\<rparr>) = clean fs ds ss c"
  by (simp add: clean_def)

lemma open_inv_handle [simp]:
  "sock h = sock (hdl c) \<Longrightarrow> last_error h = last_error (hdl c) \<Longrightarrow> open_inv s (c\<lparr>hdl := h\<rparr>) = open_inv s c"
  by (cases "(s, c)" rule: open_inv.cases) (simp_all add: no_server_def command_given_def)

text \<open>One turn of the loop in a state that opens the connection.\<close>

lemma open_step_fine:
  assumes "is_opening (state (hdl c))" and "clean fs ds ss c" and "open_inv (state (hdl c)) c"
  obtains c' r where "open_step c = Some (c', r)" and "clean fs ds ss c'"
    and "r = -1 \<longrightarrow> state (hdl c') = START \<and> last_error (hdl c') \<noteq> None \<and> open_inv START c'"
    and "r \<noteq> -1 \<and> blocked (hdl c') \<longrightarrow> state (hdl c') = CONNECT CONNECT_START \<and> sock_fd c' \<noteq> None"
    and "r \<noteq> -1 \<and> \<not> blocked (hdl c') \<longrightarrow> state (hdl c') \<noteq> START \<and> open_inv (state (hdl c')) c'"
proof -
  let ?c = "c\<lparr>hdl := (hdl c)\<lparr>blocked := True, next_state := state (hdl c)\<rparr>\<rparr>"
  have "fine_open fs ds ss (enter_OPENING (state (hdl c)) ?c)"
    using assms by (intro enter_OPENING_fine) simp_all
  then obtain c1 r where e: "enter_OPENING (state (hdl c)) ?c = Some (c1, r)" and f: "fine_open fs ds ss (Some (c1, r))"
    by (auto simp: fine_open_def split: option.splits)
  define c' where "c' = c1\<lparr>hdl := (hdl c1)\<lparr>state := next_state (hdl c1)\<rparr>\<rparr>"
  have "open_step c = Some (c', r)" using e by (simp add: open_step_def c'_def with_handle_def)
  moreover have "state (hdl c') = next_state (hdl c1)" "last_error (hdl c') = last_error (hdl c1)"
    "blocked (hdl c') = blocked (hdl c1)" "sock_fd c' = sock_fd c1"
    by (simp_all add: c'_def)
  moreover have "open_inv s c' = open_inv s c1" "clean fs ds ss c' = clean fs ds ss c1" for s
    by (simp_all add: c'_def del: open_inv.simps)
  moreover have "clean fs ds ss c1"
    "r = -1 \<longrightarrow> next_state (hdl c1) = START \<and> last_error (hdl c1) \<noteq> None \<and> open_inv START c1"
    "r \<noteq> -1 \<and> blocked (hdl c1) \<longrightarrow> next_state (hdl c1) = CONNECT CONNECT_START \<and> sock_fd c1 \<noteq> None"
    "r \<noteq> -1 \<and> \<not> blocked (hdl c1) \<longrightarrow> next_state (hdl c1) \<noteq> START \<and> open_inv (next_state (hdl c1)) c1"
    using f by (simp_all add: fine_open_def del: open_inv.simps split: if_splits)
  ultimately show ?thesis by (intro that [of c' r]) (simp_all only:)
qed

text \<open>A bound for the turns that are left.\<close>

fun open_rank :: "state \<Rightarrow> connector \<Rightarrow> nat" where
  "open_rank CONNECT_SA_START c = 2"
| "open_rank (CONNECT x) c = 1"
| "open_rank CONNECT_COMMAND_START c = 1"
| "open_rank (CONNECT_TCP TCP_START) c =
     (case getaddrinfo (sys c) (the (hostname c)) (the (port c)) of Inl r \<Rightarrow> 1 | Inr addrs \<Rightarrow> 3 * length addrs + 2)"
| "open_rank (CONNECT_TCP TCP_CONNECT) c = 3 * length (rp c) + 1"
| "open_rank (CONNECT_TCP TCP_CONNECTING) c = 3 * length (tl (rp c)) + 3"
| "open_rank (CONNECT_TCP TCP_NEXT_ADDRESS) c = 3 * length (tl (rp c)) + 2"
| "open_rank _ c = 0"

lemma create_rp:
  "nbd_internal_socket_create fd c = (x, c') \<Longrightarrow> rp c' = rp c"
  by (auto simp: nbd_internal_socket_create_def with_handle_def Let_def split: prod.splits if_splits list.splits)

lemma enter_OPENING_rank:
  assumes "enter_OPENING s c = Some (c', r)" and "next_state (hdl c) = s" and "blocked (hdl c)" and "\<not> blocked (hdl c')"
    and "is_opening s"
  shows "open_rank (next_state (hdl c')) c' < open_rank s c"
proof (cases s)
  case (CONNECT x)
  then show ?thesis using assms(1-4)
    by (cases x) (auto simp: enter_CONNECT_START_def enter_CONNECT_CONNECTING_def open_defs Let_def
        split: prod.splits if_splits sum.splits option.splits list.splits)
next
  case (CONNECT_TCP x)
  then show ?thesis
  proof (cases x)
    case TCP_START
    then show ?thesis using CONNECT_TCP assms
      by (auto simp: enter_CONNECT_TCP_START_def with_handle_def SET_NEXT_STATE_def set_error_def
          split: sum.splits Option.bind_splits)
  next
    case TCP_CONNECT
    then show ?thesis using CONNECT_TCP assms
      by (auto simp: enter_CONNECT_TCP_CONNECT_def install_def first_errno_def with_handle_def SET_NEXT_STATE_def set_error_def Let_def
          dest!: create_rp split: sum.splits prod.splits option.splits if_splits list.splits)
  next
    case TCP_CONNECTING
    then show ?thesis using CONNECT_TCP assms
      by (auto simp: enter_CONNECT_TCP_CONNECTING_def dies_def first_errno_def with_handle_def SET_NEXT_STATE_def set_error_def Let_def
          split: sum.splits prod.splits if_splits)
  next
    case TCP_NEXT_ADDRESS
    then show ?thesis using CONNECT_TCP assms
      by (auto simp: enter_CONNECT_TCP_NEXT_ADDRESS_def close_sock_def with_sys_def with_handle_def SET_NEXT_STATE_def Let_def
          split: option.splits if_splits)
  qed
next
  case CONNECT_COMMAND_START
  then show ?thesis using assms(1-4)
    by (auto simp: enter_CONNECT_COMMAND_START_def dies_def with_handle_def SET_NEXT_STATE_def set_error_def Let_def
        split: prod.splits if_splits sum.splits option.splits Option.bind_splits)
next
  case CONNECT_SA_START
  then show ?thesis using assms(1-4)
    by (auto simp: enter_CONNECT_SA_START_def listen_on_def start_server_def dies_def with_handle_def SET_NEXT_STATE_def set_error_def Let_def
        split: prod.splits if_splits sum.splits option.splits Option.bind_splits)
qed (use assms(5) in simp_all)

lemma open_step_rank:
  assumes "open_step c = Some (c', r)" and "is_opening (state (hdl c))" and "\<not> blocked (hdl c')"
  shows "open_rank (state (hdl c')) c' < open_rank (state (hdl c)) c"
proof -
  let ?c = "c\<lparr>hdl := (hdl c)\<lparr>blocked := True, next_state := state (hdl c)\<rparr>\<rparr>"
  have same: "open_rank s (c\<lparr>hdl := h\<rparr>) = open_rank s c" for s h c
    by (cases "(s, c)" rule: open_rank.cases) simp_all
  obtain c1 where e: "enter_OPENING (state (hdl c)) ?c = Some (c1, r)" "c' = c1\<lparr>hdl := (hdl c1)\<lparr>state := next_state (hdl c1)\<rparr>\<rparr>"
    using assms(1) by (auto simp: open_step_def with_handle_def)
  then have "open_rank (next_state (hdl c1)) c1 < open_rank (state (hdl c)) ?c"
    using assms(2,3) by (intro enter_OPENING_rank) simp_all
  then show ?thesis using e(2) by (simp add: same)
qed

text \<open>How the opening of a connection ends: it failed and can be tried again, it waits for the socket, or it goes on as a connection.\<close>

definition open_end :: "nat list \<Rightarrow> cstr list \<Rightarrow> cstr list \<Rightarrow> env \<Rightarrow> opened \<Rightarrow> bool" where
  "open_end fs ds ss e out \<longleftrightarrow>
     (\<exists>c. out = Opened c (-1) \<and> clean fs ds ss c \<and> state (hdl c) = START \<and> open_inv START c \<and> last_error (hdl c) \<noteq> None) \<or>
     (\<exists>c. out = Opened c 0 \<and> clean fs ds ss c \<and> state (hdl c) = CONNECT CONNECT_START \<and> sock_fd c \<noteq> None) \<or>
     (\<exists>c k. out = settle c (run_loop e (Suc k) (hdl c)) \<and> clean fs ds ss c \<and>
        (state (hdl c) = MAGIC MAGIC_START \<and> sock_fd c \<noteq> None \<or> state (hdl c) = DEAD \<and> last_error (hdl c) \<noteq> None))"

lemma open_inv_exits:
  "open_inv s c \<Longrightarrow> \<not> is_opening s \<Longrightarrow> s \<noteq> START \<Longrightarrow>
     s = MAGIC MAGIC_START \<and> sock_fd c \<noteq> None \<or> s = DEAD \<and> last_error (hdl c) \<noteq> None"
  by (cases "(s, c)" rule: open_inv.cases) auto

lemma open_loop_ends:
  "is_opening (state (hdl c)) \<Longrightarrow> clean fs ds ss c \<Longrightarrow> open_inv (state (hdl c)) c \<Longrightarrow> open_rank (state (hdl c)) c < fuel \<Longrightarrow>
     open_end fs ds ss e (open_loop e fuel c)"
proof (induction fuel arbitrary: c)
  case (Suc n)
  obtain c' r where step: "open_step c = Some (c', r)" "clean fs ds ss c'"
    and failed: "r = -1 \<longrightarrow> state (hdl c') = START \<and> last_error (hdl c') \<noteq> None \<and> open_inv START c'"
    and waits: "r \<noteq> -1 \<and> blocked (hdl c') \<longrightarrow> state (hdl c') = CONNECT CONNECT_START \<and> sock_fd c' \<noteq> None"
    and goes_on: "r \<noteq> -1 \<and> \<not> blocked (hdl c') \<longrightarrow> state (hdl c') \<noteq> START \<and> open_inv (state (hdl c')) c'"
    using open_step_fine [OF Suc.prems(1-3)] .
  consider "r = -1" | "r \<noteq> -1" "blocked (hdl c')" | "r \<noteq> -1" "\<not> blocked (hdl c')" by blast
  then show ?case
  proof cases
    case 1
    then show ?thesis using Suc.prems(1) step failed by (auto simp: open_end_def)
  next
    case 2
    then show ?thesis using Suc.prems(1) step waits by (auto simp: open_end_def)
  next
    case 3
    have rank: "open_rank (state (hdl c')) c' < n"
      using open_step_rank [OF step(1) Suc.prems(1) 3(2)] Suc.prems(4) by simp
    have eq: "open_loop e (Suc n) c = open_loop e n c'" using Suc.prems(1) step 3 by simp
    show ?thesis
    proof (cases "is_opening (state (hdl c'))")
      case True
      then show ?thesis using Suc.IH [of c'] step(2) goes_on 3 rank eq by simp
    next
      case False
      obtain k where "n = Suc k" using rank by (cases n) auto
      then have "open_loop e (Suc n) c = settle c' (run_loop e (Suc k) (hdl c'))" using eq False by simp
      then show ?thesis using step(2) open_inv_exits [of "state (hdl c')" c'] goes_on 3 False unfolding open_end_def by blast
    qed
  qed
qed simp

section \<open>Calls that connect\<close>

datatype connect_request =
  To_address "u8 list"
| To_unix cstr
| To_vsock u32 u32
| To_tcp cstr cstr
| To_command "cstr list"
| To_activation "cstr list"
| Writable

fun start_connect :: "env \<Rightarrow> nat \<Rightarrow> connect_request \<Rightarrow> connector \<Rightarrow> opened" where
  "start_connect e fuel (To_address addr) c = nbd_unlocked_aio_connect e fuel addr c"
| "start_connect e fuel (To_unix name) c = nbd_unlocked_aio_connect_unix e fuel name c"
| "start_connect e fuel (To_vsock cid service) c = nbd_unlocked_aio_connect_vsock e fuel cid service c"
| "start_connect e fuel (To_tcp host service) c = nbd_unlocked_aio_connect_tcp e fuel host service c"
| "start_connect e fuel (To_command args) c = nbd_unlocked_aio_connect_command e fuel args c"
| "start_connect e fuel (To_activation args) c = nbd_unlocked_aio_connect_systemd_socket_activation e fuel args c"
| "start_connect e fuel Writable c = open_run e fuel notify_write c"

text \<open>What is asked of the caller, and a bound for the turns of the loop.\<close>

fun connect_ok :: "connect_request \<Rightarrow> connector \<Rightarrow> bool" where
  "connect_ok Writable c = (state (hdl c) = CONNECT CONNECT_START \<and> sock_fd c \<noteq> None)"
| "connect_ok (To_address addr) c = (state (hdl c) = START \<and> open_inv START c \<and> length addr \<le> sizeof_sockaddr_storage)"
| "connect_ok _ c = (state (hdl c) = START \<and> open_inv START c)"

fun connect_turns :: "connect_request \<Rightarrow> connector \<Rightarrow> nat" where
  "connect_turns (To_tcp host service) c =
     (case getaddrinfo (sys c) host service of Inl r \<Rightarrow> 2 | Inr addrs \<Rightarrow> 3 * length addrs + 3)"
| "connect_turns _ c = 3"

lemma refuse_end:
  "clean fs ds ss c \<Longrightarrow> state (hdl c) = START \<Longrightarrow> open_inv START c \<Longrightarrow> open_end fs ds ss e (refuse_connect err msg c)"
  by (auto simp: open_end_def refuse_connect_def with_handle_def set_error_def no_server_def)

lemma open_run_end:
  assumes "external_transition (state (hdl c)) ev = Some s" and "is_opening s" and "clean fs ds ss c" and "open_inv s c"
    and "open_rank s c < fuel"
  shows "open_end fs ds ss e (open_run e fuel ev c)"
proof -
  have same: "open_rank s (c\<lparr>hdl := h\<rparr>) = open_rank s c" for s h c
    by (cases "(s, c)" rule: open_rank.cases) simp_all
  show ?thesis using assms unfolding open_run_def with_handle_def
    by (simp only: option.case) (rule open_loop_ends; simp add: same del: open_inv.simps)
qed

lemma sockaddr_end:
  assumes "clean fs ds ss c" and "state (hdl c) = START" and "open_inv START c" and "3 \<le> fuel"
  shows "open_end fs ds ss e (open_run e fuel cmd_connect_sockaddr (store_connaddr addr c))"
  using assms by (intro open_run_end [where s = "CONNECT CONNECT_START"]) (simp_all add: store_connaddr_def clean_def)

lemma argv_end:
  assumes "clean fs ds ss c" and "state (hdl c) = START" and "open_inv START c" and "3 \<le> fuel"
    and "{0, 1, 2} \<subseteq> set fs" and "length (tmp_suffix (sys c)) = 6"
    and "ev = cmd_connect_command \<or> ev = cmd_connect_sa"
  shows "open_end fs ds ss e (connect_argv e fuel ev args c)"
proof (cases args)
  case Nil
  then show ?thesis using assms refuse_end by (simp add: connect_argv_def nbd_internal_set_argv_def)
next
  case (Cons a as)
  define d where "d = c\<lparr>argv := Some args\<rparr>"
  have d: "clean fs ds ss d" "no_server d" "command_given d" "sock (hdl d) = None" "length (tmp_suffix (sys d)) = 6" "state (hdl d) = START"
    using assms(1-6) Cons by (auto simp: d_def clean_def no_server_def command_given_def)
  have "open_end fs ds ss e (open_run e fuel ev d)"
    using assms(7)
  proof
    assume "ev = cmd_connect_command"
    then show ?thesis using d assms(4) by (intro open_run_end [where s = CONNECT_COMMAND_START]) simp_all
  next
    assume "ev = cmd_connect_sa"
    then show ?thesis using d assms(4) by (intro open_run_end [where s = CONNECT_SA_START]) simp_all
  qed
  then show ?thesis using Cons by (simp add: connect_argv_def nbd_internal_set_argv_def d_def)
qed

lemma tcp_end:
  assumes "clean fs ds ss c" and "state (hdl c) = START" and "open_inv START c" and "connect_turns (To_tcp host service) c \<le> fuel"
  shows "open_end fs ds ss e (nbd_unlocked_aio_connect_tcp e fuel host service c)"
proof -
  define d where "d = c\<lparr>hostname := Some host, port := Some service\<rparr>"
  have "clean fs ds ss d" "open_inv (CONNECT_TCP TCP_START) d" "state (hdl d) = START"
    using assms(1-3) by (auto simp: d_def clean_def no_server_def)
  moreover have "open_rank (CONNECT_TCP TCP_START) d < fuel"
    using assms(4) by (simp add: d_def split: sum.splits)
  ultimately show ?thesis unfolding nbd_unlocked_aio_connect_tcp_def d_def [symmetric]
    by (intro open_run_end [where s = "CONNECT_TCP TCP_START"]) (simp_all del: open_inv.simps open_rank.simps)
qed

lemma connect_end:
  assumes "clean fs ds ss c" and "connect_ok q c" and "connect_turns q c \<le> fuel"
    and "{0, 1, 2} \<subseteq> set fs" and "length (tmp_suffix (sys c)) = 6"
  shows "open_end fs ds ss e (start_connect e fuel q c)"
proof (cases q)
  case (To_tcp host service)
  then show ?thesis using assms tcp_end [of fs ds ss c host service fuel e] by simp
next
  case Writable
  then show ?thesis using assms unfolding start_connect.simps
    by (simp, intro open_run_end [where s = "CONNECT CONNECT_CONNECTING"]) simp_all
qed (use assms refuse_end [of fs ds ss c e] argv_end [of fs ds ss c fuel _ e] sockaddr_end [of fs ds ss c fuel e] in
  \<open>simp_all add: nbd_unlocked_aio_connect_def nbd_unlocked_aio_connect_unix_def nbd_unlocked_aio_connect_vsock_def
    nbd_unlocked_aio_connect_command_def nbd_unlocked_aio_connect_systemd_socket_activation_def del: open_inv.simps\<close>)

text \<open>A new handle in a process that has the standard descriptors open; the host has two addresses.\<close>

definition two_addresses :: "addrinfo list" where
  "two_addresses = [\<lparr>ai_family = 10, ai_addr = [10, 0, 1]\<rparr>, \<lparr>ai_family = 2, ai_addr = [2, 0, 2]\<rparr>]"

definition new_os :: os where
  "new_os = \<lparr>answers = [], mallocs = [], fds = [2, 1, 0], bad_close = False, wires = [], calls = [], dirs = [], socks = [],
     tmp_suffix = ascii ''abcdef'', next_pid = 100, killed = [], environ = [ascii ''PATH=/usr/bin''], confstr_path = Inl 0,
     getaddrinfo = (\<lambda>_ _. Inr two_addresses)\<rparr>"

definition new_connector :: connector where
  "new_connector = \<lparr>hdl = initial_handle, sys = new_os, sock_fd = None, connaddr = replicate 128 0, connaddrlen = 0,
     hostname = None, port = None, result = None, rp = [], connect_errno = 0, argv = None, sact_name = None,
     sact_tmpdir = None, sact_sockpath = None, pid = -1\<rparr>"

lemma new_connector_ok:
  "clean [2, 1, 0] [] [] new_connector" "connect_ok (To_activation [ascii ''nbdkit'']) new_connector"
  "connect_ok (To_tcp host service) new_connector" "connect_turns (To_tcp host service) new_connector \<le> 9"
  "{0, 1, 2} \<subseteq> set [2, 1, 0 :: nat]" "length (tmp_suffix (sys new_connector)) = 6"
  by (simp_all add: clean_def new_connector_def new_os_def no_server_def handle_defs two_addresses_def ascii_def)



lemma settle_clean:
  "clean fs ds ss c \<Longrightarrow> settle c out = Opened c' r \<Longrightarrow> clean fs ds ss c'"
  by (auto simp: settle_def clean_def close_sock_def with_sys_def close_fd_def split: outcome.splits if_splits option.splits)

lemma open_end_clean: "open_end fs ds ss e (Opened c' r) \<Longrightarrow> clean fs ds ss c'"
  unfolding open_end_def by (elim disjE exE conjE) (simp_all del: run_loop.simps add: settle_clean [OF _ sym])

lemma close_clean:
  "clean fs ds ss c \<Longrightarrow> fds (sys (close_connector c)) = fs \<and> \<not> bad_close (sys (close_connector c)) \<and>
     dirs (sys (close_connector c)) = ds \<and> socks (sys (close_connector c)) = ss"
  by (auto simp: close_connector_def clean_def Let_def with_sys_def unlink_path_def rmdir_tmpdir_def close_sock_def close_fd_def
      split: option.splits)


text \<open>A server that cannot be started: there is no memory for its process.\<close>

definition no_process :: connector where
  "no_process = new_connector\<lparr>sys := new_os\<lparr>answers := [0, 0, 0, 0, 12]\<rparr>\<rparr>"

lemma open_loop_numeral:
  "open_loop e (numeral k) c =
     (if is_opening (state (hdl c)) then
        (case open_step c of
           None \<Rightarrow> Open_aborted
         | Some (c', r) \<Rightarrow>
             if r = -1 then (if last_error (hdl c') \<noteq> None then Opened c' (-1) else Open_aborted)
             else if blocked (hdl c') then Opened c' 0
             else open_loop e (pred_numeral k) c')
      else settle c (run_loop e (numeral k) (hdl c)))"
  by (simp add: numeral_eq_Suc)

lemmas connect_run_defs = open_run_def open_loop_numeral run_loop_numeral open_step_def open_defs os_defs settle_def
  new_connector_def new_os_def two_addresses_def handle_defs Let_def step_def enter_def return0_def lowest_fd_def
  upt_conv_Cons

lemma no_process_run:
  "\<exists>c'. start_connect no_env 3 (To_activation [ascii ''nbdkit'']) no_process = Opened c' (-1)"
  by (simp add: no_process_def nbd_unlocked_aio_connect_systemd_socket_activation_def connect_argv_def nbd_internal_set_argv_def
      enter_CONNECT_SA_START_def mkdtemp_def listen_on_def bind_path_def start_server_def init_execvpe_def getenv_def
      nbd_internal_execvpe_init_def get_path_def path_name_def ascii_def prepare_socket_activation_environment_def sact_vars_def
      unwind_path_def unwind_socket_def unlink_path_def rmdir_tmpdir_def enter_DEAD_def abort_all_def abort_option_def
      call_opt_completion_def nbd_internal_free_option_def null_cb_def nbd_get_errno_def connect_run_defs)

lemma no_process_ok:
  "clean [2, 1, 0] [] [] no_process" "connect_ok (To_activation [ascii ''nbdkit'']) no_process"
  "connect_turns (To_activation [ascii ''nbdkit'']) no_process \<le> 3" "length (tmp_suffix (sys no_process)) = 6"
  by (simp_all add: no_process_def clean_def new_connector_def new_os_def no_server_def handle_defs ascii_def)


section \<open>The addresses of a host\<close>

text \<open>
  What may happen with an address: no socket can be made for it, the connection is refused at once or after a while, or
  it works. The reference goes through the addresses in order and keeps the first error of a connection.
\<close>

datatype attempt_at = No_socket u32 | Refused u32 | Refused_later u32 u32 | Works u32

fun attempt_ok :: "attempt_at \<Rightarrow> bool" where
  "attempt_ok (No_socket err) = (err \<noteq> 0)"
| "attempt_ok (Refused err) = (err \<noteq> 0 \<and> err \<noteq> EINPROGRESS)"
| "attempt_ok (Refused_later err status) = ((err = 0 \<or> err = EINPROGRESS) \<and> status \<noteq> 0)"
| "attempt_ok (Works err) = (err = 0 \<or> err = EINPROGRESS)"

fun system_says :: "attempt_at \<Rightarrow> u32 list" where
  "system_says (No_socket err) = [err]"
| "system_says (Refused err) = [0, err]"
| "system_says (Refused_later err status) = [0, err, 0, status]"
| "system_says (Works err) = [0, err, 0, 0]"

definition keep_first :: "u32 \<Rightarrow> u32 \<Rightarrow> u32" where
  "keep_first err new = (if err = 0 then new else err)"

fun dial :: "(addrinfo \<times> attempt_at) list \<Rightarrow> u32 \<Rightarrow> u32 + addrinfo" where
  "dial [] err = Inl err"
| "dial ((ai, No_socket _) # plan) err = dial plan err"
| "dial ((ai, Refused new) # plan) err = dial plan (keep_first err new)"
| "dial ((ai, Refused_later _ new) # plan) err = dial plan (keep_first err new)"
| "dial ((ai, Works _) # plan) err = Inr ai"

definition dialling :: "(addrinfo \<times> attempt_at) list \<Rightarrow> u32 list \<Rightarrow> u32 \<Rightarrow> nat list \<Rightarrow> connector \<Rightarrow> bool" where
  "dialling plan as err fs c \<longleftrightarrow>
     state (hdl c) = CONNECT_TCP TCP_CONNECT \<and> sock (hdl c) = None \<and> sock_fd c = None \<and> mallocs (sys c) = [] \<and>
     rp c = map fst plan \<and> answers (sys c) = concat (map (system_says \<circ> snd) plan) @ as \<and> connect_errno c = err \<and>
     fds (sys c) = fs \<and> list_all (attempt_ok \<circ> snd) plan"

lemma connect_step_no_socket:
  assumes "dialling ((ai, No_socket e0) # plan) as err fs c"
  shows "\<exists>c'. open_loop e (Suc (Suc n)) c = open_loop e n c' \<and> dialling plan as err fs c'"
  using assms by (auto simp: dialling_def open_step_def enter_CONNECT_TCP_CONNECT_def enter_CONNECT_TCP_NEXT_ADDRESS_def
      os_defs with_handle_def SET_NEXT_STATE_def Let_def)

lemma connect_step_refused:
  assumes "dialling ((ai, Refused e0) # plan) as err fs c"
  shows "\<exists>c'. open_loop e (Suc (Suc n)) c = open_loop e n c' \<and> dialling plan as (keep_first err e0) fs c'"
  using assms by (cases "wires (sys c)") (auto simp: dialling_def open_step_def enter_CONNECT_TCP_CONNECT_def enter_CONNECT_TCP_NEXT_ADDRESS_def
      os_defs open_defs keep_first_def Let_def)

lemma connect_step_later:
  assumes "dialling ((ai, Refused_later e0 e1) # plan) as err fs c"
  shows "\<exists>c'. open_loop e (Suc (Suc (Suc n))) c = open_loop e n c' \<and> dialling plan as (keep_first err e1) fs c'"
  using assms by (cases "wires (sys c)") (auto simp: dialling_def open_step_def enter_CONNECT_TCP_CONNECT_def
      enter_CONNECT_TCP_CONNECTING_def enter_CONNECT_TCP_NEXT_ADDRESS_def os_defs open_defs keep_first_def Let_def)

text \<open>The handle that starts the handshake on the socket connected to an address.\<close>

definition connected_to :: "addrinfo \<Rightarrow> nat list \<Rightarrow> connector \<Rightarrow> bool" where
  "connected_to ai fs c \<longleftrightarrow>
     state (hdl c) = MAGIC MAGIC_START \<and> sock (hdl c) \<noteq> None \<and> sock_fd c = Some (lowest_fd fs) \<and>
     fds (sys c) = lowest_fd fs # fs \<and> calls (sys c) \<noteq> [] \<and> last (calls (sys c)) = ai_addr ai"

lemma connect_step_works:
  assumes "dialling ((ai, Works e0) # plan) as err fs c"
  shows "\<exists>c'. open_loop e (Suc (Suc (Suc n))) c = settle c' (run_loop e (Suc n) (hdl c')) \<and> connected_to ai fs c'"
proof -
  have "\<exists>c'. open_loop e (Suc (Suc m)) c = open_loop e m c' \<and> connected_to ai fs c'" for m
    using assms by (cases "wires (sys c)") (auto simp: dialling_def connected_to_def open_step_def enter_CONNECT_TCP_CONNECT_def
        enter_CONNECT_TCP_CONNECTING_def os_defs open_defs Let_def)
  then obtain c' where c': "open_loop e (Suc (Suc (Suc n))) c = open_loop e (Suc n) c'" "connected_to ai fs c'" by blast
  then have "open_loop e (Suc n) c' = settle c' (run_loop e (Suc n) (hdl c'))" by (simp add: connected_to_def del: run_loop.simps)
  then show ?thesis using c' by metis
qed

lemma connect_step_none:
  assumes "dialling [] as err fs c"
  shows "\<exists>c'. open_loop e (Suc n) c = Opened c' (-1) \<and> state (hdl c') = START \<and> nbd_get_errno (hdl c') = err \<and> fds (sys c') = fs"
  using assms by (auto simp: dialling_def open_step_def enter_CONNECT_TCP_CONNECT_def open_defs nbd_get_errno_def)

definition dialled :: "env \<Rightarrow> nat list \<Rightarrow> u32 + addrinfo \<Rightarrow> opened \<Rightarrow> bool" where
  "dialled e fs res out \<longleftrightarrow>
     (case res of
        Inl err \<Rightarrow> \<exists>c. out = Opened c (-1) \<and> state (hdl c) = START \<and> nbd_get_errno (hdl c) = err \<and> fds (sys c) = fs
      | Inr ai \<Rightarrow> \<exists>c k. out = settle c (run_loop e (Suc k) (hdl c)) \<and> connected_to ai fs c)"

lemma open_loop_dials:
  "dialling plan as err fs c \<Longrightarrow> 3 * length plan + 1 < fuel \<Longrightarrow> dialled e fs (dial plan err) (open_loop e fuel c)"
proof (induction plan arbitrary: err c fuel)
  case Nil
  then obtain n where "fuel = Suc n" by (cases fuel) auto
  then show ?case using connect_step_none [OF Nil.prems(1), of e n] by (simp add: dialled_def del: open_loop.simps)
next
  case (Cons p plan)
  obtain ai t where p: "p = (ai, t)" by (cases p)
  from Cons.prems(2) obtain n where n: "fuel = Suc (Suc (Suc n))" "3 * length plan + 1 < n"
    by (cases fuel rule: nat.exhaust; cases "fuel - 1"; cases "fuel - 2") auto
  show ?case
  proof (cases t)
    case (No_socket e0)
    then show ?thesis using connect_step_no_socket [of ai e0 plan as err fs c e "Suc n"] Cons.prems(1) Cons.IH n p
      by (auto simp del: open_loop.simps)
  next
    case (Refused e0)
    then show ?thesis using connect_step_refused [of ai e0 plan as err fs c e "Suc n"] Cons.prems(1) Cons.IH n p
      by (auto simp del: open_loop.simps)
  next
    case (Refused_later e0 e1)
    then show ?thesis using connect_step_later [of ai e0 e1 plan as err fs c e n] Cons.prems(1) Cons.IH n p
      by (auto simp del: open_loop.simps)
  next
    case (Works e0)
    then show ?thesis using connect_step_works [of ai e0 plan as err fs c e n] Cons.prems(1) n p
      by (auto simp: dialled_def simp del: open_loop.simps run_loop.simps)
  qed
qed


definition refused_twice :: connector where
  "refused_twice = new_connector\<lparr>sys := new_os\<lparr>answers := [0, EINPROGRESS, 0, 111, 0, 113]\<rparr>\<rparr>"


section \<open>Where opening a connection goes wrong\<close>

definition refused_late :: connector where
  "refused_late = new_connector\<lparr>sys := new_os\<lparr>answers := [0, EINPROGRESS, 0, 0],
     wires := [quiet_sock\<lparr>rx := [RxErr 111]\<rparr>]\<rparr>\<rparr>"

text \<open>
  An address that refuses the connection after a while is not skipped: while a connection is in progress the
  next state does not wait for the socket to be writable but asks at once for the status, which is 0 as
  long as nothing is known, and the handshake begins. The refusal then ends the connection, and the
  second address of the host is not tried.
\<close>

theorem refused_late_not_skipped:
  "\<exists>c. nbd_unlocked_aio_connect_tcp no_env 9 [104] [49] refused_late = Opened c (-1) \<and> state (hdl c) = DEAD \<and>
     nbd_get_errno (hdl c) = 111 \<and> calls (sys c) = [ai_addr (hd two_addresses)] \<and> rp c = two_addresses"
  by (simp add: nbd_unlocked_aio_connect_tcp_def refused_late_def connect_run_defs handshake_defs enter_CONNECT_TCP_START_def
      enter_CONNECT_TCP_CONNECT_def enter_CONNECT_TCP_CONNECTING_def enter_DEAD_def abort_all_def abort_option_def
      call_opt_completion_def nbd_internal_free_option_def null_cb_def nbd_get_errno_def)

definition no_memory :: connector where
  "no_memory = new_connector\<lparr>sys := new_os\<lparr>mallocs := [True]\<rparr>\<rparr>"

text \<open>
  When there is no memory for the socket structure, the descriptor of the new socket is lost: nothing refers to it,
  and closing the handle leaves it open.
\<close>

theorem socket_descriptor_lost:
  "\<exists>c. nbd_unlocked_aio_connect_unix no_env 3 (ascii ''/s'') no_memory = Opened c (-1) \<and> state (hdl c) = DEAD \<and>
     sock_fd c = None \<and> fds (sys (close_connector c)) = [3, 2, 1, 0]"
  by (simp add: nbd_unlocked_aio_connect_unix_def no_memory_def connect_run_defs enter_CONNECT_START_def store_connaddr_def
      unix_address_def ascii_def host16_def enter_DEAD_def abort_all_def abort_option_def call_opt_completion_def
      nbd_internal_free_option_def null_cb_def nbd_get_errno_def close_connector_def)

section \<open>What a child process gets\<close>

abbreviation EQUALS :: u8 where "EQUALS \<equiv> 61"

definition var_name :: "cstr \<Rightarrow> cstr" where
  "var_name x = takeWhile (\<lambda>b. b \<noteq> EQUALS) x"

lemma var_name_prefix:
  assumes "take (length n + 1) x = n @ [EQUALS]" and "EQUALS \<notin> set n"
  shows "var_name x = n"
proof -
  have "x = (n @ [EQUALS]) @ drop (length n + 1) x" by (subst assms(1) [symmetric]) (rule append_take_drop_id [symmetric])
  then have "var_name x = var_name ((n @ [EQUALS]) @ drop (length n + 1) x)" by (rule arg_cong)
  then show ?thesis using assms(2) by (simp add: var_name_def takeWhile_append)
qed

definition sact_names :: "cstr list" where
  "sact_names = [ascii ''LISTEN_PID'', ascii ''LISTEN_FDS'', ascii ''LISTEN_FDNAMES'']"

lemma sact_prefix: "v \<in> set (sact_vars name) \<Longrightarrow> \<exists>n \<in> set sact_names. var_prefix v = n @ [EQUALS] \<and> EQUALS \<notin> set n"
  by (auto simp: sact_vars_def sact_names_def ascii_def)

lemma getenv_other:
  assumes "EQUALS \<notin> set n" and "n \<notin> set sact_names"
  shows "getenv n (filter (\<lambda>x. \<not> (\<exists>v \<in> set (sact_vars name). take (length (var_prefix v)) x = var_prefix v)) envp) = getenv n envp"
proof -
  have "\<not> (\<exists>v \<in> set (sact_vars name). take (length (var_prefix v)) x = var_prefix v)" if "take (length n + 1) x = n @ [EQUALS]" for x
  proof
    assume "\<exists>v \<in> set (sact_vars name). take (length (var_prefix v)) x = var_prefix v"
    then obtain v where v: "v \<in> set (sact_vars name)" "take (length (var_prefix v)) x = var_prefix v" by blast
    then obtain m where "var_prefix v = m @ [EQUALS]" "EQUALS \<notin> set m" "m \<in> set sact_names" using sact_prefix by blast
    with v(2) have "take (length m + 1) x = m @ [EQUALS]" "EQUALS \<notin> set m" "m \<in> set sact_names" by simp_all
    then have "var_name x = m" by (intro var_name_prefix)
    moreover have "var_name x = n" using that assms(1) by (rule var_name_prefix)
    ultimately show False using assms(2) \<open>m \<in> set sact_names\<close> by simp
  qed
  then have "find (\<lambda>v. take (length n + 1) v = n @ [EQUALS])
      (filter (\<lambda>x. \<not> (\<exists>v \<in> set (sact_vars name). take (length (var_prefix v)) x = var_prefix v)) envp) =
    find (\<lambda>v. take (length n + 1) v = n @ [EQUALS]) envp"
    by (induction envp) auto
  then show ?thesis by (simp add: getenv_def)
qed

lemma getenv_front:
  assumes "EQUALS \<notin> set n" and "EQUALS \<notin> set m"
  shows "getenv n ((m @ EQUALS # v) # envp) = (if n = m then Some v else getenv n envp)"
proof (cases "take (length n + 1) (m @ EQUALS # v) = n @ [EQUALS]")
  case True
  have "var_name (m @ EQUALS # v) = m" using assms(2) by (simp add: var_name_def takeWhile_append)
  then have "n = m" using var_name_prefix [OF True assms(1)] by simp
  then show ?thesis by (simp add: getenv_def)
next
  case False
  then have "n \<noteq> m" by auto
  then show ?thesis using False by (simp add: getenv_def)
qed

text \<open>The environment of the server, with the process id filled in.\<close>

definition server_env :: "cstr \<Rightarrow> cstr option \<Rightarrow> cstr list \<Rightarrow> cstr list" where
  "server_env v name envp =
     (ascii ''LISTEN_PID'' @ EQUALS # v) # (ascii ''LISTEN_FDS'' @ EQUALS # ascii ''1'') #
     (ascii ''LISTEN_FDNAMES'' @ EQUALS # (case name of None \<Rightarrow> ascii ''unknown'' | Some n \<Rightarrow> n)) #
     filter (\<lambda>x. \<not> (\<exists>v \<in> set (sact_vars name). take (length (var_prefix v)) x = var_prefix v)) envp"

lemma prepared_env:
  assumes "prepare_socket_activation_environment (sact_vars name) envp = Inr env"
  shows "env[0 := var_prefix (hd (sact_vars name)) @ v] = server_env v name envp"
proof -
  have "env = map (\<lambda>v. var_prefix v @ var_value v) (sact_vars name) @
      filter (\<lambda>x. \<not> (\<exists>v \<in> set (sact_vars name). take (length (var_prefix v)) x = var_prefix v)) envp"
    using assms unfolding prepare_socket_activation_environment_def by (simp split: if_splits)
  moreover have "map (\<lambda>v. var_prefix v @ var_value v) (sact_vars name) =
      [var_prefix (hd (sact_vars name)) @ replicate 32 120, ascii ''LISTEN_FDS'' @ EQUALS # ascii ''1'',
       ascii ''LISTEN_FDNAMES'' @ EQUALS # (case name of None \<Rightarrow> ascii ''unknown'' | Some n \<Rightarrow> n)]"
    by (simp add: sact_vars_def ascii_def)
  moreover have "var_prefix (hd (sact_vars name)) = ascii ''LISTEN_PID'' @ [EQUALS]" by (simp add: sact_vars_def ascii_def)
  ultimately show ?thesis by (simp add: server_env_def)
qed

lemma server_env_values:
  "getenv (ascii ''LISTEN_PID'') (server_env v name envp) = Some v"
  "getenv (ascii ''LISTEN_FDS'') (server_env v name envp) = Some (ascii ''1'')"
  "getenv (ascii ''LISTEN_FDNAMES'') (server_env v name envp) = Some (case name of None \<Rightarrow> ascii ''unknown'' | Some n \<Rightarrow> n)"
  "EQUALS \<notin> set n \<Longrightarrow> n \<notin> set sact_names \<Longrightarrow> getenv n (server_env v name envp) = getenv n envp"
proof -
  have e: "EQUALS \<notin> set (ascii ''LISTEN_PID'')" "EQUALS \<notin> set (ascii ''LISTEN_FDS'')" "EQUALS \<notin> set (ascii ''LISTEN_FDNAMES'')"
    and d: "ascii ''LISTEN_PID'' \<noteq> ascii ''LISTEN_FDS''" "ascii ''LISTEN_PID'' \<noteq> ascii ''LISTEN_FDNAMES''"
      "ascii ''LISTEN_FDS'' \<noteq> ascii ''LISTEN_FDNAMES''"
    by (simp_all add: ascii_def)
  show "getenv (ascii ''LISTEN_PID'') (server_env v name envp) = Some v"
    "getenv (ascii ''LISTEN_FDS'') (server_env v name envp) = Some (ascii ''1'')"
    "getenv (ascii ''LISTEN_FDNAMES'') (server_env v name envp) = Some (case name of None \<Rightarrow> ascii ''unknown'' | Some n \<Rightarrow> n)"
    unfolding server_env_def using d by (simp_all only: getenv_front e not_False_eq_True if_True if_False d [symmetric] simp_thms)
  show "getenv n (server_env v name envp) = getenv n envp" if "EQUALS \<notin> set n" "n \<notin> set sact_names"
    unfolding server_env_def using that getenv_other [OF that, of name envp] by (simp add: getenv_front e sact_names_def)
qed

lemma decimal_length: "length (decimal (sint (v :: u64))) \<le> 32"
proof -
  have "length (dec (unat w)) \<le> 20" for w :: u64
    using unsigned_less [of w, where ?'a = nat] by (intro dec_length) simp_all
  from this [of v] this [of "- v"] show ?thesis
    using negate_unat [of v] by (cases "sint v < 0") (simp_all add: decimal_def)
qed

text \<open>
  C15. A server that is started with a listening socket finds it as descriptor 3, and nowhere else; the variables that
  tell it so name its own process, one socket and its name, whatever they were before; every other
  variable and every other descriptor that is not closed by exec is as in the parent.
\<close>

theorem activated_server_gets:
  assumes "prepare_socket_activation_environment (sact_vars name) envp = Inr env"
    and "nbd_internal_fork_safe_execvpe execve ctx args = Some (Running prog args')"
    and "list_all (\<lambda>err. err = 0) as" and "t fd = Some (ob, True)"
  shows "\<exists>env' fds'. sa_child execve ctx args (sact_vars name) env mypid as fd t = Child_runs prog args' env' fds' \<and>
    getenv (ascii ''LISTEN_PID'') env' = Some (decimal (sint mypid)) \<and>
    getenv (ascii ''LISTEN_FDS'') env' = Some (ascii ''1'') \<and>
    getenv (ascii ''LISTEN_FDNAMES'') env' = Some (case name of None \<Rightarrow> ascii ''unknown'' | Some n \<Rightarrow> n) \<and>
    (\<forall>n. EQUALS \<notin> set n \<and> n \<notin> set sact_names \<longrightarrow> getenv n env' = getenv n envp) \<and>
    fds' 3 = Some ob \<and> (\<forall>k. k \<noteq> 3 \<longrightarrow> fds' k = (if k = fd then None else kept_by_exec t k))"
proof -
  obtain buf i where itoa: "nbd_internal_fork_safe_itoa mypid (replicate 32 0) = Some (buf, i)" "c_string buf i = decimal (sint mypid)"
    using itoa_string [of "replicate 32 0" mypid] by auto
  define fds' where "fds' = kept_by_exec (if fd \<noteq> 3 then (dup2 fd 3 t)(fd := None) else dup2 3 3 t)"
  have ok: "(i < length as \<and> as ! i \<noteq> 0) = False" for i using assms(3) by (auto simp: list_all_length)
  have "length (var_value (hd (sact_vars name))) = 32" by (simp add: sact_vars_def)
  then have "sa_child execve ctx args (sact_vars name) env mypid as fd t =
      Child_runs prog args' (server_env (decimal (sint mypid)) name envp) fds'"
    unfolding sa_child_def ok
    using itoa assms(2) decimal_length [of mypid] prepared_env [OF assms(1)]
    by (simp add: run_child_def fds'_def Let_def)
  moreover have "fds' 3 = Some ob" "\<forall>k. k \<noteq> 3 \<longrightarrow> fds' k = (if k = fd then None else kept_by_exec t k)"
    using assms(4) by (auto simp: fds'_def dup2_def kept_by_exec_def)
  ultimately show ?thesis
    by (intro exI [of _ "server_env (decimal (sint mypid)) name envp"] exI [of _ fds']) (simp add: server_env_values)
qed

theorem activated_server_gets_witness:
  "\<exists>ctx env env' fds'. nbd_internal_execvpe_init (Some (ascii ''/bin'')) (Inl 0) (ascii ''srv'') 2 = Inr ctx \<and>
     prepare_socket_activation_environment (sact_vars None) [ascii ''LISTEN_FDS=7'', ascii ''HOME=/''] = Inr env \<and>
     sa_child (\<lambda>_ _. 0) ctx [ascii ''srv''] (sact_vars None) env 4242 [] 5 [2 \<mapsto> (9, False), 5 \<mapsto> (8 :: nat, True)] =
       Child_runs (ascii ''/bin/srv'') [ascii ''srv''] env' fds' \<and>
     getenv (ascii ''LISTEN_PID'') env' = Some (decimal 4242) \<and> getenv (ascii ''LISTEN_FDS'') env' = Some (ascii ''1'') \<and>
     fds' 3 = Some 8 \<and> fds' 2 = Some 9 \<and> fds' 5 = None"
proof -
  define ctx where "ctx = \<lparr>pathnames = [ascii ''/bin/srv''], num_sh_args = 3\<rparr>"
  have init: "nbd_internal_execvpe_init (Some (ascii ''/bin'')) (Inl 0) (ascii ''srv'') 2 = Inr ctx"
    by (simp add: nbd_internal_execvpe_init_def get_path_def path_name_def ascii_def Let_def ctx_def)
  have run: "nbd_internal_fork_safe_execvpe (\<lambda>_ _. 0) ctx [ascii ''srv''] = Some (Running (ascii ''/bin/srv'') [ascii ''srv''])"
    by (simp add: nbd_internal_fork_safe_execvpe_def ctx_def path_errors_def Let_def)
  obtain env where env: "prepare_socket_activation_environment (sact_vars None) [ascii ''LISTEN_FDS=7'', ascii ''HOME=/''] = Inr env"
    by (simp add: prepare_socket_activation_environment_def sact_vars_def ascii_def)
  show ?thesis
    using activated_server_gets [OF env run, of "[]" "[2 \<mapsto> (9, False), 5 \<mapsto> (8 :: nat, True)]" 5 8 4242] init env
    by (auto simp: kept_by_exec_def)
qed

text \<open>
  A command that is started on a socket pair has its end as standard input and output, and not the end of the parent.
\<close>

theorem command_gets:
  assumes "nbd_internal_fork_safe_execvpe execve ctx args = Some (Running prog args')"
    and "list_all (\<lambda>err. err = 0) as" and "t (snd sv) = Some (ob, True)" and "2 < fst sv" and "2 < snd sv" and "fst sv \<noteq> snd sv"
  shows "\<exists>fds'. command_child execve ctx args envp as sv t = Child_runs prog args' envp fds' \<and>
    fds' 0 = Some ob \<and> fds' 1 = Some ob \<and> fds' (fst sv) = None \<and> fds' (snd sv) = None \<and>
    (\<forall>k. k \<notin> {0, 1, fst sv, snd sv} \<longrightarrow> fds' k = kept_by_exec t k)"
proof -
  have ok: "(i < length as \<and> as ! i \<noteq> 0) = False" for i using assms(2) by (auto simp: list_all_length)
  show ?thesis unfolding command_child_def ok using assms(1,3-6)
    by (auto simp: run_child_def dup2_def kept_by_exec_def Let_def)
qed

section \<open>Connecting and waiting\<close>

text \<open>
  A call that connects and waits returns success only when the connection can be used, ready or waiting for the
  caller to negotiate, and otherwise \<open>-1\<close>.
\<close>

theorem connected_when_returns:
  assumes "then_wait e fuel as out = Some (as', Opened c r)"
  shows "(r = 0 \<or> r = -1) \<and>
    (r = 0 \<longrightarrow> nbd_internal_is_state_ready (state (hdl c)) \<or> nbd_internal_is_state_negotiating (state (hdl c)))"
proof -
  have wait: "open_wait e fuel as c0 = Some (as', Opened c r) \<Longrightarrow> (r = 0 \<or> r = -1) \<and>
    (r = 0 \<longrightarrow> nbd_internal_is_state_ready (state (hdl c)) \<or> nbd_internal_is_state_negotiating (state (hdl c)))" for as c0
  proof (induction e fuel as c0 rule: open_wait.induct)
    case (1 e fuel as c0)
    show ?case
    proof (cases "nbd_internal_is_state_connecting (state (hdl c0))")
      case True
      then show ?thesis using "1.IH" [OF True] "1.prems"
        by (subst (asm) open_wait.simps) (auto split: option.splits opened.splits if_splits)
    next
      case False
      then show ?thesis using "1.prems"
        by (subst (asm) open_wait.simps) (auto simp: error_unless_ready_def split: if_splits)
    qed
  qed
  show ?thesis using assms wait by (auto simp: then_wait_def split: opened.splits if_splits)
qed

end
