(* ===== verification/Spec2Isabelle.thy ===== *)
theory Spec2Isabelle
  imports NBD_Copy_Main NBD_Wire NBD_Limits NBD_Api_Props NBD_Connect_Props
begin

text \<open>
  A verification library for libnbd, the client library for network block devices.

  \<^bold>\<open>The program.\<close> A program opens a handle, connects it to an NBD server and submits commands (read,
  write, flush, trim, cache, zero, block status) on it. Everything that happens on the connection is
  driven by one state machine (\<^verbatim>\<open>generator/state_machine.ml\<close>, compiled to \<^verbatim>\<open>lib/states-run.c\<close>), whose
  handlers are the C functions of \<^verbatim>\<open>generator/states*.c\<close>. A call of the library stores its request in
  the handle and runs the machine with an event; the machine runs from state to state until a state has to
  wait for the socket. Commands travel through three lists of the handle: those to be issued, those in
  flight and those done; each carries the callbacks of the user, which run when a reply arrives.

  \<^bold>\<open>The model\<close>, in the order in which the theories build on each other.

  \<^item> \<open>NBD_Prelude\<close>: machine words, byte order (\<^verbatim>\<open>common/include/byte-swapping.h\<close>; its contract is the
    locale of the codecs), buffers, failed assertions as \<^const>\<open>None\<close>.
  \<^item> \<open>NBD_Protocol\<close> (\<^verbatim>\<open>lib/nbd-protocol.h\<close>, \<^verbatim>\<open>lib/protocol.c\<close>): constants, field offsets, tables of errors.
  \<^item> \<open>NBD_Handle\<close> (\<^verbatim>\<open>lib/internal.h\<close>, \<^verbatim>\<open>lib/states.h\<close>, \<^verbatim>\<open>lib/is-state.c\<close>): the states, the callbacks, the
    commands, the socket and the handle as a record; the predicates on states. A command is named by its
    cookie where the code has a pointer to it; the static buffer of the handle and the buffers of the
    caller are functions from offsets to bytes, and a pointer into them is a buffer with an offset.
  \<^item> \<open>NBD_Engine\<close> (\<^verbatim>\<open>generator/states.c\<close>, \<^verbatim>\<open>lib/socket.c\<close>): \<^const>\<open>recv_into_rbuf\<close>, \<^const>\<open>send_from_wbuf\<close>,
    aborting options and commands, the states READY, DEAD and CLOSED. The contract of a transport is a
    locale. What the operating system answers to \<^verbatim>\<open>recv\<close>, \<^verbatim>\<open>send\<close> and \<^verbatim>\<open>shutdown\<close> is a script inside the socket.
  \<^item> \<open>NBD_Issue\<close>, \<open>NBD_Reply\<close>, \<open>NBD_Chunk\<close>: issuing commands and receiving simple, structured and extended
    replies (\<^verbatim>\<open>generator/states-issue-command.c\<close>, \<^verbatim>\<open>states-reply*.c\<close>), one definition per state.
  \<^item> \<open>NBD_Flags\<close> (\<^verbatim>\<open>lib/flags.c\<close>), \<open>NBD_Newstyle\<close>, \<open>NBD_Options\<close>, \<open>NBD_Export\<close> (\<^verbatim>\<open>states-magic.c\<close>,
    \<^verbatim>\<open>states-oldstyle.c\<close>, \<^verbatim>\<open>states-newstyle*.c\<close>): the handshake and the seven options.
  \<^item> \<open>NBD_Run\<close> (\<^verbatim>\<open>lib/states-run.c\<close>): which events a state accepts, the dispatch on the state, the loop.
  \<^item> \<open>NBD_Commands\<close> (\<^verbatim>\<open>lib/rw.c\<close>, \<^verbatim>\<open>lib/aio.c\<close>, \<^verbatim>\<open>lib/disconnect.c\<close>), \<open>NBD_Config\<close> (\<^verbatim>\<open>lib/handle.c\<close>,
    \<^verbatim>\<open>lib/connect.c\<close>), \<open>NBD_Opt\<close> (\<^verbatim>\<open>lib/opt.c\<close>): the asynchronous calls of the interface.
  \<^item> \<open>NBD_Poll\<close> (\<^verbatim>\<open>lib/poll.c\<close> and the blocking calls): the loop over \<^verbatim>\<open>poll(2)\<close>, whose answers are a list.
  \<^item> \<open>NBD_Api\<close> (\<^verbatim>\<open>lib/api.c\<close>): the public calls, which check the state and the arguments, clear buffers, free the
    callbacks of a call that fails, and publish the state of the handle.
  \<^item> \<open>NBD_Utils\<close> (\<^verbatim>\<open>lib/utils.c\<close>): printing of numbers and diagnostics between fork and exec, the search for a
    program along the path and its execution, dumps of buffers.
  \<^item> \<open>NBD_Connect\<close> (\<^verbatim>\<open>generator/states-connect*.c\<close>, \<^verbatim>\<open>lib/connect.c\<close>): opening a connection to an address, a host, a
    command or a server that is started with a listening socket. The handle is inside a record with the
    fields that only these states use and the part of the operating system they touch; their loop hands
    over to \<^const>\<open>run_loop\<close> when the handshake starts or the connection is dead.
  \<^item> \<open>NBD_Common\<close> (\<^verbatim>\<open>common/include\<close>, \<^verbatim>\<open>common/utils/vector.c\<close>, \<^verbatim>\<open>vector.h\<close>): rounding and alignment, the test for zeroes,
    sizes with suffixes, checked arithmetic, growing arrays.
  \<^item> \<open>NBD_Copy\<close> (\<^verbatim>\<open>copy/\<close>): the copying tool nbdcopy. The operations of files, NBD exports, pipes and the null device,
    the commands and their shared buffers, the callbacks that turn a finished read into writes and zeroing, the
    worker threads as a step relation in which threads and completions interleave freely, the
    single-threaded copy, and what the main program makes of its options. What the system and the library answer is a
    record of functions of the time.

  A handler is a function from the handle to \<^const>\<open>None\<close>, when the C code would fail an assertion or access
  memory outside a buffer, or to the handle it leaves and its return value. Error messages are kept only as
  far as the code builds them from constants. Memory allocation is taken to succeed, except in \<open>NBD_Connect\<close>.

  \<^bold>\<open>What is shown.\<close>

  \<^item> \<open>NBD_Invariant\<close>, \<open>NBD_Safety\<close>, \<open>NBD_Issue_Safe\<close>, \<open>NBD_Reply_Safe\<close>, \<open>NBD_Chunk_Safe\<close>, \<open>NBD_Run_Safe\<close>,
    \<open>NBD_Session\<close>: the invariant \<^const>\<open>inv\<close> of a connected handle (the lists of commands and their tails,
    distinct cookies, the number of commands in flight, what each state may assume of the receive
    buffer and of the command being answered) is kept by every handler of the engine, so that no handler
    aborts; the loop ends; and a whole session of permitted calls is safe. The theorems are below, for the
    machine as a whole. \<open>NBD_Examples\<close> has the concrete handles they are applied to.
  \<^item> \<open>NBD_Spec\<close>: the specification of the three lists of commands, and the proof that a run of the machine
    refines it. Which fields a handler leaves alone is proved once, in the locale of views of the handle.
  \<^item> \<open>NBD_Wire\<close>: requests decode to the commands they were made from; streams of bytes are neither lost nor
    reordered by partial reads and writes.
  \<^item> \<open>NBD_Extents\<close>, \<open>NBD_Limits\<close>: checks on commands and on what the server says about the export, the
    bounds of replies and of block status extents.
  \<^item> \<open>NBD_Lifecycle\<close>: submission, completion, the end of the connection, and the states as the caller sees them.
  \<^item> \<open>NBD_Handshake\<close>: TLS cannot be stripped from a connection that requires it; requests for options are framed.
  \<^item> \<open>NBD_Waiting\<close>: waiting for a command returns.
  \<^item> \<open>NBD_Api_Safe\<close>, \<open>NBD_Api_Props\<close>: any sequence of public calls keeps a connected handle good; a call that fails
    has freed each callback once.
  \<^item> \<open>NBD_Connect_Props\<close>: opening a connection ends, accounts for every descriptor and temporary file on every
    path, tries the addresses of a host in order, and gives a server the socket it is to listen on.
    \<open>NBD_Utils\<close> has the properties of its functions next to them.
  \<^item> \<open>NBD_Common\<close>: rounding is exact, printed sizes read back, arrays implement lists whatever the allocator does.
  \<^item> \<open>NBD_Copy_Safe\<close>, \<open>NBD_Copy_Extents\<close>, \<open>NBD_Copy_Props\<close>, \<open>NBD_Copy_Ends\<close>, \<open>NBD_Copy_Main\<close>: a calculus of what may happen to the destination (its bytes only
    change towards those of the source), the invariant of a thread (reference counts of buffers, the accounting of the
    queue, what each command in flight carries), of the lists of extents, and of all threads; so that a copy
    is right when it ends and does not fail an assertion or misuse a buffer on the way. The work that is left is a number that
    every step makes smaller, and no thread waits in vain, so that a copy ends. The single-threaded copy is shown right in the same
    calculus, and \<^verbatim>\<open>main\<close> to call both with settings for which all this holds.
    The synchronous operations of a destination share a contract, which is a locale.
  \<^item> \<open>NBD_Faults\<close>: what goes wrong, each proved on a concrete or general input: assertions a server or a
    caller can make fail, payload taken for a reply, requests sent twice, callbacks called twice.

  \<^bold>\<open>Fuel.\<close> \<^const>\<open>run_loop\<close> takes a number of turns. A turn either uses up an answer of the transport, takes a
  command off the list to be issued, or moves on inside a request or reply, which takes fewer than 64 turns.
  So \<^const>\<open>turns\<close>, which is 64 for each pending answer and queued command and the rank of the state, is
  enough, and the loop is shown to return with it. Opening a connection takes three turns for each address. The loops of
  nbdcopy that take a number of turns move on by at least a byte in each, so that as many turns as there are bytes (and one more) are enough.

  \<^bold>\<open>Assumptions\<close> that the statements name: the server does not send a structured reply to a command that was
  not sent (\<^const>\<open>early_reply\<close>, needed only without extended headers, and \<open>NBD_Faults\<close> shows that it is needed);
  the caller's buffers have the size it says, its reads stay clear of the end of the offset space, and it sets
  no payload flag after turning off the checks of flags; cookies do not wrap; TLS (\<^const>\<open>crypto_frame\<close>)
  changes only its own fields of the handle. A process that connects has its standard descriptors open. The source of a copy
  does not shrink, reports as zero only what is zero, and answers for extents in order (\<^const>\<open>src_ok\<close>); a destination
  that the user says is zero is zero (\<^const>\<open>dst_ok\<close>).

  \<^bold>\<open>Not modelled.\<close> \<^verbatim>\<open>lib/crypto.c\<close> is a layer over GnuTLS, whose entry points are arguments. \<^verbatim>\<open>lib/uri.c\<close> leaves
  parsing to libxml2. Locks, tracing and debug output, names and private data of the handle are left out, as
  are the public wrappers of the calls for URIs, subprocesses, names and debugging, of those that connect
  other than by a socket, the language bindings, and the command line tools other than nbdcopy. Of nbdcopy the
  opening of the two sides, polling, hints to the page cache and the progress bar are left out.
\<close>

section \<open>The engine as a whole\<close>



text \<open>
  C2. With extended headers nothing has to be assumed about the server: whatever it sends and
  however the transport cuts it, handling an event returns and keeps the handle good.
\<close>

theorem extended_never_aborts:
  assumes "good h" and "extended_headers h" and "ev = notify_read \<or> ev = notify_write"
    and "64 * (pending_left h + length (cmds_to_issue h)) + 40 < n"
  shows "\<exists>h' r. nbd_internal_run e n ev h = Returned h' r \<and> good h' \<and> (r = 0 \<or> r = -1 \<and> last_error h' \<noteq> None)"
proof -
  have "turns (h\<lparr>state := s\<rparr>) < n" for s using turns_le [of s h] assms(4) by simp
  moreover have "state h = ISSUE_COMMAND SEND_WRITE_PAYLOAD \<longrightarrow> wlen h \<noteq> 0"
    using assms(1) by (simp add: good_def settled_def)
  ultimately have "run_ok e n ev h" using assms(1-3) by (intro run_ok_extended) (auto simp: good_inv)
  with run_good [OF assms(1) this] assms(3) show ?thesis by auto
qed

theorem extended_never_aborts_witness:
  "\<exists>h' r. nbd_internal_run no_env 100 notify_read extended_handle = Returned h' r \<and> good h'"
  using extended_never_aborts [OF extended_good, of notify_read 100 no_env]
  by (simp add: handle_defs pending_left_def) blast





end
